(* ===== verification/Prelude.thy ===== *)
theory Prelude
  imports Complex_Main "HOL-Library.AList" "HOL-Library.Char_ord" "HOL-Library.List_Lexorder"
begin

text \<open>
  Shared notions of the development: Python exceptions as values, the result type of the
  pure routines, insertion-ordered dictionaries, the numeric conversions (\<open>round\<close>,
  \<open>int\<close>, \<open>%\<close>) and the string methods the modelled code uses.

  Python floats are idealised as rationals: every operation is exact.  A dictionary is an
  association list updated in place by \<open>AList.update\<close>, which appends a new key at the end
  and keeps the position of an old one, as a Python dict does.
\<close>

named_theorems result_simps \<open>evaluation of the result type\<close>
named_theorems dict_simps \<open>laws of insertion-ordered dictionaries\<close>

section \<open>Exceptions and results\<close>

datatype exn =
    KeyError string
  | TypeError string
  | ValueError string
  | IndexError
  | ZeroDivisionError
  | AttributeError string
  | UnboundLocalError string
  | PyException string      \<comment> \<open>\<open>raise Exception(msg)\<close>\<close>

type_synonym 'a result = "exn + 'a"

definition rbind :: "'a result \<Rightarrow> ('a \<Rightarrow> 'b result) \<Rightarrow> 'b result" where
  "rbind m f = (case m of Inl e \<Rightarrow> Inl e | Inr x \<Rightarrow> f x)"

lemma rbind_simps [simp, result_simps]:
  "rbind (Inl e) f = Inl e"
  "rbind (Inr x) f = f x"
  by (simp_all add: rbind_def)

lemma rbind_eq_Inr [result_simps]:
  "rbind m f = Inr y \<longleftrightarrow> (\<exists>x. m = Inr x \<and> f x = Inr y)"
  by (cases m) auto

lemma rbindE:
  assumes "rbind m f = Inr y"
  obtains x where "m = Inr x" "f x = Inr y"
  using assms by (cases m) auto

lemma rbind_option_eq_Inr:
  "rbind m (\<lambda>r. case r of None \<Rightarrow> n | Some x \<Rightarrow> f x) = Inr y \<longleftrightarrow>
   m = Inr None \<and> n = Inr y \<or> (\<exists>x. m = Inr (Some x) \<and> f x = Inr y)"
  by (cases m) (auto split: option.splits)

lemma rbind_bool_eq_Inr:
  "rbind m (\<lambda>b. if b then f else g) = Inr y \<longleftrightarrow>
   m = Inr True \<and> f = Inr y \<or> m = Inr False \<and> g = Inr y"
  by (cases m) auto

lemma rbind_eq_Inl [result_simps]:
  "rbind m f = Inl e \<longleftrightarrow> m = Inl e \<or> (\<exists>x. m = Inr x \<and> f x = Inl e)"
  by (cases m) auto

lemma rbind_cong [fundef_cong]:
  "m = n \<Longrightarrow> (\<And>x. n = Inr x \<Longrightarrow> f x = g x) \<Longrightarrow> rbind m f = rbind n g"
  by (cases n) auto

text \<open>\<open>and\<close>, \<open>or\<close> evaluate their second operand only when it matters.\<close>

definition andR :: "bool result \<Rightarrow> bool result \<Rightarrow> bool result" where
  "andR a b = rbind a (\<lambda>x. if x then b else Inr False)"

definition orR :: "bool result \<Rightarrow> bool result \<Rightarrow> bool result" where
  "orR a b = rbind a (\<lambda>x. if x then Inr True else b)"

definition leR :: "rat result \<Rightarrow> rat result \<Rightarrow> bool result" where
  "leR a b = rbind a (\<lambda>x. rbind b (\<lambda>y. Inr (x \<le> y)))"

definition ltR :: "rat result \<Rightarrow> rat result \<Rightarrow> bool result" where
  "ltR a b = rbind a (\<lambda>x. rbind b (\<lambda>y. Inr (x < y)))"

lemma connective_simps [simp, result_simps]:
  "andR (Inl e) b = Inl e" "andR (Inr x) b = (if x then b else Inr False)"
  "orR (Inl e) b = Inl e" "orR (Inr x) b = (if x then Inr True else b)"
  "leR (Inr u) (Inr v) = Inr (u \<le> v)" "leR (Inl e) c = Inl e" "leR (Inr u) (Inl e) = Inl e"
  "ltR (Inr u) (Inr v) = Inr (u < v)" "ltR (Inl e) c = Inl e" "ltR (Inr u) (Inl e) = Inl e"
  by (simp_all add: andR_def orR_def leR_def ltR_def)

lemma andR_True [result_simps]: "andR a b = Inr True \<longleftrightarrow> a = Inr True \<and> b = Inr True"
  by (cases a) auto

lemma orR_False [result_simps]: "orR a b = Inr False \<longleftrightarrow> a = Inr False \<and> b = Inr False"
  by (cases a) auto

lemma leR_True [result_simps]: "leR a b = Inr True \<longleftrightarrow> (\<exists>x y. a = Inr x \<and> b = Inr y \<and> x \<le> y)"
  by (cases a; cases b) auto

lemma ltR_False [result_simps]: "ltR a b = Inr False \<longleftrightarrow> (\<exists>x y. a = Inr x \<and> b = Inr y \<and> y \<le> x)"
  by (cases a; cases b) auto

text \<open>A list comprehension or loop whose body may raise.\<close>

fun mapR :: "('a \<Rightarrow> 'b result) \<Rightarrow> 'a list \<Rightarrow> 'b list result" where
  "mapR f [] = Inr []"
| "mapR f (x # xs) = rbind (f x) (\<lambda>y. rbind (mapR f xs) (\<lambda>ys. Inr (y # ys)))"

fun foldR :: "('a \<Rightarrow> 's \<Rightarrow> 's result) \<Rightarrow> 'a list \<Rightarrow> 's \<Rightarrow> 's result" where
  "foldR f [] s = Inr s"
| "foldR f (x # xs) s = rbind (f x s) (\<lambda>s'. foldR f xs s')"

lemma mapR_cong [fundef_cong]: "xs = ys \<Longrightarrow> (\<And>x. x \<in> set ys \<Longrightarrow> f x = g x) \<Longrightarrow> mapR f xs = mapR g ys"
  by (induction ys arbitrary: xs) auto

lemma mapR_length: "mapR f xs = Inr ys \<Longrightarrow> length ys = length xs"
  by (induction xs arbitrary: ys) (auto simp: rbind_eq_Inr)

lemma mapR_total: "(\<And>x. x \<in> set xs \<Longrightarrow> f x = Inr (g x)) \<Longrightarrow> mapR f xs = Inr (map g xs)"
  by (induction xs) auto

lemma foldR_invariant:
  assumes "foldR f xs s = Inr t" and "I s"
    and "\<And>x s s'. x \<in> set xs \<Longrightarrow> I s \<Longrightarrow> f x s = Inr s' \<Longrightarrow> I s'"
  shows "I t"
  using assms by (induction xs arbitrary: s) (auto simp: rbind_eq_Inr)

text \<open>What a step establishes for its own element and preserves for the others.\<close>

lemma foldR_each:
  assumes "foldR f xs s = Inr t" "I s" "x \<in> set xs \<or> P x s"
    and "\<And>y s s'. y \<in> set xs \<Longrightarrow> I s \<Longrightarrow> f y s = Inr s' \<Longrightarrow> I s' \<and> P y s' \<and> (P x s \<longrightarrow> P x s')"
  shows "I t \<and> P x t"
  using assms
proof (induction xs arbitrary: s)
  case (Cons y xs)
  from Cons.prems(1) obtain s' where s': "f y s = Inr s'" "foldR f xs s' = Inr t"
    by (auto elim!: rbindE)
  from Cons.prems(4) [OF _ Cons.prems(2) s'(1)]
  have "I s'" "P y s'" "P x s \<longrightarrow> P x s'" by auto
  with Cons.prems(3) have "x \<in> set xs \<or> P x s'" by auto
  with Cons.IH [OF s'(2) \<open>I s'\<close>] Cons.prems(4) show ?case by auto
qed simp

section \<open>Insertion-ordered dictionaries\<close>

type_synonym 'v dict = "(string \<times> 'v) list"

text \<open>\<open>d[k]\<close>, \<open>d.get(k, default)\<close>, \<open>k in d\<close>, \<open>d.pop(k, None)\<close>, \<open>d.update(d')\<close>.\<close>

definition item :: "'v dict \<Rightarrow> string \<Rightarrow> 'v result" where
  "item d k = (case map_of d k of Some v \<Rightarrow> Inr v | None \<Rightarrow> Inl (KeyError k))"

definition get_or :: "'v dict \<Rightarrow> string \<Rightarrow> 'v \<Rightarrow> 'v" where
  "get_or d k v = (case map_of d k of Some x \<Rightarrow> x | None \<Rightarrow> v)"

definition has_key :: "'v dict \<Rightarrow> string \<Rightarrow> bool" where
  "has_key d k \<longleftrightarrow> map_of d k \<noteq> None"

definition keys_of :: "'v dict \<Rightarrow> string list" where
  "keys_of d = map fst d"

definition pop_key :: "string \<Rightarrow> 'v dict \<Rightarrow> 'v dict" where
  "pop_key k d = filter (\<lambda>p. fst p \<noteq> k) d"

definition dict_update :: "'v dict \<Rightarrow> 'v dict \<Rightarrow> 'v dict" where
  "dict_update d e = fold (\<lambda>(k, v). AList.update k v) e d"

lemma map_of_update [dict_simps, simp]:
  "map_of (AList.update k v d) k' = (if k' = k then Some v else map_of d k')"
  by (simp add: update_conv)

lemma map_of_pop_key [dict_simps, simp]:
  "map_of (pop_key k d) k' = (if k' = k then None else map_of d k')"
  by (induction d) (auto simp: pop_key_def)

lemma map_of_dict_update [dict_simps]:
  "distinct (map fst e) \<Longrightarrow>
   map_of (dict_update d e) k = (case map_of e k of Some v \<Rightarrow> Some v | None \<Rightarrow> map_of d k)"
proof (induction e arbitrary: d)
  case Nil
  then show ?case by (simp add: dict_update_def)
next
  case (Cons p e)
  obtain a b where p: "p = (a, b)" by (cases p)
  have "map_of (dict_update d (p # e)) k = map_of (dict_update (AList.update a b d) e) k"
    by (simp add: dict_update_def p)
  also have "\<dots> = (case map_of e k of Some v \<Rightarrow> Some v | None \<Rightarrow> map_of (AList.update a b d) k)"
    using Cons by simp
  also have "\<dots> = (case map_of (p # e) k of Some v \<Rightarrow> Some v | None \<Rightarrow> map_of d k)"
    using Cons.prems by (auto simp: p map_of_eq_None_iff image_iff split: option.splits
        dest: map_of_SomeD)
  finally show ?case .
qed

lemma item_eq [dict_simps]: "item d k = Inr v \<longleftrightarrow> map_of d k = Some v"
  by (simp add: item_def split: option.splits)

lemma item_update [dict_simps, simp]:
  "item (AList.update k v d) k' = (if k' = k then Inr v else item d k')"
  by (simp add: item_def)

lemma get_or_update [dict_simps, simp]:
  "get_or (AList.update k v d) k' x = (if k' = k then v else get_or d k' x)"
  by (simp add: get_or_def)

lemma has_key_update [dict_simps, simp]:
  "has_key (AList.update k v d) k' \<longleftrightarrow> k' = k \<or> has_key d k'"
  by (simp add: has_key_def)

lemma has_key_iff: "has_key d k \<longleftrightarrow> k \<in> set (keys_of d)"
  by (auto simp: has_key_def keys_of_def map_of_eq_None_iff image_def)

lemma keys_of_update [dict_simps]:
  "keys_of (AList.update k v d) = (if has_key d k then keys_of d else keys_of d @ [k])"
  by (induction d) (auto simp: keys_of_def has_key_def)

lemma distinct_keys_update:
  "distinct (keys_of d) \<Longrightarrow> distinct (keys_of (AList.update k v d))"
  by (auto simp: keys_of_update has_key_iff)

lemma distinct_keys_pop: "distinct (keys_of d) \<Longrightarrow> distinct (keys_of (pop_key k d))"
  by (induction d) (auto simp: keys_of_def pop_key_def)

section \<open>Numbers\<close>

text \<open>\<open>round(x)\<close> rounds half to even; \<open>int(x)\<close> truncates towards zero; \<open>x % m\<close> has the
  sign of \<open>m\<close>; \<open>x / y\<close> raises on a zero divisor.\<close>

definition py_round :: "rat \<Rightarrow> int" where
  "py_round x = (let f = \<lfloor>x\<rfloor>; d = x - of_int f in
     if d < 1/2 then f else if 1/2 < d then f + 1 else if even f then f else f + 1)"

definition py_int :: "rat \<Rightarrow> int" where
  "py_int x = (if 0 \<le> x then \<lfloor>x\<rfloor> else \<lceil>x\<rceil>)"

definition py_mod :: "rat \<Rightarrow> rat \<Rightarrow> rat" where
  "py_mod x m = x - m * of_int \<lfloor>x / m\<rfloor>"

definition py_div :: "rat \<Rightarrow> rat \<Rightarrow> rat result" where
  "py_div x y = (if y = 0 then Inl ZeroDivisionError else Inr (x / y))"

lemma py_round_of_int [simp]: "py_round (of_int n) = n"
  by (simp add: py_round_def)

lemma py_int_of_int [simp]: "py_int (of_int n) = n"
  by (simp add: py_int_def)

lemma py_round_bounds: "x - 1/2 \<le> of_int (py_round x) \<and> of_int (py_round x) \<le> x + 1/2"
proof -
  have "of_int \<lfloor>x\<rfloor> \<le> x" "x < of_int \<lfloor>x\<rfloor> + 1" by linarith+
  then show ?thesis unfolding py_round_def Let_def by (simp split: if_splits) linarith
qed

lemma py_round_dist: "\<bar>of_int (py_round x) - x\<bar> \<le> 1/2"
proof -
  have "of_int (py_round x) - x \<le> 1/2" "x - of_int (py_round x) \<le> 1/2"
    using py_round_bounds [of x] by linarith+
  then show ?thesis by (simp only: abs_le_iff minus_diff_eq)
qed

lemma py_round_mono_ge: "of_int n \<le> x \<Longrightarrow> n \<le> py_round x"
proof -
  assume "of_int n \<le> x"
  then have "n \<le> \<lfloor>x\<rfloor>" by (simp add: le_floor_iff)
  then show ?thesis by (auto simp: py_round_def Let_def)
qed

lemma py_round_mono_le: "x \<le> of_int n \<Longrightarrow> py_round x \<le> n"
proof -
  assume a: "x \<le> of_int n"
  show ?thesis
  proof (cases "x = of_int n")
    case True
    then show ?thesis by simp
  next
    case False
    with a have "x < of_int n" by simp
    then have "\<lfloor>x\<rfloor> < n" by (simp add: floor_less_iff)
    then show ?thesis by (auto simp: py_round_def Let_def)
  qed
qed

lemma py_int_nonneg_le: "0 \<le> x \<Longrightarrow> of_int (py_int x) \<le> x"
  by (simp add: py_int_def)

lemma py_int_nonneg: "0 \<le> x \<Longrightarrow> 0 \<le> py_int x"
  by (simp add: py_int_def)

lemma py_mod_bounds: "0 < m \<Longrightarrow> 0 \<le> py_mod x m \<and> py_mod x m < m"
proof -
  assume m: "0 < m"
  have "of_int \<lfloor>x / m\<rfloor> \<le> x / m" "x / m < of_int \<lfloor>x / m\<rfloor> + 1" by linarith+
  with m have "of_int \<lfloor>x / m\<rfloor> * m \<le> x" "x < (of_int \<lfloor>x / m\<rfloor> + 1) * m"
    by (simp_all only: pos_le_divide_eq pos_divide_less_eq)
  then have "m * of_int \<lfloor>x / m\<rfloor> \<le> x" "x < m * of_int \<lfloor>x / m\<rfloor> + m"
    by (simp_all add: algebra_simps)
  then show ?thesis by (simp add: py_mod_def)
qed

lemma py_div_eq_Inr: "py_div x y = Inr z \<longleftrightarrow> y \<noteq> 0 \<and> z = x / y"
  by (auto simp: py_div_def)

end
