(* ===== verification/PyStr.thy ===== *)
theory PyStr
  imports Prelude "HOL-Library.Multiset"
begin

text \<open>
  The string methods the modelled code uses, on \<open>string\<close> (one \<open>char\<close> per ASCII character):
  \<open>str(int)\<close> and \<open>int(str)\<close>, \<open>split\<close>, \<open>join\<close>, \<open>strip\<close>, \<open>startswith\<close>, \<open>in\<close>, \<open>replace\<close>,
  \<open>rfind\<close>, \<open>os.path.basename\<close> and \<open>os.path.dirname\<close>.
\<close>

section \<open>Decimal numerals\<close>

definition is_digit :: "char \<Rightarrow> bool" where
  "is_digit c \<longleftrightarrow> CHR ''0'' \<le> c \<and> c \<le> CHR ''9''"

definition digit_val :: "char \<Rightarrow> nat" where
  "digit_val c = of_char c - 48"

definition digit_char :: "nat \<Rightarrow> char" where
  "digit_char d = char_of (48 + d)"

fun str_of_nat :: "nat \<Rightarrow> string" where
  "str_of_nat n =
     (if n < 10 then [digit_char n] else str_of_nat (n div 10) @ [digit_char (n mod 10)])"

declare str_of_nat.simps [simp del]

definition str_of_int :: "int \<Rightarrow> string" where
  "str_of_int n = (if n < 0 then CHR ''-'' # str_of_nat (nat (- n)) else str_of_nat (nat n))"

text \<open>The digits of an \<open>int()\<close> literal: single underscores may stand between digits.\<close>

fun scan_digits :: "nat \<Rightarrow> bool \<Rightarrow> string \<Rightarrow> nat option" where
  "scan_digits acc after_digit [] = (if after_digit then Some acc else None)"
| "scan_digits acc after_digit (c # cs) =
     (if is_digit c then scan_digits (10 * acc + digit_val c) True cs
      else if c = CHR ''_'' \<and> after_digit then scan_digits acc False cs
      else None)"

definition is_space :: "char \<Rightarrow> bool" where
  "is_space c \<longleftrightarrow> c = CHR '' '' \<or> of_char c \<in> {9, 10, 11, 12, 13 :: nat}"

definition strip_when :: "(char \<Rightarrow> bool) \<Rightarrow> string \<Rightarrow> string" where
  "strip_when p s = rev (dropWhile p (rev (dropWhile p s)))"

definition strip :: "string \<Rightarrow> string" where
  "strip = strip_when is_space"

definition int_of_str :: "string \<Rightarrow> int option" where
  "int_of_str s =
     (case strip s of
        [] \<Rightarrow> None
      | c # cs \<Rightarrow>
          if c = CHR ''-'' then map_option (\<lambda>n. - int n) (scan_digits 0 False cs)
          else if c = CHR ''+'' then map_option int (scan_digits 0 False cs)
          else map_option int (scan_digits 0 False (c # cs)))"

definition int_str :: "string \<Rightarrow> int result" where
  "int_str s = (case int_of_str s of Some n \<Rightarrow> Inr n | None \<Rightarrow> Inl (ValueError s))"

lemma digit_char_table:
  "\<forall>d \<in> set [0..<10]. is_digit (digit_char d) \<and> digit_val (digit_char d) = d \<and>
     \<not> is_space (digit_char d) \<and> digit_char d \<noteq> CHR ''-'' \<and> digit_char d \<noteq> CHR ''+'' \<and>
     digit_char d \<noteq> CHR ''_''"
  by code_simp

lemma digit_char_props:
  assumes "d < 10"
  shows "is_digit (digit_char d)" "digit_val (digit_char d) = d" "\<not> is_space (digit_char d)"
    "digit_char d \<noteq> CHR ''-''" "digit_char d \<noteq> CHR ''+''" "digit_char d \<noteq> CHR ''_''"
  using digit_char_table assms by simp_all

lemma str_of_nat_digits: "c \<in> set (str_of_nat n) \<Longrightarrow> \<exists>d < 10. c = digit_char d"
proof (induction n rule: str_of_nat.induct)
  case (1 n)
  show ?case
  proof (cases "n < 10")
    case True
    with "1.prems" show ?thesis by (auto simp: str_of_nat.simps [of n])
  next
    case False
    with "1.prems" consider "c \<in> set (str_of_nat (n div 10))" | "c = digit_char (n mod 10)"
      by (auto simp: str_of_nat.simps [of n])
    then show ?thesis
    proof cases
      case 1
      then show ?thesis using "1.IH" False by blast
    next
      case 2
      then show ?thesis by (intro exI [of _ "n mod 10"]) simp
    qed
  qed
qed

lemma str_of_nat_nonempty [simp]: "str_of_nat n \<noteq> []"
  by (subst str_of_nat.simps) simp

lemma scan_digits_append:
  "\<forall>c \<in> set xs. is_digit c \<Longrightarrow>
   scan_digits acc b (xs @ ys) =
     (if xs = [] then scan_digits acc b ys
      else scan_digits (foldl (\<lambda>a c. 10 * a + digit_val c) acc xs) True ys)"
  by (induction xs arbitrary: acc b) (auto split: list.splits)

lemma foldl_digits: "foldl (\<lambda>a c. 10 * a + digit_val c) 0 (str_of_nat n) = n"
proof (induction n rule: str_of_nat.induct)
  case (1 n)
  show ?case
  proof (cases "n < 10")
    case True
    then show ?thesis by (simp add: str_of_nat.simps [of n] digit_char_props)
  next
    case False
    with 1 show ?thesis by (simp add: str_of_nat.simps [of n] digit_char_props)
  qed
qed

lemma scan_digits_str_of_nat: "scan_digits 0 False (str_of_nat n) = Some n"
proof -
  have "\<forall>c \<in> set (str_of_nat n). is_digit c"
    by (auto dest!: str_of_nat_digits simp: digit_char_props)
  then show ?thesis
    using scan_digits_append [of "str_of_nat n" 0 False "[]"] by (simp add: foldl_digits)
qed

lemma dropWhile_none: "\<forall>c \<in> set s. \<not> p c \<Longrightarrow> dropWhile p s = s"
  by (cases s) auto

lemma strip_when_id: "\<forall>c \<in> set s. \<not> p c \<Longrightarrow> strip_when p s = s"
  by (simp add: strip_when_def dropWhile_none)

lemma str_of_int_no_space: "\<forall>c \<in> set (str_of_int n). \<not> is_space c"
proof -
  have "\<not> is_space CHR ''-''" by (simp add: is_space_def)
  then show ?thesis
    by (auto simp: str_of_int_def digit_char_props dest!: str_of_nat_digits)
qed

lemma int_of_str_of_int [simp]: "int_of_str (str_of_int n) = Some n"
proof -
  have s: "strip (str_of_int n) = str_of_int n"
    using strip_when_id str_of_int_no_space by (simp add: strip_def)
  show ?thesis
  proof (cases "n < 0")
    case True
    then show ?thesis
      unfolding int_of_str_def s by (simp add: str_of_int_def scan_digits_str_of_nat)
  next
    case False
    then obtain c cs where c: "str_of_nat (nat n) = c # cs"
      by (cases "str_of_nat (nat n)") auto
    then have "c \<in> set (str_of_nat (nat n))" by simp
    then have "c \<noteq> CHR ''-''" "c \<noteq> CHR ''+''"
      by (auto dest!: str_of_nat_digits simp: digit_char_props)
    with False c show ?thesis
      unfolding int_of_str_def s
      using scan_digits_str_of_nat [of "nat n"] by (simp add: str_of_int_def del: scan_digits.simps)
  qed
qed

lemma str_of_nat_inj: "str_of_nat m = str_of_nat n \<longleftrightarrow> m = n"
  by (metis foldl_digits)

section \<open>Splitting, joining, searching\<close>

fun split_on :: "char \<Rightarrow> string \<Rightarrow> string list" where
  "split_on sep [] = [[]]"
| "split_on sep (c # cs) =
     (if c = sep then [] # split_on sep cs
      else (case split_on sep cs of [] \<Rightarrow> [[c]] | w # ws \<Rightarrow> (c # w) # ws))"

fun join :: "string \<Rightarrow> string list \<Rightarrow> string" where
  "join sep [] = []"
| "join sep [w] = w"
| "join sep (w # ws) = w @ sep @ join sep ws"

definition starts_with :: "string \<Rightarrow> string \<Rightarrow> bool" where
  "starts_with pre s \<longleftrightarrow> take (length pre) s = pre"

fun contains :: "string \<Rightarrow> string \<Rightarrow> bool" where
  "contains pat [] \<longleftrightarrow> pat = []"
| "contains pat (c # cs) \<longleftrightarrow> starts_with pat (c # cs) \<or> contains pat cs"

function replace_all :: "string \<Rightarrow> string \<Rightarrow> string \<Rightarrow> string" where
  "replace_all old new [] = []"
| "replace_all old new (c # cs) =
     (if old \<noteq> [] \<and> starts_with old (c # cs)
      then new @ replace_all old new (drop (length old) (c # cs))
      else c # replace_all old new cs)"
  by pat_completeness auto
termination
  by (relation "measure (\<lambda>(old, new, s). length s)") auto

text \<open>\<open>s[:s.rfind('/')]\<close>, with \<open>rfind\<close> giving \<open>-1\<close> when the character is absent.\<close>

definition before_last :: "char \<Rightarrow> string \<Rightarrow> string" where
  "before_last c s =
     (if c \<in> set s then rev (tl (dropWhile (\<lambda>x. x \<noteq> c) (rev s))) else butlast s)"

definition basename :: "string \<Rightarrow> string" where
  "basename s = rev (takeWhile (\<lambda>x. x \<noteq> CHR ''/'') (rev s))"

text \<open>\<open>os.path.dirname\<close>: the head, its trailing slashes removed unless it is all slashes.\<close>

definition dirname :: "string \<Rightarrow> string" where
  "dirname s =
     (let head = rev (dropWhile (\<lambda>x. x \<noteq> CHR ''/'') (rev s));
          core = rev (dropWhile (\<lambda>x. x = CHR ''/'') (rev head))
      in if core = [] then head else core)"

lemma split_on_nonempty [simp]: "split_on sep s \<noteq> []"
  by (induction s) (auto split: list.splits)

lemma join_split_on: "join [sep] (split_on sep s) = s"
proof (induction s)
  case Nil
  then show ?case by simp
next
  case (Cons c cs)
  obtain w ws where w: "split_on sep cs = w # ws"
    by (cases "split_on sep cs") auto
  with Cons show ?case by (cases ws) auto
qed

lemma split_on_no_sep: "sep \<notin> set s \<Longrightarrow> split_on sep s = [s]"
  by (induction s) auto

lemma split_on_append:
  "sep \<notin> set t \<Longrightarrow> split_on sep (s @ sep # t) = split_on sep s @ [t]"
  by (induction s) (auto simp: split_on_no_sep split: list.splits)

lemma split_on_join:
  "ws \<noteq> [] \<Longrightarrow> \<forall>w \<in> set ws. sep \<notin> set w \<Longrightarrow> split_on sep (join [sep] ws) = ws"
proof (induction ws rule: rev_induct)
  case Nil
  then show ?case by simp
next
  case (snoc w ws)
  show ?case
  proof (cases "ws = []")
    case True
    with snoc.prems show ?thesis by (simp add: split_on_no_sep)
  next
    case False
    then have "join [sep] (ws @ [w]) = join [sep] ws @ sep # w"
    proof (induction ws)
      case Nil
      then show ?case by simp
    next
      case (Cons v vs)
      then show ?case by (cases vs) auto
    qed
    with snoc False show ?thesis by (simp add: split_on_append)
  qed
qed

lemma starts_with_append [simp]: "starts_with p (p @ s)"
  by (simp add: starts_with_def)

lemma before_last_append: "c \<notin> set t \<Longrightarrow> before_last c (s @ c # t) = s"
proof -
  assume "c \<notin> set t"
  then have "dropWhile (\<lambda>x. x \<noteq> c) (rev t @ c # rev s) = c # rev s"
    by (subst dropWhile_append2) auto
  then show ?thesis by (simp add: before_last_def)
qed

section \<open>Sorting with a comparison function\<close>

text \<open>
  \<open>sorted(xs, key=functools.cmp_to_key(cmp))\<close> as a stable insertion sort.  Python's sort is
  stable, so the two agree wherever \<open>cmp\<close> is a total preorder on the elements, which is what
  the locale \<open>comparator\<close> asks for.
\<close>

fun insert_by :: "('a \<Rightarrow> 'a \<Rightarrow> int) \<Rightarrow> 'a \<Rightarrow> 'a list \<Rightarrow> 'a list" where
  "insert_by cmp x [] = [x]"
| "insert_by cmp x (y # ys) = (if cmp x y \<le> 0 then x # y # ys else y # insert_by cmp x ys)"

fun sort_by :: "('a \<Rightarrow> 'a \<Rightarrow> int) \<Rightarrow> 'a list \<Rightarrow> 'a list" where
  "sort_by cmp [] = []"
| "sort_by cmp (x # xs) = insert_by cmp x (sort_by cmp xs)"

lemma mset_insert_by [simp]: "mset (insert_by cmp x xs) = add_mset x (mset xs)"
  by (induction xs) auto

lemma mset_sort_by [simp]: "mset (sort_by cmp xs) = mset xs"
  by (induction xs) auto

lemma set_insert_by [simp]: "set (insert_by cmp x xs) = insert x (set xs)"
  by (induction xs) auto

lemma set_sort_by [simp]: "set (sort_by cmp xs) = set xs"
  by (induction xs) auto

lemma length_insert_by [simp]: "length (insert_by cmp x xs) = Suc (length xs)"
  by (induction xs) auto

lemma length_sort_by [simp]: "length (sort_by cmp xs) = length xs"
  by (induction xs) auto

lemma distinct_insert_by: "distinct (insert_by cmp x xs) \<longleftrightarrow> x \<notin> set xs \<and> distinct xs"
  by (induction xs) auto

lemma distinct_sort_by [simp]: "distinct (sort_by cmp xs) \<longleftrightarrow> distinct xs"
  by (induction xs) (auto simp: distinct_insert_by)

locale comparator =
  fixes A :: "'a set" and cmp :: "'a \<Rightarrow> 'a \<Rightarrow> int"
  assumes antisym: "x \<in> A \<Longrightarrow> y \<in> A \<Longrightarrow> cmp x y \<le> 0 \<or> cmp y x \<le> 0"
    and trans: "x \<in> A \<Longrightarrow> y \<in> A \<Longrightarrow> z \<in> A \<Longrightarrow> cmp x y \<le> 0 \<Longrightarrow> cmp y z \<le> 0 \<Longrightarrow> cmp x z \<le> 0"
begin

lemma insert_by_sorted:
  "set xs \<subseteq> A \<Longrightarrow> x \<in> A \<Longrightarrow> sorted_wrt (\<lambda>a b. cmp a b \<le> 0) xs \<Longrightarrow>
   sorted_wrt (\<lambda>a b. cmp a b \<le> 0) (insert_by cmp x xs)"
proof (induction xs)
  case Nil
  then show ?case by simp
next
  case (Cons y ys)
  show ?case
  proof (cases "cmp x y \<le> 0")
    case True
    have "cmp x b \<le> 0" if "b \<in> set ys" for b
      using Cons.prems True that trans [of x y b] by auto
    with Cons.prems True show ?thesis by auto
  next
    case False
    then have "cmp y x \<le> 0" using Cons.prems antisym [of x y] by auto
    with Cons False show ?thesis by auto
  qed
qed

lemma sort_by_sorted: "set xs \<subseteq> A \<Longrightarrow> sorted_wrt (\<lambda>a b. cmp a b \<le> 0) (sort_by cmp xs)"
  by (induction xs) (simp_all add: insert_by_sorted)

end

end
