(* ===== verification/Structures.thy ===== *)
theory Structures
  imports PyStr
begin

text \<open>
  The structures of the state database as the web service reads them, and the helpers of
  \<open>ui/views/core/utils.py\<close>: the order on structure names, the choice of the freest disk and
  host, and the aggregate free bandwidth of a host.

  A structure is a typed view of the JSON document the orchestrator returns; a key the code
  reads only when it is present is an option or a dictionary entry.
\<close>

section \<open>Structures\<close>

record disk =
  d_path :: string
  d_max_read :: rat
  d_free_read :: rat
  d_max_write :: rat
  d_free_write :: rat
  d_load :: rat

record quota =
  q_max :: rat
  q_free :: rat

record host =
  h_name :: string
  h_quota :: "quota dict"             \<comment> \<open>\<open>host['resources'][res]\<close>, disks apart\<close>
  h_disks :: "disk dict option"       \<comment> \<open>\<open>host['resources']['disks']\<close>, if present\<close>

record limits =
  r_max :: rat
  r_min :: rat
  r_current :: "rat option"
  r_weight :: "rat option"
  r_usage :: rat

record container =
  c_name :: string
  c_host :: string
  c_res :: "limits dict"
  c_disk :: "(string \<times> string) option"   \<comment> \<open>name and path of \<open>resources['disk']\<close>\<close>

record app =
  a_name :: string
  a_state :: string
  a_containers :: "string list"
  a_res :: "limits dict"
  a_files :: "string dict"

datatype struct = Host host | Container container | Application app

fun structure_name :: "struct \<Rightarrow> string" where
  "structure_name (Host h) = h_name h"
| "structure_name (Container c) = c_name c"
| "structure_name (Application a) = a_name a"

section \<open>The order on structure names\<close>

text \<open>\<open>re.sub('.*?([0-9]*)$', r'\1', name)\<close>: the digits the name ends with.\<close>

definition trailing_id :: "string \<Rightarrow> string" where
  "trailing_id s = rev (takeWhile is_digit (rev s))"

definition nat_of_digits :: "string \<Rightarrow> nat" where
  "nat_of_digits = foldl (\<lambda>a c. 10 * a + digit_val c) 0"

definition name_stem :: "string \<Rightarrow> string" where
  "name_stem s = take (length s - length (trailing_id s)) s"

definition compareStructureNames :: "string \<Rightarrow> string \<Rightarrow> int" where
  "compareStructureNames cname1 cname2 =
     (let id1 = trailing_id cname1;
          id2 = trailing_id cname2;
          numbered = (id1 \<noteq> [] \<and> id2 \<noteq> []);
          basename1 = (if numbered then name_stem cname1 else cname1);
          basename2 = (if numbered then name_stem cname2 else cname2)
      in if basename1 < basename2 then -1
         else if basename2 < basename1 then 1
         else if numbered
              then (if nat_of_digits id1 < nat_of_digits id2 then -1
                    else if nat_of_digits id2 < nat_of_digits id1 then 1 else 0)
              else 0)"

definition numbered_name :: "string \<Rightarrow> bool" where
  "numbered_name s \<longleftrightarrow> trailing_id s \<noteq> []"

lemma compare_numbered:
  assumes "numbered_name a" "numbered_name b"
  shows "compareStructureNames a b \<le> 0 \<longleftrightarrow>
    name_stem a < name_stem b \<or>
    name_stem a = name_stem b \<and> nat_of_digits (trailing_id a) \<le> nat_of_digits (trailing_id b)"
  using assms by (auto simp: compareStructureNames_def numbered_name_def Let_def)

lemma compare_unnumbered:
  assumes "\<not> numbered_name a \<or> \<not> numbered_name b"
  shows "compareStructureNames a b \<le> 0 \<longleftrightarrow> a \<le> b"
  using assms by (auto simp: compareStructureNames_def numbered_name_def Let_def)

interpretation numbered: comparator "{s. numbered_name s}" compareStructureNames
proof unfold_locales
  fix x y assume "x \<in> {s. numbered_name s}" "y \<in> {s. numbered_name s}"
  then show "compareStructureNames x y \<le> 0 \<or> compareStructureNames y x \<le> 0"
    by (auto simp: compare_numbered)
next
  fix x y z
  assume "x \<in> {s. numbered_name s}" "y \<in> {s. numbered_name s}" "z \<in> {s. numbered_name s}"
    "compareStructureNames x y \<le> 0" "compareStructureNames y z \<le> 0"
  then show "compareStructureNames x z \<le> 0"
    by (auto simp: compare_numbered)
qed

interpretation unnumbered: comparator "{s. \<not> numbered_name s}" compareStructureNames
  by unfold_locales (auto simp: compare_unnumbered)

text \<open>The same orders on hosts, which are compared by name.\<close>

interpretation numbered_hosts: comparator
  "{h. numbered_name (h_name h)}" "\<lambda>a b. compareStructureNames (h_name a) (h_name b)"
  by unfold_locales (use numbered.antisym numbered.trans in \<open>blast+\<close>)

interpretation unnumbered_hosts: comparator
  "{h. \<not> numbered_name (h_name h)}" "\<lambda>a b. compareStructureNames (h_name a) (h_name b)"
  by unfold_locales (use unnumbered.antisym unnumbered.trans in \<open>blast+\<close>)

section \<open>Selecting structures\<close>

definition host_of :: "struct \<Rightarrow> host list" where
  "host_of s = (case s of Host h \<Rightarrow> [h] | _ \<Rightarrow> [])"

definition getHostsNames :: "struct list \<Rightarrow> host list" where
  "getHostsNames data =
     sort_by (\<lambda>a b. compareStructureNames (h_name a) (h_name b)) (concat (map host_of data))"

definition retrieve_app :: "app list \<Rightarrow> string \<Rightarrow> app option" where
  "retrieve_app apps app_name = List.find (\<lambda>a. a_name a = app_name) apps"

fun find_application :: "struct list \<Rightarrow> string \<Rightarrow> app option" where
  "find_application [] app_name = None"
| "find_application (Application a # data) app_name =
     (if a_name a = app_name then Some a else find_application data app_name)"
| "find_application (_ # data) app_name = find_application data app_name"

definition getContainersFromApp :: "struct list \<Rightarrow> app \<Rightarrow> container list" where
  "getContainersFromApp data a =
     concat (map (\<lambda>s. case s of Container c \<Rightarrow> (if c_name c \<in> set (a_containers a) then [c] else [])
                     | _ \<Rightarrow> []) data)"

definition getAppFiles :: "app \<Rightarrow> string dict result" where
  "getAppFiles a =
     rbind (item (a_files a) ''runtime_files'') (\<lambda>runtime_files.
     rbind (item (a_files a) ''output_dir'') (\<lambda>output_dir.
     rbind (item (a_files a) ''install_script'') (\<lambda>install_script.
     rbind (item (a_files a) ''start_script'') (\<lambda>start_script.
     rbind (item (a_files a) ''stop_script'') (\<lambda>stop_script.
     Inr [(''runtime_files'', basename runtime_files),
          (''output_dir'', basename output_dir),
          (''install_script'', basename install_script),
          (''start_script'', basename start_script),
          (''stop_script'', basename stop_script),
          (''app_dir'', dirname start_script)])))))"

lemma set_getHostsNames: "set (getHostsNames data) = {h. Host h \<in> set data}"
  by (auto simp: getHostsNames_def host_of_def split: struct.splits)

section \<open>Free bandwidth\<close>

definition disk_total_max :: "disk \<Rightarrow> rat" where
  "disk_total_max d = max (d_max_read d) (d_max_write d)"

definition disk_total_free :: "disk \<Rightarrow> rat" where
  "disk_total_free d =
     (let consumed_read = d_max_read d - d_free_read d;
          consumed_write = d_max_write d - d_free_write d
      in disk_total_max d - consumed_read - consumed_write)"

definition disk_suits :: "disk \<Rightarrow> rat \<Rightarrow> rat \<Rightarrow> bool" where
  "disk_suits d r w \<longleftrightarrow>
     \<not> (d_free_read d < r \<or> d_free_write d < w \<or> disk_total_free d < r + w)"

text \<open>The loop of \<open>getFreestDisk\<close>: \<open>cur\<close> is \<open>current_max_bw\<close> with its sentinel \<open>-1\<close>.\<close>

fun freest_disk_loop :: "disk dict \<Rightarrow> rat \<Rightarrow> rat \<Rightarrow> rat \<Rightarrow> string option \<Rightarrow> string option" where
  "freest_disk_loop [] r w cur best = best"
| "freest_disk_loop ((name, d) # ds) r w cur best =
     (if \<not> disk_suits d r w then freest_disk_loop ds r w cur best
      else if disk_total_free d = disk_total_max d then Some name
      else if cur = -1 \<or> disk_total_free d > cur
           then freest_disk_loop ds r w (disk_total_free d) (Some name)
      else freest_disk_loop ds r w cur best)"

definition getFreestDisk :: "host \<Rightarrow> rat \<Rightarrow> rat \<Rightarrow> string option" where
  "getFreestDisk h r w =
     (case h_disks h of None \<Rightarrow> None | Some ds \<Rightarrow> freest_disk_loop ds r w (-1) None)"

definition getHostFreeDiskBw :: "host \<Rightarrow> rat \<times> rat \<times> rat" where
  "getHostFreeDiskBw h =
     (case h_disks h of None \<Rightarrow> (0, 0, 0)
      | Some ds \<Rightarrow> (sum_list (map (d_free_read \<circ> snd) ds),
                    sum_list (map (d_free_write \<circ> snd) ds),
                    sum_list (map (disk_total_free \<circ> snd) ds)))"

lemma freest_disk_loop_sound:
  "freest_disk_loop ds r w cur best = Some n \<Longrightarrow>
   best = Some n \<or> (\<exists>d. (n, d) \<in> set ds \<and> disk_suits d r w)"
  by (induction ds r w cur best rule: freest_disk_loop.induct) (auto split: if_splits)

lemma freest_disk_loop_keeps [simp]: "freest_disk_loop ds r w cur (Some b) = None \<longleftrightarrow> False"
  by (induction ds arbitrary: cur b) auto

lemma freest_disk_loop_None:
  "freest_disk_loop ds r w (-1) None = None \<longleftrightarrow> (\<forall>p \<in> set ds. \<not> disk_suits (snd p) r w)"
proof (induction ds)
  case (Cons p ds)
  then show ?case by (cases p) (simp del: not_None_eq)
qed simp

text \<open>The chosen disk is idle, or no suitable disk has more free bandwidth.\<close>

lemma freest_disk_loop_best:
  assumes "freest_disk_loop ds r w cur best = Some n" "0 \<le> r + w" "cur = -1 \<and> best = None \<or> 0 \<le> cur"
  shows "(best = Some n \<and> 0 \<le> cur \<and>
           (\<forall>(m, e) \<in> set ds. disk_suits e r w \<longrightarrow> disk_total_free e \<le> cur)) \<or>
         (\<exists>d. (n, d) \<in> set ds \<and> disk_suits d r w \<and>
           (disk_total_free d = disk_total_max d \<or>
            (0 \<le> cur \<longrightarrow> cur \<le> disk_total_free d) \<and>
            (\<forall>(m, e) \<in> set ds. disk_suits e r w \<longrightarrow> disk_total_free e \<le> disk_total_free d)))"
  using assms
proof (induction ds r w cur best rule: freest_disk_loop.induct)
  case (1 r w cur best)
  then show ?case by auto
next
  case (2 name d ds r w cur best)
  have nonneg: "disk_suits d r w \<Longrightarrow> 0 \<le> disk_total_free d"
    using "2.prems"(2) by (auto simp: disk_suits_def)
  consider "\<not> disk_suits d r w"
    | "disk_suits d r w" "disk_total_free d = disk_total_max d"
    | "disk_suits d r w" "disk_total_free d \<noteq> disk_total_max d" "cur = -1 \<or> disk_total_free d > cur"
    | "disk_suits d r w" "disk_total_free d \<noteq> disk_total_max d" "\<not> (cur = -1 \<or> disk_total_free d > cur)"
    by blast
  then show ?case
  proof cases
    case 1
    then show ?thesis using "2.IH"(1) "2.prems" by fastforce
  next
    case 2
    then show ?thesis using "2.prems" by auto
  next
    case 3
    then show ?thesis using "2.IH"(2) "2.prems" nonneg by fastforce
  next
    case 4
    then show ?thesis using "2.IH"(3) "2.prems" nonneg by fastforce
  qed
qed

lemma getFreestDisk_suits:
  "getFreestDisk h r w = Some n \<Longrightarrow> \<exists>ds d. h_disks h = Some ds \<and> (n, d) \<in> set ds \<and> disk_suits d r w"
  by (auto simp: getFreestDisk_def split: option.splits dest: freest_disk_loop_sound)

lemma getFreestDisk_None:
  "getFreestDisk h r w = None \<longleftrightarrow>
   (\<forall>ds. h_disks h = Some ds \<longrightarrow> (\<forall>p \<in> set ds. \<not> disk_suits (snd p) r w))"
  by (auto simp: getFreestDisk_def freest_disk_loop_None split: option.splits)

section \<open>The freest host\<close>

text \<open>
  A container specification \<open>container_resources[type]\<close> maps \<open>cpu_max\<close>, \<open>mem_boundary_type\<close>,
  \dots to numbers or strings; arithmetic on a string raises \<open>TypeError\<close>.
\<close>

datatype rval = Num rat | Txt string

type_synonym spec = "rval dict"

definition need :: "spec \<Rightarrow> string \<Rightarrow> rat result" where
  "need c k = rbind (item c k) (\<lambda>v. case v of Num x \<Rightarrow> Inr x | Txt s \<Rightarrow> Inl (TypeError k))"

definition free_quota :: "host \<Rightarrow> string \<Rightarrow> rat result" where
  "free_quota h res = rbind (item (h_quota h) res) (\<lambda>q. Inr (q_free q))"

definition lkey :: "string \<Rightarrow> string \<Rightarrow> string" where
  "lkey res key = res @ ''_'' @ key"

definition host_disk_sums :: "host \<Rightarrow> rat \<times> rat" where
  "host_disk_sums h =
     (case h_disks h of None \<Rightarrow> (0, 0)
      | Some ds \<Rightarrow> (sum_list (map (disk_total_free \<circ> snd) ds), sum_list (map (disk_total_max \<circ> snd) ds)))"

definition energy_usage :: "host \<Rightarrow> rat result" where
  "energy_usage h = rbind (item (h_quota h) ''energy'') (\<lambda>q.
     rbind (py_div (q_free q) (q_max q)) (\<lambda>x. Inr (1 - x)))"

text \<open>
  One iteration of the loop of \<open>getFreestHost\<close>: it breaks with a host or goes on with
  \<open>current_min\<close> (sentinel \<open>-1\<close>) and \<open>freest_host\<close>.
\<close>

datatype verdict = Break "host option" | Continue rat "host option"

definition consider_host ::
  "spec \<Rightarrow> bool \<Rightarrow> bool \<Rightarrow> string \<Rightarrow> host \<Rightarrow> rat \<Rightarrow> host option \<Rightarrow> verdict result" where
  "consider_host c check_disks check_energy key h cur best =
     rbind (orR (ltR (free_quota h ''cpu'') (need c (lkey ''cpu'' key)))
                (ltR (free_quota h ''mem'') (need c (lkey ''mem'' key)))) (\<lambda>lacks.
     if lacks then Inr (Continue cur best)
     else rbind (andR (Inr check_energy)
                (ltR (free_quota h ''energy'') (need c (lkey ''energy'' key)))) (\<lambda>lacks_energy.
     if lacks_energy then Inr (Continue cur best)
     else if \<not> check_disks \<and> \<not> check_energy then Inr (Break (Some h))
     else if check_energy then rbind (energy_usage h) (\<lambda>usage.
       if cur = -1 \<or> usage < cur then Inr (Continue usage (Some h)) else Inr (Continue cur best))
     else rbind (need c (lkey ''disk_read'' key)) (\<lambda>r.
       rbind (need c (lkey ''disk_write'' key)) (\<lambda>w.
       if getFreestDisk h r w = None then Inr (Continue cur best)
       else case host_disk_sums h of (disk_free, disk_max) \<Rightarrow>
         if disk_max = 0 then Inr (Continue cur best)
         else let usage = disk_free / disk_max in
           if usage = 0 then Inr (Break (Some h))
           else if cur = -1 \<or> usage < cur then Inr (Continue usage (Some h))
           else Inr (Continue cur best)))))"

fun freest_host_loop ::
  "spec \<Rightarrow> bool \<Rightarrow> bool \<Rightarrow> string \<Rightarrow> host list \<Rightarrow> rat \<Rightarrow> host option \<Rightarrow> host option result" where
  "freest_host_loop c check_disks check_energy key [] cur best = Inr best"
| "freest_host_loop c check_disks check_energy key (h # hs) cur best =
     rbind (consider_host c check_disks check_energy key h cur best) (\<lambda>v.
       case v of Break res \<Rightarrow> Inr res
       | Continue cur' best' \<Rightarrow> freest_host_loop c check_disks check_energy key hs cur' best')"

definition getFreestHost ::
  "host list \<Rightarrow> spec \<Rightarrow> bool \<Rightarrow> bool \<Rightarrow> string \<Rightarrow> host option result" where
  "getFreestHost hosts c check_disks check_energy key =
     freest_host_loop c check_disks check_energy key hosts (-1) None"

definition fits_quota :: "host \<Rightarrow> spec \<Rightarrow> string \<Rightarrow> string \<Rightarrow> bool" where
  "fits_quota h c key res \<longleftrightarrow> ltR (free_quota h res) (need c (lkey res key)) = Inr False"

definition host_fits :: "spec \<Rightarrow> bool \<Rightarrow> bool \<Rightarrow> string \<Rightarrow> host \<Rightarrow> bool" where
  "host_fits c check_disks check_energy key h \<longleftrightarrow>
     fits_quota h c key ''cpu'' \<and> fits_quota h c key ''mem'' \<and>
     (check_energy \<longrightarrow> fits_quota h c key ''energy'') \<and>
     (check_disks \<and> \<not> check_energy \<longrightarrow>
       (\<exists>r w. need c (lkey ''disk_read'' key) = Inr r \<and> need c (lkey ''disk_write'' key) = Inr w \<and>
              getFreestDisk h r w \<noteq> None))"

lemma consider_host_cases:
  assumes "consider_host c cd ce key h cur best = Inr v"
  shows "v = Continue cur best \<or>
    host_fits c cd ce key h \<and> (v = Break (Some h) \<or> (\<exists>usage. v = Continue usage (Some h)))"
proof -
  let ?lacks = "orR (ltR (free_quota h ''cpu'') (need c (lkey ''cpu'' key)))
                    (ltR (free_quota h ''mem'') (need c (lkey ''mem'' key)))"
  let ?lacks_energy = "andR (Inr ce) (ltR (free_quota h ''energy'') (need c (lkey ''energy'' key)))"
  obtain b where b: "?lacks = Inr b" using assms by (auto simp: consider_host_def rbind_eq_Inr)
  have "b \<or> (\<exists>b'. ?lacks_energy = Inr b')"
    using assms b by (cases b) (auto simp: consider_host_def rbind_eq_Inr)
  with b consider "?lacks = Inr True" | "?lacks = Inr False" "?lacks_energy = Inr True"
    | "?lacks = Inr False" "?lacks_energy = Inr False"
    by (metis (full_types))
  then show ?thesis
  proof cases
    case 3
    then have fits: "fits_quota h c key ''cpu''" "fits_quota h c key ''mem''"
        "ce \<longrightarrow> fits_quota h c key ''energy''"
      by (auto simp: fits_quota_def orR_False)
    consider "ce" | "\<not> ce" "\<not> cd" | "\<not> ce" "cd" by blast
    then show ?thesis
    proof cases
      case 1
      then show ?thesis using assms 3 fits
        by (auto simp: consider_host_def host_fits_def rbind_eq_Inr split: if_splits)
    next
      case 2
      then show ?thesis using assms 3 fits by (auto simp: consider_host_def host_fits_def)
    next
      case c: 3
      then show ?thesis using assms 3 fits
        by (auto simp: consider_host_def host_fits_def rbind_eq_Inr Let_def
            split: if_splits prod.splits)
    qed
  qed (use assms in \<open>auto simp: consider_host_def\<close>)
qed

lemma freest_host_loop_fits:
  "freest_host_loop c cd ce key hs cur best = Inr (Some h) \<Longrightarrow>
   best = Some h \<or> h \<in> set hs \<and> host_fits c cd ce key h"
proof (induction hs arbitrary: cur best)
  case (Cons g hs)
  then obtain v where v: "consider_host c cd ce key g cur best = Inr v"
    by (auto simp: rbind_eq_Inr)
  from consider_host_cases [OF v] Cons v show ?case by fastforce
qed simp

lemma getFreestHost_fits:
  "getFreestHost hosts c cd ce key = Inr (Some h) \<Longrightarrow> h \<in> set hosts \<and> host_fits c cd ce key h"
  by (auto simp: getFreestHost_def dest: freest_host_loop_fits)

text \<open>
  With energy checked, or with disks checked, the loop keeps the host with the least value of a
  metric: the energy usage, or the ratio of free disk bandwidth.
\<close>

definition disk_metric :: "host \<Rightarrow> rat result" where
  "disk_metric h = (case host_disk_sums h of (f, m) \<Rightarrow> py_div f m)"

definition metric :: "bool \<Rightarrow> host \<Rightarrow> rat result" where
  "metric check_energy = (if check_energy then energy_usage else disk_metric)"

lemma consider_host_metric:
  assumes "consider_host c cd ce key h cur best = Inr v" "cd \<or> ce"
  shows "v = Continue cur best \<and>
      (host_fits c cd ce key h \<longrightarrow> (\<forall>u. metric ce h = Inr u \<longrightarrow> cur \<noteq> -1 \<and> cur \<le> u)) \<or>
    (\<exists>u. metric ce h = Inr u \<and> (v = Continue u (Some h) \<and> (cur = -1 \<or> u < cur) \<or> v = Break (Some h) \<and> u = 0))"
proof (cases "host_fits c cd ce key h")
  case False
  then have "\<not> (v = Break (Some h) \<or> (\<exists>usage. v = Continue usage (Some h)))
      \<or> v = Continue cur best"
    using consider_host_cases [OF assms(1)] by blast
  with False consider_host_cases [OF assms(1)] show ?thesis by blast
next
  case True
  then have q: "ltR (free_quota h ''cpu'') (need c (lkey ''cpu'' key)) = Inr False"
    "ltR (free_quota h ''mem'') (need c (lkey ''mem'' key)) = Inr False"
    "ce \<Longrightarrow> ltR (free_quota h ''energy'') (need c (lkey ''energy'' key)) = Inr False"
    by (simp_all add: host_fits_def fits_quota_def)
  show ?thesis
  proof (cases ce)
    case True
    with assms q show ?thesis
      by (auto simp: consider_host_def metric_def rbind_eq_Inr split: if_splits)
  next
    case False
    with True assms(2) obtain r w where
      "cd" "need c (lkey ''disk_read'' key) = Inr r" "need c (lkey ''disk_write'' key) = Inr w"
      "getFreestDisk h r w \<noteq> None"
      by (auto simp: host_fits_def)
    with False assms q show ?thesis
      by (auto simp: consider_host_def metric_def disk_metric_def py_div_def Let_def
          split: if_splits prod.splits)
  qed
qed

lemma freest_host_loop_metric:
  assumes "freest_host_loop c cd ce key hs cur best = Inr (Some h)" "cd \<or> ce"
    and "\<And>g u. g \<in> set hs \<Longrightarrow> metric ce g = Inr u \<Longrightarrow> 0 \<le> u"
    and "cur = -1 \<and> best = None \<or> 0 \<le> cur \<and> (\<exists>b. best = Some b \<and> metric ce b = Inr cur)"
  shows "\<exists>u. metric ce h = Inr u \<and> (cur \<noteq> -1 \<longrightarrow> u \<le> cur) \<and>
    (\<forall>g \<in> set hs. \<forall>v. host_fits c cd ce key g \<and> metric ce g = Inr v \<longrightarrow> u \<le> v)"
  using assms
proof (induction hs arbitrary: cur best)
  case Nil
  then show ?case by auto
next
  case (Cons g hs)
  from Cons.prems(1) obtain v where v: "consider_host c cd ce key g cur best = Inr v"
    and rest: "(case v of Break res \<Rightarrow> Inr res
       | Continue cur' best' \<Rightarrow> freest_host_loop c cd ce key hs cur' best') = Inr (Some h)"
    by (auto simp: rbind_eq_Inr)
  from consider_host_metric [OF v Cons.prems(2)] consider
      (skip) "v = Continue cur best"
        "host_fits c cd ce key g \<longrightarrow> (\<forall>u. metric ce g = Inr u \<longrightarrow> cur \<noteq> -1 \<and> cur \<le> u)"
    | (better) u where "metric ce g = Inr u" "v = Continue u (Some g)" "cur = -1 \<or> u < cur"
    | (stop) "metric ce g = Inr 0" "v = Break (Some g)"
    by blast
  then show ?case
  proof cases
    case skip
    then have "freest_host_loop c cd ce key hs cur best = Inr (Some h)" using rest by simp
    from Cons.IH [OF this Cons.prems(2) _ Cons.prems(4)] Cons.prems(3) obtain u where
      u: "metric ce h = Inr u" "cur \<noteq> -1 \<longrightarrow> u \<le> cur"
        "\<forall>g \<in> set hs. \<forall>v. host_fits c cd ce key g \<and> metric ce g = Inr v \<longrightarrow> u \<le> v"
      by auto
    have "u \<le> v" if "host_fits c cd ce key g" "metric ce g = Inr v" for v
      using that skip(2) u(2) by force
    with u show ?thesis by auto
  next
    case (better w)
    then have l: "freest_host_loop c cd ce key hs w (Some g) = Inr (Some h)" using rest by simp
    have w: "0 \<le> w" using Cons.prems(3) [of g w] better by simp
    from Cons.IH [OF l Cons.prems(2)] Cons.prems(3) better w obtain u where
      "metric ce h = Inr u" "u \<le> w"
        "\<forall>g \<in> set hs. \<forall>v. host_fits c cd ce key g \<and> metric ce g = Inr v \<longrightarrow> u \<le> v"
      by auto
    with better show ?thesis by auto
  next
    case stop
    then have "h = g" using rest by simp
    moreover have "cur \<noteq> -1 \<longrightarrow> 0 \<le> cur" using Cons.prems(4) by auto
    ultimately show ?thesis using stop Cons.prems(3) by auto
  qed
qed

section \<open>Properties\<close>

definition sample_quota :: "rat \<Rightarrow> rat \<Rightarrow> quota" where
  "sample_quota m f = \<lparr>q_max = m, q_free = f\<rparr>"

definition sample_disk :: "rat \<Rightarrow> rat \<Rightarrow> rat \<Rightarrow> disk" where
  "sample_disk m r w = \<lparr>d_path = ''/mnt'', d_max_read = m, d_free_read = r, d_max_write = m,
     d_free_write = w, d_load = 0\<rparr>"

definition sample_host :: "string \<Rightarrow> rat \<Rightarrow> rat \<Rightarrow> disk dict \<Rightarrow> host" where
  "sample_host n free_cpu free_energy ds =
     \<lparr>h_name = n, h_quota = [(''cpu'', sample_quota 800 free_cpu), (''mem'', sample_quota 8192 8192),
        (''energy'', sample_quota 100 free_energy)], h_disks = Some ds\<rparr>"

definition sample_hosts :: "host list" where
  "sample_hosts =
     [sample_host ''host0'' 800 20 [(''hdd0'', sample_disk 200 130 130)],
      sample_host ''host1'' 400 80 [(''hdd0'', sample_disk 200 120 100), (''ssd0'', sample_disk 200 200 160)]]"

definition sample_spec :: spec where
  "sample_spec = [(''cpu_max'', Num 200), (''mem_max'', Num 1024), (''energy_max'', Num 10),
     (''disk_read_max'', Num 20), (''disk_write_max'', Num 20)]"

text \<open>\<open>getFreestDisk\<close> answers \<open>None\<close> exactly when no disk has the read, write and total
  bandwidth that was asked for, and otherwise a suitable disk that is either idle or has the most
  total free bandwidth of the suitable ones.\<close>

theorem getFreestDisk_correct:
  assumes "h_disks h = Some ds" and "0 \<le> r + w"
  shows "case getFreestDisk h r w of
      None \<Rightarrow> (\<forall>(m, e) \<in> set ds. \<not> disk_suits e r w)
    | Some n \<Rightarrow> (\<exists>d. (n, d) \<in> set ds \<and> disk_suits d r w \<and>
        (disk_total_free d = disk_total_max d \<or>
         (\<forall>(m, e) \<in> set ds. disk_suits e r w \<longrightarrow> disk_total_free e \<le> disk_total_free d)))"
proof (cases "getFreestDisk h r w")
  case None
  with assms(1) have "\<forall>p \<in> set ds. \<not> disk_suits (snd p) r w" by (simp add: getFreestDisk_None)
  with None show ?thesis by auto
next
  case (Some n)
  with assms freest_disk_loop_best [of ds r w "-1" None n] show ?thesis
    by (auto simp: getFreestDisk_def)
qed

theorem getFreestDisk_correct_witness:
  "case getFreestDisk (sample_hosts ! 1) 20 20 of
      None \<Rightarrow> (\<forall>(m, e) \<in> set [(''hdd0'', sample_disk 200 120 100), (''ssd0'', sample_disk 200 200 160)]. \<not> disk_suits e 20 20)
    | Some n \<Rightarrow> (\<exists>d. (n, d) \<in> set [(''hdd0'', sample_disk 200 120 100), (''ssd0'', sample_disk 200 200 160)] \<and> disk_suits d 20 20 \<and>
        (disk_total_free d = disk_total_max d \<or>
         (\<forall>(m, e) \<in> set [(''hdd0'', sample_disk 200 120 100), (''ssd0'', sample_disk 200 200 160)]. disk_suits e 20 20 \<longrightarrow> disk_total_free e \<le> disk_total_free d)))"
  by (rule getFreestDisk_correct) (simp_all add: sample_hosts_def sample_host_def)

text \<open>with a power budget, \<open>getFreestHost\<close> answers a host of the list that has the CPU, memory
  and energy the container asks for, and whose energy usage is least among all hosts that have them.\<close>

theorem getFreestHost_energy:
  assumes "getFreestHost hosts c cd True key = Inr (Some h)"
    and "\<And>g u. g \<in> set hosts \<Longrightarrow> energy_usage g = Inr u \<Longrightarrow> 0 \<le> u"
  shows "h \<in> set hosts \<and> host_fits c cd True key h \<and>
    (\<exists>u. energy_usage h = Inr u \<and>
      (\<forall>g \<in> set hosts. \<forall>v. host_fits c cd True key g \<and> energy_usage g = Inr v \<longrightarrow> u \<le> v))"
  using getFreestHost_fits [OF assms(1)]
    freest_host_loop_metric [of c cd True key hosts "-1" None h] assms
  by (auto simp: getFreestHost_def metric_def)

theorem getFreestHost_energy_witness:
  "sample_hosts ! 1 \<in> set sample_hosts \<and> host_fits sample_spec True True ''max'' (sample_hosts ! 1) \<and>
    (\<exists>u. energy_usage (sample_hosts ! 1) = Inr u \<and>
      (\<forall>g \<in> set sample_hosts. \<forall>v. host_fits sample_spec True True ''max'' g \<and> energy_usage g = Inr v \<longrightarrow> u \<le> v))"
proof (rule getFreestHost_energy)
  show "getFreestHost sample_hosts sample_spec True True ''max'' = Inr (Some (sample_hosts ! 1))"
    by code_simp
  have "list_all (\<lambda>g. case energy_usage g of Inl e \<Rightarrow> True | Inr u \<Rightarrow> 0 \<le> u) sample_hosts"
    by code_simp
  then show "0 \<le> u" if "g \<in> set sample_hosts" "energy_usage g = Inr u" for g u
    using that by (force simp: list_all_iff)
qed

text \<open>With disks and no power budget, \<open>getFreestHost\<close> answers a host that has the CPU, memory
  and a disk for the container, and among those the one whose disks have the \<^emph>\<open>least\<close> share
  of free bandwidth: the variable the code calls usage is the free share.\<close>

theorem getFreestHost_disks:
  assumes "getFreestHost hosts c True False key = Inr (Some h)"
    and "\<And>g u. g \<in> set hosts \<Longrightarrow> disk_metric g = Inr u \<Longrightarrow> 0 \<le> u"
  shows "h \<in> set hosts \<and> host_fits c True False key h \<and>
    (\<exists>u. disk_metric h = Inr u \<and>
      (\<forall>g \<in> set hosts. \<forall>v. host_fits c True False key g \<and> disk_metric g = Inr v \<longrightarrow> u \<le> v))"
  using getFreestHost_fits [OF assms(1)]
    freest_host_loop_metric [of c True False key hosts "-1" None h] assms
  by (auto simp: getFreestHost_def metric_def)

theorem getFreestHost_disks_witness:
  "sample_hosts ! 0 \<in> set sample_hosts \<and> host_fits sample_spec True False ''max'' (sample_hosts ! 0) \<and>
    (\<exists>u. disk_metric (sample_hosts ! 0) = Inr u \<and>
      (\<forall>g \<in> set sample_hosts. \<forall>v. host_fits sample_spec True False ''max'' g \<and> disk_metric g = Inr v \<longrightarrow> u \<le> v))"
proof (rule getFreestHost_disks)
  show "getFreestHost sample_hosts sample_spec True False ''max'' = Inr (Some (sample_hosts ! 0))"
    by code_simp
  have "list_all (\<lambda>g. case disk_metric g of Inl e \<Rightarrow> True | Inr u \<Rightarrow> 0 \<le> u) sample_hosts"
    by code_simp
  then show "0 \<le> u" if "g \<in> set sample_hosts" "disk_metric g = Inr u" for g u
    using that by (force simp: list_all_iff)
qed

text \<open>on names that all end in digits (or none of which does) \<open>getHostsNames\<close> answers exactly
  the hosts among the structures, in the order of \<open>compareStructureNames\<close>: by stem, then by the
  number, so that \<open>host9\<close> comes before \<open>host10\<close>.\<close>

theorem getHostsNames_sorted:
  assumes "(\<forall>h. Host h \<in> set data \<longrightarrow> numbered_name (h_name h)) \<or>
           (\<forall>h. Host h \<in> set data \<longrightarrow> \<not> numbered_name (h_name h))"
  shows "sorted_wrt (\<lambda>a b. compareStructureNames (h_name a) (h_name b) \<le> 0) (getHostsNames data) \<and>
    mset (getHostsNames data) = mset (concat (map host_of data))"
proof -
  have hosts: "h \<in> set (concat (map host_of data)) \<longleftrightarrow> Host h \<in> set data" for h
    using set_getHostsNames [of data] by (auto simp: getHostsNames_def)
  from assms show ?thesis
  proof
    assume "\<forall>h. Host h \<in> set data \<longrightarrow> numbered_name (h_name h)"
    then have "set (concat (map host_of data)) \<subseteq> {h. numbered_name (h_name h)}" using hosts by blast
    then show ?thesis by (simp add: getHostsNames_def numbered_hosts.sort_by_sorted del: set_concat set_map)
  next
    assume "\<forall>h. Host h \<in> set data \<longrightarrow> \<not> numbered_name (h_name h)"
    then have "set (concat (map host_of data)) \<subseteq> {h. \<not> numbered_name (h_name h)}" using hosts by blast
    then show ?thesis by (simp add: getHostsNames_def unnumbered_hosts.sort_by_sorted del: set_concat set_map)
  qed
qed

theorem getHostsNames_sorted_witness:
  "sorted_wrt (\<lambda>a b. compareStructureNames (h_name a) (h_name b) \<le> 0)
     (getHostsNames [Host (sample_host ''host10'' 8 8 []), Host (sample_host ''host9'' 8 8 [])]) \<and>
   mset (getHostsNames [Host (sample_host ''host10'' 8 8 []), Host (sample_host ''host9'' 8 8 [])]) =
     mset (concat (map host_of [Host (sample_host ''host10'' 8 8 []), Host (sample_host ''host9'' 8 8 [])]))"
proof (rule getHostsNames_sorted)
  have "numbered_name ''host10'' \<and> numbered_name ''host9''" by code_simp
  then show "(\<forall>h. Host h \<in> set [Host (sample_host ''host10'' 8 8 []), Host (sample_host ''host9'' 8 8 [])]
      \<longrightarrow> numbered_name (h_name h)) \<or>
    (\<forall>h. Host h \<in> set [Host (sample_host ''host10'' 8 8 []), Host (sample_host ''host9'' 8 8 [])]
      \<longrightarrow> \<not> numbered_name (h_name h))"
    by (simp add: sample_host_def)
qed

text \<open>On names of both kinds the order is circular, so that the result of the sort depends on
  the order of the input: \<open>a2\<close> precedes \<open>a10\<close> by number, \<open>a10\<close> precedes \<open>a1b\<close> and \<open>a1b\<close>
  precedes \<open>a2\<close> as strings.\<close>

theorem compareStructureNames_cycle:
  "compareStructureNames ''a2'' ''a10'' = -1 \<and> compareStructureNames ''a10'' ''a1b'' = -1 \<and>
   compareStructureNames ''a1b'' ''a2'' = -1"
  by code_simp

end
