(* ===== verification/Assignation.thy ===== *)
theory Assignation
  imports Structures
begin

text \<open>
  The allocation of an application's containers to hosts, \<open>ui/views/apps/utils.py\<close>: the
  availability checks, the three policies Fill-up, Cyclic and Best-effort, and
  \<open>getContainerAssignationForApp\<close>, which runs one of them and formats its result.

  The dictionaries the policies mutate are the fields of a \<open>pool\<close>: the host objects by name,
  \<open>containers_to_allocate\<close>, \<open>assignation\<close> and \<open>disk_assignation\<close>.  Host names are unique, so a
  host object is reached through its name.
\<close>

section \<open>State\<close>

datatype ctype = Bigger | Regular | Smaller | RmNn

text \<open>The order in which the policies try the container types.\<close>

instantiation ctype :: linorder
begin

definition ctype_rank :: "ctype \<Rightarrow> nat" where
  "ctype_rank ct = (case ct of Bigger \<Rightarrow> 0 | Regular \<Rightarrow> 1 | Smaller \<Rightarrow> 2 | RmNn \<Rightarrow> 3)"

definition less_eq_ctype :: "ctype \<Rightarrow> ctype \<Rightarrow> bool" where
  "less_eq_ctype a b \<longleftrightarrow> ctype_rank a \<le> ctype_rank b"

definition less_ctype :: "ctype \<Rightarrow> ctype \<Rightarrow> bool" where
  "less_ctype a b \<longleftrightarrow> ctype_rank a < ctype_rank b"

instance
  by standard (auto simp: less_eq_ctype_def less_ctype_def ctype_rank_def split: ctype.splits)

end

definition ctypes :: "ctype list" where
  "ctypes = [Bigger, Regular, Smaller, RmNn]"

lemma ctypes_sorted: "sorted ctypes" and set_ctypes [simp]: "set ctypes = UNIV"
  by (auto simp: ctypes_def less_eq_ctype_def ctype_rank_def intro: ctype.exhaust)

instance ctype :: finite
proof
  have "finite (set ctypes)" by (rule finite_set)
  then show "finite (UNIV :: ctype set)" by simp
qed

fun ctype_name :: "ctype \<Rightarrow> string" where
  "ctype_name Bigger = ''bigger''"
| "ctype_name Regular = ''regular''"
| "ctype_name Smaller = ''smaller''"
| "ctype_name RmNn = ''rm-nn''"

record slot =
  s_new :: int
  s_path :: string
  s_read :: rat
  s_write :: rat
  s_total :: rat

record pool =
  p_hosts :: "host dict"
  p_todo :: "ctype \<Rightarrow> int"
  p_assign :: "(ctype \<times> int) list dict"
  p_ledger :: "slot dict dict"

text \<open>What a policy reads and never changes.\<close>

record policy =
  y_specs :: "(ctype \<times> spec) list"
  y_disks :: bool
  y_energy :: bool
  y_key :: string

definition spec_of :: "policy \<Rightarrow> ctype \<Rightarrow> spec result" where
  "spec_of y ct = (case map_of (y_specs y) ct of
     Some c \<Rightarrow> Inr c | None \<Rightarrow> Inl (KeyError (ctype_name ct)))"

definition containersNotAllocated :: "pool \<Rightarrow> int" where
  "containersNotAllocated p = sum_list (map (p_todo p) ctypes)"

definition resources_to_check :: "policy \<Rightarrow> string list" where
  "resources_to_check y = [''cpu'', ''mem''] @ (if y_energy y then [''energy''] else [])"

section \<open>Availability\<close>

definition checkAvailableDisk :: "slot \<Rightarrow> spec \<Rightarrow> string \<Rightarrow> bool result" where
  "checkAvailableDisk s c key =
     rbind (need c (lkey ''disk_read'' key)) (\<lambda>r.
     rbind (need c (lkey ''disk_write'' key)) (\<lambda>w.
     Inr (r \<le> s_read s \<and> w \<le> s_write s \<and> r + w \<le> s_total s)))"

fun checkAvailableResources :: "host \<Rightarrow> spec \<Rightarrow> string list \<Rightarrow> string \<Rightarrow> bool result" where
  "checkAvailableResources h c [] key = Inr True"
| "checkAvailableResources h c (res # resources) key =
     rbind (ltR (free_quota h res) (need c (lkey res key))) (\<lambda>lacks.
       if lacks then Inr False else checkAvailableResources h c resources key)"

fun first_disk :: "slot dict \<Rightarrow> spec \<Rightarrow> string \<Rightarrow> string option result" where
  "first_disk [] c key = Inr None"
| "first_disk ((dn, s) # ss) c key =
     rbind (checkAvailableDisk s c key) (\<lambda>ok. if ok then Inr (Some dn) else first_disk ss c key)"

definition any_disk :: "pool \<Rightarrow> string \<Rightarrow> spec \<Rightarrow> string \<Rightarrow> bool result" where
  "any_disk p hn c key =
     rbind (item (p_ledger p) hn) (\<lambda>ss. rbind (first_disk ss c key) (\<lambda>d. Inr (d \<noteq> None)))"

text \<open>The test both Fill-up and Cyclic make before they place a container.\<close>

definition available_on :: "policy \<Rightarrow> string \<Rightarrow> ctype \<Rightarrow> pool \<Rightarrow> bool result" where
  "available_on y hn ct p =
     rbind (item (p_hosts p) hn) (\<lambda>h. rbind (spec_of y ct) (\<lambda>c.
     rbind (checkAvailableResources h c (resources_to_check y) (y_key y)) (\<lambda>ok.
     if ct \<noteq> RmNn \<and> y_disks y then andR (Inr ok) (any_disk p hn c (y_key y)) else Inr ok)))"

section \<open>Updates of the pool\<close>

text \<open>\<open>assignation[host][type] += 1; containers_to_allocate[type] -= 1\<close>\<close>

definition count_container :: "string \<Rightarrow> ctype \<Rightarrow> pool \<Rightarrow> pool result" where
  "count_container hn ct p =
     rbind (item (p_assign p) hn) (\<lambda>d.
       Inr (p\<lparr>p_assign := AList.update hn
                (AList.update ct ((case map_of d ct of Some n \<Rightarrow> n | None \<Rightarrow> 0) + 1) d) (p_assign p),
              p_todo := (p_todo p)(ct := p_todo p ct - 1)\<rparr>))"

text \<open>\<open>host['resources'][res]['free'] -= x\<close>\<close>

definition charge :: "string \<Rightarrow> string \<Rightarrow> rat \<Rightarrow> pool \<Rightarrow> pool result" where
  "charge hn res x p =
     rbind (item (p_hosts p) hn) (\<lambda>h. rbind (item (h_quota h) res) (\<lambda>q.
       Inr (p\<lparr>p_hosts := AList.update hn
         (h\<lparr>h_quota := AList.update res (q\<lparr>q_free := q_free q - x\<rparr>) (h_quota h)\<rparr>) (p_hosts p)\<rparr>)))"

fun charge_all :: "string \<Rightarrow> spec \<Rightarrow> string \<Rightarrow> string list \<Rightarrow> pool \<Rightarrow> pool result" where
  "charge_all hn c key [] p = Inr p"
| "charge_all hn c key (res # rs) p =
     rbind (need c (lkey res key)) (\<lambda>x. rbind (charge hn res x p) (\<lambda>p'. charge_all hn c key rs p'))"

text \<open>The ledger entry of a disk, and the disk of the host object itself.\<close>

definition use_slot :: "rat \<Rightarrow> rat \<Rightarrow> slot \<Rightarrow> slot" where
  "use_slot r w s = s\<lparr>s_read := s_read s - r, s_write := s_write s - w,
     s_total := s_total s - (r + w), s_new := s_new s + 1\<rparr>"

definition take_slot :: "string \<Rightarrow> string \<Rightarrow> rat \<Rightarrow> rat \<Rightarrow> pool \<Rightarrow> pool result" where
  "take_slot hn dn r w p =
     rbind (item (p_ledger p) hn) (\<lambda>ss. rbind (item ss dn) (\<lambda>s.
       Inr (p\<lparr>p_ledger := AList.update hn (AList.update dn (use_slot r w s) ss) (p_ledger p)\<rparr>)))"

definition use_disk :: "rat \<Rightarrow> rat \<Rightarrow> disk \<Rightarrow> disk" where
  "use_disk r w d = d\<lparr>d_free_read := d_free_read d - r, d_free_write := d_free_write d - w\<rparr>"

definition take_disk :: "string \<Rightarrow> string \<Rightarrow> rat \<Rightarrow> rat \<Rightarrow> pool \<Rightarrow> pool result" where
  "take_disk hn dn r w p =
     rbind (item (p_hosts p) hn) (\<lambda>h.
       case h_disks h of
         None \<Rightarrow> Inl (KeyError ''disks'')
       | Some ds \<Rightarrow> rbind (item ds dn) (\<lambda>d.
           Inr (p\<lparr>p_hosts := AList.update hn
             (h\<lparr>h_disks := Some (AList.update dn (use_disk r w d) ds)\<rparr>) (p_hosts p)\<rparr>)))"

definition assign_freest_disk :: "string \<Rightarrow> spec \<Rightarrow> string \<Rightarrow> pool \<Rightarrow> pool option result" where
  "assign_freest_disk hn c key p =
     rbind (item (p_hosts p) hn) (\<lambda>h.
     rbind (need c (lkey ''disk_read'' key)) (\<lambda>r.
     rbind (need c (lkey ''disk_write'' key)) (\<lambda>w.
     case getFreestDisk h r w of
       None \<Rightarrow> Inr None
     | Some dn \<Rightarrow> rbind (take_slot hn dn r w p) (\<lambda>p1.
         rbind (take_disk hn dn r w p1) (\<lambda>p2. Inr (Some p2))))))"

section \<open>Fill-up\<close>

definition fill_disk :: "string \<Rightarrow> spec \<Rightarrow> string \<Rightarrow> pool \<Rightarrow> pool result" where
  "fill_disk hn c key p =
     rbind (item (p_ledger p) hn) (\<lambda>ss. rbind (first_disk ss c key) (\<lambda>found.
     case found of
       None \<Rightarrow> Inr p
     | Some dn \<Rightarrow> rbind (need c (lkey ''disk_read'' key)) (\<lambda>r.
         rbind (need c (lkey ''disk_write'' key)) (\<lambda>w. take_slot hn dn r w p))))"

text \<open>One turn of the inner \<open>while\<close>: \<open>None\<close> when the loop breaks.\<close>

definition fill_try :: "policy \<Rightarrow> string \<Rightarrow> ctype \<Rightarrow> pool \<Rightarrow> pool option result" where
  "fill_try y hn ct p =
     rbind (available_on y hn ct p) (\<lambda>ok.
     if \<not> ok then Inr None
     else rbind (spec_of y ct) (\<lambda>c.
       rbind (count_container hn ct p) (\<lambda>p1.
       rbind (charge_all hn c (y_key y) [''cpu'', ''mem''] p1) (\<lambda>p2.
       rbind (if ct \<noteq> RmNn \<and> y_disks y then fill_disk hn c (y_key y) p2 else Inr p2) (\<lambda>p3.
       Inr (Some p3))))))"

lemma charge_todo: "charge hn res x p = Inr p' \<Longrightarrow> p_todo p' = p_todo p"
  by (auto simp: charge_def rbind_eq_Inr)

lemma charge_all_todo: "charge_all hn c key rs p = Inr p' \<Longrightarrow> p_todo p' = p_todo p"
  by (induction rs arbitrary: p) (auto simp: rbind_eq_Inr dest: charge_todo)

lemma take_slot_todo: "take_slot hn dn r w p = Inr p' \<Longrightarrow> p_todo p' = p_todo p"
  by (auto simp: take_slot_def rbind_eq_Inr)

lemma take_disk_todo: "take_disk hn dn r w p = Inr p' \<Longrightarrow> p_todo p' = p_todo p"
  by (auto simp: take_disk_def rbind_eq_Inr split: option.splits)

lemma count_container_todo:
  "count_container hn ct p = Inr p' \<Longrightarrow> p_todo p' = (p_todo p)(ct := p_todo p ct - 1)"
  by (auto simp: count_container_def rbind_eq_Inr)

lemma fill_disk_todo: "fill_disk hn c key p = Inr p' \<Longrightarrow> p_todo p' = p_todo p"
  by (auto simp: fill_disk_def rbind_eq_Inr split: option.splits dest: take_slot_todo)

lemma assign_freest_disk_todo: "assign_freest_disk hn c key p = Inr (Some p') \<Longrightarrow> p_todo p' = p_todo p"
  by (auto simp: assign_freest_disk_def rbind_eq_Inr split: option.splits
      dest!: take_slot_todo take_disk_todo)

lemmas todo_laws = charge_todo charge_all_todo take_slot_todo take_disk_todo
  count_container_todo fill_disk_todo assign_freest_disk_todo

lemma fill_try_todo:
  "fill_try y hn ct p = Inr (Some p') \<Longrightarrow> p_todo p' = (p_todo p)(ct := p_todo p ct - 1)"
  by (auto simp: fill_try_def rbind_eq_Inr split: if_splits dest!: todo_laws)

function fill_type :: "policy \<Rightarrow> string \<Rightarrow> ctype \<Rightarrow> pool \<Rightarrow> pool result" where
  "fill_type y hn ct p =
     (if 0 < p_todo p ct
      then rbind (fill_try y hn ct p) (\<lambda>r. case r of None \<Rightarrow> Inr p | Some p' \<Rightarrow> fill_type y hn ct p')
      else Inr p)"
  by pat_completeness auto
termination
  by (relation "measure (\<lambda>(y, hn, ct, p). nat (p_todo p ct))") (auto dest!: fill_try_todo)

declare fill_type.simps [simp del]

fun assign_fill_up :: "policy \<Rightarrow> string list \<Rightarrow> pool \<Rightarrow> pool result" where
  "assign_fill_up y [] p = Inr p"
| "assign_fill_up y (hn # hns) p =
     (if containersNotAllocated p \<le> 0 then Inr p
      else rbind (foldR (fill_type y hn) ctypes p) (\<lambda>p'. assign_fill_up y hns p'))"

section \<open>Cyclic\<close>

definition cyclic_place :: "policy \<Rightarrow> string \<Rightarrow> ctype \<Rightarrow> pool \<Rightarrow> pool option result" where
  "cyclic_place y hn ct p =
     rbind (spec_of y ct) (\<lambda>c.
     rbind (if ct \<noteq> RmNn \<and> y_disks y then assign_freest_disk hn c (y_key y) p else Inr (Some p)) (\<lambda>found.
     case found of
       None \<Rightarrow> Inr None
     | Some p1 \<Rightarrow> rbind (charge_all hn c (y_key y) [''cpu'', ''mem''] p1) (\<lambda>p2.
         rbind (count_container hn ct p2) (\<lambda>p3. Inr (Some p3)))))"

lemma cyclic_place_todo:
  "cyclic_place y hn ct p = Inr (Some p') \<Longrightarrow> p_todo p' = (p_todo p)(ct := p_todo p ct - 1)"
  by (auto simp: cyclic_place_def rbind_eq_Inr split: if_splits option.splits dest!: todo_laws)

text \<open>The loop over the types for one host: whether a container was placed, and the pool.\<close>

fun cyclic_host :: "policy \<Rightarrow> string \<Rightarrow> ctype list \<Rightarrow> pool \<Rightarrow> (bool \<times> pool) result" where
  "cyclic_host y hn [] p = Inr (False, p)"
| "cyclic_host y hn (ct # cts) p =
     (if 0 < p_todo p ct
      then rbind (available_on y hn ct p) (\<lambda>ok.
        if ok then rbind (cyclic_place y hn ct p) (\<lambda>r.
          case r of None \<Rightarrow> Inr (False, p) | Some p' \<Rightarrow> Inr (True, p'))
        else cyclic_host y hn cts p)
      else cyclic_host y hn cts p)"

fun cyclic_round :: "policy \<Rightarrow> string list \<Rightarrow> pool \<Rightarrow> (string list \<times> pool) result" where
  "cyclic_round y [] p = Inr ([], p)"
| "cyclic_round y (hn # hns) p =
     (if containersNotAllocated p \<le> 0 then Inr ([], p)
      else rbind (cyclic_host y hn ctypes p) (\<lambda>(placed, p').
        rbind (cyclic_round y hns p') (\<lambda>(rest, p''). Inr (if placed then hn # rest else rest, p''))))"

text \<open>The containers still to place, counted without the negative entries.\<close>

definition todo_left :: "pool \<Rightarrow> nat" where
  "todo_left p = sum_list (map (\<lambda>ct. nat (p_todo p ct)) ctypes)"

lemma todo_left_decr:
  "0 < p_todo p ct \<Longrightarrow> p_todo p' = (p_todo p)(ct := p_todo p ct - 1) \<Longrightarrow>
   todo_left p = Suc (todo_left p')"
  by (cases ct) (auto simp: todo_left_def ctypes_def nat_diff_distrib)

lemma cyclic_host_todo:
  "cyclic_host y hn cts p = Inr (b, p') \<Longrightarrow> todo_left p = todo_left p' + (if b then 1 else 0)"
proof (induction cts arbitrary: p)
  case (Cons ct cts)
  then show ?case
    by (auto simp: rbind_eq_Inr todo_left_decr split: if_splits option.splits dest!: cyclic_place_todo)
qed simp

lemma cyclic_round_todo:
  "cyclic_round y hns p = Inr (rest, p') \<Longrightarrow> todo_left p = todo_left p' + length rest"
proof (induction hns arbitrary: p rest p')
  case (Cons hn hns)
  then show ?case
    by (fastforce simp: rbind_eq_Inr split: if_splits dest: cyclic_host_todo)
qed simp

function assign_cyclic :: "policy \<Rightarrow> string list \<Rightarrow> pool \<Rightarrow> pool result" where
  "assign_cyclic y hns p =
     (if 0 < containersNotAllocated p \<and> hns \<noteq> []
      then rbind (cyclic_round y hns p) (\<lambda>(rest, p'). assign_cyclic y rest p')
      else Inr p)"
  by pat_completeness auto
termination
  by (relation "measure (\<lambda>(y, hns, p). todo_left p + length hns)") (auto dest!: cyclic_round_todo)

declare assign_cyclic.simps [simp del]

section \<open>Best-effort\<close>

text \<open>One turn: the first type that is still wanted, on the freest host.\<close>

definition best_on :: "policy \<Rightarrow> ctype \<Rightarrow> spec \<Rightarrow> string \<Rightarrow> pool \<Rightarrow> pool option result" where
  "best_on y ct c hn p =
     rbind (if ct \<noteq> RmNn \<and> y_disks y then assign_freest_disk hn c (y_key y) p else Inr (Some p)) (\<lambda>found.
     case found of
       None \<Rightarrow> Inr None
     | Some p1 \<Rightarrow>
         rbind (charge_all hn c (y_key y)
                  ((if y_energy y then [''energy''] else []) @ [''cpu'', ''mem'']) p1) (\<lambda>p2.
         rbind (count_container hn ct p2) (\<lambda>p3. Inr (Some p3))))"

definition best_place :: "policy \<Rightarrow> ctype \<Rightarrow> pool \<Rightarrow> pool option result" where
  "best_place y ct p =
     rbind (spec_of y ct) (\<lambda>c.
     rbind (getFreestHost (map snd (p_hosts p)) c (ct \<noteq> RmNn \<and> y_disks y) (y_energy y) (y_key y)) (\<lambda>found.
     case found of None \<Rightarrow> Inr None | Some h \<Rightarrow> best_on y ct c (h_name h) p))"

fun best_types :: "policy \<Rightarrow> ctype list \<Rightarrow> pool \<Rightarrow> pool option result" where
  "best_types y [] p = Inr None"
| "best_types y (ct # cts) p =
     (if 0 < p_todo p ct then best_place y ct p
      else best_types y cts p)"

lemma best_on_todo:
  "best_on y ct c hn p = Inr (Some p') \<Longrightarrow> p_todo p' = (p_todo p)(ct := p_todo p ct - 1)"
  by (auto simp: best_on_def elim!: rbindE split: if_splits option.splits dest!: todo_laws)

lemma best_place_todo:
  "best_place y ct p = Inr (Some p') \<Longrightarrow> p_todo p' = (p_todo p)(ct := p_todo p ct - 1)"
  by (auto simp: best_place_def rbind_eq_Inr dest!: best_on_todo split: option.splits)

lemma best_types_todo: "best_types y cts p = Inr (Some p') \<Longrightarrow> todo_left p' < todo_left p"
  by (induction cts) (auto simp: rbind_eq_Inr todo_left_decr split: if_splits dest!: best_place_todo)

function assign_best_effort :: "policy \<Rightarrow> pool \<Rightarrow> pool result" where
  "assign_best_effort y p =
     (if 0 < containersNotAllocated p
      then rbind (best_types y ctypes p) (\<lambda>r. case r of None \<Rightarrow> Inr p | Some p' \<Rightarrow> assign_best_effort y p')
      else Inr p)"
  by pat_completeness auto
termination
  by (relation "measure (\<lambda>(y, p). todo_left p)") (auto dest!: best_types_todo)

declare assign_best_effort.simps [simp del]

end
