(* ===== verification/Placement.thy ===== *)
theory Placement
  imports Assignation
begin

text \<open>
  What every allocation policy promises: it only ever places one wanted container on a host that
  has room for it.  The relation \<open>placed\<close> states such a step, the locale \<open>allocator\<close> the
  contract of a policy with its consequences (containers are conserved, CPU, memory and disk
  bandwidth are never over-committed), and the interpretations show that Fill-up, Cyclic and
  Best-effort keep it.
\<close>

section \<open>Views of a pool\<close>

definition count_of :: "pool \<Rightarrow> string \<Rightarrow> ctype \<Rightarrow> int" where
  "count_of p hn ct = (case map_of (p_assign p) hn of None \<Rightarrow> 0
     | Some d \<Rightarrow> (case map_of d ct of Some n \<Rightarrow> n | None \<Rightarrow> 0))"

definition free_of :: "pool \<Rightarrow> string \<Rightarrow> string \<Rightarrow> rat option" where
  "free_of p hn res = (case map_of (p_hosts p) hn of None \<Rightarrow> None
     | Some h \<Rightarrow> map_option q_free (map_of (h_quota h) res))"

definition slot_of :: "pool \<Rightarrow> string \<Rightarrow> string \<Rightarrow> slot option" where
  "slot_of p hn dn = (case map_of (p_ledger p) hn of None \<Rightarrow> None | Some ss \<Rightarrow> map_of ss dn)"

definition asked :: "policy \<Rightarrow> ctype \<Rightarrow> string \<Rightarrow> rat" where
  "asked y ct res = (case rbind (spec_of y ct) (\<lambda>c. need c (lkey res (y_key y))) of
     Inr x \<Rightarrow> x | Inl e \<Rightarrow> 0)"

definition bump :: "string \<Rightarrow> ctype \<Rightarrow> (ctype \<times> int) list dict \<Rightarrow> (ctype \<times> int) list dict" where
  "bump hn ct a = (case map_of a hn of None \<Rightarrow> a
     | Some d \<Rightarrow> AList.update hn (AList.update ct ((case map_of d ct of Some n \<Rightarrow> n | None \<Rightarrow> 0) + 1) d) a)"

definition assigned_total :: "pool \<Rightarrow> int" where
  "assigned_total p = sum_list (map (\<lambda>(hn, d). sum_list (map snd d)) (p_assign p))"

definition slot_fits :: "rat \<Rightarrow> rat \<Rightarrow> slot \<Rightarrow> bool" where
  "slot_fits r w s \<longleftrightarrow> r \<le> s_read s \<and> w \<le> s_write s \<and> r + w \<le> s_total s"

text \<open>The resources a policy subtracts from the host when it places a container there.\<close>

definition cpu_mem :: "string set" where
  "cpu_mem = {''cpu'', ''mem''}"

section \<open>One placement\<close>

definition slots_after :: "policy \<Rightarrow> ctype \<Rightarrow> string \<Rightarrow> pool \<Rightarrow> pool \<Rightarrow> bool" where
  "slots_after y ct hn p p' \<longleftrightarrow>
     (if ct \<noteq> RmNn \<and> y_disks y
      then \<exists>dn s. slot_of p hn dn = Some s \<and>
        slot_fits (asked y ct ''disk_read'') (asked y ct ''disk_write'') s \<and>
        (\<forall>g d. slot_of p' g d =
          (if g = hn \<and> d = dn then Some (use_slot (asked y ct ''disk_read'') (asked y ct ''disk_write'') s)
           else slot_of p g d))
      else \<forall>g d. slot_of p' g d = slot_of p g d)"

lemma slots_afterI:
  "ct \<noteq> RmNn \<Longrightarrow> y_disks y \<Longrightarrow> slot_of p hn dn = Some s \<Longrightarrow>
   slot_fits (asked y ct ''disk_read'') (asked y ct ''disk_write'') s \<Longrightarrow>
   (\<And>g d. slot_of p' g d =
     (if g = hn \<and> d = dn then Some (use_slot (asked y ct ''disk_read'') (asked y ct ''disk_write'') s)
      else slot_of p g d)) \<Longrightarrow> slots_after y ct hn p p'"
  by (simp add: slots_after_def) blast

definition has_room :: "policy \<Rightarrow> ctype \<Rightarrow> string \<Rightarrow> pool \<Rightarrow> bool" where
  "has_room y ct hn p \<longleftrightarrow>
     (\<forall>res \<in> set (resources_to_check y). \<exists>f. free_of p hn res = Some f \<and> asked y ct res \<le> f)"

definition placed :: "string set \<Rightarrow> policy \<Rightarrow> ctype \<Rightarrow> string \<Rightarrow> pool \<Rightarrow> pool \<Rightarrow> bool" where
  "placed charged y ct hn p p' \<longleftrightarrow>
     0 < p_todo p ct \<and> p_todo p' = (p_todo p)(ct := p_todo p ct - 1) \<and>
     has_key (p_assign p) hn \<and> p_assign p' = bump hn ct (p_assign p) \<and>
     keys_of (p_hosts p') = keys_of (p_hosts p) \<and>
     has_room y ct hn p \<and>
     (\<forall>res g. free_of p' g res =
        map_option (\<lambda>f. f - (if g = hn \<and> res \<in> charged then asked y ct res else 0)) (free_of p g res)) \<and>
     slots_after y ct hn p p'"

definition placement :: "string set \<Rightarrow> policy \<Rightarrow> pool \<Rightarrow> pool \<Rightarrow> bool" where
  "placement charged y p p' \<longleftrightarrow> (\<exists>ct hn. placed charged y ct hn p p')"

section \<open>The contract of a policy\<close>

lemma sum_list_update:
  "sum_list (map snd (AList.update k v d)) =
     sum_list (map snd d) + v - (case map_of d k of Some n \<Rightarrow> n | None \<Rightarrow> (0 :: int))"
  by (induction d) (auto split: option.splits)

lemma bump_total:
  "has_key a hn \<Longrightarrow> sum_list (map (\<lambda>(hn, d). sum_list (map snd d)) (bump hn ct a)) =
     sum_list (map (\<lambda>(hn, d). sum_list (map snd d)) a) + 1"
proof -
  have upd: "sum_list (map (\<lambda>(hn, d). sum_list (map snd d)) (AList.update hn e b)) =
      sum_list (map (\<lambda>(hn, d). sum_list (map snd d)) b) + sum_list (map snd e) - sum_list (map snd d)"
    if "map_of b hn = Some d" for b d and e :: "(ctype \<times> int) list"
    using that by (induction b) (auto split: if_splits)
  assume "has_key a hn"
  then obtain d where "map_of a hn = Some d" by (auto simp: has_key_def)
  then show ?thesis by (simp add: bump_def upd sum_list_update split: option.splits)
qed

lemma count_of_bump:
  "has_key (p_assign p) hn \<Longrightarrow> p_assign p' = bump hn ct (p_assign p) \<Longrightarrow>
   count_of p' g t = count_of p g t + (if g = hn \<and> t = ct then 1 else 0)"
  by (auto simp: count_of_def bump_def has_key_def split: option.splits)

lemma placed_conserves:
  assumes "placed rs y ct hn p p'"
  shows "containersNotAllocated p' + assigned_total p' = containersNotAllocated p + assigned_total p"
proof -
  have "containersNotAllocated p' = containersNotAllocated p - 1"
    using assms by (cases ct) (auto simp: placed_def containersNotAllocated_def ctypes_def)
  moreover have "assigned_total p' = assigned_total p + 1"
    using assms bump_total by (auto simp: placed_def assigned_total_def)
  ultimately show ?thesis by simp
qed

lemma placed_todo_nonneg: "placed rs y ct hn p p' \<Longrightarrow> 0 \<le> p_todo p t \<Longrightarrow> 0 \<le> p_todo p' t"
  by (auto simp: placed_def)

definition used_since :: "policy \<Rightarrow> pool \<Rightarrow> pool \<Rightarrow> string \<Rightarrow> string \<Rightarrow> rat" where
  "used_since y p p' hn res =
     (\<Sum>ct \<in> UNIV. of_int (count_of p' hn ct - count_of p hn ct) * asked y ct res)"

lemma placed_used:
  assumes "placed rs y ct hn p p'"
  shows "used_since y q p' g res = used_since y q p g res + (if g = hn then asked y ct res else 0)"
proof -
  have c: "count_of p' g t = count_of p g t + (if g = hn \<and> t = ct then 1 else 0)" for t
    using assms count_of_bump by (auto simp: placed_def)
  have "used_since y q p' g res =
      (\<Sum>t \<in> UNIV. of_int (count_of p g t - count_of q g t) * asked y t res
         + (if t = ct then (if g = hn then asked y ct res else 0) else 0))"
    unfolding used_since_def c by (intro sum.cong) (auto simp: algebra_simps)
  then show ?thesis
    by (simp add: sum.distrib used_since_def)
qed

text \<open>The counts of one host are non-negative and kept once per type.\<close>

definition counts_wf :: "(ctype \<times> int) list dict \<Rightarrow> bool" where
  "counts_wf a \<longleftrightarrow> (\<forall>(hn, d) \<in> set a. distinct (map fst d) \<and> (\<forall>(ct, n) \<in> set d. 0 \<le> n))"

lemma set_AList_update: "set (AList.update k v d) \<subseteq> insert (k, v) (set d)"
  by (induction d) auto

lemma counts_wf_bump: "counts_wf a \<Longrightarrow> counts_wf (bump hn ct a)"
proof (cases "map_of a hn")
  case (Some d)
  assume wf: "counts_wf a"
  let ?n = "(case map_of d ct of Some n \<Rightarrow> n | None \<Rightarrow> 0) + 1"
  have d: "distinct (map fst d)" "\<forall>(t, n) \<in> set d. 0 \<le> n"
    using wf map_of_SomeD [OF Some] by (auto simp: counts_wf_def)
  then have "0 \<le> ?n" by (auto split: option.splits dest!: map_of_SomeD)
  then have "distinct (map fst (AList.update ct ?n d))" "\<forall>(t, n) \<in> set (AList.update ct ?n d). 0 \<le> n"
    using d set_AList_update [of ct ?n d] by (auto simp: distinct_update)
  with wf Some set_AList_update [of hn "AList.update ct ?n d" a] show ?thesis
    unfolding counts_wf_def bump_def by fastforce
qed (simp add: bump_def)

lemma placed_counts_wf:
  "placed rs y ct hn p p' \<Longrightarrow> counts_wf (p_assign p) \<Longrightarrow> counts_wf (p_assign p')"
  by (simp add: placed_def counts_wf_bump)

definition disks_nonneg :: "pool \<Rightarrow> bool" where
  "disks_nonneg p \<longleftrightarrow> (\<forall>hn dn s. slot_of p hn dn = Some s \<longrightarrow>
     0 \<le> s_read s \<and> 0 \<le> s_write s \<and> 0 \<le> s_total s)"

lemma placed_disks_nonneg: "placed rs y ct hn p p' \<Longrightarrow> disks_nonneg p \<Longrightarrow> disks_nonneg p'"
  unfolding placed_def slots_after_def disks_nonneg_def
  by (auto simp: slot_fits_def use_slot_def split: if_splits)

locale allocator =
  fixes inv :: "policy \<Rightarrow> pool \<Rightarrow> bool"
    and charged :: "policy \<Rightarrow> string set"
    and run :: "policy \<Rightarrow> string list \<Rightarrow> pool \<Rightarrow> pool result"
  assumes run_placements: "inv y p \<Longrightarrow> run y hns p = Inr p' \<Longrightarrow> (placement (charged y) y)\<^sup>*\<^sup>* p p'"
begin

lemma run_keeps:
  assumes "inv y p" "run y hns p = Inr p'" "I p"
    and "\<And>ct hn q q'. placed (charged y) y ct hn q q' \<Longrightarrow> I q \<Longrightarrow> I q'"
  shows "I p'"
  using run_placements [OF assms(1,2)] assms(3)
  by (induction rule: rtranclp_induct) (auto simp: placement_def intro: assms(4))

lemma conserved:
  assumes "inv y p" "run y hns p = Inr p'"
  shows "containersNotAllocated p' + assigned_total p' = containersNotAllocated p + assigned_total p"
  by (rule run_keeps [OF assms]) (simp_all add: placed_conserves)

lemma todo_nonneg:
  assumes "inv y p" "run y hns p = Inr p'" "\<forall>ct. 0 \<le> p_todo p ct"
  shows "\<forall>ct. 0 \<le> p_todo p' ct"
  by (rule run_keeps [OF assms(1,2), of "\<lambda>q. \<forall>ct. 0 \<le> p_todo q ct"])
    (use assms(3) placed_todo_nonneg in \<open>blast+\<close>)

lemma counts_kept:
  assumes "inv y p" "run y hns p = Inr p'" "counts_wf (p_assign p)"
  shows "counts_wf (p_assign p')"
  by (rule run_keeps [OF assms(1,2), of "\<lambda>q. counts_wf (p_assign q)"])
    (use assms(3) placed_counts_wf in \<open>blast+\<close>)

lemma same_hosts:
  assumes "inv y p" "run y hns p = Inr p'"
  shows "keys_of (p_hosts p') = keys_of (p_hosts p)"
  by (rule run_keeps [OF assms]) (simp_all add: placed_def)

lemma accounting:
  assumes "inv y p" "run y hns p = Inr p'"
  shows "free_of p' g res =
    map_option (\<lambda>f. f - (if res \<in> charged y then used_since y p p' g res else 0)) (free_of p g res)"
proof (rule run_keeps [OF assms(1,2), of "\<lambda>q. free_of q g res =
    map_option (\<lambda>f. f - (if res \<in> charged y then used_since y p q g res else 0)) (free_of p g res)"])
  show "free_of p g res =
    map_option (\<lambda>f. f - (if res \<in> charged y then used_since y p p g res else 0)) (free_of p g res)"
    by (simp add: used_since_def option.map_ident)
next
  fix ct hn q q'
  assume q': "placed (charged y) y ct hn q q'"
    and q: "free_of q g res =
      map_option (\<lambda>f. f - (if res \<in> charged y then used_since y p q g res else 0)) (free_of p g res)"
  have "free_of q' g res =
      map_option (\<lambda>f. f - (if g = hn \<and> res \<in> charged y then asked y ct res else 0)) (free_of q g res)"
    using q' by (simp add: placed_def)
  with q placed_used [OF q']
  show "free_of q' g res =
      map_option (\<lambda>f. f - (if res \<in> charged y then used_since y p q' g res else 0)) (free_of p g res)"
    by (simp add: option.map_comp comp_def algebra_simps)
qed

lemma free_nonneg:
  assumes "inv y p" "run y hns p = Inr p'" "res \<in> set (resources_to_check y)"
    and "\<forall>f. free_of p g res = Some f \<longrightarrow> 0 \<le> f"
  shows "\<forall>f. free_of p' g res = Some f \<longrightarrow> 0 \<le> f"
proof (rule run_keeps [OF assms(1,2), of "\<lambda>q. \<forall>f. free_of q g res = Some f \<longrightarrow> 0 \<le> f"])
  fix ct hn q q'
  assume "placed (charged y) y ct hn q q'" "\<forall>f. free_of q g res = Some f \<longrightarrow> 0 \<le> f"
  with assms(3) show "\<forall>f. free_of q' g res = Some f \<longrightarrow> 0 \<le> f"
    by (fastforce simp: placed_def has_room_def split: if_splits)
qed (fact assms(4))

lemma disks_kept:
  assumes "inv y p" "run y hns p = Inr p'" "disks_nonneg p"
  shows "disks_nonneg p'"
  by (rule run_keeps [OF assms(1,2), of disks_nonneg])
    (use assms(3) placed_disks_nonneg in \<open>blast+\<close>)

text \<open>No host is given more of a charged resource than it had free.\<close>

lemma within_capacity:
  assumes "inv y p" "run y hns p = Inr p'"
    and "res \<in> set (resources_to_check y)" "res \<in> charged y"
    and "free_of p g res = Some f" "0 \<le> f"
  shows "used_since y p p' g res \<le> f"
  using accounting [OF assms(1,2), of g res] free_nonneg [OF assms(1-3), of g] assms(4-6) by simp

end

section \<open>The updates, seen through the views\<close>

lemma free_of_charge:
  assumes "charge hn res x p = Inr p'"
  shows "free_of p' g r = map_option (\<lambda>f. f - (if g = hn \<and> r = res then x else 0)) (free_of p g r)"
  using assms
  by (auto simp: charge_def free_of_def item_eq option.map_comp comp_def option.map_ident
      elim!: rbindE split: option.splits if_splits)

lemma charge_rest:
  assumes "charge hn res x p = Inr p'"
  shows "p_assign p' = p_assign p" "p_ledger p' = p_ledger p" "p_todo p' = p_todo p"
    "keys_of (p_hosts p') = keys_of (p_hosts p)"
  using assms
  by (auto simp: charge_def item_eq keys_of_update has_key_def elim!: rbindE)

lemma charge_all_views:
  assumes "charge_all hn c key rs p = Inr p'"
  shows "p_assign p' = p_assign p \<and> p_ledger p' = p_ledger p \<and> p_todo p' = p_todo p \<and>
    keys_of (p_hosts p') = keys_of (p_hosts p)"
  using assms by (induction rs arbitrary: p) (auto simp: charge_rest elim!: rbindE)

lemma need_asked: "spec_of y ct = Inr c \<Longrightarrow> need c (lkey res (y_key y)) = Inr x \<Longrightarrow> asked y ct res = x"
  by (simp add: asked_def)

lemma charge_all_free:
  assumes "charge_all hn c (y_key y) rs p = Inr p'" "spec_of y ct = Inr c" "distinct rs"
  shows "free_of p' g r =
    map_option (\<lambda>f. f - (if g = hn \<and> r \<in> set rs then asked y ct r else 0)) (free_of p g r)"
  using assms
proof (induction rs arbitrary: p)
  case Nil
  then show ?case by (simp add: option.map_ident)
next
  case (Cons res rs)
  from Cons.prems obtain x q where x: "need c (lkey res (y_key y)) = Inr x" and
    q: "charge hn res x p = Inr q" and rest: "charge_all hn c (y_key y) rs q = Inr p'"
    by (auto elim!: rbindE)
  from x Cons.prems have "asked y ct res = x" by (simp add: need_asked)
  with Cons.IH [OF rest] Cons.prems free_of_charge [OF q, of g r] show ?case
    by (auto simp: option.map_comp comp_def)
qed

lemma free_of_take_slot: "take_slot hn dn r w p = Inr p' \<Longrightarrow>
    p_hosts p' = p_hosts p \<and> p_assign p' = p_assign p \<and> p_todo p' = p_todo p"
  by (auto simp: take_slot_def elim!: rbindE)

lemma slot_of_take_slot:
  assumes "take_slot hn dn r w p = Inr p'"
  shows "\<exists>s. slot_of p hn dn = Some s \<and> (\<forall>g d. slot_of p' g d =
    (if g = hn \<and> d = dn then Some (use_slot r w s) else slot_of p g d))"
  using assms by (auto simp: take_slot_def slot_of_def item_eq elim!: rbindE)

lemma free_of_take_disk:
  "take_disk hn dn r w p = Inr p' \<Longrightarrow> free_of p' g res = free_of p g res"
  by (auto simp: take_disk_def free_of_def item_eq elim!: rbindE split: option.splits if_splits)

lemma take_disk_rest:
  "take_disk hn dn r w p = Inr p' \<Longrightarrow>
   p_ledger p' = p_ledger p \<and> p_assign p' = p_assign p \<and> p_todo p' = p_todo p \<and>
   keys_of (p_hosts p') = keys_of (p_hosts p)"
  by (auto simp: take_disk_def item_eq keys_of_update has_key_def elim!: rbindE split: option.splits)

lemma count_container_views:
  "count_container hn ct p = Inr p' \<Longrightarrow>
   has_key (p_assign p) hn \<and> p_assign p' = bump hn ct (p_assign p) \<and> p_hosts p' = p_hosts p \<and>
   p_ledger p' = p_ledger p \<and> p_todo p' = (p_todo p)(ct := p_todo p ct - 1)"
  by (auto simp: count_container_def bump_def item_eq has_key_def elim!: rbindE)

lemma checkAvailableResources_fits:
  assumes "checkAvailableResources h c rs (y_key y) = Inr True" "spec_of y ct = Inr c" "res \<in> set rs"
  shows "\<exists>q. map_of (h_quota h) res = Some q \<and> asked y ct res \<le> q_free q"
  using assms
proof (induction rs)
  case (Cons r rs)
  show ?case
  proof (cases "res = r")
    case True
    with Cons.prems have "ltR (free_quota h r) (need c (lkey r (y_key y))) = Inr False"
      by (auto elim!: rbindE split: if_splits)
    then obtain f x where "free_quota h r = Inr f" "need c (lkey r (y_key y)) = Inr x" "x \<le> f"
      by (auto simp: ltR_False)
    with True Cons.prems show ?thesis
      by (auto simp: free_quota_def item_eq need_asked elim!: rbindE)
  next
    case False
    with Cons show ?thesis by (auto elim!: rbindE split: if_splits)
  qed
qed simp

lemma first_disk_fits:
  assumes "first_disk ss c (y_key y) = Inr (Some dn)" "spec_of y ct = Inr c" "distinct (map fst ss)"
  shows "\<exists>s. map_of ss dn = Some s \<and> slot_fits (asked y ct ''disk_read'') (asked y ct ''disk_write'') s"
  using assms
proof (induction ss)
  case (Cons p ss)
  obtain n s where p: "p = (n, s)" by (cases p)
  from Cons.prems(1) p obtain ok where ok: "checkAvailableDisk s c (y_key y) = Inr ok"
    and rest: "(if ok then Inr (Some n) else first_disk ss c (y_key y)) = Inr (Some dn)"
    by (auto elim!: rbindE)
  show ?case
  proof (cases ok)
    case True
    with ok rest Cons.prems p show ?thesis
      by (auto simp: checkAvailableDisk_def slot_fits_def need_asked elim!: rbindE)
  next
    case False
    with rest Cons p obtain t where "map_of ss dn = Some t"
      "slot_fits (asked y ct ''disk_read'') (asked y ct ''disk_write'') t" by auto
    with Cons.prems p show ?thesis by (force dest: map_of_SomeD)
  qed
qed simp

end
