(* ===== verification/Policies.thy ===== *)
theory Policies
  imports Placement
begin

text \<open>
  Fill-up, Cyclic and Best-effort keep the contract \<open>allocator\<close>.  Fill-up reads free bandwidth
  from the ledger alone; the other two pick a disk from the host object, so they need the ledger
  and the host objects to agree, which they preserve.
\<close>

section \<open>Fill-up\<close>

definition ledger_ok :: "pool \<Rightarrow> bool" where
  "ledger_ok p \<longleftrightarrow> (\<forall>hn ss. map_of (p_ledger p) hn = Some ss \<longrightarrow> distinct (map fst ss))"

lemma map_fst_AList_update:
  "distinct (map fst d) \<Longrightarrow> distinct (map fst (AList.update k v d))"
  by (rule distinct_update)

lemma ledger_ok_take_slot: "take_slot hn dn r w p = Inr p' \<Longrightarrow> ledger_ok p \<Longrightarrow> ledger_ok p'"
  by (auto simp: take_slot_def ledger_ok_def item_eq elim!: rbindE intro!: map_fst_AList_update
      split: if_splits)

lemma available_on_room:
  assumes "available_on y hn ct p = Inr True" "spec_of y ct = Inr c"
  shows "has_room y ct hn p"
proof -
  obtain h where h: "map_of (p_hosts p) hn = Some h"
    and a: "checkAvailableResources h c (resources_to_check y) (y_key y) = Inr True"
    using assms by (auto simp: available_on_def item_eq andR_True elim!: rbindE split: if_splits)
  show ?thesis
    unfolding has_room_def
  proof
    fix res assume "res \<in> set (resources_to_check y)"
    from checkAvailableResources_fits [OF a assms(2) this] h
    show "\<exists>f. free_of p hn res = Some f \<and> asked y ct res \<le> f" by (auto simp: free_of_def)
  qed
qed

lemma available_on_slot:
  assumes "available_on y hn ct p = Inr True" "ct \<noteq> RmNn \<and> y_disks y" "spec_of y ct = Inr c"
  shows "\<exists>ss dn. map_of (p_ledger p) hn = Some ss \<and> first_disk ss c (y_key y) = Inr (Some dn)"
  using assms by (auto simp: available_on_def any_disk_def item_eq andR_True elim!: rbindE split: if_splits)

lemma fill_try_placed:
  assumes "fill_try y hn ct p = Inr (Some p')" "0 < p_todo p ct" "ledger_ok p"
  shows "placed cpu_mem y ct hn p p' \<and> ledger_ok p'"
proof -
  from assms(1) obtain c p1 p2 where av: "available_on y hn ct p = Inr True"
    and c: "spec_of y ct = Inr c"
    and p1: "count_container hn ct p = Inr p1"
    and p2: "charge_all hn c (y_key y) [''cpu'', ''mem''] p1 = Inr p2"
    and p3: "(if ct \<noteq> RmNn \<and> y_disks y then fill_disk hn c (y_key y) p2 else Inr p2) = Inr p'"
    by (auto simp: fill_try_def elim!: rbindE split: if_splits)
  note v1 = count_container_views [OF p1] and v2 = charge_all_views [OF p2]
  have led: "p_ledger p2 = p_ledger p" using v1 v2 by simp
  have v3: "p_hosts p' = p_hosts p2 \<and> p_assign p' = p_assign p2 \<and> p_todo p' = p_todo p2
      \<and> slots_after y ct hn p p' \<and> ledger_ok p'"
  proof (cases "ct \<noteq> RmNn \<and> y_disks y")
    case True
    from available_on_slot [OF av True c] obtain ss dn where
      ss: "map_of (p_ledger p) hn = Some ss" "first_disk ss c (y_key y) = Inr (Some dn)" by blast
    from p3 True ss led obtain r w where rw: "need c (lkey ''disk_read'' (y_key y)) = Inr r"
      "need c (lkey ''disk_write'' (y_key y)) = Inr w" and t: "take_slot hn dn r w p2 = Inr p'"
      by (auto simp: fill_disk_def item_def elim!: rbindE)
    have a: "asked y ct ''disk_read'' = r" "asked y ct ''disk_write'' = w"
      using rw c by (simp_all add: need_asked)
    have "distinct (map fst ss)" using assms(3) ss by (simp add: ledger_ok_def)
    from first_disk_fits [OF ss(2) c this] ss a
    have "\<exists>s. slot_of p hn dn = Some s \<and> slot_fits r w s" by (auto simp: slot_of_def)
    moreover have "slot_of p2 = slot_of p" using led by (simp add: slot_of_def fun_eq_iff)
    moreover have "ledger_ok p'"
      using ledger_ok_take_slot [OF t] assms(3) led by (simp add: ledger_ok_def)
    ultimately show ?thesis
      using True slot_of_take_slot [OF t] free_of_take_slot [OF t] a
      by (auto simp: slots_after_def)
  next
    case False
    with p3 led assms(3) show ?thesis by (auto simp: slots_after_def slot_of_def ledger_ok_def)
  qed
  have free1: "free_of p1 = free_of p" using v1 by (simp add: free_of_def fun_eq_iff)
  have free: "\<forall>res g. free_of p' g res =
        map_option (\<lambda>f. f - (if g = hn \<and> res \<in> cpu_mem then asked y ct res else 0)) (free_of p g res)"
    using charge_all_free [OF p2 c] v3 by (simp add: free1 cpu_mem_def free_of_def)
  show ?thesis
    unfolding placed_def
    using v1 v2 v3 free available_on_room [OF av c] assms(2) by auto
qed

lemma fill_type_placements:
  "fill_type y hn ct p = Inr p' \<Longrightarrow> ledger_ok p \<Longrightarrow> (placement cpu_mem y)\<^sup>*\<^sup>* p p' \<and> ledger_ok p'"
proof (induction y hn ct p rule: fill_type.induct)
  case (1 y hn ct p)
  show ?case
  proof (cases "0 < p_todo p ct")
    case True
    with 1 obtain r where r: "fill_try y hn ct p = Inr r"
      by (auto simp: fill_type.simps [of y hn ct p] elim!: rbindE)
    show ?thesis
    proof (cases r)
      case None
      with r True 1 show ?thesis by (auto simp: fill_type.simps [of y hn ct p])
    next
      case (Some q)
      with r True 1 have "fill_type y hn ct q = Inr p'" by (simp add: fill_type.simps [of y hn ct p])
      moreover have q: "placed cpu_mem y ct hn p q" "ledger_ok q"
        using fill_try_placed [of y hn ct p q] r Some True "1.prems" by blast+
      ultimately have "(placement cpu_mem y)\<^sup>*\<^sup>* q p' \<and> ledger_ok p'"
        using "1.IH" [OF True r Some] by blast
      with q show ?thesis by (meson converse_rtranclp_into_rtranclp placement_def)
    qed
  next
    case False
    with 1 show ?thesis by (simp add: fill_type.simps [of y hn ct p])
  qed
qed

lemma fill_types_placements:
  "foldR (fill_type y hn) cts p = Inr p' \<Longrightarrow> ledger_ok p \<Longrightarrow> (placement cpu_mem y)\<^sup>*\<^sup>* p p' \<and> ledger_ok p'"
proof (induction cts arbitrary: p)
  case (Cons ct cts)
  then show ?case by (auto elim!: rbindE dest!: fill_type_placements) (meson rtranclp_trans)
qed simp

lemma assign_fill_up_placements:
  "assign_fill_up y hns p = Inr p' \<Longrightarrow> ledger_ok p \<Longrightarrow> (placement cpu_mem y)\<^sup>*\<^sup>* p p'"
proof (induction hns arbitrary: p)
  case (Cons hn hns)
  show ?case
  proof (cases "containersNotAllocated p \<le> 0")
    case False
    with Cons.prems obtain q where q: "foldR (fill_type y hn) ctypes p = Inr q"
      "assign_fill_up y hns q = Inr p'" by (auto elim!: rbindE)
    with fill_types_placements [OF q(1)] Cons show ?thesis by (meson rtranclp_trans)
  qed (use Cons in simp)
qed simp

interpretation fill_up: allocator "\<lambda>y. ledger_ok" "\<lambda>y. cpu_mem" assign_fill_up
  by unfold_locales (rule assign_fill_up_placements)

section \<open>Cyclic\<close>

definition hosts_ok :: "pool \<Rightarrow> bool" where
  "hosts_ok p \<longleftrightarrow> distinct (keys_of (p_hosts p)) \<and>
     (\<forall>n h. map_of (p_hosts p) n = Some h \<longrightarrow>
        h_name h = n \<and> (\<forall>ds. h_disks h = Some ds \<longrightarrow> distinct (map fst ds)))"

definition disk_bw :: "disk \<Rightarrow> rat \<times> rat \<times> rat" where
  "disk_bw d = (d_free_read d, d_free_write d, disk_total_free d)"

definition host_bw :: "pool \<Rightarrow> string \<Rightarrow> string \<Rightarrow> (rat \<times> rat \<times> rat) option" where
  "host_bw p hn dn = (case map_of (p_hosts p) hn of None \<Rightarrow> None
     | Some h \<Rightarrow> (case h_disks h of None \<Rightarrow> None | Some ds \<Rightarrow> map_option disk_bw (map_of ds dn)))"

definition slot_bw :: "pool \<Rightarrow> string \<Rightarrow> string \<Rightarrow> (rat \<times> rat \<times> rat) option" where
  "slot_bw p hn dn = map_option (\<lambda>s. (s_read s, s_write s, s_total s)) (slot_of p hn dn)"

definition synced :: "pool \<Rightarrow> bool" where
  "synced p \<longleftrightarrow> (\<forall>hn dn. host_bw p hn dn = slot_bw p hn dn)"

definition pool_ok :: "policy \<Rightarrow> pool \<Rightarrow> bool" where
  "pool_ok y p \<longleftrightarrow> ledger_ok p \<and> hosts_ok p \<and> (y_disks y \<longrightarrow> synced p)"

lemma disk_bw_use: "disk_bw (use_disk r w d) =
    (d_free_read d - r, d_free_write d - w, disk_total_free d - (r + w))"
  by (simp add: disk_bw_def use_disk_def disk_total_free_def disk_total_max_def Let_def)

lemma hosts_ok_charge: "charge hn res x p = Inr p' \<Longrightarrow> hosts_ok p \<Longrightarrow> hosts_ok p'"
  by (auto simp: charge_def hosts_ok_def item_eq distinct_keys_update elim!: rbindE split: if_splits)

lemma host_bw_charge: "charge hn res x p = Inr p' \<Longrightarrow> host_bw p' = host_bw p"
  by (auto simp: charge_def host_bw_def item_eq fun_eq_iff elim!: rbindE)

lemma charge_all_ok:
  "charge_all hn c key rs p = Inr p' \<Longrightarrow> hosts_ok p \<Longrightarrow> hosts_ok p' \<and> host_bw p' = host_bw p"
proof (induction rs arbitrary: p)
  case (Cons r rs)
  then obtain x q where "charge hn r x p = Inr q" "charge_all hn c key rs q = Inr p'"
    by (auto elim!: rbindE)
  with Cons hosts_ok_charge [of hn r x p q] host_bw_charge [of hn r x p q] show ?case by auto
qed simp

lemma charge_all_pool_ok: "charge_all hn c key rs p = Inr p' \<Longrightarrow> pool_ok y p \<Longrightarrow> pool_ok y p'"
  using charge_all_ok [of hn c key rs p p'] charge_all_views [of hn c key rs p p']
  by (auto simp: pool_ok_def ledger_ok_def synced_def slot_bw_def slot_of_def)

lemma count_container_pool_ok: "count_container hn ct p = Inr p' \<Longrightarrow> pool_ok y p \<Longrightarrow> pool_ok y p'"
  using count_container_views [of hn ct p p']
  by (auto simp: pool_ok_def ledger_ok_def hosts_ok_def synced_def slot_bw_def slot_of_def host_bw_def)

lemma getFreestDisk_lookup:
  "getFreestDisk h r w = Some dn \<Longrightarrow> h_disks h = Some ds \<Longrightarrow> distinct (map fst ds) \<Longrightarrow>
   \<exists>d. map_of ds dn = Some d \<and> disk_suits d r w"
  using getFreestDisk_suits [of h r w dn] by (auto simp: map_of_eq_Some_iff)

lemma assign_freest_disk_takes:
  assumes "assign_freest_disk hn c (y_key y) p = Inr (Some p')" "pool_ok y p" "y_disks y"
    and "spec_of y ct = Inr c" "ct \<noteq> RmNn"
  shows "slots_after y ct hn p p' \<and> pool_ok y p' \<and> p_assign p' = p_assign p \<and>
    p_todo p' = p_todo p \<and> keys_of (p_hosts p') = keys_of (p_hosts p) \<and>
    (\<forall>g res. free_of p' g res = free_of p g res)"
proof -
  from assms(1) obtain h r w dn p1 where h: "map_of (p_hosts p) hn = Some h"
    and rw: "need c (lkey ''disk_read'' (y_key y)) = Inr r" "need c (lkey ''disk_write'' (y_key y)) = Inr w"
    and dn: "getFreestDisk h r w = Some dn"
    and p1: "take_slot hn dn r w p = Inr p1" and p2: "take_disk hn dn r w p1 = Inr p'"
    by (auto simp: assign_freest_disk_def item_eq elim!: rbindE split: option.splits)
  from dn obtain ds where ds: "h_disks h = Some ds"
    by (auto simp: getFreestDisk_def split: option.splits)
  from assms(2) h ds have dist: "distinct (map fst ds)" and sync: "synced p"
    using assms(3) by (auto simp: pool_ok_def hosts_ok_def)
  from getFreestDisk_lookup [OF dn ds dist] obtain d where d: "map_of ds dn = Some d"
    and suits: "disk_suits d r w" by blast
  have a: "asked y ct ''disk_read'' = r" "asked y ct ''disk_write'' = w"
    using rw assms(4) by (simp_all add: need_asked)
  from slot_of_take_slot [OF p1] obtain s where s: "slot_of p hn dn = Some s"
    and s1: "\<forall>g e. slot_of p1 g e = (if g = hn \<and> e = dn then Some (use_slot r w s) else slot_of p g e)"
    by blast
  from sync have "host_bw p hn dn = slot_bw p hn dn" by (simp add: synced_def)
  with h ds d s have bw: "s_read s = d_free_read d" "s_write s = d_free_write d"
    "s_total s = disk_total_free d"
    by (auto simp: host_bw_def slot_bw_def disk_bw_def)
  have slots: "slot_of p' = slot_of p1" using take_disk_rest [OF p2] by (simp add: slot_of_def fun_eq_iff)
  have "slot_fits r w s" using suits bw by (simp add: slot_fits_def disk_suits_def not_less)
  with assms(3,5) s s1 slots a have "slots_after y ct hn p p'"
    by (intro slots_afterI [of _ _ _ _ dn s]) simp_all
  moreover have hosts: "p_hosts p' = AList.update hn (h\<lparr>h_disks := Some (AList.update dn (use_disk r w d) ds)\<rparr>) (p_hosts p)"
    using p2 free_of_take_slot [OF p1] h ds d
    by (auto simp: take_disk_def item_def elim!: rbindE)
  moreover have "hosts_ok p'"
    using assms(2) h ds dist hosts
    by (auto simp: pool_ok_def hosts_ok_def distinct_keys_update map_fst_AList_update)
  moreover have "ledger_ok p'"
    using ledger_ok_take_slot [OF p1] take_disk_rest [OF p2] assms(2)
    by (simp add: ledger_ok_def pool_ok_def)
  moreover have "host_bw p' g e = slot_bw p' g e" for g e
  proof (cases "g = hn \<and> e = dn")
    case True
    then show ?thesis using hosts slots s1 bw
      by (simp add: host_bw_def slot_bw_def disk_bw_use use_slot_def)
  next
    case False
    then have "slot_bw p' g e = slot_bw p g e" using slots s1 by (auto simp: slot_bw_def)
    moreover have "host_bw p' g e = host_bw p g e" using False hosts h ds by (auto simp: host_bw_def)
    ultimately show ?thesis using sync by (simp add: synced_def)
  qed
  moreover have "free_of p' g res = free_of p g res" for g res
    using free_of_take_disk [OF p2, of g res] free_of_take_slot [OF p1] by (simp add: free_of_def)
  ultimately show ?thesis
    using take_disk_rest [OF p2] free_of_take_slot [OF p1] by (simp add: pool_ok_def synced_def)
qed

text \<open>What Cyclic and Best-effort do once host and type are fixed, up to the charged resources.\<close>

lemma place_on_placed:
  assumes "(if ct \<noteq> RmNn \<and> y_disks y then assign_freest_disk hn c (y_key y) p else Inr (Some p)) = Inr (Some p1)"
    and "charge_all hn c (y_key y) rs p1 = Inr p2" and "count_container hn ct p2 = Inr p'"
    and "spec_of y ct = Inr c" "pool_ok y p" "0 < p_todo p ct"
    and "distinct rs" "has_room y ct hn p"
  shows "placed (set rs) y ct hn p p' \<and> pool_ok y p'"
proof -
  have v1: "slots_after y ct hn p p1 \<and> pool_ok y p1 \<and> p_assign p1 = p_assign p \<and>
    p_todo p1 = p_todo p \<and> keys_of (p_hosts p1) = keys_of (p_hosts p) \<and>
    (\<forall>g res. free_of p1 g res = free_of p g res)"
  proof (cases "ct \<noteq> RmNn \<and> y_disks y")
    case True
    with assms assign_freest_disk_takes [of hn c y p p1 ct] show ?thesis by simp
  next
    case False
    with assms show ?thesis by (auto simp: slots_after_def)
  qed
  note v2 = charge_all_views [OF assms(2)] and v3 = count_container_views [OF assms(3)]
  have ok: "pool_ok y p'"
    using v1 charge_all_pool_ok [OF assms(2)] count_container_pool_ok [OF assms(3)] by blast
  have "slot_of p' = slot_of p1" using v2 v3 by (simp add: slot_of_def fun_eq_iff)
  with v1 have slots: "slots_after y ct hn p p'" by (simp add: slots_after_def)
  have "free_of p' = free_of p2" using v3 by (simp add: free_of_def fun_eq_iff)
  with charge_all_free [OF assms(2,4,7)] v1
  have "\<forall>res g. free_of p' g res =
        map_option (\<lambda>f. f - (if g = hn \<and> res \<in> set rs then asked y ct res else 0)) (free_of p g res)"
    by simp
  with v1 v2 v3 slots assms ok show ?thesis unfolding placed_def by simp
qed

lemma cyclic_place_placed:
  assumes "cyclic_place y hn ct p = Inr (Some p')" "available_on y hn ct p = Inr True"
    and "0 < p_todo p ct" "pool_ok y p"
  shows "placed cpu_mem y ct hn p p' \<and> pool_ok y p'"
proof -
  from assms(1) obtain c p1 p2 where c: "spec_of y ct = Inr c"
    and p1: "(if ct \<noteq> RmNn \<and> y_disks y then assign_freest_disk hn c (y_key y) p else Inr (Some p)) = Inr (Some p1)"
    and p2: "charge_all hn c (y_key y) [''cpu'', ''mem''] p1 = Inr p2"
    and p3: "count_container hn ct p2 = Inr p'"
    by (auto simp: cyclic_place_def elim!: rbindE split: option.splits)
  have "set [''cpu'', ''mem''] = cpu_mem" by (simp add: cpu_mem_def)
  with place_on_placed [OF p1 p2 p3 c assms(4,3) _ available_on_room [OF assms(2) c]]
  show ?thesis by simp
qed

lemma cyclic_host_placements:
  "cyclic_host y hn cts p = Inr (b, p') \<Longrightarrow> pool_ok y p \<Longrightarrow> (placement cpu_mem y)\<^sup>*\<^sup>* p p' \<and> pool_ok y p'"
proof (induction cts arbitrary: p)
  case (Cons ct cts)
  show ?case
  proof (cases "0 < p_todo p ct \<and> available_on y hn ct p = Inr True")
    case True
    with Cons.prems obtain r where r: "cyclic_place y hn ct p = Inr r" by (auto elim!: rbindE)
    show ?thesis
    proof (cases r)
      case None
      with Cons.prems True r show ?thesis by auto
    next
      case (Some q)
      with Cons.prems True r have "p' = q" by auto
      with cyclic_place_placed [of y hn ct p q] True r Some Cons.prems show ?thesis
        by (auto simp: placement_def intro!: r_into_rtranclp)
    qed
  next
    case False
    with Cons show ?thesis by (auto elim!: rbindE split: if_splits)
  qed
qed simp

lemma cyclic_round_placements:
  "cyclic_round y hns p = Inr (rest, p') \<Longrightarrow> pool_ok y p \<Longrightarrow> (placement cpu_mem y)\<^sup>*\<^sup>* p p' \<and> pool_ok y p'"
proof (induction hns arbitrary: p rest)
  case (Cons hn hns)
  show ?case
  proof (cases "containersNotAllocated p \<le> 0")
    case False
    with Cons.prems obtain b q rest' where "cyclic_host y hn ctypes p = Inr (b, q)"
      "cyclic_round y hns q = Inr (rest', p')" by (auto elim!: rbindE split: prod.splits)
    with Cons cyclic_host_placements [of y hn ctypes p b q] show ?thesis by (meson rtranclp_trans)
  qed (use Cons in simp)
qed simp

lemma assign_cyclic_placements:
  "assign_cyclic y hns p = Inr p' \<Longrightarrow> pool_ok y p \<Longrightarrow> (placement cpu_mem y)\<^sup>*\<^sup>* p p'"
proof (induction y hns p rule: assign_cyclic.induct)
  case (1 y hns p)
  show ?case
  proof (cases "0 < containersNotAllocated p \<and> hns \<noteq> []")
    case True
    with "1.prems" obtain rest q where q: "cyclic_round y hns p = Inr (rest, q)"
      "assign_cyclic y rest q = Inr p'"
      by (auto simp: assign_cyclic.simps [of y hns p] elim!: rbindE)
    from cyclic_round_placements [OF q(1) "1.prems"(2)] "1.IH" [OF True q(1) refl] q(2) show ?thesis
      by (meson rtranclp_trans)
  next
    case False
    with "1.prems" show ?thesis by (simp add: assign_cyclic.simps [of y hns p] del: neq0_conv split: if_splits)
  qed
qed

interpretation cyclic: allocator pool_ok "\<lambda>y. cpu_mem" assign_cyclic
  by unfold_locales (rule assign_cyclic_placements)

section \<open>Best-effort\<close>

definition cpu_mem_energy :: "policy \<Rightarrow> string set" where
  "cpu_mem_energy y = set (resources_to_check y)"

lemma host_fits_room:
  assumes "host_fits c cd (y_energy y) (y_key y) h" "map_of (p_hosts p) hn = Some h" "spec_of y ct = Inr c"
  shows "has_room y ct hn p"
proof -
  have fits: "\<exists>f. free_of p hn res = Some f \<and> asked y ct res \<le> f" if "fits_quota h c (y_key y) res" for res
    using that assms(2,3)
    by (auto simp: fits_quota_def ltR_False free_quota_def free_of_def item_eq need_asked elim!: rbindE)
  show ?thesis
    using assms(1) by (auto simp: has_room_def host_fits_def resources_to_check_def intro: fits split: if_splits)
qed

lemma best_place_placed:
  assumes "best_place y ct p = Inr (Some p')" "0 < p_todo p ct" "pool_ok y p"
  shows "\<exists>hn. placed (cpu_mem_energy y) y ct hn p p' \<and> pool_ok y p'"
proof -
  from assms(1) obtain c h where c: "spec_of y ct = Inr c"
    and h: "getFreestHost (map snd (p_hosts p)) c (ct \<noteq> RmNn \<and> y_disks y) (y_energy y) (y_key y) = Inr (Some h)"
    and on: "best_on y ct c (h_name h) p = Inr (Some p')"
    by (auto simp: best_place_def elim!: rbindE split: option.splits)
  from on obtain p1 p2 where
    p1: "(if ct \<noteq> RmNn \<and> y_disks y then assign_freest_disk (h_name h) c (y_key y) p else Inr (Some p)) = Inr (Some p1)"
    and p2: "charge_all (h_name h) c (y_key y)
               ((if y_energy y then [''energy''] else []) @ [''cpu'', ''mem'']) p1 = Inr p2"
    and p3: "count_container (h_name h) ct p2 = Inr p'"
    by (auto simp: best_on_def elim!: rbindE split: option.splits)
  from getFreestHost_fits [OF h] have in_pool: "h \<in> snd ` set (p_hosts p)"
    and fits: "host_fits c (ct \<noteq> RmNn \<and> y_disks y) (y_energy y) (y_key y) h" by auto
  from in_pool obtain n where "(n, h) \<in> set (p_hosts p)" by auto
  with assms(3) have look: "map_of (p_hosts p) (h_name h) = Some h"
    by (auto simp: pool_ok_def hosts_ok_def keys_of_def map_of_eq_Some_iff)
  have "placed (cpu_mem_energy y) y ct (h_name h) p p' \<and> pool_ok y p'"
    using place_on_placed [OF p1 p2 p3 c assms(3,2) _ host_fits_room [OF fits look c]]
    by (simp add: cpu_mem_energy_def resources_to_check_def insert_commute)
  then show ?thesis by blast
qed

lemma best_types_placed:
  "best_types y cts p = Inr (Some p') \<Longrightarrow> pool_ok y p \<Longrightarrow> placement (cpu_mem_energy y) y p p' \<and> pool_ok y p'"
proof (induction cts)
  case (Cons ct cts)
  then show ?case using best_place_placed by (fastforce simp: placement_def split: if_splits)
qed simp

lemma assign_best_effort_placements:
  "assign_best_effort y p = Inr p' \<Longrightarrow> pool_ok y p \<Longrightarrow> (placement (cpu_mem_energy y) y)\<^sup>*\<^sup>* p p'"
proof (induction y p rule: assign_best_effort.induct)
  case (1 y p)
  show ?case
  proof (cases "0 < containersNotAllocated p")
    case True
    with "1.prems" obtain r where r: "best_types y ctypes p = Inr r"
      by (auto simp: assign_best_effort.simps [of y p] elim!: rbindE)
    show ?thesis
    proof (cases r)
      case None
      with r True "1.prems" show ?thesis by (simp add: assign_best_effort.simps [of y p])
    next
      case (Some q)
      with r True "1.prems" have "assign_best_effort y q = Inr p'"
        by (simp add: assign_best_effort.simps [of y p])
      with best_types_placed [of y ctypes p q] r Some "1.prems"(2) "1.IH" [OF True r Some] show ?thesis
        by (meson converse_rtranclp_into_rtranclp)
    qed
  next
    case False
    with "1.prems" show ?thesis by (simp add: assign_best_effort.simps [of y p])
  qed
qed

interpretation best_effort: allocator pool_ok cpu_mem_energy "\<lambda>y hns. assign_best_effort y"
  by unfold_locales (rule assign_best_effort_placements)

end
