(* ===== verification/Exhaustion.thy ===== *)
theory Exhaustion
  imports Policies
begin

text \<open>
  When Fill-up and Cyclic give up they are right to: no host they were given has room left for any
  container that is still wanted.  The locale \<open>complete_allocator\<close> extends the contract of a policy
  by this promise.
\<close>

section \<open>Room for a container only shrinks\<close>

definition can_place :: "policy \<Rightarrow> ctype \<Rightarrow> string \<Rightarrow> pool \<Rightarrow> bool" where
  "can_place y ct hn p \<longleftrightarrow> has_room y ct hn p \<and>
     (ct \<noteq> RmNn \<and> y_disks y \<longrightarrow> (\<exists>dn s. slot_of p hn dn = Some s \<and>
        slot_fits (asked y ct ''disk_read'') (asked y ct ''disk_write'') s))"

definition nonneg_asks :: "policy \<Rightarrow> bool" where
  "nonneg_asks y \<longleftrightarrow> (\<forall>ct res. 0 \<le> asked y ct res)"

definition stuck :: "policy \<Rightarrow> ctype \<Rightarrow> string \<Rightarrow> pool \<Rightarrow> bool" where
  "stuck y ct hn p \<longleftrightarrow> (0 < p_todo p ct \<longrightarrow> \<not> can_place y ct hn p)"

lemma placed_can_place:
  assumes "placed rs y t g p p'" "nonneg_asks y" "can_place y ct hn p'"
  shows "can_place y ct hn p"
proof -
  have less: "\<exists>f. free_of p hn res = Some f \<and> f' \<le> f" if "free_of p' hn res = Some f'" for res f'
  proof -
    have "free_of p' hn res = map_option (\<lambda>f. f - (if hn = g \<and> res \<in> rs then asked y t res else 0)) (free_of p hn res)"
      using assms(1) by (simp add: placed_def)
    moreover have "0 \<le> asked y t res" using assms(2) by (simp add: nonneg_asks_def)
    ultimately show ?thesis using that by (cases "free_of p hn res") (auto split: if_splits)
  qed
  have "has_room y ct hn p"
    unfolding has_room_def
  proof
    fix res assume "res \<in> set (resources_to_check y)"
    with assms(3) obtain f' where "free_of p' hn res = Some f'" "asked y ct res \<le> f'"
      by (auto simp: can_place_def has_room_def)
    with less show "\<exists>f. free_of p hn res = Some f \<and> asked y ct res \<le> f" by force
  qed
  moreover have "\<exists>s. slot_of p hn dn = Some s \<and> slot_fits r w s"
    if s': "slot_of p' hn dn = Some s'" "slot_fits r w s'" for dn s' r w
  proof -
    have n: "0 \<le> asked y t ''disk_read''" "0 \<le> asked y t ''disk_write''"
      using assms(2) by (simp_all add: nonneg_asks_def)
    have "slots_after y t g p p'" using assms(1) by (simp add: placed_def)
    then consider "slot_of p' hn dn = slot_of p hn dn"
      | s where "slot_of p hn dn = Some s"
          "slot_of p' hn dn = Some (use_slot (asked y t ''disk_read'') (asked y t ''disk_write'') s)"
      unfolding slots_after_def by (metis (full_types))
    then show ?thesis
    proof cases
      case 2
      with s' n show ?thesis by (auto simp: slot_fits_def use_slot_def)
    next
      case 1
      with s' show ?thesis by metis
    qed
  qed
  ultimately show ?thesis using assms(3) unfolding can_place_def by blast
qed

lemma placed_stuck: "placed rs y t g p p' \<Longrightarrow> nonneg_asks y \<Longrightarrow> stuck y ct hn p \<Longrightarrow> stuck y ct hn p'"
  using placed_can_place [of rs y t g p p' ct hn]
  by (auto simp: stuck_def placed_def split: if_splits)

lemma placements_stuck:
  assumes "(placement rs y)\<^sup>*\<^sup>* p p'" "nonneg_asks y" "stuck y ct hn p"
  shows "stuck y ct hn p'"
  using assms by (induction rule: rtranclp_induct) (auto simp: placement_def intro: placed_stuck)

text \<open>The answer of the availability test, both ways.\<close>

lemma checkAvailableResources_iff:
  assumes "checkAvailableResources h c rs (y_key y) = Inr b" "spec_of y ct = Inr c"
    and "map_of (p_hosts p) hn = Some h"
  shows "b \<longleftrightarrow> (\<forall>res \<in> set rs. \<exists>f. free_of p hn res = Some f \<and> asked y ct res \<le> f)"
  using assms(1)
proof (induction rs)
  case (Cons r rs)
  from Cons.prems obtain lacks where l: "ltR (free_quota h r) (need c (lkey r (y_key y))) = Inr lacks"
    and rest: "(if lacks then Inr False else checkAvailableResources h c rs (y_key y)) = Inr b"
    by (auto elim!: rbindE)
  from l obtain q x where "map_of (h_quota h) r = Some q" "need c (lkey r (y_key y)) = Inr x"
    "lacks \<longleftrightarrow> q_free q < x"
    by (auto simp: ltR_def free_quota_def item_eq elim!: rbindE)
  then have "\<not> lacks \<longleftrightarrow> (\<exists>f. free_of p hn r = Some f \<and> asked y ct r \<le> f)"
    using assms(2,3) by (auto simp: free_of_def need_asked)
  with rest Cons.IH show ?case by (auto split: if_splits)
qed simp

lemma first_disk_iff:
  assumes "first_disk ss c (y_key y) = Inr d" "spec_of y ct = Inr c" "distinct (map fst ss)"
  shows "d \<noteq> None \<longleftrightarrow> (\<exists>dn s. map_of ss dn = Some s \<and>
    slot_fits (asked y ct ''disk_read'') (asked y ct ''disk_write'') s)"
proof (cases d)
  case (Some dn)
  with first_disk_fits assms show ?thesis by blast
next
  case None
  have "\<not> slot_fits (asked y ct ''disk_read'') (asked y ct ''disk_write'') s" if "(m, s) \<in> set ss" for m s
    using assms(1) that unfolding None
  proof (induction ss)
    case (Cons p ss)
    then show ?case using assms(2)
      by (cases p) (auto simp: checkAvailableDisk_def slot_fits_def need_asked elim!: rbindE split: if_splits)
  qed simp
  with None show ?thesis by (auto dest!: map_of_SomeD)
qed

lemma available_on_iff:
  assumes "available_on y hn ct p = Inr b" "ledger_ok p"
  shows "b \<longleftrightarrow> can_place y ct hn p"
proof -
  from assms(1) obtain h c ok where h: "map_of (p_hosts p) hn = Some h" and c: "spec_of y ct = Inr c"
    and ok: "checkAvailableResources h c (resources_to_check y) (y_key y) = Inr ok"
    and b: "(if ct \<noteq> RmNn \<and> y_disks y then andR (Inr ok) (any_disk p hn c (y_key y)) else Inr ok) = Inr b"
    by (auto simp: available_on_def item_eq elim!: rbindE)
  have room: "ok \<longleftrightarrow> has_room y ct hn p"
    using checkAvailableResources_iff [of h c "resources_to_check y" y ok ct p hn, OF ok c h]
    by (simp add: has_room_def)
  show ?thesis
  proof (cases "ok \<and> ct \<noteq> RmNn \<and> y_disks y")
    case True
    with b obtain ss d where ss: "map_of (p_ledger p) hn = Some ss"
      and d: "first_disk ss c (y_key y) = Inr d" "b \<longleftrightarrow> d \<noteq> None"
      by (auto simp: any_disk_def item_eq elim!: rbindE)
    have "distinct (map fst ss)" using ss assms(2) by (simp add: ledger_ok_def)
    from first_disk_iff [OF d(1) c this] d(2) True room ss
    show ?thesis by (simp add: can_place_def slot_of_def)
  next
    case False
    with b room show ?thesis by (auto simp: can_place_def split: if_splits)
  qed
qed

section \<open>The contract\<close>

locale complete_allocator = allocator +
  assumes gives_up: "inv y p \<Longrightarrow> run y hns p = Inr p' \<Longrightarrow> nonneg_asks y \<Longrightarrow>
    0 < containersNotAllocated p' \<Longrightarrow> hn \<in> set hns \<Longrightarrow> stuck y ct hn p'"
begin

lemma nothing_fits:
  assumes "inv y p" "run y hns p = Inr p'" "nonneg_asks y" "0 < containersNotAllocated p'"
  shows "\<exists>ct. 0 < p_todo p' ct \<and> (\<forall>hn \<in> set hns. \<not> can_place y ct hn p')"
proof -
  have "\<exists>ct. 0 < p_todo p' ct"
  proof (rule ccontr)
    assume "\<not> ?thesis"
    then have "sum_list (map (p_todo p') ctypes) \<le> 0"
      by (simp add: ctypes_def not_less add_nonpos_nonpos)
    with assms(4) show False by (simp add: containersNotAllocated_def)
  qed
  with gives_up [OF assms] show ?thesis by (auto simp: stuck_def)
qed

end

section \<open>Fill-up\<close>

lemma fill_type_stuck:
  "fill_type y hn ct p = Inr p' \<Longrightarrow> ledger_ok p \<Longrightarrow> stuck y ct hn p'"
proof (induction y hn ct p rule: fill_type.induct)
  case (1 y hn ct p)
  show ?case
  proof (cases "0 < p_todo p ct")
    case True
    with 1 obtain r where r: "fill_try y hn ct p = Inr r"
      by (auto simp: fill_type.simps [of y hn ct p] elim!: rbindE)
    show ?thesis
    proof (cases r)
      case None
      with r True 1 have "p' = p" by (auto simp: fill_type.simps [of y hn ct p])
      moreover have "available_on y hn ct p = Inr False"
        using r None by (auto simp: fill_try_def elim!: rbindE split: if_splits)
      ultimately show ?thesis
        using available_on_iff [of y hn ct p False] "1.prems" by (simp add: stuck_def)
    next
      case (Some q)
      with r True 1 have q: "fill_type y hn ct q = Inr p'" by (simp add: fill_type.simps [of y hn ct p])
      have "ledger_ok q" using fill_try_placed [of y hn ct p q] r Some True "1.prems" by blast
      with "1.IH" [OF True r Some q] show ?thesis .
    qed
  next
    case False
    with 1 show ?thesis by (simp add: fill_type.simps [of y hn ct p] stuck_def)
  qed
qed

lemma fill_types_stuck:
  "foldR (fill_type y hn) cts p = Inr p' \<Longrightarrow> ledger_ok p \<Longrightarrow> nonneg_asks y \<Longrightarrow> ct \<in> set cts \<Longrightarrow>
   stuck y ct hn p'"
proof (induction cts arbitrary: p)
  case (Cons t cts)
  from Cons.prems obtain q where q: "fill_type y hn t p = Inr q" "foldR (fill_type y hn) cts q = Inr p'"
    by (auto elim!: rbindE)
  have ok: "ledger_ok q" using fill_type_placements [OF q(1)] Cons.prems by blast
  show ?case
  proof (cases "ct \<in> set cts")
    case True
    with Cons q ok show ?thesis by blast
  next
    case False
    with Cons.prems have "stuck y ct hn q" using fill_type_stuck [OF q(1)] by auto
    with placements_stuck fill_types_placements [OF q(2) ok] Cons.prems show ?thesis by blast
  qed
qed simp

lemma assign_fill_up_stuck:
  "assign_fill_up y hns p = Inr p' \<Longrightarrow> ledger_ok p \<Longrightarrow> nonneg_asks y \<Longrightarrow>
   0 < containersNotAllocated p' \<Longrightarrow> hn \<in> set hns \<Longrightarrow> stuck y ct hn p'"
proof (induction hns arbitrary: p)
  case (Cons g hns)
  have "\<not> containersNotAllocated p \<le> 0" using Cons.prems by auto
  with Cons.prems obtain q where q: "foldR (fill_type y g) ctypes p = Inr q" "assign_fill_up y hns q = Inr p'"
    by (auto elim!: rbindE)
  have ok: "ledger_ok q" using fill_types_placements [OF q(1)] Cons.prems by blast
  show ?case
  proof (cases "hn \<in> set hns")
    case True
    with Cons q ok show ?thesis by blast
  next
    case False
    with Cons.prems have "stuck y ct hn q" using fill_types_stuck [OF q(1), of ct] by auto
    with placements_stuck assign_fill_up_placements [OF q(2) ok] Cons.prems show ?thesis by blast
  qed
qed simp

interpretation fill_up_complete: complete_allocator "\<lambda>y. ledger_ok" "\<lambda>y. cpu_mem" assign_fill_up
  by unfold_locales (rule assign_fill_up_stuck)

section \<open>Cyclic\<close>

text \<open>With ledger and hosts in step, a disk the ledger has room on is one \<open>getFreestDisk\<close> finds.\<close>

lemma cyclic_place_succeeds:
  assumes "cyclic_place y hn ct p = Inr r" "can_place y ct hn p" "pool_ok y p"
  shows "r \<noteq> None"
proof
  assume "r = None"
  with assms(1) obtain c where c: "spec_of y ct = Inr c" and d: "ct \<noteq> RmNn \<and> y_disks y"
    and none: "assign_freest_disk hn c (y_key y) p = Inr None"
    by (auto simp: cyclic_place_def elim!: rbindE split: option.splits if_splits)
  from none obtain h rd w where h: "map_of (p_hosts p) hn = Some h"
    and rw: "need c (lkey ''disk_read'' (y_key y)) = Inr rd" "need c (lkey ''disk_write'' (y_key y)) = Inr w"
    and no: "getFreestDisk h rd w = None"
    by (auto simp: assign_freest_disk_def item_eq elim!: rbindE split: option.splits)
  from assms(2) d rw c obtain dn s where s: "slot_of p hn dn = Some s" "slot_fits rd w s"
    by (auto simp: can_place_def need_asked)
  have "host_bw p hn dn = slot_bw p hn dn" using assms(3) d by (simp add: pool_ok_def synced_def)
  with s h obtain ds e where "h_disks h = Some ds" "map_of ds dn = Some e"
    "disk_bw e = (s_read s, s_write s, s_total s)"
    by (auto simp: host_bw_def slot_bw_def split: option.splits)
  with no s show False
    by (auto simp: getFreestDisk_None disk_suits_def slot_fits_def disk_bw_def dest!: map_of_SomeD)
qed

lemma cyclic_host_False: "cyclic_host y hn cts p = Inr (False, p') \<Longrightarrow> p' = p"
  by (induction cts) (auto elim!: rbindE split: if_splits option.splits)

lemma cyclic_host_stuck:
  "cyclic_host y hn cts p = Inr (False, p') \<Longrightarrow> pool_ok y p \<Longrightarrow> ct \<in> set cts \<Longrightarrow> stuck y ct hn p"
proof (induction cts)
  case (Cons t cts)
  have "stuck y t hn p \<and> cyclic_host y hn cts p = Inr (False, p')"
  proof (cases "0 < p_todo p t")
    case True
    with Cons.prems obtain ok where ok: "available_on y hn t p = Inr ok" by (auto elim!: rbindE)
    have iff: "ok \<longleftrightarrow> can_place y t hn p"
      using available_on_iff [OF ok] Cons.prems by (simp add: pool_ok_def)
    have "\<not> ok"
    proof
      assume ok': ok
      with Cons.prems True ok have "cyclic_place y hn t p = Inr None"
        by (auto elim!: rbindE split: option.splits)
      with cyclic_place_succeeds iff ok' Cons.prems show False by blast
    qed
    with Cons True ok iff show ?thesis by (auto simp: stuck_def)
  next
    case False
    with Cons show ?thesis by (auto simp: stuck_def)
  qed
  with Cons show ?case by auto
qed simp

lemma cyclic_round_stuck:
  "cyclic_round y hns p = Inr (rest, p') \<Longrightarrow> pool_ok y p \<Longrightarrow> nonneg_asks y \<Longrightarrow>
   hn \<in> set hns \<Longrightarrow> hn \<in> set rest \<or> containersNotAllocated p' \<le> 0 \<or> stuck y ct hn p'"
proof (induction hns arbitrary: p rest)
  case (Cons g hns)
  show ?case
  proof (cases "containersNotAllocated p \<le> 0")
    case False
    with Cons.prems obtain b q rest' where b: "cyclic_host y g ctypes p = Inr (b, q)"
      and r: "cyclic_round y hns q = Inr (rest', p')" "rest = (if b then g # rest' else rest')"
      by (auto elim!: rbindE split: prod.splits)
    have ok: "pool_ok y q" using cyclic_host_placements [OF b] Cons.prems by blast
    show ?thesis
    proof (cases "hn \<in> set hns")
      case True
      with Cons r ok show ?thesis by auto
    next
      case False
      with Cons.prems have "hn = g" by simp
      show ?thesis
      proof (cases b)
        case False
        with b cyclic_host_stuck [of y g ctypes p q ct] cyclic_host_False [of y g ctypes p q]
          Cons.prems \<open>hn = g\<close> have "stuck y ct hn q" by auto
        with placements_stuck cyclic_round_placements [OF r(1) ok] Cons.prems show ?thesis by blast
      qed (use r \<open>hn = g\<close> in simp)
    qed
  qed (use Cons in simp)
qed simp

lemma assign_cyclic_stuck:
  "assign_cyclic y hns p = Inr p' \<Longrightarrow> pool_ok y p \<Longrightarrow> nonneg_asks y \<Longrightarrow>
   0 < containersNotAllocated p' \<Longrightarrow> hn \<in> set hns \<Longrightarrow> stuck y ct hn p'"
proof (induction y hns p rule: assign_cyclic.induct)
  case (1 y hns p)
  show ?case
  proof (cases "0 < containersNotAllocated p \<and> hns \<noteq> []")
    case True
    with "1.prems" obtain rest q where q: "cyclic_round y hns p = Inr (rest, q)"
      "assign_cyclic y rest q = Inr p'"
      by (auto simp: assign_cyclic.simps [of y hns p] elim!: rbindE)
    have ok: "(placement cpu_mem y)\<^sup>*\<^sup>* p q" "pool_ok y q"
      using cyclic_round_placements [OF q(1)] "1.prems" by blast+
    consider "hn \<in> set rest" | "containersNotAllocated q \<le> 0" | "stuck y ct hn q"
      using cyclic_round_stuck [OF q(1), of hn ct] "1.prems" by blast
    then show ?thesis
    proof cases
      case 1
      with "1.IH" [OF True q(1) refl q(2) ok(2)] "1.prems" show ?thesis by blast
    next
      case 2
      with q(2) "1.prems" show ?thesis by (simp add: assign_cyclic.simps [of y rest q])
    next
      case 3
      with placements_stuck assign_cyclic_placements [OF q(2) ok(2)] "1.prems" show ?thesis by blast
    qed
  next
    case False
    with "1.prems" show ?thesis by (auto simp: assign_cyclic.simps [of y hns p] split: if_splits)
  qed
qed

interpretation cyclic_complete: complete_allocator pool_ok "\<lambda>y. cpu_mem" assign_cyclic
  by unfold_locales (rule assign_cyclic_stuck)

end
