(* ===== verification/Allocation.thy ===== *)
theory Allocation
  imports Exhaustion
begin

text \<open>
  \<open>getContainerAssignationForApp\<close>: the initial pool, the dispatch on the policy's name and the
  format of the answer; the properties of the allocation as a whole.
\<close>

section \<open>The request and its answer\<close>

text \<open>The switches of \<open>settings.PLATFORM_CONFIG\<close> the allocation reads.\<close>

record platform =
  pc_disk_capabilities :: bool
  pc_disk_scaling :: bool
  pc_power_budgeting :: bool
  pc_server_as_host :: bool
  pc_reserve_server_for_master :: bool

datatype alloc_error = NotAllocated string | UnsupportedPolicy string

datatype kind = RegularKind | IrregularKind | RmNnKind

type_synonym new_containers = "(kind \<times> int) list dict"

definition type_count :: "(ctype \<times> int) list \<Rightarrow> ctype \<Rightarrow> int" where
  "type_count d ct = (case map_of d ct of Some n \<Rightarrow> n | None \<Rightarrow> 0)"

section \<open>The initial pool\<close>

definition has_type :: "(ctype \<times> spec) list \<Rightarrow> ctype \<Rightarrow> bool" where
  "has_type specs ct \<longleftrightarrow> map_of specs ct \<noteq> None"

definition initial_todo :: "(ctype \<times> spec) list \<Rightarrow> int \<Rightarrow> ctype \<Rightarrow> int" where
  "initial_todo specs n ct =
     (let one = (\<lambda>t. if has_type specs t then 1 else 0 :: int)
      in if ct = Regular then n - one Bigger - one Smaller - one RmNn else one ct)"

definition reserves_server :: "platform \<Rightarrow> (ctype \<times> spec) list \<Rightarrow> bool" where
  "reserves_server pc specs \<longleftrightarrow>
     has_type specs RmNn \<and> pc_server_as_host pc \<and> pc_reserve_server_for_master pc"

fun remove_named :: "string \<Rightarrow> host list \<Rightarrow> host list" where
  "remove_named n [] = []"
| "remove_named n (h # hs) = (if n = h_name h then hs else h # remove_named n hs)"

definition initial_slot :: "disk \<Rightarrow> slot" where
  "initial_slot d = \<lparr>s_new = 0, s_path = d_path d, s_read = d_free_read d, s_write = d_free_write d,
     s_total = disk_total_free d\<rparr>"

definition add_slots :: "bool \<Rightarrow> host \<Rightarrow> slot dict dict \<Rightarrow> slot dict dict" where
  "add_slots check_disks h led =
     (case h_disks h of
        Some ds \<Rightarrow> if check_disks then AList.update (h_name h) (map (\<lambda>(n, d). (n, initial_slot d)) ds) led
                   else led
      | None \<Rightarrow> led)"

definition initial_ledger :: "bool \<Rightarrow> host list \<Rightarrow> slot dict dict" where
  "initial_ledger check_disks hosts = fold (add_slots check_disks) hosts []"

lemma add_slots_False [simp]: "add_slots False h led = led"
  by (simp add: add_slots_def split: option.splits)

definition initial_assign :: "string option \<Rightarrow> host list \<Rightarrow> (ctype \<times> int) list dict" where
  "initial_assign server hosts =
     fold (\<lambda>h. AList.update (h_name h) [(Regular, 0)]) hosts
       (case server of None \<Rightarrow> [] | Some n \<Rightarrow> [(n, [(RmNn, 1)])])"

definition initial_pool ::
  "platform \<Rightarrow> (ctype \<times> spec) list \<Rightarrow> int \<Rightarrow> string option \<Rightarrow> host list \<Rightarrow> pool" where
  "initial_pool pc specs n server hosts =
     \<lparr>p_hosts = map (\<lambda>h. (h_name h, h)) hosts,
      p_todo = (\<lambda>ct. if ct = RmNn \<and> server \<noteq> None then 0 else initial_todo specs n ct),
      p_assign = initial_assign server hosts,
      p_ledger = initial_ledger (pc_disk_capabilities pc \<and> pc_disk_scaling pc) hosts\<rparr>"

definition policy_of :: "platform \<Rightarrow> bool \<Rightarrow> (ctype \<times> spec) list \<Rightarrow> policy" where
  "policy_of pc oversubscribe specs =
     \<lparr>y_specs = specs, y_disks = (pc_disk_capabilities pc \<and> pc_disk_scaling pc),
      y_energy = pc_power_budgeting pc, y_key = (if oversubscribe then ''min'' else ''max'')\<rparr>"

section \<open>Dispatch and format\<close>

definition run_policy :: "policy \<Rightarrow> string \<Rightarrow> pool \<Rightarrow> pool option result" where
  "run_policy y name p =
     (if name = ''Fill-up'' then rbind (assign_fill_up y (keys_of (p_hosts p)) p) (\<lambda>q. Inr (Some q))
      else if name = ''Cyclic'' then rbind (assign_cyclic y (keys_of (p_hosts p)) p) (\<lambda>q. Inr (Some q))
      else if name = ''Best-effort'' then rbind (assign_best_effort y p) (\<lambda>q. Inr (Some q))
      else if list_all (\<lambda>n. n \<in> set (keys_of (p_hosts p))) (split_on CHR '','' name)
           then rbind (assign_cyclic y (split_on CHR '','' name) p) (\<lambda>q. Inr (Some q))
      else Inr None)"

definition format_host :: "(ctype \<times> int) list \<Rightarrow> (kind \<times> int) list" where
  "format_host d =
     (if 0 < type_count d Regular then [(RegularKind, type_count d Regular)] else []) @
     (if map_of d Smaller \<noteq> None \<or> map_of d Bigger \<noteq> None
      then [(IrregularKind, type_count d Bigger + type_count d Smaller)] else []) @
     (if map_of d RmNn \<noteq> None then [(RmNnKind, type_count d RmNn)] else [])"

definition format_assignation :: "(ctype \<times> int) list dict \<Rightarrow> new_containers" where
  "format_assignation a =
     filter (\<lambda>(hn, d). d \<noteq> []) (map (\<lambda>(hn, d). (hn, format_host d)) a)"

text \<open>The figures the failure message quotes; looking one up may raise.\<close>

definition message_keys :: "policy \<Rightarrow> host \<Rightarrow> unit result" where
  "message_keys y h =
     rbind (free_quota h ''cpu'') (\<lambda>_. rbind (free_quota h ''mem'') (\<lambda>_.
     rbind (if y_energy y then free_quota h ''energy'' else Inr 0) (\<lambda>_.
     if y_disks y \<and> h_disks h = None then Inl (KeyError ''disks'') else Inr ())))"

definition getContainerAssignationForApp ::
  "platform \<Rightarrow> string result \<Rightarrow> string \<Rightarrow> bool \<Rightarrow> host list \<Rightarrow> int \<Rightarrow> (ctype \<times> spec) list \<Rightarrow> string \<Rightarrow>
   (new_containers \<times> slot dict dict \<times> alloc_error option) result" where
  "getContainerAssignationForApp pc server_hostname name oversubscribe hosts n specs app_name =
     rbind (if reserves_server pc specs then rbind server_hostname (\<lambda>s. Inr (Some s)) else Inr None) (\<lambda>server.
     let y = policy_of pc oversubscribe specs;
         free_hosts = (case server of None \<Rightarrow> hosts | Some s \<Rightarrow> remove_named s hosts);
         p = initial_pool pc specs n server free_hosts
     in rbind (run_policy y name p) (\<lambda>found. case found of
          None \<Rightarrow> Inr ([], p_ledger p, Some (UnsupportedPolicy name))
        | Some q \<Rightarrow>
            if 0 < containersNotAllocated q
            then rbind (mapR (message_keys y) (map snd (p_hosts q))) (\<lambda>_.
                   Inr ([], p_ledger q, Some (NotAllocated app_name)))
            else Inr (format_assignation (p_assign q), p_ledger q, None)))"

section \<open>The initial pool is well formed\<close>

lemma keys_map_hosts [simp]: "keys_of (map (\<lambda>h. (h_name h, h)) hs) = map h_name hs"
  by (simp add: keys_of_def comp_def)

lemma map_of_hosts: "map_of (map (\<lambda>h. (h_name h, h)) hs) n = Some h \<Longrightarrow> h \<in> set hs \<and> h_name h = n"
  by (auto dest!: map_of_SomeD)

definition hosts_wf :: "host list \<Rightarrow> bool" where
  "hosts_wf hs \<longleftrightarrow> distinct (map h_name hs) \<and>
     (\<forall>h \<in> set hs. \<forall>ds. h_disks h = Some ds \<longrightarrow> distinct (map fst ds))"

lemma set_remove_named: "set (remove_named n hs) \<subseteq> set hs"
  by (induction hs) auto

lemma hosts_wf_remove: "hosts_wf hs \<Longrightarrow> hosts_wf (remove_named n hs)"
proof (induction hs)
  case (Cons h hs)
  then show ?case using set_remove_named [of n hs] by (auto simp: hosts_wf_def)
qed simp

lemma remove_named_absent: "distinct (map h_name hs) \<Longrightarrow> n \<notin> h_name ` set (remove_named n hs)"
  by (induction hs) (use set_remove_named in \<open>auto simp: image_iff\<close>)

lemma map_of_fold_update:
  "distinct (map k hs) \<Longrightarrow>
   map_of (fold (\<lambda>h. AList.update (k h) (v h)) hs a) n =
     (case List.find (\<lambda>h. k h = n) hs of Some h \<Rightarrow> Some (v h) | None \<Rightarrow> map_of a n)"
proof (induction hs arbitrary: a)
  case (Cons h hs)
  have "List.find (\<lambda>g. k g = k h) hs = None" using Cons.prems by (auto simp: find_None_iff image_iff)
  with Cons show ?case by (auto split: option.splits)
qed simp

lemma map_of_initial_ledger:
  assumes "distinct (map h_name hs)"
  shows "map_of (initial_ledger True hs) n =
    (case map_of (map (\<lambda>h. (h_name h, h)) hs) n of None \<Rightarrow> None
     | Some h \<Rightarrow> map_option (map (\<lambda>(m, d). (m, initial_slot d))) (h_disks h))"
proof -
  have "map_of (fold (add_slots True) hs a) n =
      (case map_of (map (\<lambda>h. (h_name h, h)) hs) n of None \<Rightarrow> map_of a n
       | Some h \<Rightarrow> (case h_disks h of None \<Rightarrow> map_of a n
           | Some ds \<Rightarrow> Some (map (\<lambda>(m, d). (m, initial_slot d)) ds)))" for a
    using assms
  proof (induction hs arbitrary: a)
    case (Cons h hs)
    have "map_of (map (\<lambda>h. (h_name h, h)) hs) (h_name h) = None"
      using Cons.prems by (auto simp: map_of_eq_None_iff)
    with Cons show ?case by (auto simp: add_slots_def split: option.splits)
  qed simp
  then show ?thesis by (simp add: initial_ledger_def split: option.splits)
qed

lemma slot_view_initial [simp]:
  "(s_read (initial_slot d), s_write (initial_slot d), s_total (initial_slot d)) = disk_bw d"
  by (simp add: initial_slot_def disk_bw_def)

lemma initial_pool_ok:
  assumes "hosts_wf hs"
  shows "pool_ok (policy_of pc over specs) (initial_pool pc specs n server hs)"
proof -
  let ?y = "policy_of pc over specs" and ?p = "initial_pool pc specs n server hs"
  have dist: "distinct (map h_name hs)" using assms by (simp add: hosts_wf_def)
  have hosts: "hosts_ok ?p"
    using assms by (auto simp: hosts_ok_def initial_pool_def hosts_wf_def dest!: map_of_hosts)
  have off: "p_ledger ?p = []" if "\<not> y_disks ?y"
  proof -
    have "fold (add_slots False) hs a = a" for a
      by (induction hs arbitrary: a) auto
    with that show ?thesis
      by (auto simp: initial_pool_def initial_ledger_def policy_of_def)
  qed
  have on: "map_of (p_ledger ?p) m = (case map_of (p_hosts ?p) m of None \<Rightarrow> None
     | Some h \<Rightarrow> map_option (map (\<lambda>(m, d). (m, initial_slot d))) (h_disks h))" if "y_disks ?y" for m
    using that map_of_initial_ledger [OF dist] by (simp add: initial_pool_def policy_of_def)
  have map_of_slots: "map_of (map (\<lambda>(m, d). (m, initial_slot d)) ds) dn = map_option initial_slot (map_of ds dn)"
    for ds dn by (induction ds) auto
  have "ledger_ok ?p"
  proof (cases "y_disks ?y")
    case True
    then show ?thesis using hosts
      by (auto simp: ledger_ok_def on hosts_ok_def comp_def case_prod_beta split: option.splits)
  next
    case False
    then show ?thesis by (simp add: ledger_ok_def off)
  qed
  moreover have "synced ?p" if "y_disks ?y"
    using on [OF that]
    by (auto simp: synced_def host_bw_def slot_bw_def slot_of_def map_of_slots option.map_comp comp_def
        split: option.splits )
  ultimately show ?thesis using hosts by (simp add: pool_ok_def)
qed

section \<open>Any policy by its name\<close>

text \<open>The resources the chosen policy charges: only Best-effort charges energy.\<close>

definition charged_by :: "string \<Rightarrow> policy \<Rightarrow> string set" where
  "charged_by name y = (if name = ''Best-effort'' then cpu_mem_energy y else cpu_mem)"

definition dispatch :: "string \<Rightarrow> policy \<Rightarrow> pool \<Rightarrow> pool result" where
  "dispatch name y p = rbind (run_policy y name p) (\<lambda>found.
     case found of None \<Rightarrow> Inl (ValueError name) | Some q \<Rightarrow> Inr q)"

lemma run_policy_dispatch: "run_policy y name p = Inr (Some q) \<Longrightarrow> dispatch name y p = Inr q"
  by (simp add: dispatch_def)

interpretation named: allocator pool_ok "charged_by name" "\<lambda>y hns. dispatch name y" for name
proof unfold_locales
  fix y p hns p'
  assume ok: "pool_ok y p" and run: "dispatch name y p = Inr p'"
  show "(placement (charged_by name y) y)\<^sup>*\<^sup>* p p'"
    using run fill_up.run_placements [of p y] cyclic.run_placements [OF ok]
      best_effort.run_placements [OF ok] ok
    by (auto simp: dispatch_def run_policy_def charged_by_def pool_ok_def elim!: rbindE
        split: if_splits option.splits)
qed

lemma sum_types: "(\<Sum>ct \<in> (UNIV :: ctype set). f ct) = f Bigger + f Regular + f Smaller + f RmNn"
proof -
  have "(UNIV :: ctype set) = {Bigger, Regular, Smaller, RmNn}" using set_ctypes by (auto simp: ctypes_def)
  then have "sum f UNIV = sum f {Bigger, Regular, Smaller, RmNn}" by simp
  then show ?thesis by (simp add: add.assoc)
qed

lemma total_by_type:
  "distinct (map fst d) \<Longrightarrow> sum_list (map snd d) = (\<Sum>ct \<in> UNIV. type_count d ct)"
proof (induction d)
  case Nil
  then show ?case by (simp add: type_count_def)
next
  case (Cons p d)
  obtain t n where p: "p = (t, n)" by (cases p)
  have "map_of d t = None" using Cons.prems p by (auto simp: map_of_eq_None_iff)
  then have "type_count (p # d) ct = type_count d ct + (if ct = t then n else 0)" for ct
    by (auto simp: type_count_def p)
  with Cons p show ?case by (simp add: sum.distrib)
qed

lemma format_host_total:
  assumes "distinct (map fst d)" "\<forall>(ct, n) \<in> set d. 0 \<le> n"
  shows "sum_list (map snd (format_host d)) = sum_list (map snd d)"
proof -
  have "0 \<le> type_count d Regular"
    using assms(2) by (auto simp: type_count_def split: option.splits dest!: map_of_SomeD)
  then show ?thesis
    unfolding total_by_type [OF assms(1)] sum_types
    by (auto simp: format_host_def type_count_def split: option.splits)
qed

definition new_total :: "new_containers \<Rightarrow> int" where
  "new_total new = sum_list (map (\<lambda>(hn, d). sum_list (map snd d)) new)"

lemma format_total:
  "counts_wf a \<Longrightarrow> new_total (format_assignation a) = sum_list (map (\<lambda>(hn, d). sum_list (map snd d)) a)"
proof (induction a)
  case (Cons p a)
  obtain hn d where p: "p = (hn, d)" by (cases p)
  with Cons.prems have "counts_wf a" "sum_list (map snd (format_host d)) = sum_list (map snd d)"
    by (simp_all add: counts_wf_def format_host_total)
  with Cons.IH p show ?case by (cases "format_host d") (auto simp: new_total_def format_assignation_def)
qed (simp add: new_total_def format_assignation_def)

lemma initial_assign_wf: "counts_wf (initial_assign server hs)"
proof -
  have "counts_wf a \<Longrightarrow> counts_wf (fold (\<lambda>h. AList.update (h_name h) [(Regular, 0)]) hs a)" for a
  proof (induction hs arbitrary: a)
    case (Cons h hs)
    have "counts_wf (AList.update (h_name h) [(Regular, 0)] a)"
      using Cons.prems set_AList_update [of "h_name h" "[(Regular, 0)]" a]
      by (fastforce simp: counts_wf_def)
    with Cons show ?case by simp
  qed simp
  moreover have "counts_wf (case server of None \<Rightarrow> [] | Some n \<Rightarrow> [(n, [(RmNn, 1)])])"
    by (simp add: counts_wf_def split: option.splits)
  ultimately show ?thesis by (simp add: initial_assign_def)
qed

lemma initial_assign_total:
  assumes "case server of None \<Rightarrow> True | Some s \<Rightarrow> s \<notin> h_name ` set hs"
  shows "sum_list (map (\<lambda>(hn, d). sum_list (map snd d)) (initial_assign server hs)) =
    (if server = None then 0 else 1)"
proof -
  have upd: "sum_list (map (\<lambda>(hn, d). sum_list (map snd d)) (AList.update n [(Regular, 0)] a)) =
      sum_list (map (\<lambda>(hn, d). sum_list (map snd d)) a) - (case map_of a n of None \<Rightarrow> 0 | Some d \<Rightarrow> sum_list (map snd d))"
    for n and a :: "(ctype \<times> int) list dict"
    by (induction a) (auto split: option.splits)
  have keep: "\<lbrakk>\<And>h d. h \<in> set hs \<Longrightarrow> map_of a (h_name h) = Some d \<Longrightarrow> d = [(Regular, 0)]\<rbrakk> \<Longrightarrow>
      sum_list (map (\<lambda>(hn, d). sum_list (map snd d)) (fold (\<lambda>h. AList.update (h_name h) [(Regular, 0)]) hs a)) =
      sum_list (map (\<lambda>(hn, d). sum_list (map snd d)) a)" for a :: "(ctype \<times> int) list dict"
  proof (induction hs arbitrary: a)
    case (Cons h hs)
    have "sum_list (map (\<lambda>(hn, d). sum_list (map snd d)) (AList.update (h_name h) [(Regular, 0)] a)) =
        sum_list (map (\<lambda>(hn, d). sum_list (map snd d)) a)"
      using upd [of "h_name h" a] Cons.prems [of h] by (auto split: option.splits)
    moreover have "d = [(Regular, 0)]"
      if "g \<in> set hs" "map_of (AList.update (h_name h) [(Regular, 0)] a) (h_name g) = Some d" for g d
      using that Cons.prems [of g d] by (auto split: if_splits)
    ultimately show ?case
      using Cons.IH [of "AList.update (h_name h) [(Regular, 0)] a"] by simp
  qed simp
  show ?thesis
  proof (cases server)
    case None
    then show ?thesis using keep [of "[]"] by (simp add: initial_assign_def)
  next
    case (Some s)
    with assms have "h_name h \<noteq> s" if "h \<in> set hs" for h using that by auto
    with Some keep [of "[(s, [(RmNn, 1)])]"] show ?thesis by (auto simp: initial_assign_def)
  qed
qed

lemma map_of_initial_assign:
  assumes "distinct (map h_name hs)" "h \<in> set hs"
  shows "map_of (initial_assign server hs) (h_name h) = Some [(Regular, 0)]"
proof -
  have "List.find (\<lambda>g. h_name g = h_name h) hs \<noteq> None" using assms(2) by (auto simp: find_None_iff)
  then show ?thesis
    using map_of_fold_update [OF assms(1), of "\<lambda>h. [(Regular, 0 :: int)]"]
    by (auto simp: initial_assign_def split: option.splits)
qed

lemma initial_not_allocated:
  assumes "server \<noteq> None \<longrightarrow> has_type specs RmNn"
  shows "containersNotAllocated (initial_pool pc specs n server hs) = n - (if server = None then 0 else 1)"
  using assms
  by (simp add: containersNotAllocated_def initial_pool_def ctypes_def initial_todo_def)

lemma allocation_success:
  assumes "getContainerAssignationForApp pc srv name over hosts n specs app = Inr (new, led, None)"
    and "hosts_wf hosts"
  obtains server free_hosts q where
    "set free_hosts \<subseteq> set hosts" "hosts_wf free_hosts" "case server of None \<Rightarrow> True | Some s \<Rightarrow> s \<notin> h_name ` set free_hosts"
    "server \<noteq> None \<longrightarrow> has_type specs RmNn"
    "run_policy (policy_of pc over specs) name (initial_pool pc specs n server free_hosts) = Inr (Some q)"
    "containersNotAllocated q \<le> 0" "new = format_assignation (p_assign q)" "led = p_ledger q"
proof -
  from assms(1) obtain server where
    s: "(if reserves_server pc specs then rbind srv (\<lambda>s. Inr (Some s)) else Inr None) = Inr server"
    by (auto simp: getContainerAssignationForApp_def elim!: rbindE)
  define fh where "fh = (case server of None \<Rightarrow> hosts | Some s \<Rightarrow> remove_named s hosts)"
  from assms(1) s obtain found where
    f: "run_policy (policy_of pc over specs) name (initial_pool pc specs n server fh) = Inr found"
    by (auto simp: getContainerAssignationForApp_def Let_def fh_def elim!: rbindE)
  from assms(1) s f obtain q where "found = Some q" "containersNotAllocated q \<le> 0"
    "new = format_assignation (p_assign q)" "led = p_ledger q"
    by (cases found)
      (auto simp: getContainerAssignationForApp_def Let_def fh_def [symmetric] elim!: rbindE split: if_splits)
  moreover have "set fh \<subseteq> set hosts" using set_remove_named by (auto simp: fh_def split: option.splits)
  moreover have "hosts_wf fh" using assms(2) hosts_wf_remove by (auto simp: fh_def split: option.splits)
  moreover have "case server of None \<Rightarrow> True | Some s \<Rightarrow> s \<notin> h_name ` set fh"
    using assms(2) remove_named_absent by (auto simp: fh_def hosts_wf_def split: option.splits)
  moreover have "server \<noteq> None \<longrightarrow> has_type specs RmNn"
    using s by (auto simp: reserves_server_def split: if_splits)
  ultimately show ?thesis using that f by blast
qed

lemma run_policy_conserves:
  assumes "hosts_wf hs" "case server of None \<Rightarrow> True | Some s \<Rightarrow> s \<notin> h_name ` set hs"
    and "server \<noteq> None \<longrightarrow> has_type specs RmNn"
    and "run_policy (policy_of pc over specs) name (initial_pool pc specs n server hs) = Inr (Some q)"
  shows "containersNotAllocated q + assigned_total q = n" "counts_wf (p_assign q)"
    "(\<forall>ct. 0 \<le> initial_todo specs n ct) \<Longrightarrow> \<forall>ct. 0 \<le> p_todo q ct"
proof -
  let ?y = "policy_of pc over specs" and ?p = "initial_pool pc specs n server hs"
  have ok: "pool_ok ?y ?p" using assms(1) by (rule initial_pool_ok)
  note run = run_policy_dispatch [OF assms(4)]
  have "p_assign ?p = initial_assign server hs" by (simp add: initial_pool_def)
  with initial_assign_total [OF assms(2)] have "assigned_total ?p = (if server = None then 0 else 1)"
    by (simp only: assigned_total_def)
  then show "containersNotAllocated q + assigned_total q = n"
    using named.conserved [OF ok run] initial_not_allocated [OF assms(3), of pc n hs] by simp
  show "counts_wf (p_assign q)"
    using named.counts_kept [OF ok run] initial_assign_wf by (simp add: initial_pool_def)
  show "\<forall>ct. 0 \<le> p_todo q ct" if "\<forall>ct. 0 \<le> initial_todo specs n ct"
    using named.todo_nonneg [OF ok run] that by (simp add: initial_pool_def)
qed

lemma initial_count:
  "hosts_wf hs \<Longrightarrow> h \<in> set hs \<Longrightarrow> count_of (initial_pool pc specs n server hs) (h_name h) ct = 0"
  using map_of_initial_assign [of hs h server]
  by (simp add: count_of_def initial_pool_def hosts_wf_def)

lemma initial_free:
  "hosts_wf hs \<Longrightarrow> h \<in> set hs \<Longrightarrow>
   free_of (initial_pool pc specs n server hs) (h_name h) res = map_option q_free (map_of (h_quota h) res)"
proof -
  assume "hosts_wf hs" "h \<in> set hs"
  then have "map_of (map (\<lambda>h. (h_name h, h)) hs) (h_name h) = Some h"
    by (auto simp: hosts_wf_def map_of_eq_Some_iff comp_def)
  then show ?thesis by (simp add: free_of_def initial_pool_def)
qed

lemma initial_disks_nonneg:
  assumes "hosts_wf hs"
    and "\<And>h ds dn d. h \<in> set hs \<Longrightarrow> h_disks h = Some ds \<Longrightarrow> (dn, d) \<in> set ds \<Longrightarrow>
      0 \<le> d_free_read d \<and> 0 \<le> d_free_write d \<and> 0 \<le> disk_total_free d"
  shows "disks_nonneg (initial_pool pc specs n server hs)"
proof (cases "pc_disk_capabilities pc \<and> pc_disk_scaling pc")
  case True
  have dist: "distinct (map h_name hs)" using assms(1) by (simp add: hosts_wf_def)
  have "0 \<le> s_read s \<and> 0 \<le> s_write s \<and> 0 \<le> s_total s"
    if "map_of (initial_ledger True hs) hn = Some ss" "map_of ss dn = Some s" for hn ss dn s
  proof -
    from that(1) obtain h ds where h: "h \<in> set hs" "h_disks h = Some ds"
      and ss: "ss = map (\<lambda>(m, d). (m, initial_slot d)) ds"
      by (auto simp: map_of_initial_ledger [OF dist] split: option.splits dest!: map_of_hosts)
    from that(2) ss obtain d where d: "(dn, d) \<in> set ds" "s = initial_slot d"
      by (auto dest!: map_of_SomeD)
    with assms(2) [OF h d(1)] show ?thesis by (simp add: initial_slot_def)
  qed
  with True show ?thesis
    by (auto simp: disks_nonneg_def slot_of_def initial_pool_def split: option.splits)
next
  case False
  have "fold (add_slots False) hs a = a" for a by (induction hs arbitrary: a) auto
  with False show ?thesis
    by (auto simp: disks_nonneg_def slot_of_def initial_pool_def initial_ledger_def)
qed

definition load :: "policy \<Rightarrow> pool \<Rightarrow> string \<Rightarrow> string \<Rightarrow> rat" where
  "load y q hn res = (\<Sum>ct \<in> UNIV. of_int (count_of q hn ct) * asked y ct res)"

lemma used_since_initial:
  "hosts_wf hs \<Longrightarrow> h \<in> set hs \<Longrightarrow>
   used_since y (initial_pool pc specs n server hs) q (h_name h) res = load y q (h_name h) res"
  by (simp add: used_since_def load_def initial_count)

section \<open>Properties\<close>

definition sample_platform :: platform where
  "sample_platform = \<lparr>pc_disk_capabilities = False, pc_disk_scaling = False, pc_power_budgeting = True,
     pc_server_as_host = False, pc_reserve_server_for_master = False\<rparr>"

definition sample_specs :: "(ctype \<times> spec) list" where
  "sample_specs = [(Regular, [(''cpu_max'', Num 100), (''mem_max'', Num 1024), (''energy_max'', Num 10)])]"

definition sample_nodes :: "host list" where
  "sample_nodes = [sample_host ''host0'' 150 15 [], sample_host ''host1'' 200 15 []]"

definition sample_run :: "string \<Rightarrow> pool" where
  "sample_run name =
     (case run_policy (policy_of sample_platform False sample_specs) name
             (initial_pool sample_platform sample_specs 2 None sample_nodes) of
        Inr (Some q) \<Rightarrow> q | _ \<Rightarrow> initial_pool sample_platform sample_specs 2 None sample_nodes)"

lemma sample_nodes_wf: "hosts_wf sample_nodes"
  by (simp add: hosts_wf_def sample_nodes_def sample_host_def)

text \<open>C1: an allocation that reports no error places exactly the containers that were asked for,
  whatever the policy, the master container on a reserved server included.\<close>

theorem allocation_total:
  assumes "getContainerAssignationForApp pc srv name over hosts n specs app = Inr (new, led, None)"
    and "hosts_wf hosts" and "\<forall>ct. 0 \<le> initial_todo specs n ct"
  shows "new_total new = n"
proof -
  obtain server free_hosts q where a: "hosts_wf free_hosts"
    "case server of None \<Rightarrow> True | Some s \<Rightarrow> s \<notin> h_name ` set free_hosts"
    "server \<noteq> None \<longrightarrow> has_type specs RmNn"
    "run_policy (policy_of pc over specs) name (initial_pool pc specs n server free_hosts) = Inr (Some q)"
    and q: "containersNotAllocated q \<le> 0" "new = format_assignation (p_assign q)"
    by (rule allocation_success [OF assms(1,2)])
  note c = run_policy_conserves [OF a]
  have "0 \<le> containersNotAllocated q"
    using c(3) [OF assms(3)] by (simp add: containersNotAllocated_def ctypes_def add_nonneg_nonneg)
  with c(1) q format_total [OF c(2)] show ?thesis by (simp add: assigned_total_def)
qed

theorem allocation_total_witness:
  "new_total [(''host0'', [(RegularKind, 1)]), (''host1'', [(RegularKind, 1)])] = 2"
proof (rule allocation_total)
  show "getContainerAssignationForApp sample_platform (Inl IndexError) ''Cyclic'' False sample_nodes 2
      sample_specs ''app1'' = Inr ([(''host0'', [(RegularKind, 1)]), (''host1'', [(RegularKind, 1)])], [], None)"
    by code_simp
  show "hosts_wf sample_nodes" by (rule sample_nodes_wf)
  show "\<forall>ct. 0 \<le> initial_todo sample_specs 2 ct"
    by (auto simp: initial_todo_def has_type_def sample_specs_def Let_def)
qed

text \<open>C2: no policy gives a host containers whose CPU or memory limits add up to more than the host
  had free before the allocation.\<close>

theorem allocation_within_capacity:
  assumes "run_policy (policy_of pc over specs) name (initial_pool pc specs n server hosts) = Inr (Some q)"
    and "hosts_wf hosts" "h \<in> set hosts" "res \<in> {''cpu'', ''mem''}"
    and "item (h_quota h) res = Inr quota" "0 \<le> q_free quota"
  shows "load (policy_of pc over specs) q (h_name h) res \<le> q_free quota"
proof -
  have r: "res \<in> set (resources_to_check (policy_of pc over specs))" "res \<in> charged_by name (policy_of pc over specs)"
    using assms(4) by (auto simp: resources_to_check_def charged_by_def cpu_mem_def cpu_mem_energy_def)
  have f: "free_of (initial_pool pc specs n server hosts) (h_name h) res = Some (q_free quota)"
    using initial_free [OF assms(2,3)] assms(5) by (simp add: item_eq)
  show ?thesis
    using named.within_capacity [OF initial_pool_ok [OF assms(2)] run_policy_dispatch [OF assms(1)] r f assms(6)]
    by (simp add: used_since_initial [OF assms(2,3)])
qed

theorem allocation_within_capacity_witness:
  "load (policy_of sample_platform False sample_specs) (sample_run ''Cyclic'') (h_name (sample_nodes ! 0)) ''cpu'' \<le> q_free (sample_quota 800 150)"
proof (rule allocation_within_capacity)
  have "(case run_policy (policy_of sample_platform False sample_specs) ''Cyclic''
      (initial_pool sample_platform sample_specs 2 None sample_nodes) of Inr (Some q) \<Rightarrow> True | _ \<Rightarrow> False)"
    by code_simp
  then show "run_policy (policy_of sample_platform False sample_specs) ''Cyclic''
      (initial_pool sample_platform sample_specs 2 None sample_nodes) = Inr (Some (sample_run ''Cyclic''))"
    by (auto simp: sample_run_def split: sum.splits option.splits)
  show "item (h_quota (sample_nodes ! 0)) ''cpu'' = Inr (sample_quota 800 150)"
    by (simp add: sample_nodes_def sample_host_def item_def)
qed (simp_all add: sample_nodes_wf sample_quota_def, simp add: sample_nodes_def)

text \<open>C3: the bandwidth ledger the allocation answers never goes below zero for any disk, in reading,
  writing or in total, if no disk was over-committed before.\<close>

theorem allocation_disks:
  assumes "getContainerAssignationForApp pc srv name over hosts n specs app = Inr (new, led, None)"
    and "hosts_wf hosts"
    and "\<And>h ds dn d. h \<in> set hosts \<Longrightarrow> h_disks h = Some ds \<Longrightarrow> (dn, d) \<in> set ds \<Longrightarrow>
      0 \<le> d_free_read d \<and> 0 \<le> d_free_write d \<and> 0 \<le> disk_total_free d"
    and "item led hn = Inr slots" "item slots dn = Inr s"
  shows "0 \<le> s_read s \<and> 0 \<le> s_write s \<and> 0 \<le> s_total s"
proof -
  obtain server free_hosts q where sub: "set free_hosts \<subseteq> set hosts" and wf: "hosts_wf free_hosts"
    and r: "run_policy (policy_of pc over specs) name (initial_pool pc specs n server free_hosts) = Inr (Some q)"
    and led: "led = p_ledger q"
    by (rule allocation_success [OF assms(1,2)])
  have "disks_nonneg (initial_pool pc specs n server free_hosts)"
    by (rule initial_disks_nonneg [OF wf]) (use assms(3) sub in blast)
  then have "disks_nonneg q"
    by (rule named.disks_kept [OF initial_pool_ok [OF wf] run_policy_dispatch [OF r]])
  moreover have "slot_of q hn dn = Some s" using assms(4,5) led by (simp add: slot_of_def item_eq)
  ultimately show ?thesis by (simp add: disks_nonneg_def)
qed

definition disk_platform :: platform where
  "disk_platform = sample_platform\<lparr>pc_disk_capabilities := True, pc_disk_scaling := True\<rparr>"

definition disk_specs :: "(ctype \<times> spec) list" where
  "disk_specs = [(Regular, sample_spec)]"

text \<open>The energy of \<open>host0\<close> is the scarcer; its disk has no bandwidth left.\<close>

definition disk_nodes :: "host list" where
  "disk_nodes = [sample_host ''host0'' 800 90 [(''hdd0'', sample_disk 200 100 100)],
     sample_host ''host1'' 800 50 [(''hdd0'', sample_disk 200 200 200)]]"

theorem allocation_disks_witness:
  "0 \<le> s_read \<lparr>s_new = 1, s_path = ''/mnt'', s_read = 180, s_write = 180, s_total = 160\<rparr> \<and>
   0 \<le> s_write \<lparr>s_new = 1, s_path = ''/mnt'', s_read = 180, s_write = 180, s_total = 160\<rparr> \<and>
   0 \<le> s_total \<lparr>s_new = 1, s_path = ''/mnt'', s_read = 180, s_write = 180, s_total = 160\<rparr>"
proof (rule allocation_disks [where hn = "''host1''" and dn = "''hdd0''"])
  show "getContainerAssignationForApp disk_platform (Inl IndexError) ''Fill-up'' False disk_nodes 1
      disk_specs ''app1'' = Inr ([(''host1'', [(RegularKind, 1)])],
        [(''host0'', [(''hdd0'', initial_slot (sample_disk 200 100 100))]),
         (''host1'', [(''hdd0'', \<lparr>s_new = 1, s_path = ''/mnt'', s_read = 180, s_write = 180, s_total = 160\<rparr>)])],
        None)"
    by code_simp
  show "hosts_wf disk_nodes" by (simp add: hosts_wf_def disk_nodes_def sample_host_def)
  show "0 \<le> d_free_read d \<and> 0 \<le> d_free_write d \<and> 0 \<le> disk_total_free d"
    if "h \<in> set disk_nodes" "h_disks h = Some ds" "(dn, d) \<in> set ds" for h ds dn d
    using that
    by (auto simp: disk_nodes_def sample_host_def sample_disk_def disk_total_free_def disk_total_max_def Let_def)
  show "item [(''host0'', [(''hdd0'', initial_slot (sample_disk 200 100 100))]),
         (''host1'', [(''hdd0'', \<lparr>s_new = 1, s_path = ''/mnt'', s_read = 180, s_write = 180, s_total = 160\<rparr>)])] ''host1''
      = Inr [(''hdd0'', \<lparr>s_new = 1, s_path = ''/mnt'', s_read = 180, s_write = 180, s_total = 160\<rparr>)]"
    by (simp add: item_def)
qed (simp add: item_def)

text \<open>Only Best-effort takes the energy of a placed container off its host.  Under Fill-up,
  Cyclic and a list of hosts the free energy stays what it was, however many containers are placed.\<close>

theorem allocation_energy:
  assumes "run_policy (policy_of pc over specs) name (initial_pool pc specs n server hosts) = Inr (Some q)"
    and "hosts_wf hosts" "h \<in> set hosts" "item (h_quota h) ''energy'' = Inr quota"
  shows "free_of q (h_name h) ''energy'' =
    Some (if name = ''Best-effort'' \<and> pc_power_budgeting pc
          then q_free quota - load (policy_of pc over specs) q (h_name h) ''energy'' else q_free quota)"
proof -
  have f: "free_of (initial_pool pc specs n server hosts) (h_name h) ''energy'' = Some (q_free quota)"
    using initial_free [OF assms(2,3)] assms(4) by (simp add: item_eq)
  show ?thesis
    using named.accounting [OF initial_pool_ok [OF assms(2)] run_policy_dispatch [OF assms(1)],
        of "h_name h" "''energy''"] f
    by (auto simp: used_since_initial [OF assms(2,3)] charged_by_def cpu_mem_def cpu_mem_energy_def
        resources_to_check_def policy_of_def)
qed

theorem allocation_energy_witness:
  "free_of (sample_run ''Cyclic'') (h_name (sample_nodes ! 0)) ''energy'' =
    Some (if ''Cyclic'' = ''Best-effort'' \<and> pc_power_budgeting sample_platform
          then q_free (sample_quota 100 15) -
            load (policy_of sample_platform False sample_specs) (sample_run ''Cyclic'') (h_name (sample_nodes ! 0)) ''energy''
          else q_free (sample_quota 100 15))"
proof (rule allocation_energy)
  have "(case run_policy (policy_of sample_platform False sample_specs) ''Cyclic''
      (initial_pool sample_platform sample_specs 2 None sample_nodes) of Inr (Some q) \<Rightarrow> True | _ \<Rightarrow> False)"
    by code_simp
  then show "run_policy (policy_of sample_platform False sample_specs) ''Cyclic''
      (initial_pool sample_platform sample_specs 2 None sample_nodes) = Inr (Some (sample_run ''Cyclic''))"
    by (auto simp: sample_run_def split: sum.splits option.splits)
qed (simp_all add: sample_nodes_wf, simp_all add: sample_nodes_def sample_host_def item_def)

text \<open>So a power budget can be broken: two containers of 10 W each are placed by Fill-up on a host
  with 15 W left, and Best-effort, asked for the same, refuses.\<close>

theorem fill_up_breaks_power_budget:
  "getContainerAssignationForApp sample_platform (Inl IndexError) ''Fill-up'' False
     [sample_host ''host0'' 800 15 []] 2 sample_specs ''app1'' =
     Inr ([(''host0'', [(RegularKind, 2)])], [], None) \<and>
   getContainerAssignationForApp sample_platform (Inl IndexError) ''Best-effort'' False
     [sample_host ''host0'' 800 15 []] 2 sample_specs ''app1'' =
     Inr ([], [], Some (NotAllocated ''app1''))"
  by (rule conjI; code_simp)

text \<open>C13: when Fill-up or Cyclic leaves containers unplaced, there is a type still wanted for which no
  host has the CPU, the memory, the energy and a disk that it needs.\<close>

theorem allocation_exhausts_hosts:
  assumes "run_policy (policy_of pc over specs) name (initial_pool pc specs n server hosts) = Inr (Some q)"
    and "name \<in> {''Fill-up'', ''Cyclic''}" "hosts_wf hosts"
    and "nonneg_asks (policy_of pc over specs)" "0 < containersNotAllocated q"
  shows "\<exists>ct. 0 < p_todo q ct \<and> (\<forall>h \<in> set hosts. \<not> can_place (policy_of pc over specs) ct (h_name h) q)"
proof -
  let ?y = "policy_of pc over specs" and ?p = "initial_pool pc specs n server hosts"
  have ok: "pool_ok ?y ?p" using assms(3) by (rule initial_pool_ok)
  have names: "keys_of (p_hosts ?p) = map h_name hosts" by (simp add: initial_pool_def)
  from assms(1,2) names consider "assign_fill_up ?y (map h_name hosts) ?p = Inr q"
    | "assign_cyclic ?y (map h_name hosts) ?p = Inr q"
    by (auto simp: run_policy_def elim!: rbindE)
  then have "\<exists>ct. 0 < p_todo q ct \<and> (\<forall>hn \<in> set (map h_name hosts). \<not> can_place ?y ct hn q)"
  proof cases
    case 1
    from fill_up_complete.nothing_fits [OF _ 1 assms(4,5)] ok show ?thesis by (simp add: pool_ok_def)
  next
    case 2
    from cyclic_complete.nothing_fits [OF ok 2 assms(4,5)] show ?thesis .
  qed
  then show ?thesis by simp
qed

definition crowded :: pool where
  "crowded =
     (case run_policy (policy_of sample_platform False sample_specs) ''Cyclic''
             (initial_pool sample_platform sample_specs 9 None sample_nodes) of
        Inr (Some q) \<Rightarrow> q | _ \<Rightarrow> initial_pool sample_platform sample_specs 9 None sample_nodes)"

theorem allocation_exhausts_hosts_witness:
  "\<exists>ct. 0 < p_todo crowded ct \<and>
     (\<forall>h \<in> set sample_nodes. \<not> can_place (policy_of sample_platform False sample_specs) ct (h_name h) crowded)"
proof (rule allocation_exhausts_hosts)
  have "(case run_policy (policy_of sample_platform False sample_specs) ''Cyclic''
      (initial_pool sample_platform sample_specs 9 None sample_nodes) of
        Inr (Some q) \<Rightarrow> 0 < containersNotAllocated q | _ \<Rightarrow> False)"
    by code_simp
  then show "run_policy (policy_of sample_platform False sample_specs) ''Cyclic''
      (initial_pool sample_platform sample_specs 9 None sample_nodes) = Inr (Some crowded)"
    and "0 < containersNotAllocated crowded"
    by (auto simp: crowded_def split: sum.splits option.splits)
  show "nonneg_asks (policy_of sample_platform False sample_specs)"
    by (auto simp: nonneg_asks_def asked_def spec_of_def policy_of_def sample_specs_def need_def item_def
        split: sum.splits option.splits if_splits elim!: rbindE)
qed (simp_all add: sample_nodes_wf)

text \<open>Best-effort gives up too early when both disks and energy count.  It settles on the host with
  the least energy usage before it looks at disks; here that host has no bandwidth left, so the
  request fails, although the other host has room for the container.\<close>

theorem best_effort_gives_up_early:
  "getContainerAssignationForApp disk_platform (Inl IndexError) ''Best-effort'' False disk_nodes 1 disk_specs ''app1'' =
     Inr ([], initial_ledger True disk_nodes, Some (NotAllocated ''app1'')) \<and>
   getContainerAssignationForApp disk_platform (Inl IndexError) ''Best-effort'' False [disk_nodes ! 1] 1 disk_specs ''app1'' =
     Inr ([(''host1'', [(RegularKind, 1)])],
       [(''host1'', [(''hdd0'', \<lparr>s_new = 1, s_path = ''/mnt'', s_read = 180, s_write = 180, s_total = 160\<rparr>)])], None)"
  by (rule conjI; code_simp)

end
