(* ===== verification/ContainerResources.thy ===== *)
theory ContainerResources
  imports Allocation
begin

text \<open>
  \<open>getContainerResourcesForApp\<close> of \<open>ui/views/apps/utils.py\<close>: the resources of an application
  are divided into one specification for its regular containers and, when the CPU share is no
  multiple of 100, one for a bigger or smaller container that evens out the difference.
\<close>

section \<open>CPU shares\<close>

text \<open>\<open>bound\<close> and \<open>boundary_type\<close> of a resource in the application's limits.\<close>

record limit_entry =
  l_boundary :: rat
  l_boundary_type :: string

definition current_of :: "limits \<Rightarrow> rat result" where
  "current_of l = (case r_current l of Some x \<Rightarrow> Inr x | None \<Rightarrow> Inl (KeyError ''current''))"

definition weight_of :: "limits \<Rightarrow> rat result" where
  "weight_of l = (case r_weight l of Some x \<Rightarrow> Inr x | None \<Rightarrow> Inl (KeyError ''weight''))"

definition limit_value :: "limits \<Rightarrow> string \<Rightarrow> rat" where
  "limit_value l side = (if side = ''max'' then r_max l else r_min l)"

definition set_num :: "string \<Rightarrow> rat \<Rightarrow> spec \<Rightarrow> spec" where
  "set_num k x c = AList.update k (Num x) c"

text \<open>The CPU share of the regular containers, and type and share of the irregular one.\<close>

definition split_cpu :: "int \<Rightarrow> bool \<Rightarrow> rat \<Rightarrow> rat \<times> (ctype \<times> rat) option" where
  "split_cpu n is_hadoop_app x =
     (let cpu_modulo = py_mod x 100
      in if cpu_modulo = 0 \<or> is_hadoop_app then (x, None)
         else if cpu_modulo < 50
              then (if 100 < x then (x - cpu_modulo, Some (Bigger, x + cpu_modulo * of_int (n - 1)))
                    else (x, None))
              else (let smaller_resources = x - (100 - cpu_modulo) * of_int (n - 1)
                    in if 10 \<le> smaller_resources
                       then (x + (100 - cpu_modulo), Some (Smaller, smaller_resources))
                       else (x, None)))"

section \<open>The other resources\<close>

definition limit_keys :: "limits dict \<Rightarrow> (string \<times> string) list" where
  "limit_keys app_resources =
     filter (\<lambda>p. p \<noteq> (''cpu'', ''max''))
       (concat (map (\<lambda>res. [(res, ''max''), (res, ''min'')]) (keys_of app_resources)))"

text \<open>With an irregular container: every limit keeps the application's ratio to \<open>cpu_max\<close>.\<close>

definition scale_limit ::
  "limits dict \<Rightarrow> string \<times> string \<Rightarrow> spec \<times> spec \<Rightarrow> (spec \<times> spec) result" where
  "scale_limit app_resources p cs =
     (case p of (res, side) \<Rightarrow>
      rbind (item app_resources ''cpu'') (\<lambda>cpu. rbind (item app_resources res) (\<lambda>l.
      rbind (py_div (r_max cpu) (limit_value l side)) (\<lambda>resource_ratio.
      rbind (need (fst cs) ''cpu_max'') (\<lambda>x. rbind (py_div x resource_ratio) (\<lambda>v.
      rbind (need (snd cs) ''cpu_max'') (\<lambda>y. rbind (py_div y resource_ratio) (\<lambda>w.
        Inr (set_num (lkey res side) v (fst cs), set_num (lkey res side) w (snd cs))))))))))"

text \<open>\<dots> and is made an integer; the irregular container takes what the regular ones lose or gain.\<close>

definition adjust_pair :: "int \<Rightarrow> rat \<Rightarrow> rat \<Rightarrow> rat \<times> rat" where
  "adjust_pair n v w =
     (let resource_modulo = py_mod v 1
      in if resource_modulo < 1/2
         then (if 1 \<le> v
               then (of_int (py_int v), of_int (py_round (w + resource_modulo * of_int (n - 1))))
               else (v, w))
         else (let smaller_resources = w - (1 - resource_modulo) * of_int (n - 1)
               in if 1 \<le> smaller_resources
                  then (of_int (py_round v), of_int (py_round smaller_resources)) else (v, w)))"

definition adjust_limit :: "int \<Rightarrow> string \<times> string \<Rightarrow> spec \<times> spec \<Rightarrow> (spec \<times> spec) result" where
  "adjust_limit n p cs =
     (let key = lkey (fst p) (snd p)
      in rbind (need (fst cs) key) (\<lambda>v. rbind (need (snd cs) key) (\<lambda>w.
         case adjust_pair n v w of (v', w') \<Rightarrow>
           Inr (set_num key v' (fst cs), set_num key w' (snd cs)))))"

text \<open>Without one: the truncated share of each limit.\<close>

definition divide_limit :: "limits dict \<Rightarrow> int \<Rightarrow> string \<Rightarrow> spec \<Rightarrow> spec result" where
  "divide_limit app_resources n res c =
     rbind (item app_resources res) (\<lambda>l.
     rbind (py_div (r_min l) (of_int n)) (\<lambda>mn.
     let c1 = set_num (lkey res ''min'') (of_int (py_int mn)) c
     in if res = ''cpu'' then Inr c1
        else rbind (current_of l) (\<lambda>cur.
          rbind (py_div (r_max l - cur) (of_int n)) (\<lambda>mx.
          Inr (set_num (lkey res ''max'') (of_int (py_int mx)) c1)))))"

section \<open>Boundaries and weights\<close>

definition two_power :: "int \<Rightarrow> rat" where
  "two_power e = (if 0 \<le> e then 2 ^ nat e else 1 / 2 ^ nat (- e))"

definition boundary_percent :: "int \<Rightarrow> rat \<Rightarrow> rat \<Rightarrow> rat result" where
  "boundary_percent benevolence mx mn =
     rbind (py_div ((mx - mn) * 100) (two_power (benevolence + 1) * mx)) (\<lambda>x. Inr (of_int (py_round x)))"

definition set_boundary :: "limit_entry dict \<Rightarrow> int \<Rightarrow> string \<Rightarrow> spec \<Rightarrow> spec result" where
  "set_boundary app_limits benevolence res c =
     (let key = lkey res ''boundary''; type_key = lkey res ''boundary_type''
      in if benevolence = -1
         then rbind (item app_limits res) (\<lambda>e.
           Inr (AList.update type_key (Txt (l_boundary_type e)) (set_num key (l_boundary e) c)))
         else rbind (need c (lkey res ''max'')) (\<lambda>mx. rbind (need c (lkey res ''min'')) (\<lambda>mn.
           rbind (boundary_percent benevolence mx mn) (\<lambda>b.
           Inr (AList.update type_key (Txt ''percentage_of_max'') (set_num key b c))))))"

definition round_cpu :: "spec \<Rightarrow> spec result" where
  "round_cpu c = rbind (need c ''cpu_max'') (\<lambda>x. Inr (set_num ''cpu_max'' (of_int (py_round x)) c))"

definition set_weight :: "limits dict \<Rightarrow> string \<Rightarrow> spec \<Rightarrow> spec result" where
  "set_weight app_resources res c =
     rbind (item app_resources res) (\<lambda>l. rbind (weight_of l) (\<lambda>w. Inr (set_num (lkey res ''weight'') w c)))"

text \<open>What is done to the specification of every container type at the end.\<close>

definition finish_spec ::
  "limits dict \<Rightarrow> limit_entry dict \<Rightarrow> int \<Rightarrow> spec \<Rightarrow> spec result" where
  "finish_spec app_resources app_limits benevolence c =
     rbind (foldR (set_boundary app_limits benevolence) (keys_of app_resources) c) (\<lambda>c1.
     rbind (round_cpu c1) (\<lambda>c2.
     foldR (set_weight app_resources) (keys_of app_resources) c2))"

definition getContainerResourcesForApp ::
  "int \<Rightarrow> limits dict \<Rightarrow> limit_entry dict \<Rightarrow> int \<Rightarrow> bool \<Rightarrow> (ctype \<times> spec) list result" where
  "getContainerResourcesForApp n app_resources app_limits benevolence is_hadoop_app =
     rbind (item app_resources ''cpu'') (\<lambda>cpu. rbind (current_of cpu) (\<lambda>cur.
     rbind (py_div (r_max cpu - cur) (of_int n)) (\<lambda>x.
     case split_cpu n is_hadoop_app x of
       (reg, None) \<Rightarrow>
         rbind (foldR (divide_limit app_resources n) (keys_of app_resources) [(''cpu_max'', Num reg)]) (\<lambda>c.
         rbind (finish_spec app_resources app_limits benevolence c) (\<lambda>c'. Inr [(Regular, c')]))
     | (reg, Some (t, irr)) \<Rightarrow>
         rbind (foldR (scale_limit app_resources) (limit_keys app_resources)
                  ([(''cpu_max'', Num reg)], [(''cpu_max'', Num irr)])) (\<lambda>cs.
         rbind (foldR (adjust_limit n) (limit_keys app_resources) cs) (\<lambda>(c, d).
         rbind (finish_spec app_resources app_limits benevolence c) (\<lambda>c'.
         rbind (finish_spec app_resources app_limits benevolence d) (\<lambda>d'.
         Inr [(Regular, c'), (t, d')])))))))"

section \<open>Keys that a loop leaves alone\<close>

lemma need_set_num [simp]: "need (set_num k x c) k' = (if k' = k then Inr x else need c k')"
  by (simp add: need_def set_num_def)

lemma need_update_other: "k' \<noteq> k \<Longrightarrow> need (AList.update k v c) k' = need c k'"
  by (simp add: need_def)

lemma lkey_eq_long:
  "length a = length b \<Longrightarrow> lkey r a = lkey s b \<longleftrightarrow> r = s \<and> a = b"
  by (auto simp: lkey_def append_eq_append_conv)

lemma cpu_max_key: "''cpu_max'' = lkey ''cpu'' ''max''"
  by (simp add: lkey_def)

lemma take_last_eq: "length b \<le> length a \<Longrightarrow> r @ CHR ''_'' # a = s @ CHR ''_'' # b \<Longrightarrow>
    drop (length a - length b) a = b"
proof -
  assume l: "length b \<le> length a" and e: "r @ CHR ''_'' # a = s @ CHR ''_'' # b"
  from e obtain us where
    "r = s @ us \<and> us @ CHR ''_'' # a = CHR ''_'' # b \<or> r @ us = s \<and> CHR ''_'' # a = us @ CHR ''_'' # b"
    by (auto simp: append_eq_append_conv2)
  then show ?thesis
  proof
    assume "r = s @ us \<and> us @ CHR ''_'' # a = CHR ''_'' # b"
    then show ?thesis using l by (cases us) auto
  next
    assume "r @ us = s \<and> CHR ''_'' # a = us @ CHR ''_'' # b"
    then show ?thesis by (cases us) auto
  qed
qed

lemma lkey_suffix_neq:
  assumes "length b \<le> length a" "drop (length a - length b) a \<noteq> b"
  shows "lkey r a \<noteq> lkey s b"
  using take_last_eq [OF assms(1), of r s] assms(2) by (auto simp: lkey_def)

lemma keys_differ [simp]:
  "lkey r ''boundary'' \<noteq> lkey s ''max''" "lkey r ''boundary_type'' \<noteq> lkey s ''max''"
  "lkey r ''weight'' \<noteq> lkey s ''max''"
  "lkey r ''boundary'' \<noteq> lkey s ''min''" "lkey r ''boundary_type'' \<noteq> lkey s ''min''"
  "lkey r ''weight'' \<noteq> lkey s ''min''"
  "lkey r ''boundary_type'' \<noteq> lkey s ''boundary''" "lkey r ''boundary'' \<noteq> lkey s ''weight''"
  "lkey r ''boundary_type'' \<noteq> lkey s ''weight''"
  by (rule lkey_suffix_neq; simp)+

lemma keys_differ_sym [simp]:
  "lkey s ''max'' \<noteq> lkey r ''boundary''" "lkey s ''max'' \<noteq> lkey r ''boundary_type''"
  "lkey s ''max'' \<noteq> lkey r ''weight''"
  "lkey s ''min'' \<noteq> lkey r ''boundary''" "lkey s ''min'' \<noteq> lkey r ''boundary_type''"
  "lkey s ''min'' \<noteq> lkey r ''weight''"
  using keys_differ by metis+

definition sides :: "string set" where
  "sides = {''max'', ''min''}"

lemma lkey_sides [simp]: "a \<in> sides \<Longrightarrow> b \<in> sides \<Longrightarrow> lkey r a = lkey s b \<longleftrightarrow> r = s \<and> a = b"
  by (rule lkey_eq_long) (auto simp: sides_def)

lemma sides_in [simp]: "''max'' \<in> sides" "''min'' \<in> sides"
  by (simp_all add: sides_def)

lemma set_boundary_keeps:
  assumes "set_boundary app_limits b res c = Inr c'" "side \<in> sides"
  shows "need c' (lkey r side) = need c (lkey r side)"
  using assms by (auto simp: set_boundary_def Let_def sides_def need_update_other elim!: rbindE split: if_splits)

lemma set_weight_keeps:
  assumes "set_weight A res c = Inr c'" "side \<in> sides"
  shows "need c' (lkey r side) = need c (lkey r side)"
  using assms by (auto simp: set_weight_def sides_def elim!: rbindE)

lemma finish_spec_keeps:
  assumes "finish_spec A app_limits b c = Inr c'" "side \<in> sides"
  shows "need c' (lkey r side) =
    (if r = ''cpu'' \<and> side = ''max'' then rbind (need c ''cpu_max'') (\<lambda>x. Inr (of_int (py_round x)))
     else need c (lkey r side))"
proof -
  from assms(1) obtain c1 c2 where
    c1: "foldR (set_boundary app_limits b) (keys_of A) c = Inr c1" and
    c2: "round_cpu c1 = Inr c2" and c': "foldR (set_weight A) (keys_of A) c2 = Inr c'"
    by (auto simp: finish_spec_def elim!: rbindE)
  have k1: "need c1 (lkey s t) = need c (lkey s t)" if "t \<in> sides" for s t
    by (rule foldR_invariant [OF c1, of "\<lambda>d. need d (lkey s t) = need c (lkey s t)"])
      (use set_boundary_keeps that in auto)
  have k2: "need c' (lkey r side) = need c2 (lkey r side)"
    by (rule foldR_invariant [OF c', of "\<lambda>d. need d (lkey r side) = need c2 (lkey r side)"])
      (use set_weight_keeps assms(2) in auto)
  show ?thesis
    using c2 k2 k1 [OF assms(2), of r] k1 [of "''max''" "''cpu''"] assms(2)
    by (auto simp: round_cpu_def cpu_max_key elim!: rbindE)
qed

lemma limit_keys_sides: "(res, side) \<in> set (limit_keys A) \<Longrightarrow> side \<in> sides \<and> \<not> (res = ''cpu'' \<and> side = ''max'')"
  by (auto simp: limit_keys_def sides_def)

lemma distinct_limit_keys: "distinct (keys_of A) \<Longrightarrow> distinct (limit_keys A)"
proof -
  have "distinct ks \<Longrightarrow> distinct (concat (map (\<lambda>res. [(res, ''max''), (res, ''min'')]) ks))"
    for ks :: "string list"
    by (induction ks) auto
  then show "distinct (keys_of A) \<Longrightarrow> ?thesis" by (simp add: limit_keys_def)
qed

section \<open>What the loops compute\<close>

lemma scale_fold:
  assumes "foldR (scale_limit A) (limit_keys A) ([(''cpu_max'', Num x)], [(''cpu_max'', Num y)]) = Inr cs"
    and "item A ''cpu'' = Inr cpu"
  shows "need (fst cs) ''cpu_max'' = Inr x" "need (snd cs) ''cpu_max'' = Inr y"
    and "(res, side) \<in> set (limit_keys A) \<Longrightarrow> \<exists>l. item A res = Inr l \<and> r_max cpu \<noteq> 0 \<and>
      need (fst cs) (lkey res side) = Inr (x * limit_value l side / r_max cpu) \<and>
      need (snd cs) (lkey res side) = Inr (y * limit_value l side / r_max cpu)"
proof -
  define P where "P p cs \<longleftrightarrow> (\<exists>l. item A (fst p) = Inr l \<and> r_max cpu \<noteq> 0 \<and>
      need (fst cs) (lkey (fst p) (snd p)) = Inr (x * limit_value l (snd p) / r_max cpu) \<and>
      need (snd cs) (lkey (fst p) (snd p)) = Inr (y * limit_value l (snd p) / r_max cpu))"
    for p and cs :: "spec \<times> spec"
  define I where "I cs \<longleftrightarrow> need (fst cs) ''cpu_max'' = Inr x \<and> need (snd cs) ''cpu_max'' = Inr y"
    for cs :: "spec \<times> spec"
  have step: "I t' \<and> P q t' \<and> (p \<in> set (limit_keys A) \<and> P p t \<longrightarrow> P p t')"
    if q: "q \<in> set (limit_keys A)" and "I t" and t': "scale_limit A q t = Inr t'" for p q t t'
  proof -
    obtain r s where [simp]: "q = (r, s)" by (cases q)
    have s: "s \<in> sides" "lkey ''cpu'' ''max'' \<noteq> lkey r s"
      using limit_keys_sides q by fastforce+
    from t' \<open>I t\<close> assms(2) obtain l where l: "item A r = Inr l"
      and d: "r_max cpu \<noteq> 0" "limit_value l s \<noteq> 0"
      and eq: "t' = (set_num (lkey r s) (x / (r_max cpu / limit_value l s)) (fst t),
                     set_num (lkey r s) (y / (r_max cpu / limit_value l s)) (snd t))"
      by (auto simp: scale_limit_def I_def py_div_eq_Inr elim!: rbindE)
    have "P p t'" if p: "p \<in> set (limit_keys A)" "P p t"
    proof (cases "p = q")
      case True
      then show ?thesis using l d eq by (simp add: P_def)
    next
      case False
      moreover obtain r' s' where [simp]: "p = (r', s')" by (cases p)
      ultimately have "lkey r' s' \<noteq> lkey r s" using s limit_keys_sides [of r' s' A] p by auto
      then show ?thesis using p eq by (simp add: P_def)
    qed
    then show ?thesis using \<open>I t\<close> l d eq s by (auto simp: I_def P_def cpu_max_key)
  qed
  have init: "I ([(''cpu_max'', Num x)], [(''cpu_max'', Num y)])"
    by (simp add: I_def need_def item_def)
  have "I cs" by (rule foldR_invariant [OF assms(1), of I]) (use init step in blast)+
  then show "need (fst cs) ''cpu_max'' = Inr x" "need (snd cs) ''cpu_max'' = Inr y"
    by (simp_all add: I_def)
  assume r: "(res, side) \<in> set (limit_keys A)"
  have "I cs \<and> P (res, side) cs"
  proof (rule foldR_each [where f = "scale_limit A" and x = "(res, side)" and P = P and I = I, OF assms(1) init])
    show "(res, side) \<in> set (limit_keys A) \<or> P (res, side) ([(''cpu_max'', Num x)], [(''cpu_max'', Num y)])"
      using r ..
    show "I s' \<and> P q s' \<and> (P (res, side) s \<longrightarrow> P (res, side) s')"
      if "q \<in> set (limit_keys A)" "I s" "scale_limit A q s = Inr s'" for q s s'
      using step [OF that, of "(res, side)"] r by blast
  qed
  then show "\<exists>l. item A res = Inr l \<and> r_max cpu \<noteq> 0 \<and>
      need (fst cs) (lkey res side) = Inr (x * limit_value l side / r_max cpu) \<and>
      need (snd cs) (lkey res side) = Inr (y * limit_value l side / r_max cpu)"
    by (simp add: P_def)
qed

lemma adjust_fold_other:
  assumes "foldR (adjust_limit n) ps cs = Inr cs'" "\<forall>p \<in> set ps. k \<noteq> lkey (fst p) (snd p)"
  shows "need (fst cs') k = need (fst cs) k \<and> need (snd cs') k = need (snd cs) k"
proof (rule foldR_invariant [OF assms(1), of "\<lambda>t. need (fst t) k = need (fst cs) k \<and> need (snd t) k = need (snd cs) k"])
  fix p t t'
  assume p: "p \<in> set ps" and t: "need (fst t) k = need (fst cs) k \<and> need (snd t) k = need (snd cs) k"
    and t': "adjust_limit n p t = Inr t'"
  from p assms(2) have "k \<noteq> lkey (fst p) (snd p)" by blast
  with t t' show "need (fst t') k = need (fst cs) k \<and> need (snd t') k = need (snd cs) k"
    by (auto simp: adjust_limit_def Let_def elim!: rbindE split: prod.splits)
qed simp

lemma adjust_fold:
  assumes "foldR (adjust_limit n) ps cs = Inr cs'" "distinct ps" "\<forall>p \<in> set ps. snd p \<in> sides"
    and "(res, side) \<in> set ps"
    and "need (fst cs) (lkey res side) = Inr v" "need (snd cs) (lkey res side) = Inr w"
  shows "need (fst cs') (lkey res side) = Inr (fst (adjust_pair n v w)) \<and>
    need (snd cs') (lkey res side) = Inr (snd (adjust_pair n v w))"
  using assms
proof (induction ps arbitrary: cs)
  case (Cons q ps)
  obtain r s where [simp]: "q = (r, s)" by (cases q)
  from Cons.prems(1) obtain t where t: "adjust_limit n q cs = Inr t" "foldR (adjust_limit n) ps t = Inr cs'"
    by (auto elim!: rbindE)
  show ?case
  proof (cases "(res, side) = q")
    case True
    then have "need (fst t) (lkey res side) = Inr (fst (adjust_pair n v w)) \<and>
      need (snd t) (lkey res side) = Inr (snd (adjust_pair n v w))"
      using t(1) Cons.prems by (auto simp: adjust_limit_def Let_def split: prod.splits)
    moreover have "\<forall>p \<in> set ps. lkey res side \<noteq> lkey (fst p) (snd p)"
      using True Cons.prems by auto
    ultimately show ?thesis using adjust_fold_other [OF t(2)] by simp
  next
    case False
    then have m: "(res, side) \<in> set ps" using Cons.prems by auto
    then have "lkey res side \<noteq> lkey r s" using False Cons.prems(3) by auto
    then have "need (fst t) (lkey res side) = Inr v" "need (snd t) (lkey res side) = Inr w"
      using t(1) Cons.prems by (auto simp: adjust_limit_def Let_def elim!: rbindE split: prod.splits)
    with Cons.IH [OF t(2)] Cons.prems m show ?thesis by auto
  qed
qed simp

section \<open>The split of the CPU\<close>

lemma py_mod_100: "x - py_mod x 100 = 100 * of_int \<lfloor>x / 100\<rfloor>"
  by (simp add: py_mod_def)

lemma split_cpu_irregular:
  assumes "split_cpu n h x = (reg, Some (t, irr))"
  shows "\<exists>k. reg = 100 * of_int k \<and> of_int (n - 1) * reg + irr = of_int n * x \<and>
    (t = Bigger \<and> 100 < x \<or> t = Smaller \<and> 10 \<le> irr)"
proof -
  let ?m = "py_mod x 100"
  consider "t = Bigger" "100 < x" "reg = x - ?m" "irr = x + ?m * of_int (n - 1)"
    | "t = Smaller" "10 \<le> irr" "reg = x + (100 - ?m)" "irr = x - (100 - ?m) * of_int (n - 1)"
    using assms by (auto simp: split_cpu_def Let_def split: if_splits)
  then show ?thesis
  proof cases
    case 1
    then have "reg = 100 * of_int \<lfloor>x / 100\<rfloor>" by (simp only: py_mod_100)
    moreover have "of_int (n - 1) * reg + irr = of_int n * x" unfolding 1(3,4) by (simp add: algebra_simps)
    ultimately show ?thesis using 1 by blast
  next
    case 2
    then have "reg = 100 * of_int (\<lfloor>x / 100\<rfloor> + 1)" using py_mod_100 [of x] by (simp add: algebra_simps)
    moreover have "of_int (n - 1) * reg + irr = of_int n * x" unfolding 2(3,4) by (simp add: algebra_simps)
    ultimately show ?thesis using 2 by blast
  qed
qed

lemma py_mod_1: "py_mod v 1 = v - of_int \<lfloor>v\<rfloor>"
  by (simp add: py_mod_def)

lemma py_round_up: "1/2 < py_mod v 1 \<Longrightarrow> of_int (py_round v) = v + (1 - py_mod v 1)"
  by (simp add: py_round_def py_mod_1 Let_def)

lemma adjust_pair_conserves:
  assumes "adjust_pair n v w = (v', w')" "py_mod v 1 \<noteq> 1/2"
  shows "\<bar>of_int (n - 1) * v' + w' - (of_int (n - 1) * v + w)\<bar> \<le> 1/2"
proof -
  let ?m = "py_mod v 1"
  consider "v' = v" "w' = w"
    | "?m < 1/2" "1 \<le> v" "v' = of_int (py_int v)" "w' = of_int (py_round (w + ?m * of_int (n - 1)))"
    | "1/2 < ?m" "v' = of_int (py_round v)" "w' = of_int (py_round (w - (1 - ?m) * of_int (n - 1)))"
    using assms by (auto simp: adjust_pair_def Let_def split: if_splits)
  then show ?thesis
  proof cases
    case 2
    then have v: "v' = v - ?m" by (simp add: py_int_def py_mod_1)
    have "of_int (n - 1) * v' + w' - (of_int (n - 1) * v + w) = w' - (w + ?m * of_int (n - 1))"
      unfolding v by (simp add: algebra_simps)
    moreover have "\<bar>w' - (w + ?m * of_int (n - 1))\<bar> \<le> 1/2"
      using py_round_dist 2(4) by blast
    ultimately show ?thesis by (simp only:)
  next
    case 3
    then have v: "v' = v + (1 - ?m)" by (simp add: py_round_up)
    have "of_int (n - 1) * v' + w' - (of_int (n - 1) * v + w) = w' - (w - (1 - ?m) * of_int (n - 1))"
      unfolding v by (simp add: algebra_simps)
    moreover have "\<bar>w' - (w - (1 - ?m) * of_int (n - 1))\<bar> \<le> 1/2"
      using py_round_dist 3(3) by blast
    ultimately show ?thesis by (simp only:)
  qed simp
qed

text \<open>The shape of an answer with an irregular container.\<close>

lemma irregular_answer:
  assumes "getContainerResourcesForApp n A app_limits b h = Inr [(Regular, c), (t, d)]"
  obtains cpu cur reg irr cs cs' where
    "item A ''cpu'' = Inr cpu" "current_of cpu = Inr cur" "n \<noteq> 0"
    "split_cpu n h ((r_max cpu - cur) / of_int n) = (reg, Some (t, irr))"
    "foldR (scale_limit A) (limit_keys A) ([(''cpu_max'', Num reg)], [(''cpu_max'', Num irr)]) = Inr cs"
    "foldR (adjust_limit n) (limit_keys A) cs = Inr cs'"
    "finish_spec A app_limits b (fst cs') = Inr c" "finish_spec A app_limits b (snd cs') = Inr d"
proof -
  from assms obtain cpu cur where a: "item A ''cpu'' = Inr cpu" "current_of cpu = Inr cur" "n \<noteq> 0"
    by (auto simp: getContainerResourcesForApp_def py_div_eq_Inr elim!: rbindE)
  obtain reg opt where s: "split_cpu n h ((r_max cpu - cur) / of_int n) = (reg, opt)" by (cases "split_cpu n h ((r_max cpu - cur) / of_int n)")
  show ?thesis
  proof (cases opt)
    case None
    with assms a s show ?thesis
      by (auto simp: getContainerResourcesForApp_def py_div_def elim!: rbindE)
  next
    case (Some q)
    obtain t' irr where q: "q = (t', irr)" by (cases q)
    from assms a s Some q obtain cs cs' where
      "foldR (scale_limit A) (limit_keys A) ([(''cpu_max'', Num reg)], [(''cpu_max'', Num irr)]) = Inr cs"
      "foldR (adjust_limit n) (limit_keys A) cs = Inr cs'" "t' = t"
      "finish_spec A app_limits b (fst cs') = Inr c" "finish_spec A app_limits b (snd cs') = Inr d"
      by (auto simp: getContainerResourcesForApp_def py_div_def elim!: rbindE split: prod.splits)
    with a s Some q that show ?thesis by auto
  qed
qed

section \<open>Properties\<close>

definition sample_app_resources :: "limits dict" where
  "sample_app_resources =
     [(''cpu'', \<lparr>r_max = 500, r_min = 100, r_current = Some 0, r_weight = Some 1, r_usage = 0\<rparr>),
      (''mem'', \<lparr>r_max = 8192, r_min = 1024, r_current = Some 0, r_weight = Some 1, r_usage = 0\<rparr>)]"

definition regular_answer :: spec where
  "regular_answer =
     (case getContainerResourcesForApp 3 sample_app_resources [] 1 False of
        Inr [(_, c), _] \<Rightarrow> c | _ \<Rightarrow> [])"

definition smaller_answer :: spec where
  "smaller_answer =
     (case getContainerResourcesForApp 3 sample_app_resources [] 1 False of
        Inr [_, (_, d)] \<Rightarrow> d | _ \<Rightarrow> [])"

lemma sample_answer:
  "getContainerResourcesForApp 3 sample_app_resources [] 1 False =
     Inr [(Regular, regular_answer), (Smaller, smaller_answer)]"
proof -
  have "(case getContainerResourcesForApp 3 sample_app_resources [] 1 False of
      Inr [(Regular, c), (Smaller, d)] \<Rightarrow> True | _ \<Rightarrow> False)"
    by code_simp
  then show ?thesis
    by (auto simp: regular_answer_def smaller_answer_def split: sum.splits list.splits ctype.splits)
qed

text \<open>C4: with an irregular container, the CPU shares of \<open>n - 1\<close> regular containers and the irregular
  one add up exactly to the shares the application has left, the regular share is a multiple of
  100, and a smaller container has at least 10 shares.\<close>

theorem cpu_budget_kept:
  assumes "getContainerResourcesForApp n A app_limits b h = Inr [(Regular, c), (t, d)]"
    and "item A ''cpu'' = Inr cpu" "current_of cpu = Inr cur" "r_max cpu - cur = of_int budget"
  shows "\<exists>k irr. need c ''cpu_max'' = Inr (of_int (100 * k)) \<and> need d ''cpu_max'' = Inr (of_int irr) \<and>
    (n - 1) * (100 * k) + irr = budget \<and> (t = Bigger \<or> t = Smaller \<and> 10 \<le> irr)"
proof -
  obtain reg irr cs cs' where n: "n \<noteq> 0"
    and s: "split_cpu n h ((r_max cpu - cur) / of_int n) = (reg, Some (t, irr))"
    and cs: "foldR (scale_limit A) (limit_keys A) ([(''cpu_max'', Num reg)], [(''cpu_max'', Num irr)]) = Inr cs"
    and cs': "foldR (adjust_limit n) (limit_keys A) cs = Inr cs'"
    and c: "finish_spec A app_limits b (fst cs') = Inr c" "finish_spec A app_limits b (snd cs') = Inr d"
    by (rule irregular_answer [OF assms(1)]) (use assms(2,3) in auto)
  from split_cpu_irregular [OF s] n assms(4) obtain k where k: "reg = 100 * of_int k"
    and sum: "of_int (n - 1) * reg + irr = of_int budget"
    and t: "t = Bigger \<or> t = Smaller \<and> 10 \<le> irr" by auto
  from sum k have irr: "irr = of_int (budget - (n - 1) * (100 * k))" by (simp add: algebra_simps)
  have other: "\<forall>p \<in> set (limit_keys A). ''cpu_max'' \<noteq> lkey (fst p) (snd p)"
    using limit_keys_sides [of _ _ A] by (fastforce simp: cpu_max_key)
  have "need (fst cs') ''cpu_max'' = Inr reg" "need (snd cs') ''cpu_max'' = Inr irr"
    using adjust_fold_other [OF cs' other] scale_fold(1,2) [OF cs assms(2)] by simp_all
  then have "need c ''cpu_max'' = Inr (of_int (py_round reg))" "need d ''cpu_max'' = Inr (of_int (py_round irr))"
    using finish_spec_keeps [OF c(1), of "''max''" "''cpu''"] finish_spec_keeps [OF c(2), of "''max''" "''cpu''"]
    by (simp_all add: cpu_max_key)
  moreover have "py_round reg = 100 * k" using py_round_of_int [of "100 * k"] k by simp
  moreover have "py_round irr = budget - (n - 1) * (100 * k)" unfolding irr by (rule py_round_of_int)
  moreover have "t = Bigger \<or> t = Smaller \<and> 10 \<le> budget - (n - 1) * (100 * k)"
    using t unfolding irr by (metis of_int_le_iff of_int_numeral)
  ultimately show ?thesis by (intro exI [of _ k] exI [of _ "budget - (n - 1) * (100 * k)"]) simp
qed

theorem cpu_budget_kept_witness:
  "\<exists>k irr. need regular_answer ''cpu_max'' = Inr (of_int (100 * k)) \<and> need smaller_answer ''cpu_max'' = Inr (of_int irr) \<and>
    (3 - 1) * (100 * k) + irr = 500 \<and> (Smaller = Bigger \<or> Smaller = Smaller \<and> 10 \<le> irr)"
  by (rule cpu_budget_kept [OF sample_answer, where cur = 0 and
      cpu = "\<lparr>r_max = 500, r_min = 100, r_current = Some 0, r_weight = Some 1, r_usage = 0\<rparr>"])
    (simp_all add: sample_app_resources_def item_def current_of_def)

text \<open>every other limit of the containers adds up to the application's limit, scaled by the CPU
  shares that are left, up to the rounding of one container, provided the regular share does not
  end in exactly one half.\<close>

theorem irregular_limits_kept:
  assumes "getContainerResourcesForApp n A app_limits b h = Inr [(Regular, c), (t, d)]"
    and "item A ''cpu'' = Inr cpu" "current_of cpu = Inr cur" "item A res = Inr l"
    and "distinct (keys_of A)" "(res, side) \<in> set (limit_keys A)"
    and "\<And>k. py_mod (100 * of_int k * limit_value l side / r_max cpu) 1 \<noteq> 1/2"
  shows "\<exists>v w. need c (lkey res side) = Inr v \<and> need d (lkey res side) = Inr w \<and>
    \<bar>of_int (n - 1) * v + w - (r_max cpu - cur) * limit_value l side / r_max cpu\<bar> \<le> 1/2"
proof -
  obtain reg irr cs cs' where n: "n \<noteq> 0"
    and s: "split_cpu n h ((r_max cpu - cur) / of_int n) = (reg, Some (t, irr))"
    and cs: "foldR (scale_limit A) (limit_keys A) ([(''cpu_max'', Num reg)], [(''cpu_max'', Num irr)]) = Inr cs"
    and cs': "foldR (adjust_limit n) (limit_keys A) cs = Inr cs'"
    and c: "finish_spec A app_limits b (fst cs') = Inr c" "finish_spec A app_limits b (snd cs') = Inr d"
    by (rule irregular_answer [OF assms(1)]) (use assms(2,3) in auto)
  from split_cpu_irregular [OF s] n obtain k where k: "reg = 100 * of_int k"
    and sum: "of_int (n - 1) * reg + irr = r_max cpu - cur" by auto
  let ?v = "reg * limit_value l side / r_max cpu" and ?w = "irr * limit_value l side / r_max cpu"
  from scale_fold(3) [OF cs assms(2,6)] assms(4)
  have vw: "need (fst cs) (lkey res side) = Inr ?v" "need (snd cs) (lkey res side) = Inr ?w" by auto
  obtain v' w' where a: "adjust_pair n ?v ?w = (v', w')" by (cases "adjust_pair n ?v ?w")
  have sides: "\<forall>p \<in> set (limit_keys A). snd p \<in> sides" "side \<in> sides" "\<not> (res = ''cpu'' \<and> side = ''max'')"
    using limit_keys_sides assms(6) by fastforce+
  from adjust_fold [OF cs' distinct_limit_keys [OF assms(5)] sides(1) assms(6) vw] a
  have "need (fst cs') (lkey res side) = Inr v'" "need (snd cs') (lkey res side) = Inr w'" by simp_all
  then have "need c (lkey res side) = Inr v'" "need d (lkey res side) = Inr w'"
    using finish_spec_keeps [OF c(1) sides(2), of res] finish_spec_keeps [OF c(2) sides(2), of res] sides(3)
    by auto
  moreover have "of_int (n - 1) * ?v + ?w = (of_int (n - 1) * reg + irr) * limit_value l side / r_max cpu"
    by (simp add: add_divide_distrib diff_divide_distrib algebra_simps)
  moreover have "py_mod ?v 1 \<noteq> 1/2" using assms(7) k by simp
  ultimately show ?thesis using adjust_pair_conserves [OF a] sum by auto
qed

lemma sample_no_half: "py_mod (100 * of_int k * 8192 / 500) 1 \<noteq> 1/2"
proof
  assume "py_mod (100 * of_int k * 8192 / 500) 1 = 1/2"
  then have "100 * of_int k * 8192 / 500 - (of_int \<lfloor>100 * of_int k * 8192 / (500 :: rat)\<rfloor> :: rat) = 1/2"
    by (simp add: py_mod_1)
  then have "of_int (16384 * k) = (of_int (10 * \<lfloor>100 * of_int k * 8192 / (500 :: rat)\<rfloor> + 5) :: rat)"
    by (simp add: field_simps)
  then have "16384 * k = 10 * \<lfloor>100 * of_int k * 8192 / (500 :: rat)\<rfloor> + 5" by (simp only: of_int_eq_iff)
  then have "even (10 * \<lfloor>100 * of_int k * 8192 / (500 :: rat)\<rfloor> + 5)" by (metis dvd_mult2 even_numeral)
  then show False by simp
qed

theorem irregular_limits_kept_witness:
  "\<exists>v w. need regular_answer (lkey ''mem'' ''max'') = Inr v \<and> need smaller_answer (lkey ''mem'' ''max'') = Inr w \<and>
    \<bar>of_int (3 - 1) * v + w - (r_max (snd (sample_app_resources ! 0)) - 0) *
      limit_value (snd (sample_app_resources ! 1)) ''max'' / r_max (snd (sample_app_resources ! 0))\<bar> \<le> 1/2"
proof (rule irregular_limits_kept [OF sample_answer])
  show "py_mod (100 * of_int k * limit_value (snd (sample_app_resources ! 1)) ''max'' /
      r_max (snd (sample_app_resources ! 0))) 1 \<noteq> 1/2" for k
    using sample_no_half [of k] by (simp add: sample_app_resources_def limit_value_def)
qed (simp_all add: sample_app_resources_def item_def current_of_def keys_of_def limit_keys_def)

text \<open>A share that ends in one half is lost: \<open>round\<close> takes 12.5 to the even 12, while the irregular
  container gives away what rounding up would cost, so that 50 units of energy become 48.\<close>

theorem half_share_lost:
  "(case getContainerResourcesForApp 3
      [(''cpu'', \<lparr>r_max = 400, r_min = 100, r_current = Some 0, r_weight = Some 1, r_usage = 0\<rparr>),
       (''energy'', \<lparr>r_max = 50, r_min = 40, r_current = Some 0, r_weight = Some 1, r_usage = 0\<rparr>)] [] 1 False of
      Inr [(Regular, c), (Bigger, d)] \<Rightarrow>
        need c ''energy_max'' = Inr 12 \<and> need d ''energy_max'' = Inr 24 | _ \<Rightarrow> False)"
  by code_simp

lemma divide_limit_result:
  assumes "divide_limit A n r c = Inr c'" "item A r = Inr l" "n \<noteq> 0"
  shows "\<exists>cur. (r \<noteq> ''cpu'' \<longrightarrow> current_of l = Inr cur) \<and>
    (\<forall>k. need c' k = (if k = lkey r ''max'' \<and> r \<noteq> ''cpu'' then Inr (of_int (py_int ((r_max l - cur) / of_int n)))
       else if k = lkey r ''min'' then Inr (of_int (py_int (r_min l / of_int n))) else need c k))"
proof (cases "r = ''cpu''")
  case True
  with assms show ?thesis by (auto simp: divide_limit_def py_div_def Let_def elim!: rbindE)
next
  case False
  with assms obtain cur where "current_of l = Inr cur"
    "c' = set_num (lkey r ''max'') (of_int (py_int ((r_max l - cur) / of_int n)))
       (set_num (lkey r ''min'') (of_int (py_int (r_min l / of_int n))) c)"
    by (auto simp: divide_limit_def py_div_def Let_def elim!: rbindE)
  with False show ?thesis by auto
qed

lemma truncated_share:
  assumes "0 < n" "0 \<le> x"
  shows "of_int n * of_int (py_int (x / of_int n)) \<le> x \<and> x < of_int n * (of_int (py_int (x / of_int n)) + 1)"
proof -
  have n: "(0 :: rat) < of_int n" using assms(1) by simp
  have f: "of_int (py_int (x / of_int n)) = (of_int \<lfloor>x / of_int n\<rfloor> :: rat)" using assms by (simp add: py_int_def)
  have "of_int \<lfloor>x / of_int n\<rfloor> \<le> x / of_int n" "x / of_int n < of_int \<lfloor>x / of_int n\<rfloor> + 1" by linarith+
  then have "of_int \<lfloor>x / of_int n\<rfloor> * of_int n \<le> x" "x < (of_int \<lfloor>x / of_int n\<rfloor> + 1) * of_int n"
    using n by (simp_all only: pos_le_divide_eq pos_divide_less_eq)
  then show ?thesis unfolding f by (simp add: mult.commute)
qed

text \<open>Without an irregular container, the regular containers together never get more of a resource
  than the application has left, and less than one unit per container is wasted.\<close>

theorem regular_limits_fit:
  assumes "getContainerResourcesForApp n A app_limits b h = Inr [(Regular, c)]"
    and "0 < n" "item A res = Inr l" "res \<noteq> ''cpu''"
    and "current_of l = Inr cur" "0 \<le> r_max l - cur" "0 \<le> r_min l"
  shows "\<exists>v w. need c (lkey res ''max'') = Inr v \<and> of_int n * v \<le> r_max l - cur \<and>
      r_max l - cur < of_int n * (v + 1) \<and>
      need c (lkey res ''min'') = Inr w \<and> of_int n * w \<le> r_min l \<and> r_min l < of_int n * (w + 1)"
proof -
  define v where "v = (of_int (py_int ((r_max l - cur) / of_int n)) :: rat)"
  define w where "w = (of_int (py_int (r_min l / of_int n)) :: rat)"
  from assms(1,2) obtain c0 reg where
    c0: "foldR (divide_limit A n) (keys_of A) [(''cpu_max'', Num reg)] = Inr c0"
    and c: "finish_spec A app_limits b c0 = Inr c"
    by (auto simp: getContainerResourcesForApp_def py_div_def elim!: rbindE split: prod.splits option.splits)
  define P where "P r d \<longleftrightarrow> (r = res \<longrightarrow> need d (lkey res ''max'') = Inr v \<and> need d (lkey res ''min'') = Inr w)"
    for r and d :: spec
  have key: "res \<in> set (keys_of A)"
    using assms(3) by (auto simp: item_eq keys_of_def dest!: map_of_SomeD intro: rev_image_eqI)
  have "True \<and> P res c0"
  proof (rule foldR_each [where f = "divide_limit A n" and x = res and P = P and I = "\<lambda>_. True", OF c0])
    show "res \<in> set (keys_of A) \<or> P res [(''cpu_max'', Num reg)]" using key ..
    fix r d d' assume d': "divide_limit A n r d = Inr d'"
    then obtain l' where l': "item A r = Inr l'" by (auto simp: divide_limit_def elim!: rbindE)
    from divide_limit_result [OF d' l'] assms(2) obtain cur' where
      cur': "r \<noteq> ''cpu'' \<longrightarrow> current_of l' = Inr cur'" and
      need: "\<And>k. need d' k = (if k = lkey r ''max'' \<and> r \<noteq> ''cpu'' then Inr (of_int (py_int ((r_max l' - cur') / of_int n)))
       else if k = lkey r ''min'' then Inr (of_int (py_int (r_min l' / of_int n))) else need d k)"
      by auto
    show "True \<and> P r d' \<and> (P res d \<longrightarrow> P res d')"
    proof (cases "r = res")
      case True
      with l' cur' assms(3-5) need show ?thesis by (simp add: P_def v_def w_def)
    next
      case False
      then show ?thesis by (simp add: P_def need)
    qed
  qed simp
  then have "need c (lkey res ''max'') = Inr v" "need c (lkey res ''min'') = Inr w"
    using finish_spec_keeps [OF c, of "''max''" res] finish_spec_keeps [OF c, of "''min''" res] assms(4)
    by (simp_all add: P_def)
  then show ?thesis
    using truncated_share [OF assms(2,6)] truncated_share [OF assms(2,7)] by (auto simp: v_def w_def)
qed

definition even_app :: "limits dict" where
  "even_app = [(''cpu'', \<lparr>r_max = 400, r_min = 100, r_current = Some 0, r_weight = Some 1, r_usage = 0\<rparr>),
     (''mem'', \<lparr>r_max = 8193, r_min = 1024, r_current = Some 0, r_weight = Some 1, r_usage = 0\<rparr>)]"

definition even_answer :: spec where
  "even_answer = (case getContainerResourcesForApp 2 even_app [] 1 False of Inr [(_, c)] \<Rightarrow> c | _ \<Rightarrow> [])"

theorem regular_limits_fit_witness:
  "\<exists>v w. need even_answer (lkey ''mem'' ''max'') = Inr v \<and> of_int 2 * v \<le> r_max (snd (even_app ! 1)) - 0 \<and>
      r_max (snd (even_app ! 1)) - 0 < of_int 2 * (v + 1) \<and>
      need even_answer (lkey ''mem'' ''min'') = Inr w \<and> of_int 2 * w \<le> r_min (snd (even_app ! 1)) \<and>
      r_min (snd (even_app ! 1)) < of_int 2 * (w + 1)"
proof (rule regular_limits_fit)
  have "(case getContainerResourcesForApp 2 even_app [] 1 False of Inr [(Regular, c)] \<Rightarrow> True | _ \<Rightarrow> False)"
    by code_simp
  then show "getContainerResourcesForApp 2 even_app [] 1 False = Inr [(Regular, even_answer)]"
    by (auto simp: even_answer_def split: sum.splits list.splits ctype.splits)
qed (simp_all add: even_app_def item_def current_of_def)

text \<open>an automatic boundary is a percentage between 0 and 50 for every benevolence from 0 up.\<close>

theorem boundary_in_range:
  assumes "boundary_percent benevolence mx mn = Inr b"
    and "0 \<le> benevolence" "0 \<le> mn" "mn \<le> mx"
  shows "0 \<le> b \<and> b \<le> 50"
proof -
  let ?k = "nat (benevolence + 1)"
  let ?q = "(mx - mn) * 100 / (2 ^ ?k * mx)"
  have b: "b = of_int (py_round ?q)" "mx \<noteq> 0"
    using assms(1,2) by (auto simp: boundary_percent_def two_power_def py_div_eq_Inr elim!: rbindE)
  with assms(3,4) have mx: "0 < mx" by simp
  have "1 \<le> ?k" using assms(2) by simp
  then have "(2 :: rat) ^ 1 \<le> 2 ^ ?k" by (rule power_increasing) simp
  then have "2 * mx \<le> 2 ^ ?k * mx" using mx by (intro mult_right_mono) simp_all
  moreover have "(mx - mn) * 100 \<le> 100 * mx" using assms(3) by simp
  ultimately have "(mx - mn) * 100 \<le> 50 * (2 ^ ?k * mx)" by linarith
  then have le: "?q \<le> of_int 50" using mx by (simp add: pos_divide_le_eq)
  have "of_int 0 \<le> ?q" using assms(4) mx by simp
  then have "0 \<le> py_round ?q" by (rule py_round_mono_ge)
  moreover have "py_round ?q \<le> 50" using le by (rule py_round_mono_le)
  ultimately have "0 \<le> py_round ?q \<and> py_round ?q \<le> 50" ..
  then show ?thesis unfolding b(1) by (metis of_int_0_le_iff of_int_le_iff of_int_numeral)
qed

theorem boundary_in_range_witness: "(0 :: rat) \<le> 12 \<and> (12 :: rat) \<le> 50"
  by (rule boundary_in_range [of 1 200 100]) code_simp+

end
