(* ===== verification/Inventory.thy ===== *)
theory Inventory
  imports PyStr
begin

text \<open>
  The Ansible inventory: \<open>AnsibleYamlInventory\<close> of \<open>serverlessyarn_utils/manage_inventory.py\<close> with
  its naming helpers, and the operations of \<open>ui/update_inventory_file.py\<close>.

  The YAML document is a dictionary of groups; a group may have a mapping of hosts and a mapping of
  default variables.  A host variable overrides the default of its group.  An operation that loads,
  changes and saves the file is a function from the document to the document that is saved.
\<close>

section \<open>The document\<close>

datatype attr = ANum rat | AStr string

datatype ival =
    VNull
  | VNum rat
  | VStr string
  | VList "string list"
  | VDisks "attr dict dict"

text \<open>
  \<open>None\<close> is an absent key.  No operation of the program writes a null \<open>hosts\<close> or \<open>vars\<close>; a file edited by hand
  to have one is outside the model.
\<close>

record group =
  g_hosts :: "ival dict dict option"
  g_vars :: "ival dict option"

type_synonym inventory = "group dict"

definition SERVER_GROUP_NAME :: string where "SERVER_GROUP_NAME = ''platform_management''"
definition SERVER_INVENTORY_NAME :: string where "SERVER_INVENTORY_NAME = ''platform_server''"
definition HOST_GROUP_NAME :: string where "HOST_GROUP_NAME = ''nodes''"
definition EMPTIABLE_VARS :: "string list" where "EMPTIABLE_VARS = [''disks'', ''containers'']"
definition HOST_CONTAINER_SEPARATOR :: char where "HOST_CONTAINER_SEPARATOR = CHR ''-''"

fun truthy :: "ival \<Rightarrow> bool" where
  "truthy VNull = False"
| "truthy (VNum x) = (x \<noteq> 0)"
| "truthy (VStr s) = (s \<noteq> [])"
| "truthy (VList xs) = (xs \<noteq> [])"
| "truthy (VDisks d) = (d \<noteq> [])"

text \<open>\<open>==\<close> on values: two dictionaries are equal whatever the order of their keys.\<close>

definition dict_eq :: "('v \<Rightarrow> 'v \<Rightarrow> bool) \<Rightarrow> 'v dict \<Rightarrow> 'v dict \<Rightarrow> bool" where
  "dict_eq eq d e \<longleftrightarrow> list_all (\<lambda>k. case (map_of d k, map_of e k) of
     (Some x, Some y) \<Rightarrow> eq x y | _ \<Rightarrow> False) (keys_of d @ keys_of e)"

fun py_eq :: "ival \<Rightarrow> ival \<Rightarrow> bool" where
  "py_eq (VDisks d) (VDisks e) = dict_eq (dict_eq (=)) d e"
| "py_eq v w = (v = w)"

definition group_of :: "inventory \<Rightarrow> string \<Rightarrow> group result" where
  "group_of = item"

definition hosts_of :: "group \<Rightarrow> ival dict dict result" where
  "hosts_of g = (case g_hosts g of Some hs \<Rightarrow> Inr hs | None \<Rightarrow> Inl (KeyError ''hosts''))"

definition vars_of :: "group \<Rightarrow> ival dict result" where
  "vars_of g = (case g_vars g of Some vs \<Rightarrow> Inr vs | None \<Rightarrow> Inl (KeyError ''vars''))"

definition has_default :: "group \<Rightarrow> string \<Rightarrow> bool" where
  "has_default g key \<longleftrightarrow> (case g_vars g of None \<Rightarrow> False | Some vs \<Rightarrow> has_key vs key)"

text \<open>\<open>d.get(key, None)\<close>, a stored null and a missing key alike.\<close>

definition get_var :: "ival dict \<Rightarrow> string \<Rightarrow> ival option" where
  "get_var d key = (case map_of d key of None \<Rightarrow> None | Some VNull \<Rightarrow> None | Some v \<Rightarrow> Some v)"

section \<open>Groups, hosts and variables\<close>

definition set_group_var :: "string \<Rightarrow> ival \<Rightarrow> group \<Rightarrow> group" where
  "set_group_var key v g =
     g\<lparr>g_vars := Some (AList.update key v (case g_vars g of None \<Rightarrow> [] | Some vs \<Rightarrow> vs))\<rparr>"

definition add_group_vars :: "ival dict \<Rightarrow> group \<Rightarrow> group" where
  "add_group_vars group_vars g =
     fold (\<lambda>(var, v) g. if truthy v \<or> var \<in> set EMPTIABLE_VARS then set_group_var var v g else g)
       group_vars g"

definition add_group :: "string \<Rightarrow> ival dict \<Rightarrow> inventory \<Rightarrow> inventory" where
  "add_group group_name group_vars doc =
     (let g = (case map_of doc group_name of None \<Rightarrow> \<lparr>g_hosts = Some [], g_vars = None\<rparr> | Some g \<Rightarrow> g);
          g1 = (if g_hosts g = None then g\<lparr>g_hosts := Some []\<rparr> else g)
      in AList.update group_name (add_group_vars group_vars g1) doc)"

definition get_host_var :: "string \<Rightarrow> string \<Rightarrow> string \<Rightarrow> inventory \<Rightarrow> ival option result" where
  "get_host_var group_name key hostname doc =
     (let default = rbind (group_of doc group_name) (\<lambda>g. rbind (vars_of g) (\<lambda>vs. Inr (get_var vs key)))
      in if hostname = [] then default
         else rbind (group_of doc group_name) (\<lambda>g. rbind (hosts_of g) (\<lambda>hs.
           case get_var (get_or hs hostname []) key of None \<Rightarrow> default | Some v \<Rightarrow> Inr (Some v))))"

text \<open>Whether an assignment of \<open>value\<close> is stored with the host, once the old value is gone.\<close>

definition stored_with_host :: "group \<Rightarrow> string \<Rightarrow> ival \<Rightarrow> bool" where
  "stored_with_host g key value \<longleftrightarrow>
     \<not> (\<not> truthy value \<and> (key \<notin> set EMPTIABLE_VARS \<or> \<not> has_default g key)) \<and>
     (\<not> has_default g key \<or> \<not> py_eq value (get_or (case g_vars g of None \<Rightarrow> [] | Some vs \<Rightarrow> vs) key VNull))"

definition set_host_var :: "string \<Rightarrow> string \<Rightarrow> ival \<Rightarrow> string \<Rightarrow> inventory \<Rightarrow> inventory result" where
  "set_host_var group_name key value hostname doc =
     rbind (group_of doc group_name) (\<lambda>g.
     if hostname = [] then Inr (AList.update group_name (set_group_var key value g) doc)
     else rbind (hosts_of g) (\<lambda>hs. rbind (item hs hostname) (\<lambda>vs.
       let vs1 = pop_key key vs;
           vs2 = (if stored_with_host g key value then AList.update key value vs1 else vs1)
       in Inr (AList.update group_name (g\<lparr>g_hosts := Some (AList.update hostname vs2 hs)\<rparr>) doc))))"

definition add_host_to_group :: "string \<Rightarrow> string \<Rightarrow> ival dict \<Rightarrow> inventory \<Rightarrow> inventory result" where
  "add_host_to_group group_name hostname host_vars doc =
     (let doc1 = add_group group_name [] doc
      in rbind (group_of doc1 group_name) (\<lambda>g. rbind (hosts_of g) (\<lambda>hs.
         let hs1 = (if has_key hs hostname then hs else AList.update hostname [] hs);
             doc2 = AList.update group_name (g\<lparr>g_hosts := Some hs1\<rparr>) doc1
         in foldR (\<lambda>(var, v). set_host_var group_name var v hostname) host_vars doc2)))"

text \<open>\<open>inventory[group_name].pop(hostname, None)\<close>: the key is taken from the group itself.\<close>

definition remove_host_of :: "string \<Rightarrow> string \<Rightarrow> inventory \<Rightarrow> inventory" where
  "remove_host_of group_name hostname doc =
     (case map_of doc group_name of
        None \<Rightarrow> doc
      | Some g \<Rightarrow> AList.update group_name
          (if hostname = ''hosts'' then g\<lparr>g_hosts := None\<rparr>
           else if hostname = ''vars'' then g\<lparr>g_vars := None\<rparr> else g) doc)"

section \<open>Operations of external scripts\<close>

definition get_node_hostnames :: "inventory \<Rightarrow> string list" where
  "get_node_hostnames doc =
     (case map_of doc HOST_GROUP_NAME of None \<Rightarrow> []
      | Some g \<Rightarrow> (case g_hosts g of None \<Rightarrow> [] | Some hs \<Rightarrow> keys_of hs))"

text \<open>\<open>except KeyError: raise Exception(msg)\<close>\<close>

definition rename_key_error :: "string \<Rightarrow> 'a result \<Rightarrow> 'a result" where
  "rename_key_error msg m = (case m of Inl (KeyError k) \<Rightarrow> Inl (PyException msg) | _ \<Rightarrow> m)"

definition get_node_resource :: "string \<Rightarrow> string \<Rightarrow> inventory \<Rightarrow> ival option result" where
  "get_node_resource res hostname doc =
     rename_key_error ''Host did not match with any of the existing hosts in inventory''
       (get_host_var HOST_GROUP_NAME res hostname doc)"

definition get_server_hostname :: "inventory \<Rightarrow> ival option result" where
  "get_server_hostname doc =
     rename_key_error ''platform_server host is missing from inventory''
       (get_host_var SERVER_GROUP_NAME ''ansible_host'' SERVER_INVENTORY_NAME doc)"

text \<open>The getters return whatever value the variable has.\<close>

definition get_containers :: "string \<Rightarrow> inventory \<Rightarrow> ival result" where
  "get_containers hostname doc =
     rbind (get_node_resource ''containers'' hostname doc) (\<lambda>v. Inr (case v of None \<Rightarrow> VList [] | Some x \<Rightarrow> x))"

definition get_disks :: "string \<Rightarrow> inventory \<Rightarrow> ival result" where
  "get_disks hostname doc =
     rbind (get_node_resource ''disks'' hostname doc) (\<lambda>v. Inr (case v of None \<Rightarrow> VDisks [] | Some x \<Rightarrow> x))"

text \<open>
  What the callers do with that value (\<open>append\<close>, \<open>extend\<close>, \<open>update\<close>, \<open>items\<close>) is defined for a list and for
  a dictionary; \<open>listed_containers\<close> and \<open>listed_disks\<close> are the value so used.  Which exception another type
  of value would end in depends on the caller; that no reachable inventory has such a value is a theorem of
  \<open>InventoryTypes\<close>.
\<close>

definition as_list :: "ival \<Rightarrow> string list result" where
  "as_list v = (case v of VList xs \<Rightarrow> Inr xs | _ \<Rightarrow> Inl (AttributeError ''append''))"

definition as_disks :: "ival \<Rightarrow> attr dict dict result" where
  "as_disks v = (case v of VDisks d \<Rightarrow> Inr d | _ \<Rightarrow> Inl (AttributeError ''update''))"

definition listed_containers :: "string \<Rightarrow> inventory \<Rightarrow> string list result" where
  "listed_containers hostname doc = rbind (get_containers hostname doc) as_list"

definition listed_disks :: "string \<Rightarrow> inventory \<Rightarrow> attr dict dict result" where
  "listed_disks hostname doc = rbind (get_disks hostname doc) as_disks"

lemma listed_containers_eq:
  "listed_containers hostname doc =
     rbind (get_node_resource ''containers'' hostname doc) (\<lambda>v. case v of None \<Rightarrow> Inr [] | Some x \<Rightarrow> as_list x)"
  by (auto simp: listed_containers_def get_containers_def as_list_def rbind_def split: sum.splits option.splits)

lemma listed_disks_eq:
  "listed_disks hostname doc =
     rbind (get_node_resource ''disks'' hostname doc) (\<lambda>v. case v of None \<Rightarrow> Inr [] | Some x \<Rightarrow> as_disks x)"
  by (auto simp: listed_disks_def get_disks_def as_disks_def rbind_def split: sum.splits option.splits)

definition add_server :: "string \<Rightarrow> string \<Rightarrow> inventory \<Rightarrow> inventory result" where
  "add_server host_ip ansible_host =
     add_host_to_group SERVER_GROUP_NAME SERVER_INVENTORY_NAME
       [(''host_ip'', VStr host_ip), (''ansible_host'', VStr ansible_host)]"

definition add_node_group :: "ival dict \<Rightarrow> inventory \<Rightarrow> inventory" where
  "add_node_group = add_group HOST_GROUP_NAME"

definition add_node :: "string \<Rightarrow> ival dict \<Rightarrow> string list \<Rightarrow> inventory \<Rightarrow> inventory result" where
  "add_node hostname resources containers =
     add_host_to_group HOST_GROUP_NAME hostname (AList.update ''containers'' (VList containers) resources)"

definition add_containers :: "string \<Rightarrow> string list \<Rightarrow> inventory \<Rightarrow> inventory result" where
  "add_containers hostname containers doc =
     rbind (listed_containers hostname doc) (\<lambda>current.
       set_host_var HOST_GROUP_NAME ''containers'' (VList (current @ containers)) hostname doc)"

definition add_container :: "string \<Rightarrow> string \<Rightarrow> inventory \<Rightarrow> inventory result" where
  "add_container hostname container = add_containers hostname [container]"

definition add_disks :: "string \<Rightarrow> attr dict dict \<Rightarrow> inventory \<Rightarrow> inventory result" where
  "add_disks hostname disks doc =
     rbind (listed_disks hostname doc) (\<lambda>current.
       set_host_var HOST_GROUP_NAME ''disks'' (VDisks (dict_update current disks)) hostname doc)"

definition remove_node :: "string \<Rightarrow> inventory \<Rightarrow> inventory" where
  "remove_node = remove_host_of HOST_GROUP_NAME"

definition remove_container :: "string \<Rightarrow> string \<Rightarrow> inventory \<Rightarrow> inventory result" where
  "remove_container hostname container doc =
     rbind (get_node_resource ''containers'' hostname doc) (\<lambda>current.
       set_host_var HOST_GROUP_NAME ''containers''
         (case current of None \<Rightarrow> VNull | Some (VList xs) \<Rightarrow> VList (remove1 container xs) | Some v \<Rightarrow> v)
         hostname doc)"

definition clean_inventory :: "inventory \<Rightarrow> inventory" where
  "clean_inventory doc = []"

definition update_disk :: "string \<Rightarrow> string \<Rightarrow> attr dict \<Rightarrow> inventory \<Rightarrow> inventory result" where
  "update_disk hostname disk new_disk_info doc =
     rbind (listed_disks hostname doc) (\<lambda>current. rbind (item current disk) (\<lambda>info.
       set_host_var HOST_GROUP_NAME ''disks''
         (VDisks (AList.update disk (dict_update info new_disk_info) current)) hostname doc))"

section \<open>Container and disk names\<close>

definition container_name :: "string \<Rightarrow> nat \<Rightarrow> string" where
  "container_name host_name i = host_name @ HOST_CONTAINER_SEPARATOR # ''cont'' @ str_of_nat i"

definition create_container_list :: "string \<Rightarrow> nat \<Rightarrow> nat \<Rightarrow> string list" where
  "create_container_list host_name number_of_containers first_index =
     map (container_name host_name) [first_index..<number_of_containers + first_index]"

text \<open>\<open>os.path.expandvars\<close> depends on the environment: it is the parameter \<open>expandvars\<close>.\<close>

fun resolve_parts :: "(string \<Rightarrow> string) \<Rightarrow> string list \<Rightarrow> string list option" where
  "resolve_parts expandvars [] = Some []"
| "resolve_parts expandvars (part # parts) =
     (if CHR ''$'' \<in> set part
      then (let e = expandvars part
            in if CHR ''$'' \<in> set e \<or> CHR '' '' \<in> set e then None
               else map_option ((#) e) (resolve_parts expandvars parts))
      else map_option ((#) part) (resolve_parts expandvars parts))"

definition resolve_disk_path :: "(string \<Rightarrow> string) \<Rightarrow> string \<Rightarrow> string" where
  "resolve_disk_path expandvars disk_path =
     (case resolve_parts expandvars (split_on CHR ''/'' disk_path) of
        None \<Rightarrow> [] | Some parts \<Rightarrow> join ''/'' parts)"

definition add_disk_paths ::
  "(string \<Rightarrow> string) \<Rightarrow> string \<Rightarrow> string list \<Rightarrow> nat \<Rightarrow> attr dict dict \<Rightarrow> attr dict dict result" where
  "add_disk_paths expandvars prefix paths n d =
     foldR (\<lambda>i d. if length paths \<le> i then Inl IndexError
       else let disk_path = resolve_disk_path expandvars (paths ! i)
         in if disk_path \<noteq> [] then Inr (AList.update (prefix @ str_of_nat i) [(''path'', AStr disk_path)] d)
            else Inl (PyException ''Disk path can't be empty'')) [0..<n] d"

definition get_disks_dict ::
  "(string \<Rightarrow> string) \<Rightarrow> nat \<Rightarrow> string list \<Rightarrow> nat \<Rightarrow> string list \<Rightarrow> bool \<Rightarrow> string \<Rightarrow> attr dict dict result" where
  "get_disks_dict expandvars hdd_disks hdd_disks_path_list ssd_disks ssd_disks_path_list create_lvm lvm_path =
     rbind (add_disk_paths expandvars ''ssd_'' ssd_disks_path_list ssd_disks []) (\<lambda>d1.
     rbind (add_disk_paths expandvars ''hdd_'' hdd_disks_path_list hdd_disks d1) (\<lambda>d2.
     if create_lvm
     then (if lvm_path \<noteq> []
           then Inr (AList.update ''lvm'' [(''path'', AStr (resolve_disk_path expandvars lvm_path))] d2)
           else Inl (PyException ''LVM path can't be empty''))
     else Inr d2))"

section \<open>\<open>update_inventory_file.py\<close>\<close>

record disk_info =
  di_hdd_disks :: nat
  di_hdd_paths :: "string list"
  di_ssd_disks :: nat
  di_ssd_paths :: "string list"
  di_create_lvm :: bool
  di_lvm_path :: string

definition add_host ::
  "(string \<Rightarrow> string) \<Rightarrow> string \<Rightarrow> ival \<Rightarrow> ival \<Rightarrow> disk_info option \<Rightarrow> ival \<Rightarrow> nat \<Rightarrow> inventory \<Rightarrow> inventory result" where
  "add_host expandvars hostname cpu mem disk_info energy new_containers doc =
     (let containers = create_container_list hostname new_containers 0
      in rbind (case disk_info of None \<Rightarrow> Inr []
           | Some di \<Rightarrow> get_disks_dict expandvars (di_hdd_disks di) (di_hdd_paths di) (di_ssd_disks di)
               (di_ssd_paths di) (di_create_lvm di) (di_lvm_path di)) (\<lambda>disks.
         add_node hostname [(''cpu'', cpu), (''mem'', mem), (''disks'', VDisks disks), (''energy'', energy)]
           containers doc))"

text \<open>Pairs of container name and host.\<close>

definition add_containers_to_inventory :: "(string \<times> string) list \<Rightarrow> inventory \<Rightarrow> inventory result" where
  "add_containers_to_inventory containers doc =
     foldR (\<lambda>(name, host). add_container host name) containers doc"

text \<open>\<open>re.match(r"([a-z]+)([0-9]+)", s, re.I)\<close>: the digits of the second group.\<close>

definition is_letter :: "char \<Rightarrow> bool" where
  "is_letter c \<longleftrightarrow> (CHR ''a'' \<le> c \<and> c \<le> CHR ''z'') \<or> (CHR ''A'' \<le> c \<and> c \<le> CHR ''Z'')"

definition word_number :: "string \<Rightarrow> string option" where
  "word_number s =
     (let letters = takeWhile is_letter s;
          digits = takeWhile is_digit (dropWhile is_letter s)
      in if letters \<noteq> [] \<and> digits \<noteq> [] then Some digits else None)"

definition digits_value :: "string \<Rightarrow> nat" where
  "digits_value = foldl (\<lambda>a c. 10 * a + digit_val c) 0"

definition next_container_index :: "string list \<Rightarrow> nat" where
  "next_container_index containers =
     (let suffix = (if containers = [] then [] else last (split_on HOST_CONTAINER_SEPARATOR (last containers)))
      in case word_number suffix of None \<Rightarrow> 0 | Some digits \<Rightarrow> digits_value digits + 1)"

definition add_containers_to_host ::
  "string \<times> nat \<Rightarrow> inventory \<times> string list dict \<Rightarrow> (inventory \<times> string list dict) result" where
  "add_containers_to_host p s =
     (case p of (host, n) \<Rightarrow> case s of (doc, added) \<Rightarrow>
      rbind (listed_containers host doc) (\<lambda>containers.
      let new = create_container_list host n (next_container_index containers)
      in rbind (add_containers host new doc) (\<lambda>doc'. Inr (doc', AList.update host new added))))"

definition add_containers_to_hosts ::
  "nat dict \<Rightarrow> inventory \<Rightarrow> (inventory \<times> string list dict) result" where
  "add_containers_to_hosts new_containers doc = foldR add_containers_to_host new_containers (doc, [])"

text \<open>\<open>re.compile(r"new_[0-9]+", re.IGNORECASE).match\<close>\<close>

definition to_lower :: "char \<Rightarrow> char" where
  "to_lower c = (if CHR ''A'' \<le> c \<and> c \<le> CHR ''Z'' then char_of (of_char c + 32 :: nat) else c)"

definition matches_new_id :: "string \<Rightarrow> bool" where
  "matches_new_id d \<longleftrightarrow> map to_lower (take 4 d) = ''new_'' \<and> drop 4 d \<noteq> [] \<and> is_digit (hd (drop 4 d))"

definition scan_disk ::
  "string \<times> attr dict \<Rightarrow> attr list \<times> int \<Rightarrow> (attr list \<times> int) result" where
  "scan_disk p s =
     (case p of (d, info) \<Rightarrow> case s of (existing, disk_id) \<Rightarrow>
      rbind (item info ''path'') (\<lambda>path.
      if matches_new_id d
      then rbind (int_str (split_on CHR ''_'' d ! 1)) (\<lambda>i.
        Inr (existing @ [path], if disk_id \<le> i then i + 1 else disk_id))
      else Inr (existing @ [path], disk_id)))"

definition scan_disks :: "attr dict dict \<Rightarrow> (attr list \<times> int) result" where
  "scan_disks disks = foldR scan_disk disks ([], 0)"

fun name_new_disks :: "attr list \<Rightarrow> string list \<Rightarrow> int \<Rightarrow> attr dict dict \<Rightarrow> attr dict dict" where
  "name_new_disks existing [] disk_id added = added"
| "name_new_disks existing (new_disk # rest) disk_id added =
     (if AStr new_disk \<in> set existing then name_new_disks existing rest disk_id added
      else name_new_disks existing rest (disk_id + 1)
             (AList.update (''new_'' @ str_of_int disk_id) [(''path'', AStr new_disk)] added))"

definition add_disks_to_host ::
  "string list \<Rightarrow> string \<Rightarrow> inventory \<times> attr dict dict dict \<Rightarrow> (inventory \<times> attr dict dict dict) result" where
  "add_disks_to_host new_disks host s =
     (case s of (doc, added) \<Rightarrow>
      rbind (listed_disks host doc) (\<lambda>disks.
      rbind (scan_disks disks) (\<lambda>(existing, disk_id).
      let new = name_new_disks existing new_disks disk_id []
      in rbind (add_disks host new doc) (\<lambda>doc'. Inr (doc', AList.update host new added)))))"

definition add_disks_to_hosts ::
  "string list \<Rightarrow> string list \<Rightarrow> inventory \<Rightarrow> (inventory \<times> attr dict dict dict) result" where
  "add_disks_to_hosts hosts new_disks doc = foldR (add_disks_to_host new_disks) hosts (doc, [])"

definition remove_host :: "string \<Rightarrow> inventory \<Rightarrow> inventory" where
  "remove_host = remove_node"

definition remove_container_from_host :: "string \<Rightarrow> string \<Rightarrow> inventory \<Rightarrow> inventory result" where
  "remove_container_from_host container hostname = remove_container hostname container"

definition update_inventory_disk :: "string \<Rightarrow> string \<Rightarrow> rat \<Rightarrow> rat \<Rightarrow> inventory \<Rightarrow> inventory result" where
  "update_inventory_disk hostname disk read_bw write_bw =
     update_disk hostname disk [(''read_bw'', ANum read_bw), (''write_bw'', ANum write_bw)]"

end
