(* ===== verification/InventoryLaws.thy ===== *)
theory InventoryLaws
  imports Inventory
begin

text \<open>
  What the inventory promises its callers: a host resource that is written is read back, other
  hosts keep theirs, new container and disk names are fresh.  The locale \<open>host_resource\<close> states
  the interface of a per-host resource; containers and disks are its two instances.
\<close>

section \<open>The interface of a host resource\<close>

locale host_resource =
  fixes ok :: "inventory \<Rightarrow> string \<Rightarrow> bool"
    and fetch :: "string \<Rightarrow> inventory \<Rightarrow> 'v result"
    and store :: "'v \<Rightarrow> string \<Rightarrow> inventory \<Rightarrow> inventory result"
    and same :: "'v \<Rightarrow> 'v \<Rightarrow> bool"
  assumes store_defined: "ok doc h \<Longrightarrow> \<exists>doc'. store v h doc = Inr doc'"
    and fetch_store: "ok doc h \<Longrightarrow> store v h doc = Inr doc' \<Longrightarrow> \<exists>w. fetch h doc' = Inr w \<and> same w v"
    and fetch_other: "ok doc h \<Longrightarrow> store v h doc = Inr doc' \<Longrightarrow> g \<noteq> h \<Longrightarrow> g \<noteq> [] \<Longrightarrow> fetch g doc' = fetch g doc"
    and ok_store: "ok doc h \<Longrightarrow> store v h doc = Inr doc' \<Longrightarrow> ok doc' g \<longleftrightarrow> ok doc g"
    and ok_named: "ok doc h \<Longrightarrow> h \<noteq> []"
begin

text \<open>The last of two writes wins; writes to different hosts do not disturb each other.\<close>

lemma last_write_wins:
  assumes "ok doc h" "store v h doc = Inr doc1" "store w h doc1 = Inr doc2"
  shows "\<exists>x. fetch h doc2 = Inr x \<and> same x w"
proof -
  have "ok doc1 h" by (rule iffD2 [OF ok_store [OF assms(1,2)] assms(1)])
  from fetch_store [OF this assms(3)] show ?thesis .
qed

lemma writes_independent:
  assumes "ok doc h" "ok doc g" "g \<noteq> h" "store v h doc = Inr doc1" "store w g doc1 = Inr doc2"
  shows "(\<exists>x. fetch h doc2 = Inr x \<and> same x v) \<and> (\<exists>x. fetch g doc2 = Inr x \<and> same x w)"
proof -
  have g: "ok doc1 g" by (rule iffD2 [OF ok_store [OF assms(1,4)] assms(2)])
  have "fetch h doc2 = fetch h doc1"
    by (rule fetch_other [OF g assms(5)]) (use assms(3) ok_named [OF assms(1)] in simp_all)
  then show ?thesis using fetch_store [OF assms(1,4)] fetch_store [OF g assms(5)] by (simp only: simp_thms)
qed

end

section \<open>Variables of the nodes\<close>

text \<open>The host is a node of the inventory, and the nodes have default variables.\<close>

definition node_ok :: "inventory \<Rightarrow> string \<Rightarrow> bool" where
  "node_ok doc h \<longleftrightarrow> h \<noteq> [] \<and> (\<exists>g hs vs. map_of doc HOST_GROUP_NAME = Some g \<and> g_hosts g = Some hs \<and>
     has_key hs h \<and> g_vars g = Some vs)"

lemma node_okE:
  assumes "node_ok doc h"
  obtains g hs vs ds where "h \<noteq> []" "map_of doc HOST_GROUP_NAME = Some g" "g_hosts g = Some hs"
    "map_of hs h = Some vs" "g_vars g = Some ds"
  using assms by (auto simp: node_ok_def has_key_def)

lemma set_host_var_node:
  assumes "h \<noteq> []" "map_of doc G = Some g" "g_hosts g = Some hs" "map_of hs h = Some vs"
  shows "set_host_var G key v h doc = Inr (AList.update G (g\<lparr>g_hosts := Some (AList.update h
    (if stored_with_host g key v then AList.update key v (pop_key key vs) else pop_key key vs) hs)\<rparr>) doc)"
  using assms by (simp add: set_host_var_def group_of_def item_def hosts_of_def Let_def)

lemma get_host_var_node:
  assumes "map_of doc G = Some g" "g_hosts g = Some hs" "g_vars g = Some ds" "h \<noteq> []"
  shows "get_host_var G key h doc = Inr (case get_var (get_or hs h []) key of None \<Rightarrow> get_var ds key | Some v \<Rightarrow> Some v)"
  using assms by (simp add: get_host_var_def group_of_def item_def hosts_of_def vars_of_def Let_def split: option.splits)

lemma set_get_host_var:
  assumes "node_ok doc h" "set_host_var HOST_GROUP_NAME key v h doc = Inr doc'" "v \<noteq> VNull"
    and "key \<in> set EMPTIABLE_VARS"
  shows "get_host_var HOST_GROUP_NAME key h doc' = Inr (Some v) \<or>
    (\<exists>w. get_host_var HOST_GROUP_NAME key h doc' = Inr (Some w) \<and> py_eq v w) \<or>
    get_host_var HOST_GROUP_NAME key h doc' = Inr None \<and> \<not> truthy v"
proof -
  from assms(1) obtain g hs vs ds where d: "h \<noteq> []" "map_of doc HOST_GROUP_NAME = Some g" "g_hosts g = Some hs"
    "map_of hs h = Some vs" "g_vars g = Some ds" by (rule node_okE)
  define vs' where "vs' = (if stored_with_host g key v then AList.update key v (pop_key key vs) else pop_key key vs)"
  have doc': "doc' = AList.update HOST_GROUP_NAME (g\<lparr>g_hosts := Some (AList.update h vs' hs)\<rparr>) doc"
    using set_host_var_node [OF d(1-4), of key v] assms(2) by (simp add: vs'_def)
  have fetch: "get_host_var HOST_GROUP_NAME key h doc' =
      Inr (case get_var vs' key of None \<Rightarrow> get_var ds key | Some v \<Rightarrow> Some v)"
    using get_host_var_node [of doc' HOST_GROUP_NAME "g\<lparr>g_hosts := Some (AList.update h vs' hs)\<rparr>"
        "AList.update h vs' hs" ds h key] d doc' by simp
  show ?thesis
  proof (cases "stored_with_host g key v")
    case True
    then have "get_var vs' key = Some v" using assms(3) by (auto simp: vs'_def get_var_def split: ival.splits)
    with fetch show ?thesis by simp
  next
    case False
    then have none: "get_var vs' key = None" by (simp add: vs'_def get_var_def)
    from False d(5) consider "\<not> truthy v" "\<not> has_key ds key"
      | w where "map_of ds key = Some w" "py_eq v w"
      using assms(4) by (auto simp: stored_with_host_def has_default_def has_key_def get_or_def)
    then show ?thesis
    proof cases
      case 1
      then have "get_var ds key = None" by (simp add: has_key_def get_var_def)
      with fetch none 1 show ?thesis by simp
    next
      case (2 w)
      then have "w \<noteq> VNull" using assms(3) by (cases v) auto
      with 2 have "get_var ds key = Some w" by (auto simp: get_var_def split: ival.splits)
      with fetch none 2 show ?thesis by simp
    qed
  qed
qed

text \<open>The frame of an assignment: every other variable of the file, of the same host too, is as before.\<close>

lemma set_host_var_frame:
  assumes "node_ok doc h" "set_host_var HOST_GROUP_NAME key v h doc = Inr doc'" "(G, k, n) \<noteq> (HOST_GROUP_NAME, key, h)"
  shows "get_host_var G k n doc' = get_host_var G k n doc"
proof -
  from assms(1) obtain gr hs vs ds where d: "h \<noteq> []" "map_of doc HOST_GROUP_NAME = Some gr" "g_hosts gr = Some hs"
    "map_of hs h = Some vs" "g_vars gr = Some ds" by (rule node_okE)
  define vs' where "vs' = (if stored_with_host gr key v then AList.update key v (pop_key key vs) else pop_key key vs)"
  define gr' where "gr' = gr\<lparr>g_hosts := Some (AList.update h vs' hs)\<rparr>"
  have doc': "doc' = AList.update HOST_GROUP_NAME gr' doc"
    using set_host_var_node [OF d(1-4), of key v] assms(2) by (simp add: vs'_def gr'_def)
  have "k \<noteq> key \<Longrightarrow> get_var vs' k = get_var vs k" by (simp add: vs'_def get_var_def)
  with assms(3) have v: "G = HOST_GROUP_NAME \<Longrightarrow> get_var (get_or (AList.update h vs' hs) n []) k = get_var (get_or hs n []) k"
    using d(4) by (auto simp: get_or_def)
  show ?thesis
  proof (cases "G = HOST_GROUP_NAME \<and> n \<noteq> []")
    case True
    have "map_of doc' HOST_GROUP_NAME = Some gr'" "g_hosts gr' = Some (AList.update h vs' hs)" "g_vars gr' = Some ds"
      using d(5) by (simp_all add: doc' gr'_def)
    from get_host_var_node [OF this, of n k] get_host_var_node [OF d(2,3,5), of n k] True v show ?thesis by simp
  next
    case False
    then show ?thesis
      using d by (cases "G = HOST_GROUP_NAME") (auto simp: doc' gr'_def get_host_var_def group_of_def item_def vars_of_def Let_def)
  qed
qed

lemma set_host_var_keys:
  assumes "node_ok doc h" "set_host_var HOST_GROUP_NAME key v h doc = Inr doc'"
  shows "get_node_hostnames doc' = get_node_hostnames doc \<and> keys_of doc' = keys_of doc"
proof -
  from assms(1) obtain gr hs vs ds where d: "h \<noteq> []" "map_of doc HOST_GROUP_NAME = Some gr" "g_hosts gr = Some hs"
    "map_of hs h = Some vs" "g_vars gr = Some ds" by (rule node_okE)
  have k: "keys_of (AList.update x y e) = keys_of e" if "map_of e x = Some z" for x and y z :: 'x and e :: "'x dict"
    using that by (induction e) (auto simp: keys_of_def)
  show ?thesis
    using set_host_var_node [OF d(1-4), of key v] assms(2) d k [OF d(2)] k [OF d(4)]
    by (auto simp: get_node_hostnames_def)
qed

lemma set_host_var_other:
  assumes "node_ok doc h" "set_host_var HOST_GROUP_NAME key v h doc = Inr doc'" "g \<noteq> h" "g \<noteq> []"
  shows "get_host_var HOST_GROUP_NAME k g doc' = get_host_var HOST_GROUP_NAME k g doc"
  by (rule set_host_var_frame [OF assms(1,2)]) (use assms(3) in simp)

lemma node_ok_set_host_var:
  assumes "node_ok doc h" "set_host_var HOST_GROUP_NAME key v h doc = Inr doc'"
  shows "node_ok doc' g \<longleftrightarrow> node_ok doc g"
proof -
  from assms(1) obtain gr hs vs ds where d: "h \<noteq> []" "map_of doc HOST_GROUP_NAME = Some gr" "g_hosts gr = Some hs"
    "map_of hs h = Some vs" "g_vars gr = Some ds" by (rule node_okE)
  then show ?thesis
    using set_host_var_node [OF d(1-4), of key v] assms(2) by (auto simp: node_ok_def has_key_def)
qed

lemma set_host_var_defined: "node_ok doc h \<Longrightarrow> \<exists>doc'. set_host_var HOST_GROUP_NAME key v h doc = Inr doc'"
  by (erule node_okE) (simp add: set_host_var_node)

section \<open>Containers and disks\<close>

definition store_containers :: "string list \<Rightarrow> string \<Rightarrow> inventory \<Rightarrow> inventory result" where
  "store_containers cs = set_host_var HOST_GROUP_NAME ''containers'' (VList cs)"

definition store_disks :: "attr dict dict \<Rightarrow> string \<Rightarrow> inventory \<Rightarrow> inventory result" where
  "store_disks ds = set_host_var HOST_GROUP_NAME ''disks'' (VDisks ds)"

lemma rename_key_error_Inr [simp]: "rename_key_error msg (Inr x) = Inr x"
  by (simp add: rename_key_error_def)

lemma get_other_node:
  "node_ok doc h \<Longrightarrow> set_host_var HOST_GROUP_NAME key v h doc = Inr doc' \<Longrightarrow> g \<noteq> h \<Longrightarrow> g \<noteq> [] \<Longrightarrow>
   get_node_resource res g doc' = get_node_resource res g doc"
  by (simp add: get_node_resource_def set_host_var_other)

interpretation node_containers: host_resource node_ok listed_containers store_containers "(=)"
proof unfold_locales
  fix doc h v doc' assume ok: "node_ok doc h" and s: "store_containers v h doc = Inr doc'"
  have em: "''containers'' \<in> set EMPTIABLE_VARS" by (simp add: EMPTIABLE_VARS_def)
  have "py_eq (VList v) w \<Longrightarrow> w = VList v" for w by (cases w) auto
  with set_get_host_var [OF ok s [unfolded store_containers_def] _ em]
  show "\<exists>w. listed_containers h doc' = Inr w \<and> w = v"
    by (auto simp: listed_containers_eq get_node_resource_def as_list_def)
next
  fix doc h v doc' g assume "node_ok doc h" "store_containers v h doc = Inr doc'"
  then show "node_ok doc' g \<longleftrightarrow> node_ok doc g"
    unfolding store_containers_def by (rule node_ok_set_host_var)
next
  fix doc h v doc' g
  assume "node_ok doc h" "store_containers v h doc = Inr doc'" "g \<noteq> h" "g \<noteq> []"
  then show "listed_containers g doc' = listed_containers g doc"
    unfolding store_containers_def listed_containers_eq by (simp add: get_other_node)
qed (simp_all add: store_containers_def set_host_var_defined node_ok_def)

lemma dict_eq_refl: "(\<And>x. eq x x) \<Longrightarrow> dict_eq eq d d"
  by (force simp: dict_eq_def list_all_iff keys_of_def split: option.splits dest: weak_map_of_SomeI)

lemma dict_eq_sym: "(\<And>x y. eq x y \<Longrightarrow> eq y x) \<Longrightarrow> dict_eq eq d e \<Longrightarrow> dict_eq eq e d"
  by (fastforce simp: dict_eq_def list_all_iff split: option.splits)

definition same_disks :: "attr dict dict \<Rightarrow> attr dict dict \<Rightarrow> bool" where
  "same_disks = dict_eq (dict_eq (=))"

lemma same_disks_refl [simp]: "same_disks d d"
  by (simp add: same_disks_def dict_eq_refl)

interpretation node_disks: host_resource node_ok listed_disks store_disks same_disks
proof unfold_locales
  fix doc h v doc' assume ok: "node_ok doc h" and s: "store_disks v h doc = Inr doc'"
  have em: "''disks'' \<in> set EMPTIABLE_VARS" by (simp add: EMPTIABLE_VARS_def)
  have "py_eq (VDisks v) w \<Longrightarrow> \<exists>e. w = VDisks e \<and> same_disks e v" for w
    by (cases w) (auto simp: same_disks_def intro!: dict_eq_sym)
  with set_get_host_var [OF ok s [unfolded store_disks_def] _ em]
  show "\<exists>w. listed_disks h doc' = Inr w \<and> same_disks w v"
    by (fastforce simp: listed_disks_eq get_node_resource_def as_disks_def)
next
  fix doc h v doc' g assume "node_ok doc h" "store_disks v h doc = Inr doc'"
  then show "node_ok doc' g \<longleftrightarrow> node_ok doc g"
    unfolding store_disks_def by (rule node_ok_set_host_var)
next
  fix doc h v doc' g
  assume "node_ok doc h" "store_disks v h doc = Inr doc'" "g \<noteq> h" "g \<noteq> []"
  then show "listed_disks g doc' = listed_disks g doc"
    unfolding store_disks_def listed_disks_eq by (simp add: get_other_node)
qed (simp_all add: store_disks_def set_host_var_defined node_ok_def)

lemma add_containers_stores:
  "add_containers h new doc = rbind (listed_containers h doc) (\<lambda>cs. store_containers (cs @ new) h doc)"
  by (simp add: add_containers_def store_containers_def)

lemma add_disks_stores:
  "add_disks h new doc = rbind (listed_disks h doc) (\<lambda>ds. store_disks (dict_update ds new) h doc)"
  by (simp add: add_disks_def store_disks_def)

section \<open>Container names\<close>

lemma digit_not_letter: "is_digit c \<Longrightarrow> \<not> is_letter c"
proof -
  assume "is_digit c"
  then have c: "c \<le> CHR ''9''" by (simp add: is_digit_def)
  have "CHR ''9'' < CHR ''A''" "CHR ''9'' < CHR ''a''" by code_simp+
  then have "c < CHR ''A''" "c < CHR ''a''" using order_le_less_trans [OF c] by blast+
  then show ?thesis by (auto simp: is_letter_def dest: leD)
qed

lemma str_of_nat_all_digits: "\<forall>c \<in> set (str_of_nat n). is_digit c"
  by (auto dest!: str_of_nat_digits simp: digit_char_props)

lemma cont_letters: "\<forall>c \<in> set ''cont''. is_letter c"
  by code_simp

lemma word_number_append:
  assumes "\<forall>c \<in> set ls. is_letter c" "ls \<noteq> []" "\<forall>c \<in> set ds. is_digit c" "ds \<noteq> []"
  shows "word_number (ls @ ds) = Some ds"
proof -
  have "takeWhile is_letter ds = []" "dropWhile is_letter ds = ds"
    using assms(3,4) digit_not_letter by (cases ds; simp)+
  then have "takeWhile is_letter (ls @ ds) = ls" "dropWhile is_letter (ls @ ds) = ds"
    using takeWhile_append2 [of ls is_letter ds] dropWhile_append2 [of ls is_letter ds] assms(1) by simp_all
  moreover have "takeWhile is_digit ds = ds" using assms(3) by (simp add: takeWhile_eq_all_conv)
  ultimately show ?thesis using assms(2,4) by (simp add: word_number_def Let_def del: takeWhile_eq_all_conv)
qed

lemma word_number_container: "word_number (''cont'' @ str_of_nat i) = Some (str_of_nat i)"
  by (rule word_number_append [OF cont_letters _ str_of_nat_all_digits]) simp_all

lemma separator_not_digit: "HOST_CONTAINER_SEPARATOR \<notin> set (''cont'' @ str_of_nat i)"
proof -
  have "\<not> is_digit HOST_CONTAINER_SEPARATOR" by code_simp
  then show ?thesis using str_of_nat_all_digits [of i] by (auto simp: HOST_CONTAINER_SEPARATOR_def)
qed

lemma next_index_after:
  "next_container_index (cs @ [container_name h i]) = i + 1"
proof -
  have "split_on HOST_CONTAINER_SEPARATOR (container_name h i) =
      split_on HOST_CONTAINER_SEPARATOR h @ [''cont'' @ str_of_nat i]"
    unfolding container_name_def by (rule split_on_append) (rule separator_not_digit)
  then show ?thesis
    using word_number_container [of i]
    by (simp add: next_container_index_def Let_def digits_value_def foldl_digits)
qed

lemma container_name_inj: "container_name h i = container_name h j \<longleftrightarrow> i = j"
  by (simp add: container_name_def str_of_nat_inj)

text \<open>The containers of a host are numbered upwards, with gaps where some were removed.\<close>

definition series :: "string \<Rightarrow> string list \<Rightarrow> bool" where
  "series h cs \<longleftrightarrow> (\<exists>ids. cs = map (container_name h) ids \<and> sorted_wrt (<) ids)"

lemma series_distinct: "series h cs \<Longrightarrow> distinct cs"
  by (auto simp: series_def distinct_map inj_on_def container_name_inj strict_sorted_iff)

lemma series_extend:
  assumes "series h cs"
  shows "series h (cs @ create_container_list h n (next_container_index cs))"
proof -
  from assms obtain ids where ids: "cs = map (container_name h) ids" "sorted_wrt (<) ids"
    by (auto simp: series_def)
  define k where "k = next_container_index cs"
  have below: "\<forall>i \<in> set ids. i < k"
  proof (cases ids rule: rev_cases)
    case (snoc js j)
    then have "k = j + 1" using ids(1) by (simp add: k_def next_index_after)
    with snoc ids(2) show ?thesis by (auto simp: sorted_wrt_append)
  qed simp
  have sorted: "sorted_wrt (<) (ids @ [k..<n + k])" using ids(2) below by (auto simp: sorted_wrt_append)
  have "cs @ create_container_list h n k = map (container_name h) (ids @ [k..<n + k])"
    by (simp add: ids(1) create_container_list_def)
  with sorted show ?thesis unfolding series_def k_def [symmetric] by blast
qed

lemma series_empty [simp]: "series h []"
  by (simp add: series_def)

text \<open>Every node has a numbered list of containers.\<close>

definition numbered_nodes :: "inventory \<Rightarrow> bool" where
  "numbered_nodes doc \<longleftrightarrow> (\<forall>h cs. node_ok doc h \<longrightarrow> listed_containers h doc = Inr cs \<longrightarrow> series h cs)"

lemma add_containers_to_host_numbered:
  assumes "add_containers_to_host (h, n) (doc, added) = Inr (doc', added')"
    and "node_ok doc h" "numbered_nodes doc"
  shows "numbered_nodes doc' \<and> (\<forall>g. node_ok doc' g \<longleftrightarrow> node_ok doc g) \<and>
    (\<exists>cs. listed_containers h doc = Inr cs \<and>
      listed_containers h doc' = Inr (cs @ create_container_list h n (next_container_index cs)) \<and>
      added' = AList.update h (create_container_list h n (next_container_index cs)) added)"
proof -
  from assms(1) obtain cs where cs: "listed_containers h doc = Inr cs"
    and st: "store_containers (cs @ create_container_list h n (next_container_index cs)) h doc = Inr doc'"
    and ad: "added' = AList.update h (create_container_list h n (next_container_index cs)) added"
    by (auto simp: add_containers_to_host_def add_containers_stores Let_def elim!: rbindE)
  have new: "listed_containers h doc' = Inr (cs @ create_container_list h n (next_container_index cs))"
    using node_containers.fetch_store [OF assms(2) st] by simp
  have "series h cs" using assms(2,3) cs by (simp add: numbered_nodes_def)
  then have "series h (cs @ create_container_list h n (next_container_index cs))" by (rule series_extend)
  have ok: "node_ok doc' g \<longleftrightarrow> node_ok doc g" for g by (rule node_containers.ok_store [OF assms(2) st])
  have "series g ds" if g: "node_ok doc' g" "listed_containers g doc' = Inr ds" for g ds
  proof (cases "g = h")
    case True
    with g new \<open>series h (cs @ _)\<close> show ?thesis by simp
  next
    case False
    have "g \<noteq> []" using g(1) by (simp add: node_ok_def)
    with node_containers.fetch_other [OF assms(2) st False] g ok assms(3) show ?thesis
      by (simp add: numbered_nodes_def)
  qed
  then show ?thesis using ok cs new ad by (auto simp: numbered_nodes_def)
qed

section \<open>Disk names\<close>

lemma matches_new_name: "matches_new_id (''new_'' @ str_of_int (int k))"
proof -
  have "map to_lower ''new_'' = ''new_''" by code_simp
  moreover have "str_of_int (int k) = str_of_nat k" by (simp add: str_of_int_def)
  moreover have "str_of_nat k \<noteq> []" "is_digit (hd (str_of_nat k))"
    using str_of_nat_all_digits [of k] by simp_all
  ultimately show ?thesis by (simp add: matches_new_id_def)
qed

lemma split_new_name: "split_on CHR ''_'' (''new_'' @ str_of_int (int k)) ! 1 = str_of_int (int k)"
proof -
  have d: "CHR ''_'' \<notin> set (str_of_int (int k))"
    using digit_char_props(6) by (auto simp: str_of_int_def dest!: str_of_nat_digits) metis
  have "split_on CHR ''_'' (''new'' @ CHR ''_'' # str_of_int (int k)) = split_on CHR ''_'' ''new'' @ [str_of_int (int k)]"
    by (rule split_on_append [OF d])
  then show ?thesis by simp
qed

lemma scan_disk_state:
  assumes "scan_disk (d, info) (existing, i) = Inr (existing', i')"
  shows "i \<le> i' \<and> (\<exists>path. item info ''path'' = Inr path \<and> existing' = existing @ [path]) \<and>
    (\<forall>k. d = ''new_'' @ str_of_int (int k) \<longrightarrow> int k < i')"
proof -
  from assms obtain path where p: "item info ''path'' = Inr path" by (auto simp: scan_disk_def elim!: rbindE)
  show ?thesis
  proof (cases "matches_new_id d")
    case True
    with assms p obtain j where j: "int_str (split_on CHR ''_'' d ! 1) = Inr j"
      "existing' = existing @ [path]" "i' = (if i \<le> j then j + 1 else i)"
      by (auto simp: scan_disk_def elim!: rbindE)
    moreover have "j = int k" if "d = ''new_'' @ str_of_int (int k)" for k
      using j(1) that by (simp only: split_new_name) (simp add: int_str_def)
    ultimately show ?thesis using p by auto
  next
    case False
    with assms p matches_new_name show ?thesis by (auto simp: scan_disk_def)
  qed
qed

lemma scan_disks_fresh:
  assumes "foldR scan_disk ds (existing, i) = Inr (existing', i')"
  shows "i \<le> i'" "(''new_'' @ str_of_int (int k)) \<in> fst ` set ds \<Longrightarrow> int k < i'"
    "(n, info) \<in> set ds \<Longrightarrow> \<exists>path \<in> set existing'. item info ''path'' = Inr path"
    "set existing \<subseteq> set existing'"
proof -
  have "i \<le> i' \<and> (''new_'' @ str_of_int (int k) \<in> fst ` set ds \<longrightarrow> int k < i') \<and>
    ((n, info) \<in> set ds \<longrightarrow> (\<exists>path \<in> set existing'. item info ''path'' = Inr path)) \<and>
    set existing \<subseteq> set existing'"
    using assms
  proof (induction ds arbitrary: existing i)
    case (Cons p ds)
    obtain d inf where p: "p = (d, inf)" by (cases p)
    from Cons.prems p obtain e j where s: "scan_disk (d, inf) (existing, i) = Inr (e, j)"
      and rest: "foldR scan_disk ds (e, j) = Inr (existing', i')" by (auto elim!: rbindE)
    from scan_disk_state [OF s] obtain path where st: "i \<le> j" "item inf ''path'' = Inr path"
      "e = existing @ [path]" "d = ''new_'' @ str_of_int (int k) \<Longrightarrow> int k < j" by blast
    note ih = Cons.IH [OF rest]
    have "path \<in> set existing'" "set existing \<subseteq> set existing'" using ih st(3) by auto
    moreover have "int k < i'" if "''new_'' @ str_of_int (int k) \<in> fst ` set (p # ds)"
      using that ih st(4) p by (auto simp del: append.simps)
    moreover have "\<exists>path \<in> set existing'. item info ''path'' = Inr path" if "(n, info) \<in> set (p # ds)"
      using that ih st(2) p \<open>path \<in> set existing'\<close> by auto
    ultimately show ?case using ih st(1) by (meson order_trans)
  qed simp
  then show "i \<le> i'" "(''new_'' @ str_of_int (int k)) \<in> fst ` set ds \<Longrightarrow> int k < i'"
    "(n, info) \<in> set ds \<Longrightarrow> \<exists>path \<in> set existing'. item info ''path'' = Inr path"
    "set existing \<subseteq> set existing'"
    by blast+
qed

lemma str_of_int_inj: "str_of_int i = str_of_int j \<Longrightarrow> i = j"
  by (metis int_of_str_of_int option.inject)

lemma set_update_disks: "set (AList.update k v xs) \<subseteq> insert (k, v) (set xs)"
  by (induction xs) auto

definition new_disk_entry :: "attr list \<Rightarrow> string list \<Rightarrow> int \<Rightarrow> string \<times> attr dict \<Rightarrow> bool" where
  "new_disk_entry existing new_disks i e \<longleftrightarrow>
     (\<exists>k p. i \<le> int k \<and> e = (''new_'' @ str_of_int (int k), [(''path'', AStr p)]) \<and>
        p \<in> set new_disks \<and> AStr p \<notin> set existing)"

lemma name_new_disks_spec:
  assumes "0 \<le> i" "e \<in> set (name_new_disks existing new_disks i added)"
  shows "e \<in> set added \<or> new_disk_entry existing new_disks i e"
  using assms
proof (induction new_disks arbitrary: i added)
  case (Cons d ds)
  have more: "new_disk_entry existing ds j e \<Longrightarrow> i \<le> j \<Longrightarrow> new_disk_entry existing (d # ds) i e" for j
    by (force simp: new_disk_entry_def)
  show ?case
  proof (cases "AStr d \<in> set existing")
    case True
    then have "e \<in> set (name_new_disks existing ds i added)" using Cons.prems by simp
    with Cons.IH [of i added] Cons.prems(1) more show ?thesis by blast
  next
    case False
    let ?a = "AList.update (''new_'' @ str_of_int i) [(''path'', AStr d)] added"
    have "e \<in> set (name_new_disks existing ds (i + 1) ?a)" using Cons.prems(2) False by simp
    with Cons.IH [of "i + 1" ?a] Cons.prems(1)
    have "e \<in> set ?a \<or> new_disk_entry existing ds (i + 1) e" by simp
    moreover have "new_disk_entry existing (d # ds) i (''new_'' @ str_of_int i, [(''path'', AStr d)])"
      unfolding new_disk_entry_def
      by (intro exI [of _ "nat i"] exI [of _ d]) (use Cons.prems(1) False in simp)
    ultimately show ?thesis 
      using more [of "i + 1"] set_update_disks [of "''new_'' @ str_of_int i" "[(''path'', AStr d)]" added] by auto
  qed
qed simp

section \<open>Properties\<close>

definition sample_inventory :: inventory where
  "sample_inventory =
     [(''nodes'', \<lparr>g_hosts = Some [(''node0'', [(''containers'', VList [''node0-cont0'', ''node0-cont2''])]),
                              (''node1'', [])],
                 g_vars = Some [(''cpu'', VNum 400)]\<rparr>)]"

lemma sample_inventory_ok: "node_ok sample_inventory ''node0'' \<and> node_ok sample_inventory ''node1''"
  by (simp add: node_ok_def sample_inventory_def HOST_GROUP_NAME_def has_key_def)

text \<open>C9: containers added to a node are read back after the ones it had; the file keeps its groups and
  hosts, and every other variable (of the same node, of any other host, of the defaults of any group) is as before.\<close>

theorem inventory_add_containers:
  assumes "node_ok doc h" "listed_containers h doc = Inr cs" "add_containers h new doc = Inr doc'"
  shows "listed_containers h doc' = Inr (cs @ new) \<and>
    keys_of doc' = keys_of doc \<and> get_node_hostnames doc' = get_node_hostnames doc \<and>
    (\<forall>G k n. (G, k, n) \<noteq> (HOST_GROUP_NAME, ''containers'', h) \<longrightarrow> get_host_var G k n doc' = get_host_var G k n doc)"
proof -
  have st: "store_containers (cs @ new) h doc = Inr doc'"
    using assms(2,3) by (simp add: add_containers_stores)
  note set = st [unfolded store_containers_def]
  show ?thesis
    using node_containers.fetch_store [OF assms(1) st] set_host_var_keys [OF assms(1) set]
      set_host_var_frame [OF assms(1) set] by auto
qed

theorem inventory_add_containers_witness:
  "listed_containers ''node0'' (case add_containers ''node0'' [''x''] sample_inventory of Inr d \<Rightarrow> d | _ \<Rightarrow> []) =
     Inr ([''node0-cont0'', ''node0-cont2''] @ [''x'']) \<and>
   get_host_var HOST_GROUP_NAME ''disks'' ''node0'' (case add_containers ''node0'' [''x''] sample_inventory of Inr d \<Rightarrow> d | _ \<Rightarrow> []) =
     get_host_var HOST_GROUP_NAME ''disks'' ''node0'' sample_inventory"
proof -
  let ?doc = "case add_containers ''node0'' [''x''] sample_inventory of Inr d \<Rightarrow> d | _ \<Rightarrow> []"
  have g: "listed_containers ''node0'' sample_inventory = Inr [''node0-cont0'', ''node0-cont2'']" by code_simp
  have "(case add_containers ''node0'' [''x''] sample_inventory of Inr d \<Rightarrow> True | _ \<Rightarrow> False)" by code_simp
  then have "add_containers ''node0'' [''x''] sample_inventory = Inr ?doc" by (auto split: sum.splits)
  note added = inventory_add_containers [OF conjunct1 [OF sample_inventory_ok] g this]
  then have "listed_containers ''node0'' ?doc = Inr ([''node0-cont0'', ''node0-cont2''] @ [''x''])" by blast
  moreover have "get_host_var HOST_GROUP_NAME ''disks'' ''node0'' ?doc = get_host_var HOST_GROUP_NAME ''disks'' ''node0'' sample_inventory"
    using added by (elim conjE allE [of _ HOST_GROUP_NAME] allE [of _ "''disks''"] allE [of _ "''node0''"]) simp
  ultimately show ?thesis by blast
qed

text \<open>C28: when the containers of every node are named by ascending indices, \<open>add_containers_to_hosts\<close> continues the
  series of every node it extends: afterwards the containers of every node are again so named, and distinct.\<close>

theorem inventory_names_fresh:
  assumes "add_containers_to_hosts request doc = Inr (doc', added)"
    and "\<forall>h \<in> set (keys_of request). node_ok doc h" "numbered_nodes doc"
    and "node_ok doc h" "listed_containers h doc' = Inr cs"
  shows "series h cs \<and> distinct cs"
proof -
  define I where "I s \<longleftrightarrow> numbered_nodes (fst s) \<and> (\<forall>g. node_ok (fst s) g \<longleftrightarrow> node_ok doc g)"
    for s :: "inventory \<times> string list dict"
  have "I (doc', added)"
  proof (rule foldR_invariant [where f = add_containers_to_host and I = I])
    show "foldR add_containers_to_host request (doc, []) = Inr (doc', added)"
      using assms(1) by (simp add: add_containers_to_hosts_def)
    show "I (doc, [])" using assms(3) by (simp add: I_def)
    fix q s s' assume q: "q \<in> set request" and s: "I s" and s': "add_containers_to_host q s = Inr s'"
    obtain g n where [simp]: "q = (g, n)" by (cases q)
    obtain d a where [simp]: "s = (d, a)" by (cases s)
    obtain d' a' where [simp]: "s' = (d', a')" by (cases s')
    have "node_ok d g" using q s assms(2) by (force simp: I_def keys_of_def)
    with add_containers_to_host_numbered [of g n d a d' a'] s s' show "I s'" by (simp add: I_def)
  qed
  with assms(4,5) have "series h cs" by (simp add: I_def numbered_nodes_def)
  then show ?thesis using series_distinct by blast
qed

lemma sample_inventory_numbered: "numbered_nodes sample_inventory"
proof -
  have "node_ok sample_inventory h \<Longrightarrow> h = ''node0'' \<or> h = ''node1''" for h
    by (auto simp: node_ok_def sample_inventory_def has_key_def HOST_GROUP_NAME_def split: if_splits)
  moreover have "series ''node0'' [''node0-cont0'', ''node0-cont2'']"
  proof -
    have "[''node0-cont0'', ''node0-cont2''] = map (container_name ''node0'') [0, 2]" by code_simp
    then show ?thesis unfolding series_def by (intro exI [of _ "[0, 2]"]) simp
  qed
  moreover have "listed_containers ''node0'' sample_inventory = Inr [''node0-cont0'', ''node0-cont2'']"
    "listed_containers ''node1'' sample_inventory = Inr []" by code_simp+
  ultimately have "node_ok sample_inventory h \<Longrightarrow> listed_containers h sample_inventory = Inr cs \<Longrightarrow> series h cs" for h cs
  proof -
    assume names: "\<And>h. node_ok sample_inventory h \<Longrightarrow> h = ''node0'' \<or> h = ''node1''"
      and one: "series ''node0'' [''node0-cont0'', ''node0-cont2'']"
      and get: "listed_containers ''node0'' sample_inventory = Inr [''node0-cont0'', ''node0-cont2'']"
        "listed_containers ''node1'' sample_inventory = Inr []"
      and h: "node_ok sample_inventory h" "listed_containers h sample_inventory = Inr cs"
    from names [OF h(1)] show "series h cs"
    proof
      assume "h = ''node0''"
      with get(1) h(2) one show ?thesis by simp
    next
      assume "h = ''node1''"
      with get(2) h(2) show ?thesis by simp
    qed
  qed
  then show ?thesis by (simp add: numbered_nodes_def)
qed

theorem inventory_names_fresh_witness:
  "series ''node0'' [''node0-cont0'', ''node0-cont2'', ''node0-cont3''] \<and>
   distinct [''node0-cont0'', ''node0-cont2'', ''node0-cont3'']"
proof (rule inventory_names_fresh [where request = "[(''node0'', 1)]" and doc = sample_inventory])
  let ?r = "add_containers_to_hosts [(''node0'', 1)] sample_inventory"
  have "(case ?r of Inr (d, a) \<Rightarrow> listed_containers ''node0'' d =
      Inr [''node0-cont0'', ''node0-cont2'', ''node0-cont3''] | _ \<Rightarrow> False)" by code_simp
  then show "?r = Inr (fst (projr ?r), snd (projr ?r))"
    and "listed_containers ''node0'' (fst (projr ?r)) = Inr [''node0-cont0'', ''node0-cont2'', ''node0-cont3'']"
    by (auto split: sum.splits)
qed (use sample_inventory_ok sample_inventory_numbered in \<open>simp_all add: keys_of_def\<close>)

text \<open>The index is read off the last name in the list, whatever its form.  Behind a container that
  is not of the series, such as the \<open>datanode\<close> of the global HDFS on the same node, names that are
  in use are given out again.\<close>

theorem inventory_names_repeat:
  "(case add_containers_to_hosts [(''node1'', 1)]
      [(''nodes'', \<lparr>g_hosts = Some [(''node1'', [(''containers'',
           VList [''node1-cont0'', ''node1-cont1'', ''node1-cont2'', ''datanode-node1''])])],
         g_vars = Some []\<rparr>)] of
      Inr (doc, added) \<Rightarrow> listed_containers ''node1'' doc =
        Inr [''node1-cont0'', ''node1-cont1'', ''node1-cont2'', ''datanode-node1'', ''node1-cont2'']
    | _ \<Rightarrow> False)"
  by code_simp

text \<open>\<open>remove_node\<close> looks the host up among the keys of the group instead of its hosts: removing a
  host of any usual name leaves the inventory as it is.\<close>

theorem inventory_remove_node_keeps:
  assumes "hostname \<noteq> ''hosts''" "hostname \<noteq> ''vars''"
  shows "get_node_hostnames (remove_host hostname doc) = get_node_hostnames doc \<and>
    map_of (remove_host hostname doc) = map_of doc"
  using assms
  by (auto simp: remove_host_def remove_node_def remove_host_of_def get_node_hostnames_def fun_eq_iff
      split: option.splits)

theorem inventory_remove_node_keeps_witness:
  "get_node_hostnames (remove_host ''node0'' sample_inventory) = get_node_hostnames sample_inventory \<and>
   map_of (remove_host ''node0'' sample_inventory) = map_of sample_inventory"
  by (rule inventory_remove_node_keeps) simp_all

text \<open>the disks \<open>add_disks_to_hosts\<close> gives a node have names the node did not use and paths from the
  request that no disk of the node has.\<close>

theorem inventory_disks_fresh:
  assumes "add_disks_to_host new_disks h (doc, added) = Inr (doc', added')"
    and "listed_disks h doc = Inr old"
  shows "\<exists>new. map_of added' h = Some new \<and> fst ` set new \<inter> fst ` set old = {} \<and>
    (\<forall>(n, info) \<in> set new. \<exists>p \<in> set new_disks. info = [(''path'', AStr p)] \<and>
       (\<forall>(m, other) \<in> set old. item other ''path'' \<noteq> Inr (AStr p)))"
proof -
  from assms obtain existing i where scan: "foldR scan_disk old ([], 0) = Inr (existing, i)"
    and a: "added' = AList.update h (name_new_disks existing new_disks i []) added"
    by (auto simp: add_disks_to_host_def scan_disks_def Let_def elim!: rbindE)
  let ?new = "name_new_disks existing new_disks i []"
  have i: "0 \<le> i" using scan_disks_fresh(1) [OF scan] .
  have entry: "new_disk_entry existing new_disks i e" if "e \<in> set ?new" for e
    using name_new_disks_spec [OF i that] by simp
  have "fst e \<notin> fst ` set old" if e: "e \<in> set ?new" for e
  proof -
    from entry [OF e] obtain k where "i \<le> int k" "fst e = ''new_'' @ str_of_int (int k)"
      by (auto simp: new_disk_entry_def)
    with scan_disks_fresh(2) [OF scan, of k] show ?thesis by auto
  qed
  moreover have "\<exists>p \<in> set new_disks. info = [(''path'', AStr p)] \<and>
       (\<forall>(m, other) \<in> set old. item other ''path'' \<noteq> Inr (AStr p))" if "(n, info) \<in> set ?new" for n info
  proof -
    from entry [OF that] obtain p where p: "info = [(''path'', AStr p)]" "p \<in> set new_disks" "AStr p \<notin> set existing"
      by (auto simp: new_disk_entry_def)
    have "item other ''path'' \<noteq> Inr (AStr p)" if o: "(m, other) \<in> set old" for m other
      using scan_disks_fresh(3) [OF scan o] p(3) by auto
    with p show ?thesis by auto
  qed
  ultimately have "fst ` set ?new \<inter> fst ` set old = {}" "\<forall>(n, info) \<in> set ?new. \<exists>p \<in> set new_disks. info = [(''path'', AStr p)] \<and>
       (\<forall>(m, other) \<in> set old. item other ''path'' \<noteq> Inr (AStr p))"
    by auto
  moreover have "map_of added' h = Some ?new" using a by simp
  ultimately show ?thesis by blast
qed

definition disk_inventory :: inventory where
  "disk_inventory = [(''nodes'', \<lparr>g_hosts = Some [(''node0'', [(''disks'', VDisks
       [(''ssd_0'', [(''path'', AStr ''/s'')]), (''new_4'', [(''path'', AStr ''/n'')])])])], g_vars = Some []\<rparr>)]"

theorem inventory_disks_fresh_witness:
  "\<exists>new. map_of [(''node0'', [(''new_5'', [(''path'', AStr ''/x'')])])] ''node0'' = Some new \<and>
    fst ` set new \<inter> fst ` set [(''ssd_0'', [(''path'', AStr ''/s'')]), (''new_4'', [(''path'', AStr ''/n'')])] = {} \<and>
    (\<forall>(n, info) \<in> set new. \<exists>p \<in> set [''/s'', ''/x'']. info = [(''path'', AStr p)] \<and>
       (\<forall>(m, other) \<in> set [(''ssd_0'', [(''path'', AStr ''/s'')]), (''new_4'', [(''path'', AStr ''/n'')])].
          item other ''path'' \<noteq> Inr (AStr p)))"
proof (rule inventory_disks_fresh)
  let ?r = "add_disks_to_host [''/s'', ''/x''] ''node0'' (disk_inventory, [])"
  have "(case ?r of Inr (d, a) \<Rightarrow> a = [(''node0'', [(''new_5'', [(''path'', AStr ''/x'')])])] | _ \<Rightarrow> False)" by code_simp
  then show "?r = Inr (fst (projr ?r), [(''node0'', [(''new_5'', [(''path'', AStr ''/x'')])])])"
    by (auto split: sum.splits)
  show "listed_disks ''node0'' disk_inventory =
      Inr [(''ssd_0'', [(''path'', AStr ''/s'')]), (''new_4'', [(''path'', AStr ''/n'')])]" by code_simp
qed

text \<open>An HDD or SSD path whose variable cannot be expanded is refused, an LVM path of that kind is
  stored as the empty path.\<close>

theorem lvm_path_unchecked:
  "get_disks_dict (\<lambda>s. s) 1 [''/scratch/$JOB''] 0 [] False [] = Inl (PyException ''Disk path can't be empty'') \<and>
   get_disks_dict (\<lambda>s. s) 0 [] 0 [] True ''/scratch/$JOB'' = Inr [(''lvm'', [(''path'', AStr [])])]"
  by code_simp

end
