(* ===== verification/Mappers.thy ===== *)
theory Mappers
  imports PyStr
begin

text \<open>
  The choice of the blocks per chunk of a distcp transfer, \<open>plugins/modules/get_mappers.py\<close>.
\<close>

section \<open>Slicing\<close>

definition DEFAULT_BLOCKS_PER_CHUNKS :: int where
  "DEFAULT_BLOCKS_PER_CHUNKS = 0"

text \<open>\<open>math.floor(blocks / files)\<close> and \<open>math.ceil\<close> of a quotient of integers.\<close>

definition ceil_div :: "int \<Rightarrow> int \<Rightarrow> int" where
  "ceil_div a b = - ((- a) div b)"

definition estimated_mappers :: "int \<Rightarrow> int \<Rightarrow> int \<Rightarrow> int" where
  "estimated_mappers blocks files slicing =
     (let extra = blocks mod files
      in (files - extra) * ceil_div (blocks div files) slicing + extra * ceil_div (ceil_div blocks files) slicing)"

text \<open>The loop over the slicings, without and with proportional approximation; the state is
  \<open>best_slicing\<close> and \<open>best_diff\<close> or \<open>best_remaining\<close>.\<close>

fun approach_maximum :: "int \<Rightarrow> int \<Rightarrow> int \<Rightarrow> int list \<Rightarrow> int \<Rightarrow> int \<Rightarrow> int" where
  "approach_maximum blocks files max_mappers [] best_slicing best_diff = best_slicing"
| "approach_maximum blocks files max_mappers (slicing # rest) best_slicing best_diff =
     (let diff = estimated_mappers blocks files slicing - max_mappers;
          better = (diff = 0 \<or> (0 < diff \<and> diff < best_diff));
          best_slicing' = (if better then slicing else best_slicing);
          best_diff' = (if better then diff else best_diff)
      in if diff \<le> 0 then best_slicing'
         else approach_maximum blocks files max_mappers rest best_slicing' best_diff')"

fun approach_multiple :: "int \<Rightarrow> int \<Rightarrow> int \<Rightarrow> int list \<Rightarrow> int \<Rightarrow> int \<Rightarrow> int" where
  "approach_multiple blocks files max_mappers [] best_slicing best_remaining = best_slicing"
| "approach_multiple blocks files max_mappers (slicing # rest) best_slicing best_remaining =
     (let remaining = estimated_mappers blocks files slicing mod max_mappers
      in if remaining = 0 then slicing
         else if best_remaining < remaining then approach_multiple blocks files max_mappers rest slicing remaining
         else approach_multiple blocks files max_mappers rest best_slicing best_remaining)"

definition slicings :: "int \<Rightarrow> int \<Rightarrow> int list" where
  "slicings blocks files = [2..ceil_div blocks files]"

definition get_mappers :: "int \<Rightarrow> int \<Rightarrow> int \<Rightarrow> string \<Rightarrow> int result" where
  "get_mappers blocks files max_mappers mode =
     (let nearest = (mode = ''nearest-multiple'');
          proportional_approximation = (nearest \<and> max_mappers < files)
      in if files \<le> 0 \<or> blocks \<le> 0 then Inr DEFAULT_BLOCKS_PER_CHUNKS
         else if mode = ''distcp-default'' then Inr DEFAULT_BLOCKS_PER_CHUNKS
         else if mode = ''mapred-default'' then Inr 1
         else if mode = ''best-effort'' \<and> max_mappers \<le> files then Inr DEFAULT_BLOCKS_PER_CHUNKS
         else if nearest \<and> files = max_mappers then Inr DEFAULT_BLOCKS_PER_CHUNKS
         else if blocks \<le> max_mappers then Inr 1
         else if max_mappers = 0 then Inl ZeroDivisionError
         else if proportional_approximation \<and> blocks mod max_mappers = 0 then Inr 1
         else if proportional_approximation
              then Inr (approach_multiple blocks files max_mappers (slicings blocks files) 1 (blocks mod max_mappers))
         else Inr (approach_maximum blocks files max_mappers (slicings blocks files) 1 (blocks - max_mappers)))"

section \<open>Rounding up\<close>

lemma ceil_div_bounds:
  assumes "0 < b"
  shows "a \<le> b * ceil_div a b" "b * ceil_div a b < a + b"
proof -
  have "(- a) div b * b + (- a) mod b = - a" by (rule div_mult_mod_eq)
  moreover have "b * ceil_div a b = - ((- a) div b * b)" by (simp add: ceil_div_def)
  moreover have "0 \<le> (- a) mod b" "(- a) mod b < b" using assms by simp_all
  ultimately show "a \<le> b * ceil_div a b" "b * ceil_div a b < a + b" by linarith+
qed

lemma ceil_div_leI: "0 < b \<Longrightarrow> a \<le> b * c \<Longrightarrow> ceil_div a b \<le> c"
proof (rule ccontr)
  assume b: "0 < b" and a: "a \<le> b * c" and "\<not> ceil_div a b \<le> c"
  then have "b * (c + 1) \<le> b * ceil_div a b" by simp
  with ceil_div_bounds(2) [OF b, of a] a show False by (simp add: algebra_simps)
qed

lemma ceil_div_antimono: "0 < b \<Longrightarrow> b \<le> c \<Longrightarrow> 0 \<le> a \<Longrightarrow> ceil_div a c \<le> ceil_div a b"
proof -
  assume b: "0 < b" "b \<le> c" "0 \<le> a"
  have n: "0 \<le> ceil_div a b"
  proof (rule ccontr)
    assume "\<not> 0 \<le> ceil_div a b"
    then have "b * ceil_div a b < 0" using b by (simp add: mult_pos_neg)
    with ceil_div_bounds(1) [OF b(1), of a] b(3) show False by simp
  qed
  have "a \<le> b * ceil_div a b" by (rule ceil_div_bounds [OF b(1)])
  also have "\<dots> \<le> c * ceil_div a b" using b n by (simp add: mult_right_mono)
  finally show ?thesis using b by (intro ceil_div_leI) simp_all
qed

lemma ceil_div_nonneg: "0 < b \<Longrightarrow> 0 \<le> a \<Longrightarrow> 0 \<le> ceil_div a b"
proof (rule ccontr)
  assume b: "0 < b" "0 \<le> a" "\<not> 0 \<le> ceil_div a b"
  then have "b * ceil_div a b < 0" by (simp add: mult_pos_neg)
  with ceil_div_bounds(1) [OF b(1), of a] b(2) show False by simp
qed

lemma estimated_antimono:
  assumes "0 < files" "0 \<le> blocks" "0 < s" "s \<le> t"
  shows "estimated_mappers blocks files t \<le> estimated_mappers blocks files s"
proof -
  let ?extra = "blocks mod files"
  have "0 \<le> ?extra" "?extra < files" using assms(1) by simp_all
  moreover have "ceil_div (blocks div files) t \<le> ceil_div (blocks div files) s"
    using assms by (intro ceil_div_antimono) (simp_all add: pos_imp_zdiv_nonneg_iff)
  moreover have "ceil_div (ceil_div blocks files) t \<le> ceil_div (ceil_div blocks files) s"
    using assms by (intro ceil_div_antimono) (simp_all add: ceil_div_nonneg)
  ultimately show ?thesis
    unfolding estimated_mappers_def Let_def by (intro add_mono mult_left_mono) simp_all
qed

lemma estimated_at_one: "0 < files \<Longrightarrow> 0 \<le> blocks \<Longrightarrow> estimated_mappers blocks files 1 = blocks"
proof -
  assume f: "0 < files" and b: "0 \<le> blocks"
  have one: "ceil_div a 1 = a" for a by (simp add: ceil_div_def)
  have c: "ceil_div blocks files = blocks div files + (if blocks mod files = 0 then 0 else 1)"
    using f by (simp add: ceil_div_def zdiv_zminus1_eq_if)
  have e: "files * (blocks div files) + blocks mod files = blocks" by (rule mult_div_mod_eq)
  have "estimated_mappers blocks files 1 = files * (blocks div files) + blocks mod files"
  proof (cases "blocks mod files = 0")
    case True
    then show ?thesis unfolding estimated_mappers_def Let_def one c by simp
  next
    case False
    then show ?thesis unfolding estimated_mappers_def Let_def one c
      by (simp add: algebra_simps del: mult_div_mod_eq div_mult_mod_eq)
  qed
  with e show ?thesis by simp
qed

section \<open>The two loops\<close>

text \<open>The slicing of a loop's answer is 1 or one of those tried.\<close>

lemma approach_maximum_in:
  "approach_maximum b f m ss best diff \<in> insert best (set ss)"
  by (induction ss arbitrary: best diff) (auto simp: Let_def)

lemma approach_multiple_in:
  "approach_multiple b f m ss best r \<in> insert best (set ss)"
  by (induction ss arbitrary: best r) (auto simp: Let_def)

text \<open>While more mappers than the maximum are estimated, \<open>best_diff\<close> is the excess of
  \<open>best_slicing\<close>; the estimates fall with the slicing, so the loop stops at the right place.\<close>

lemma approach_maximum_least:
  assumes "sorted_wrt (<) (best # ss)" "0 < f" "0 \<le> b" "0 < best"
    and "d = estimated_mappers b f best - m" "0 < d"
  shows "let r = approach_maximum b f m ss best d in
    m \<le> estimated_mappers b f r \<and>
    (\<forall>s \<in> insert best (set ss). m \<le> estimated_mappers b f s \<longrightarrow> estimated_mappers b f r \<le> estimated_mappers b f s)"
  using assms
proof (induction ss arbitrary: best d)
  case Nil
  then show ?case by (simp add: Let_def)
next
  case (Cons s ss)
  let ?e = "estimated_mappers b f"
  have mono: "?e t \<le> ?e s" if "t \<in> set ss" for t
    using Cons.prems that by (intro estimated_antimono) auto
  have le: "?e s \<le> ?e best" using Cons.prems by (intro estimated_antimono) auto
  consider "?e s < m" | "?e s = m" | "m < ?e s" "?e s < ?e best" | "m < ?e s" "?e s = ?e best"
    using le by linarith
  then show ?case
  proof cases
    case 1
    have less: "?e t < m" if "t \<in> set ss" for t using mono [OF that] 1 by linarith
    have "approach_maximum b f m (s # ss) best d = best"
      using 1 by (simp add: Let_def)
    moreover have "\<forall>t \<in> insert best (set (s # ss)). m \<le> ?e t \<longrightarrow> ?e best \<le> ?e t"
      using less 1 by fastforce
    ultimately show ?thesis using Cons.prems by (simp add: Let_def)
  next
    case 2
    then have "approach_maximum b f m (s # ss) best d = s" by (simp add: Let_def)
    with 2 show ?thesis by (auto simp: Let_def)
  next
    case 3
    have "approach_maximum b f m (s # ss) best d = approach_maximum b f m ss s (?e s - m)"
      using 3 Cons.prems by (simp add: Let_def)
    moreover have "let r = approach_maximum b f m ss s (?e s - m) in m \<le> ?e r \<and>
      (\<forall>t \<in> insert s (set ss). m \<le> ?e t \<longrightarrow> ?e r \<le> ?e t)"
      by (rule Cons.IH) (use Cons.prems 3 in auto)
    ultimately show ?thesis using 3 le by (auto simp: Let_def)
  next
    case 4
    have "approach_maximum b f m (s # ss) best d = approach_maximum b f m ss best d"
      using 4 Cons.prems by (simp add: Let_def)
    with Cons.IH [of best d] Cons.prems 4 show ?thesis by (auto simp: Let_def)
  qed
qed

text \<open>The other loop stops at the first slicing without a remainder, and otherwise keeps the first with
  the greatest remainder.\<close>

lemma approach_multiple_greatest:
  assumes "0 < m" "best_remaining = estimated_mappers b f best mod m" "best_remaining \<noteq> 0"
  shows "let rem = (\<lambda>s. estimated_mappers b f s mod m); r = approach_multiple b f m ss best best_remaining in
    if \<exists>s \<in> set ss. rem s = 0 then rem r = 0 else \<forall>s \<in> insert best (set ss). rem s \<le> rem r"
  using assms(2,3)
proof (induction ss arbitrary: best best_remaining)
  case Nil
  then show ?case by (simp add: Let_def)
next
  case (Cons s ss)
  let ?rem = "\<lambda>s. estimated_mappers b f s mod m"
  consider "?rem s = 0" | "?rem s \<noteq> 0" "best_remaining < ?rem s" | "?rem s \<noteq> 0" "\<not> best_remaining < ?rem s"
    by blast
  then show ?case
  proof cases
    case 1
    then have "approach_multiple b f m (s # ss) best best_remaining = s" by (simp add: Let_def)
    with 1 show ?thesis by (auto simp: Let_def)
  next
    case 2
    then have "approach_multiple b f m (s # ss) best best_remaining = approach_multiple b f m ss s (?rem s)"
      by (simp add: Let_def)
    with Cons.IH [of "?rem s" s] Cons.prems 2 show ?thesis
      by (auto simp: Let_def split: if_splits intro: order_trans)
  next
    case 3
    then have "approach_multiple b f m (s # ss) best best_remaining = approach_multiple b f m ss best best_remaining"
      by (simp add: Let_def)
    with Cons.IH [of best_remaining best] Cons.prems 3 show ?thesis
      by (auto simp: Let_def split: if_splits intro: order_trans)
  qed
qed

lemma sorted_upto: "sorted_wrt (<) [a..(b :: int)]"
  by (induction a b rule: upto.induct) (subst upto.simps, auto)

section \<open>Properties\<close>

text \<open>C11: in the modes nearest-multiple and best-effort, with fewer files than the wanted mappers and more blocks
  than them, the chosen slicing is between one and the blocks of a file, gives at least \<open>max_mappers\<close> mappers, and no
  such slicing that suffices gives fewer.\<close>

theorem get_mappers_least:
  assumes "get_mappers blocks files max_mappers mode = Inr r"
    and "0 < files" "files < max_mappers" "max_mappers < blocks"
    and "mode = ''nearest-multiple'' \<or> mode = ''best-effort''"
  shows "1 \<le> r \<and> r \<le> max 1 (ceil_div blocks files) \<and>
    max_mappers \<le> estimated_mappers blocks files r \<and>
    (\<forall>s. 1 \<le> s \<and> s \<le> ceil_div blocks files \<and> max_mappers \<le> estimated_mappers blocks files s \<longrightarrow>
       estimated_mappers blocks files r \<le> estimated_mappers blocks files s)"
proof -
  have r: "r = approach_maximum blocks files max_mappers (slicings blocks files) 1 (blocks - max_mappers)"
    using assms by (auto simp: get_mappers_def Let_def)
  have base: "estimated_mappers blocks files 1 = blocks" using assms by (intro estimated_at_one) simp_all
  have "let r = approach_maximum blocks files max_mappers (slicings blocks files) 1 (blocks - max_mappers) in
    max_mappers \<le> estimated_mappers blocks files r \<and>
    (\<forall>s \<in> insert 1 (set (slicings blocks files)). max_mappers \<le> estimated_mappers blocks files s \<longrightarrow>
      estimated_mappers blocks files r \<le> estimated_mappers blocks files s)"
    by (rule approach_maximum_least) (use assms base sorted_upto in \<open>auto simp: slicings_def\<close>)
  then have best: "max_mappers \<le> estimated_mappers blocks files r"
    "\<forall>s \<in> insert 1 (set (slicings blocks files)). max_mappers \<le> estimated_mappers blocks files s \<longrightarrow>
      estimated_mappers blocks files r \<le> estimated_mappers blocks files s"
    unfolding Let_def r [symmetric] by blast+
  have "r \<in> insert 1 (set (slicings blocks files))" unfolding r by (rule approach_maximum_in)
  then have "1 \<le> r \<and> r \<le> max 1 (ceil_div blocks files)" by (auto simp: slicings_def)
  moreover have "s \<in> insert 1 (set (slicings blocks files))" if "1 \<le> s" "s \<le> ceil_div blocks files" for s
    using that by (auto simp: slicings_def)
  ultimately show ?thesis using best by blast
qed

theorem get_mappers_least_witness:
  "1 \<le> (3::int) \<and> 3 \<le> max 1 (ceil_div 30 4) \<and> 10 \<le> estimated_mappers 30 4 3 \<and>
    10 \<le> estimated_mappers 30 4 2 \<and> estimated_mappers 30 4 3 \<le> estimated_mappers 30 4 2"
proof -
  have e: "10 \<le> estimated_mappers 30 4 2" "2 \<le> ceil_div 30 4" by code_simp+
  have "1 \<le> (3::int) \<and> 3 \<le> max 1 (ceil_div 30 4) \<and> 10 \<le> estimated_mappers 30 4 3 \<and>
    (\<forall>s. 1 \<le> s \<and> s \<le> ceil_div 30 4 \<and> 10 \<le> estimated_mappers 30 4 s \<longrightarrow>
       estimated_mappers 30 4 3 \<le> estimated_mappers 30 4 s)"
    by (rule get_mappers_least [where mode = "''best-effort''"]) (code_simp, simp_all)
  with e show ?thesis by simp
qed

text \<open>With more files than mappers, the number of mappers estimated for the chosen slicing is a
  multiple of \<open>max_mappers\<close> if any slicing reaches one, and otherwise leaves the fewest mappers idle
  in the last round.\<close>

theorem get_mappers_multiple:
  assumes "get_mappers blocks files max_mappers ''nearest-multiple'' = Inr r"
    and "0 < max_mappers" "max_mappers < files" "max_mappers < blocks"
  shows "if \<exists>s. 1 \<le> s \<and> s \<le> max 1 (ceil_div blocks files) \<and> estimated_mappers blocks files s mod max_mappers = 0
    then estimated_mappers blocks files r mod max_mappers = 0
    else \<forall>s. 1 \<le> s \<and> s \<le> ceil_div blocks files \<longrightarrow>
      estimated_mappers blocks files s mod max_mappers \<le> estimated_mappers blocks files r mod max_mappers"
proof -
  let ?rem = "\<lambda>s. estimated_mappers blocks files s mod max_mappers"
  have base: "estimated_mappers blocks files 1 = blocks" using assms by (intro estimated_at_one) simp_all
  have range: "1 \<le> s \<and> s \<le> max 1 (ceil_div blocks files) \<longleftrightarrow> s \<in> insert 1 (set (slicings blocks files))" for s
    by (auto simp: slicings_def)
  show ?thesis
  proof (cases "blocks mod max_mappers = 0")
    case True
    then have "r = 1" using assms by (simp add: get_mappers_def Let_def)
    then have "?rem r = 0" using base True by simp
    moreover have "\<exists>s. 1 \<le> s \<and> s \<le> max 1 (ceil_div blocks files) \<and> ?rem s = 0"
      by (rule exI [of _ 1]) (use base True in simp)
    ultimately show ?thesis by simp
  next
    case False
    then have r: "r = approach_multiple blocks files max_mappers (slicings blocks files) 1 (blocks mod max_mappers)"
      using assms by (simp add: get_mappers_def Let_def)
    have "if \<exists>s \<in> set (slicings blocks files). ?rem s = 0 then ?rem r = 0
        else \<forall>s \<in> insert 1 (set (slicings blocks files)). ?rem s \<le> ?rem r"
      using approach_multiple_greatest [of max_mappers "blocks mod max_mappers" blocks files 1 "slicings blocks files"]
        assms(2) base False by (simp add: r Let_def)
    moreover have "(\<exists>s \<in> set (slicings blocks files). ?rem s = 0) \<longleftrightarrow>
        (\<exists>s \<in> insert 1 (set (slicings blocks files)). ?rem s = 0)"
      using base False by auto
    ultimately show ?thesis unfolding Bex_def Ball_def range [symmetric] conj_assoc
      by (auto split: if_splits)
  qed
qed

theorem get_mappers_multiple_witness:
  "if \<exists>s. 1 \<le> s \<and> s \<le> max 1 (ceil_div 57 12) \<and> estimated_mappers 57 12 s mod 5 = 0
    then estimated_mappers 57 12 3 mod 5 = 0
    else \<forall>s. 1 \<le> s \<and> s \<le> ceil_div 57 12 \<longrightarrow> estimated_mappers 57 12 s mod 5 \<le> estimated_mappers 57 12 3 mod 5"
  by (rule get_mappers_multiple) (code_simp, simp_all)

text \<open>The module answers for every positive maximum, and divides by zero in the nearest-multiple
  mode with a maximum of zero.\<close>

theorem get_mappers_defined:
  "(0 < max_mappers \<longrightarrow> (\<exists>r. get_mappers blocks files max_mappers mode = Inr r \<and> 0 \<le> r)) \<and>
   (0 < files \<and> 0 < blocks \<longrightarrow> get_mappers blocks files 0 ''nearest-multiple'' = Inl ZeroDivisionError)"
proof (intro conjI impI)
  assume "0 < max_mappers"
  have "0 \<le> approach_maximum blocks files max_mappers (slicings blocks files) 1 d" for d
    using approach_maximum_in [of blocks files max_mappers "slicings blocks files" 1 d] by (auto simp: slicings_def)
  moreover have "0 \<le> approach_multiple blocks files max_mappers (slicings blocks files) 1 d" for d
    using approach_multiple_in [of blocks files max_mappers "slicings blocks files" 1 d] by (auto simp: slicings_def)
  ultimately show "\<exists>r. get_mappers blocks files max_mappers mode = Inr r \<and> 0 \<le> r"
    using \<open>0 < max_mappers\<close> by (auto simp: get_mappers_def DEFAULT_BLOCKS_PER_CHUNKS_def Let_def)
next
  assume "0 < files \<and> 0 < blocks"
  then show "get_mappers blocks files 0 ''nearest-multiple'' = Inl ZeroDivisionError"
    by (simp add: get_mappers_def)
qed

theorem get_mappers_defined_witness:
  "(0 < (5::int) \<longrightarrow> (\<exists>r. get_mappers 57 12 5 ''best-effort'' = Inr r \<and> 0 \<le> r)) \<and>
   (0 < (12::int) \<and> 0 < (57::int) \<longrightarrow> get_mappers 57 12 0 ''nearest-multiple'' = Inl ZeroDivisionError)"
  by (rule get_mappers_defined)

end
