(* ===== verification/SharedFs.thy ===== *)
theory SharedFs
  imports PyStr
begin

text \<open>
  The action plugins that run a module once per shared file system:
  \<open>smart_sharedfs/plugins/module_utils/sharedfs_utils.py\<close> and \<open>plugins/action/_sharedfs_base.py\<close>.

  \<open>PurePosixPath\<close> is the standard library's; \<open>normalize_path\<close> writes out what it does to an absolute
  path: repeated and trailing slashes and single dots go.
\<close>

section \<open>Mounts\<close>

record mount =
  m_mount :: "string option"
  m_device :: "string option"
  m_fstype :: "string option"

definition DEFAULT_SHARED_FS_TYPES :: "string list" where
  "DEFAULT_SHARED_FS_TYPES = [''nfs'', ''nfs4'', ''cifs'', ''smbfs'', ''glusterfs'', ''ceph'', ''cephfs'',
     ''gfs2'', ''lustre'', ''gpfs'', ''ocfs2'', ''afs'', ''sshfs'']"

definition path_parts :: "string \<Rightarrow> string list" where
  "path_parts p = filter (\<lambda>w. w \<noteq> [] \<and> w \<noteq> ''.'') (split_on CHR ''/'' p)"

definition path_root :: "string \<Rightarrow> string" where
  "path_root p =
     (if starts_with ''//'' p \<and> \<not> starts_with ''///'' p then ''//''
      else if starts_with ''/'' p then ''/'' else [])"

definition normalize_path :: "string \<Rightarrow> string" where
  "normalize_path p =
     (if path_root p = [] \<and> path_parts p = [] then ''.'' else path_root p @ join ''/'' (path_parts p))"

definition rstrip_slash :: "string \<Rightarrow> string" where
  "rstrip_slash s = rev (dropWhile (\<lambda>c. c = CHR ''/'') (rev s))"

text \<open>Whether \<open>dest\<close>, already normalised, lies at or under the mount point.\<close>

definition covers :: "string \<Rightarrow> string \<Rightarrow> bool" where
  "covers dest mp \<longleftrightarrow> dest = mp \<or> starts_with (rstrip_slash mp @ ''/'') dest"

fun longest_mount_loop :: "string \<Rightarrow> mount list \<Rightarrow> mount option \<Rightarrow> int \<Rightarrow> mount option" where
  "longest_mount_loop dest [] best best_len = best"
| "longest_mount_loop dest (m # ms) best best_len =
     (case m_mount m of
        None \<Rightarrow> longest_mount_loop dest ms best best_len
      | Some mp \<Rightarrow>
          if mp \<noteq> [] \<and> covers dest mp \<and> best_len < int (length mp)
          then longest_mount_loop dest ms (Some m) (int (length mp))
          else longest_mount_loop dest ms best best_len)"

definition longest_mount :: "mount list option \<Rightarrow> string \<Rightarrow> mount option" where
  "longest_mount mounts dest =
     longest_mount_loop (normalize_path dest) (case mounts of None \<Rightarrow> [] | Some ms \<Rightarrow> ms) None (-1)"

definition share_id_for_mount :: "mount \<Rightarrow> string" where
  "share_id_for_mount m =
     (case m_fstype m of Some f \<Rightarrow> f | None \<Rightarrow> ''unknown'') @ '':'' @
     (case m_device m of Some d \<Rightarrow> d | None \<Rightarrow> ''unknown'')"

section \<open>Leaders\<close>

text \<open>The task variables the plugin reads.\<close>

record task_vars =
  tv_host :: string                           \<comment> \<open>\<open>inventory_hostname\<close>\<close>
  tv_play_hosts :: "string list"
  tv_mounts :: "string \<Rightarrow> mount list option"    \<comment> \<open>the facts gathered for a host\<close>
  tv_fstypes :: "string list"
  tv_enabled :: bool
  tv_assume_shared :: bool

definition shared_types :: "task_vars \<Rightarrow> string list" where
  "shared_types tv = (if tv_fstypes tv \<noteq> [] then tv_fstypes tv else DEFAULT_SHARED_FS_TYPES)"

text \<open>\<open>_is_shared_path\<close>: shared or not, and the identity of the share.\<close>

definition is_shared_path :: "task_vars \<Rightarrow> string \<Rightarrow> string \<Rightarrow> bool \<times> string option" where
  "is_shared_path tv host dest =
     (case tv_mounts tv host of
        None \<Rightarrow> (tv_assume_shared tv, None)
      | Some [] \<Rightarrow> (tv_assume_shared tv, None)
      | Some mounts \<Rightarrow>
          (case longest_mount (Some mounts) dest of
             None \<Rightarrow> (False, None)
           | Some m \<Rightarrow>
               let fstype = (case m_fstype m of Some f \<Rightarrow> f | None \<Rightarrow> []);
                   shared = (fstype \<in> set (shared_types tv))
               in (shared, if shared then Some (share_id_for_mount m) else None)))"

definition share_of :: "task_vars \<Rightarrow> string \<Rightarrow> string \<Rightarrow> string option" where
  "share_of tv dest host =
     (case is_shared_path tv host dest of (True, Some sid) \<Rightarrow> (if sid \<noteq> [] then Some sid else None) | _ \<Rightarrow> None)"

text \<open>\<open>_elect_leader\<close>: the loop over the hosts, with \<open>shared_map\<close> and \<open>my_share_id\<close>.\<close>

fun elect_loop ::
  "task_vars \<Rightarrow> string \<Rightarrow> string list \<Rightarrow> string list dict \<Rightarrow> string option \<Rightarrow> string list dict \<times> string option" where
  "elect_loop tv dest [] shared_map my_share_id = (shared_map, my_share_id)"
| "elect_loop tv dest (h # hs) shared_map my_share_id =
     (let (shared, sid) = is_shared_path tv h dest;
          shared_map' = (case sid of
             Some s \<Rightarrow> if shared \<and> s \<noteq> [] then AList.update s (get_or shared_map s [] @ [h]) shared_map else shared_map
           | None \<Rightarrow> shared_map);
          my_share_id' = (if h = tv_host tv \<and> shared then sid else my_share_id)
      in elect_loop tv dest hs shared_map' my_share_id')"

fun least :: "string list \<Rightarrow> string option" where
  "least [] = None"
| "least (x # xs) = (case least xs of None \<Rightarrow> Some x | Some y \<Rightarrow> Some (min x y))"

definition elect_leader :: "task_vars \<Rightarrow> string list \<Rightarrow> string \<Rightarrow> (string \<times> string option) option" where
  "elect_leader tv hosts dest =
     (case elect_loop tv dest hosts [] None of
        (shared_map, Some sid) \<Rightarrow> if sid \<noteq> [] then Some (sid, least (get_or shared_map sid [])) else None
      | (_, None) \<Rightarrow> None)"

section \<open>Running the module\<close>

datatype decision = Execute | Skip string string   \<comment> \<open>the share and its leader\<close>

text \<open>\<open>_get_dest_path\<close>: the first path argument that is a non-empty string.\<close>

fun get_dest_path :: "string dict \<Rightarrow> string list \<Rightarrow> string option" where
  "get_dest_path args [] = None"
| "get_dest_path args (k # ks) =
     (case map_of args k of Some p \<Rightarrow> if p \<noteq> [] then Some p else get_dest_path args ks
      | None \<Rightarrow> get_dest_path args ks)"

definition run_wrapped :: "task_vars \<Rightarrow> string dict \<Rightarrow> decision" where
  "run_wrapped tv args =
     (case get_dest_path args [''dest'', ''path''] of
        None \<Rightarrow> Execute
      | Some dest \<Rightarrow>
          if \<not> tv_enabled tv then Execute
          else (case elect_leader tv (tv_play_hosts tv) dest of
              None \<Rightarrow> Execute
            | Some (sid, leader) \<Rightarrow>
                if leader = Some (tv_host tv) then Execute
                else Skip sid (case leader of Some l \<Rightarrow> l | None \<Rightarrow> ''None'')))"

section \<open>Lemmas\<close>

lemma longest_mount_loop_spec:
  assumes "best_len = (case best of None \<Rightarrow> -1 | Some b \<Rightarrow> (case m_mount b of Some mp \<Rightarrow> int (length mp) | None \<Rightarrow> -1))"
    and "\<forall>b. best = Some b \<longrightarrow> (\<exists>mp. m_mount b = Some mp \<and> mp \<noteq> [] \<and> covers dest mp)"
  shows "case longest_mount_loop dest ms best best_len of
      None \<Rightarrow> best = None \<and> (\<forall>m \<in> set ms. \<forall>mp. m_mount m = Some mp \<longrightarrow> mp \<noteq> [] \<longrightarrow> \<not> covers dest mp)
    | Some r \<Rightarrow> (best = Some r \<or> r \<in> set ms) \<and> (\<exists>rp. m_mount r = Some rp \<and> rp \<noteq> [] \<and> covers dest rp \<and>
        best_len \<le> int (length rp) \<and>
        (\<forall>m \<in> set ms. \<forall>mp. m_mount m = Some mp \<longrightarrow> mp \<noteq> [] \<longrightarrow> covers dest mp \<longrightarrow> length mp \<le> length rp))"
  using assms
proof (induction ms arbitrary: best best_len)
  case Nil
  then show ?case by (auto split: option.splits)
next
  case (Cons m ms)
  show ?case
  proof (cases "\<exists>mp. m_mount m = Some mp \<and> mp \<noteq> [] \<and> covers dest mp \<and> best_len < int (length mp)")
    case True
    then obtain mp where mp: "m_mount m = Some mp" "mp \<noteq> []" "covers dest mp" "best_len < int (length mp)" by blast
    then have "longest_mount_loop dest (m # ms) best best_len = longest_mount_loop dest ms (Some m) (int (length mp))"
      by simp
    with Cons.IH [of "int (length mp)" "Some m"] mp show ?thesis by (auto split: option.splits)
  next
    case False
    then have e: "longest_mount_loop dest (m # ms) best best_len = longest_mount_loop dest ms best best_len"
      by (auto split: option.splits)
    have short: "int (length mp) \<le> best_len" if "m_mount m = Some mp" "mp \<noteq> []" "covers dest mp" for mp
      using False that by auto
    show ?thesis
    proof (cases "longest_mount_loop dest ms best best_len")
      case None
      with Cons.IH [OF Cons.prems] have ih: "best = None"
        "\<forall>m \<in> set ms. \<forall>mp. m_mount m = Some mp \<longrightarrow> mp \<noteq> [] \<longrightarrow> \<not> covers dest mp" by simp_all
      then have "best_len = -1" using Cons.prems(1) by simp
      then have "\<not> covers dest mp" if "m_mount m = Some mp" "mp \<noteq> []" for mp
        using short [OF that] by auto
      then show ?thesis unfolding e using None ih by simp
    next
      case (Some r)
      with Cons.IH [OF Cons.prems] obtain rp where r: "best = Some r \<or> r \<in> set ms"
        "m_mount r = Some rp" "rp \<noteq> []" "covers dest rp" "best_len \<le> int (length rp)"
        "\<forall>m \<in> set ms. \<forall>mp. m_mount m = Some mp \<longrightarrow> mp \<noteq> [] \<longrightarrow> covers dest mp \<longrightarrow> length mp \<le> length rp"
        by auto
      then have "length mp \<le> length rp" if "m_mount m = Some mp" "mp \<noteq> []" "covers dest mp" for mp
        using short [OF that] by linarith
      then show ?thesis unfolding e using Some r by auto
    qed
  qed
qed

lemma least_spec: "least xs = (if xs = [] then None else Some (Min (set xs)))"
proof (induction xs)
  case (Cons x xs)
  then show ?case by (cases "xs = []") auto
qed simp

text \<open>The hosts of a share, in the order of the play.\<close>

lemma elect_loop_map:
  assumes "elect_loop tv dest hs sm my = (sm', my')" "sid \<noteq> []"
  shows "get_or sm' sid [] = get_or sm sid [] @ filter (\<lambda>h. share_of tv dest h = Some sid) hs"
  using assms(1)
proof (induction hs arbitrary: sm my)
  case (Cons h hs)
  obtain shared s where s: "is_shared_path tv h dest = (shared, s)" by (cases "is_shared_path tv h dest")
  show ?case
  proof (cases "\<exists>x. s = Some x \<and> shared \<and> x \<noteq> []")
    case True
    with Cons s show ?thesis by (auto simp: share_of_def)
  next
    case False
    with Cons s assms(2) show ?thesis by (auto simp: share_of_def split: option.splits bool.splits)
  qed
qed simp

lemma is_shared_path_id: "is_shared_path tv h dest = (shared, Some sid) \<Longrightarrow> shared \<and> sid \<noteq> []"
  by (auto simp: is_shared_path_def share_id_for_mount_def Let_def split: option.splits list.splits if_splits)

lemma elect_loop_mine:
  assumes "elect_loop tv dest hs sm my = (sm', my')"
  shows "my' = (if tv_host tv \<in> set hs \<and> fst (is_shared_path tv (tv_host tv) dest)
    then snd (is_shared_path tv (tv_host tv) dest) else my)"
  using assms
proof (induction hs arbitrary: sm my)
  case (Cons h hs)
  obtain shared s where s: "is_shared_path tv h dest = (shared, s)" by (cases "is_shared_path tv h dest")
  then obtain sm1 where "elect_loop tv dest hs sm1 (if h = tv_host tv \<and> shared then s else my) = (sm', my')"
    using Cons.prems by (auto simp: Let_def)
  from Cons.IH [OF this] s show ?case by auto
qed simp

lemma elect_leader_spec:
  "elect_leader tv hosts dest =
     (if tv_host tv \<in> set hosts
      then (case share_of tv dest (tv_host tv) of None \<Rightarrow> None
            | Some sid \<Rightarrow> Some (sid, Some (Min {h \<in> set hosts. share_of tv dest h = Some sid})))
      else None)"
proof -
  obtain sm my where e: "elect_loop tv dest hosts [] None = (sm, my)" by (cases "elect_loop tv dest hosts [] None")
  obtain shared s where s: "is_shared_path tv (tv_host tv) dest = (shared, s)"
    by (cases "is_shared_path tv (tv_host tv) dest")
  have my: "my = (if tv_host tv \<in> set hosts \<and> shared then s else None)" using elect_loop_mine [OF e] s by simp
  show ?thesis
  proof (cases "tv_host tv \<in> set hosts \<and> shared \<and> s \<noteq> None")
    case True
    then obtain sid where sid: "s = Some sid" by auto
    have ne: "sid \<noteq> []" using is_shared_path_id s sid by blast
    then have share: "share_of tv dest (tv_host tv) = Some sid" using s sid True by (simp add: share_of_def)
    let ?c = "filter (\<lambda>h. share_of tv dest h = Some sid) hosts"
    have "get_or sm sid [] = ?c" using elect_loop_map [OF e ne] by (simp add: get_or_def)
    moreover have "?c \<noteq> []" using True share by (auto simp: filter_empty_conv)
    ultimately show ?thesis using e my True sid ne share by (simp add: elect_leader_def least_spec)
  next
    case False
    have "share_of tv dest (tv_host tv) = None" if "\<not> (shared \<and> s \<noteq> None)"
      using that s by (auto simp: share_of_def split: option.splits bool.splits)
    with False e my show ?thesis by (auto simp: elect_leader_def)
  qed
qed

section \<open>Properties\<close>

definition nfs_mount :: "string \<Rightarrow> mount" where
  "nfs_mount mp = \<lparr>m_mount = Some mp, m_device = Some (''srv:'' @ mp), m_fstype = Some ''nfs''\<rparr>"

definition sample_vars :: "string \<Rightarrow> task_vars" where
  "sample_vars h = \<lparr>tv_host = h, tv_play_hosts = [''c2'', ''c1'', ''c3''],
     tv_mounts = (\<lambda>g. if g = ''c3'' then Some [\<lparr>m_mount = Some ''/'', m_device = Some ''/dev/sda'', m_fstype = Some ''ext4''\<rparr>]
                     else Some [nfs_mount ''/home'']),
     tv_fstypes = [], tv_enabled = True, tv_assume_shared = False\<rparr>"

text \<open>\<open>longest_mount\<close> answers a mount the destination lies under, with the longest path of all
  such mounts, and nothing exactly when there is none.\<close>

theorem longest_mount_correct:
  "case longest_mount (Some mounts) dest of
      None \<Rightarrow> \<forall>m \<in> set mounts. \<forall>mp. m_mount m = Some mp \<longrightarrow> mp \<noteq> [] \<longrightarrow> \<not> covers (normalize_path dest) mp
    | Some r \<Rightarrow> r \<in> set mounts \<and> (\<exists>rp. m_mount r = Some rp \<and> covers (normalize_path dest) rp \<and>
        (\<forall>m \<in> set mounts. \<forall>mp. m_mount m = Some mp \<longrightarrow> mp \<noteq> [] \<longrightarrow> covers (normalize_path dest) mp \<longrightarrow>
           length mp \<le> length rp))"
  using longest_mount_loop_spec [of "-1" None "normalize_path dest" mounts]
  by (auto simp: longest_mount_def split: option.splits)

theorem longest_mount_correct_witness:
  "case longest_mount (Some [nfs_mount ''/home'', nfs_mount ''/home/u'']) ''/home/u/f'' of
      None \<Rightarrow> \<forall>m \<in> set [nfs_mount ''/home'', nfs_mount ''/home/u'']. \<forall>mp. m_mount m = Some mp \<longrightarrow> mp \<noteq> [] \<longrightarrow>
        \<not> covers (normalize_path ''/home/u/f'') mp
    | Some r \<Rightarrow> r \<in> set [nfs_mount ''/home'', nfs_mount ''/home/u''] \<and>
        (\<exists>rp. m_mount r = Some rp \<and> covers (normalize_path ''/home/u/f'') rp \<and>
        (\<forall>m \<in> set [nfs_mount ''/home'', nfs_mount ''/home/u'']. \<forall>mp. m_mount m = Some mp \<longrightarrow> mp \<noteq> [] \<longrightarrow>
           covers (normalize_path ''/home/u/f'') mp \<longrightarrow> length mp \<le> length rp))"
  by (rule longest_mount_correct)

text \<open>C10: on every shared file system a task runs on exactly one of the hosts of the play that share it,
  and on a host whose destination is not shared it always runs.\<close>

theorem one_leader_per_share:
  assumes "get_dest_path args [''dest'', ''path''] = Some dest" "tv_enabled tv"
    and "h \<in> set (tv_play_hosts tv)"
  shows "case share_of tv dest h of
      None \<Rightarrow> run_wrapped (tv\<lparr>tv_host := h\<rparr>) args = Execute
    | Some sid \<Rightarrow> \<exists>!g. g \<in> set (tv_play_hosts tv) \<and> share_of tv dest g = Some sid \<and>
        run_wrapped (tv\<lparr>tv_host := g\<rparr>) args = Execute"
proof -
  have share: "share_of (tv\<lparr>tv_host := g\<rparr>) dest x = share_of tv dest x" for g x
    by (simp add: share_of_def is_shared_path_def shared_types_def cong: option.case_cong list.case_cong)
  have run: "run_wrapped (tv\<lparr>tv_host := g\<rparr>) args = Execute \<longleftrightarrow>
      (\<forall>sid. share_of tv dest g = Some sid \<longrightarrow>
        g = Min {x \<in> set (tv_play_hosts tv). share_of tv dest x = Some sid})"
    if "g \<in> set (tv_play_hosts tv)" for g
    using assms(1,2) that by (auto simp: run_wrapped_def elect_leader_spec share split: option.splits)
  show ?thesis
  proof (cases "share_of tv dest h")
    case None
    then show ?thesis using run [OF assms(3)] by simp
  next
    case (Some sid)
    let ?S = "{x \<in> set (tv_play_hosts tv). share_of tv dest x = Some sid}"
    have "Min ?S \<in> ?S" using Some assms(3) by (intro Min_in) auto
    then have "\<exists>!g. g \<in> set (tv_play_hosts tv) \<and> share_of tv dest g = Some sid \<and>
        run_wrapped (tv\<lparr>tv_host := g\<rparr>) args = Execute"
      using run by (intro ex1I [of _ "Min ?S"]) auto
    with Some show ?thesis by simp
  qed
qed

theorem one_leader_per_share_witness:
  "case share_of (sample_vars ''c1'') ''/home/u'' ''c2'' of
      None \<Rightarrow> run_wrapped ((sample_vars ''c1'')\<lparr>tv_host := ''c2''\<rparr>) [(''dest'', ''/home/u'')] = Execute
    | Some sid \<Rightarrow> \<exists>!g. g \<in> set (tv_play_hosts (sample_vars ''c1'')) \<and>
        share_of (sample_vars ''c1'') ''/home/u'' g = Some sid \<and>
        run_wrapped ((sample_vars ''c1'')\<lparr>tv_host := g\<rparr>) [(''dest'', ''/home/u'')] = Execute"
  by (rule one_leader_per_share) (simp_all add: sample_vars_def)

end
