(* ===== verification/Json.thy ===== *)
theory Json
  imports PyStr
begin

text \<open>
  JSON documents as the scripts read and build them, the conversions \<open>int(x)\<close>, \<open>float(x)\<close>,
  \<open>str(x)\<close> on their values, and the answers of an HTTP request.
\<close>

section \<open>Documents\<close>

datatype json =
    JNull
  | JBool bool
  | JNum rat
  | JStr string
  | JArr "json list"
  | JObj "(string \<times> json) list"

type_synonym obj = "json dict"

text \<open>\<open>doc[key]\<close> on a document that should be an object.\<close>

definition jitem :: "json \<Rightarrow> string \<Rightarrow> json result" where
  "jitem v k = (case v of JObj d \<Rightarrow> item d k | _ \<Rightarrow> Inl (TypeError k))"

definition jset :: "string \<Rightarrow> json \<Rightarrow> json \<Rightarrow> json" where
  "jset k x v = (case v of JObj d \<Rightarrow> JObj (AList.update k x d) | _ \<Rightarrow> v)"

definition jnum :: "json \<Rightarrow> rat result" where
  "jnum v = (case v of JNum x \<Rightarrow> Inr x | JBool b \<Rightarrow> Inr (if b then 1 else 0) | _ \<Rightarrow> Inl (TypeError ''number''))"

definition jstr :: "json \<Rightarrow> string result" where
  "jstr v = (case v of JStr s \<Rightarrow> Inr s | _ \<Rightarrow> Inl (TypeError ''string''))"

definition jarr :: "json \<Rightarrow> json list result" where
  "jarr v = (case v of JArr xs \<Rightarrow> Inr xs | _ \<Rightarrow> Inl (TypeError ''list''))"

definition jobj :: "json \<Rightarrow> obj result" where
  "jobj v = (case v of JObj d \<Rightarrow> Inr d | _ \<Rightarrow> Inl (TypeError ''dict''))"

fun jtruthy :: "json \<Rightarrow> bool" where
  "jtruthy JNull = False"
| "jtruthy (JBool b) = b"
| "jtruthy (JNum x) = (x \<noteq> 0)"
| "jtruthy (JStr s) = (s \<noteq> [])"
| "jtruthy (JArr xs) = (xs \<noteq> [])"
| "jtruthy (JObj d) = (d \<noteq> [])"

section \<open>Numbers in strings\<close>

text \<open>\<open>float(s)\<close> for decimal literals, with or without an exponent.\<close>

definition digits_or_empty :: "string \<Rightarrow> nat option" where
  "digits_or_empty s = (if s = [] then Some 0 else scan_digits 0 False s)"

definition mantissa :: "string \<Rightarrow> rat option" where
  "mantissa s =
     (case split_on CHR ''.'' s of
        [a] \<Rightarrow> map_option of_nat (scan_digits 0 False a)
      | [a, b] \<Rightarrow> (if a = [] \<and> b = [] then None
          else case (digits_or_empty a, digits_or_empty b) of
            (Some x, Some y) \<Rightarrow> Some (of_nat x + of_nat y / 10 ^ length b)
          | _ \<Rightarrow> None)
      | _ \<Rightarrow> None)"

definition unsigned_float :: "string \<Rightarrow> rat option" where
  "unsigned_float s =
     (case split_on CHR ''e'' (map (\<lambda>c. if c = CHR ''E'' then CHR ''e'' else c) s) of
        [m] \<Rightarrow> mantissa m
      | [m, e] \<Rightarrow> (case (mantissa m, if e = [] \<or> is_space (hd e) \<or> is_space (last e) then None else int_of_str e) of
          (Some x, Some k) \<Rightarrow> Some (if 0 \<le> k then x * 10 ^ nat k else x / 10 ^ nat (- k))
        | _ \<Rightarrow> None)
      | _ \<Rightarrow> None)"

definition float_of_str :: "string \<Rightarrow> rat option" where
  "float_of_str s =
     (case strip s of
        [] \<Rightarrow> None
      | c # cs \<Rightarrow> if c = CHR ''-'' then map_option uminus (unsigned_float cs)
                 else if c = CHR ''+'' then unsigned_float cs else unsigned_float (c # cs))"

definition jint :: "json \<Rightarrow> int result" where
  "jint v = (case v of
     JNum x \<Rightarrow> Inr (py_int x)
   | JBool b \<Rightarrow> Inr (if b then 1 else 0)
   | JStr s \<Rightarrow> int_str s
   | _ \<Rightarrow> Inl (TypeError ''int''))"

definition jfloat :: "json \<Rightarrow> rat result" where
  "jfloat v = (case v of
     JNum x \<Rightarrow> Inr x
   | JBool b \<Rightarrow> Inr (if b then 1 else 0)
   | JStr s \<Rightarrow> (case float_of_str s of Some x \<Rightarrow> Inr x | None \<Rightarrow> Inl (ValueError s))
   | _ \<Rightarrow> Inl (TypeError ''float''))"

definition JInt :: "int \<Rightarrow> json" where
  "JInt n = JNum (of_int n)"

section \<open>HTTP answers\<close>

text \<open>The answer of \<open>requests.put\<close> and its kin; it is an object, so it never equals a string.\<close>

datatype http_response = Response nat string   \<comment> \<open>status code and text\<close>

fun status_code :: "http_response \<Rightarrow> nat" where
  "status_code (Response c t) = c"

fun response_text :: "http_response \<Rightarrow> string" where
  "response_text (Response c t) = t"

definition response_ok :: "http_response \<Rightarrow> bool" where
  "response_ok r \<longleftrightarrow> status_code r < 400"

fun not_empty_string :: "http_response \<Rightarrow> bool" where   \<comment> \<open>\<open>response != ""\<close>\<close>
  "not_empty_string (Response c t) \<longleftrightarrow> True"

lemma not_empty_string_True [simp]: "not_empty_string r"
  by (cases r) simp

text \<open>The error string of \<open>web_request\<close>; \<open>get_text\<close> stands for BeautifulSoup's extraction of text.\<close>

definition web_error :: "(string \<Rightarrow> string) \<Rightarrow> string \<Rightarrow> http_response \<Rightarrow> string" where
  "web_error get_text error_message r =
     (if not_empty_string r \<and> \<not> response_ok r
      then error_message @ '': '' @ strip (get_text (response_text r)) else [])"

lemma web_error_empty_iff: "web_error get_text msg r = [] \<longleftrightarrow> response_ok r"
  by (simp add: web_error_def)

section \<open>\<open>str\<close> of a list or dictionary\<close>

text \<open>A number that is no integer prints with up to sixteen decimals.\<close>

fun fraction_digits :: "nat \<Rightarrow> rat \<Rightarrow> string" where
  "fraction_digits 0 x = []"
| "fraction_digits (Suc k) x =
     (if x = 0 then []
      else let d = \<lfloor>10 * x\<rfloor> in digit_char (nat d) # fraction_digits k (10 * x - of_int d))"

definition show_number :: "rat \<Rightarrow> string" where
  "show_number x =
     (let n = py_int x; f = \<bar>x - of_int n\<bar>
      in (if x < 0 \<and> n = 0 then ''-'' else []) @ str_of_int n @ (if f = 0 then [] else CHR ''.'' # fraction_digits 16 f))"

definition quote :: char where "quote = CHR 39"
definition double_quote :: char where "double_quote = CHR 34"

definition repr_char :: "char \<Rightarrow> char \<Rightarrow> string" where
  "repr_char q c =
     (let n = (of_char c :: nat)
      in if c = q \<or> n = 92 then [CHR 92, c]
         else if n = 10 then [CHR 92, CHR ''n''] else if n = 13 then [CHR 92, CHR ''r''] else if n = 9 then [CHR 92, CHR ''t'']
         else if n < 32 \<or> n = 127
         then [CHR 92, CHR ''x'', ''0123456789abcdef'' ! (n div 16), ''0123456789abcdef'' ! (n mod 16)]
         else [c])"

definition repr_str :: "string \<Rightarrow> string" where
  "repr_str s =
     (let q = (if quote \<in> set s \<and> double_quote \<notin> set s then double_quote else quote)
      in q # concat (map (repr_char q) s) @ [q])"

fun py_repr :: "json \<Rightarrow> string" where
  "py_repr JNull = ''None''"
| "py_repr (JBool b) = (if b then ''True'' else ''False'')"
| "py_repr (JNum x) = show_number x"
| "py_repr (JStr s) = repr_str s"
| "py_repr (JArr xs) = ''['' @ join '', '' (map py_repr xs) @ '']''"
| "py_repr (JObj d) = ''{'' @ join '', '' (map (\<lambda>(k, v). repr_str k @ '': '' @ py_repr v) d) @ ''}''"

text \<open>\<open>str(x).replace(' ', '')\<close>\<close>

definition formatted :: "json \<Rightarrow> string" where
  "formatted v = filter (\<lambda>c. c \<noteq> CHR '' '') (py_repr v)"

end
