(* ===== verification/StateScripts.thy ===== *)
theory StateScripts
  imports Json
begin

text \<open>
  The scripts that fill the state database: \<open>scripts/state_database/add_hosts.py\<close>,
  \<open>add_disks_to_hosts.py\<close>, \<open>update_host_disks_bw_db.py\<close>, \<open>add_containers.py\<close> and
  \<open>limit_containers_bw.py\<close>.  Each builds documents and sends them to the orchestrator; the answer to
  a request is the parameter \<open>reply\<close>, a function of its URL and document.
\<close>

section \<open>Hosts and disks\<close>

definition disk_type :: "(string \<times> string) list \<Rightarrow> string \<Rightarrow> string result" where
  "disk_type table disk =
     (case List.find (\<lambda>p. contains (fst p) disk) table of
        Some p \<Rightarrow> Inr (snd p)
      | None \<Rightarrow> Inl (PyException ''Disk has an invalid type''))"

definition host_disk_types :: "(string \<times> string) list" where
  "host_disk_types = [(''ssd'', ''SSD''), (''hdd'', ''HDD''), (''lvm'', ''LVM'')]"

definition new_disk_types :: "(string \<times> string) list" where
  "new_disk_types = host_disk_types @ [(''new'', ''SSD'')]"

definition disk_entry :: "(string \<times> string) list \<Rightarrow> string \<Rightarrow> json \<Rightarrow> json result" where
  "disk_entry table disk info =
     rbind (jitem info ''path'') (\<lambda>path. rbind (jitem info ''read_bw'') (\<lambda>r.
     rbind (jitem info ''write_bw'') (\<lambda>w. rbind (disk_type table disk) (\<lambda>t.
     Inr (JObj [(''name'', JStr disk), (''path'', path), (''max_read'', r), (''free_read'', r),
                (''max_write'', w), (''free_write'', w), (''load'', JNum 0), (''type'', JStr t)])))))"

text \<open>The loop over the resources of a new host: CPU counts become shares.\<close>

definition add_host_resource :: "string \<times> json \<Rightarrow> obj \<Rightarrow> obj result" where
  "add_host_resource p acc =
     rbind (jint (snd p)) (\<lambda>n.
       let v = JInt (if fst p = ''cpu'' then n * 100 else n)
       in Inr (AList.update (fst p) (JObj [(''max'', v), (''free'', v)]) acc))"

definition host_document :: "string \<Rightarrow> obj \<Rightarrow> obj option \<Rightarrow> json \<Rightarrow> json result" where
  "host_document new_host host_resources disks create_lvm =
     rbind (foldR add_host_resource host_resources []) (\<lambda>res.
     rbind (case disks of
         None \<Rightarrow> Inr res
       | Some ds \<Rightarrow> if ds = [] then Inr res
           else rbind (mapR (\<lambda>(disk, info). disk_entry host_disk_types disk info)
                  (filter (\<lambda>(disk, info). \<not> jtruthy create_lvm \<or> contains ''lvm'' disk) ds)) (\<lambda>entries.
                Inr (AList.update ''disks'' (JArr entries) res))) (\<lambda>resources.
     Inr (JObj [(''name'', JStr new_host), (''host'', JStr new_host), (''subtype'', JStr ''host''),
                (''host_rescaler_ip'', JStr new_host), (''host_rescaler_port'', JStr ''8000''),
                (''resources'', JObj resources)])))"

text \<open>\<open>add_disks_to_hosts.py\<close>: the entries sent for one host, in the order of the inventory.\<close>

definition new_disks_document :: "obj \<Rightarrow> string list \<Rightarrow> json result" where
  "new_disks_document disks new_disks =
     rbind (mapR (\<lambda>(disk, info). disk_entry new_disk_types disk info)
              (filter (\<lambda>(disk, info). disk \<in> set new_disks) disks)) (\<lambda>entries.
     Inr (JObj [(''resources'', JObj [(''disks'', JArr entries)])]))"

definition bandwidth_conversion :: "rat dict" where
  "bandwidth_conversion = [(''B/s'', 95367432 / 10 ^ 14), (''KB/s'', 9765625 / 10 ^ 10), (''MB/s'', 1),
     (''GB/s'', 1024), (''TB/s'', 1048576)]"

definition disk_bw_document :: "string \<Rightarrow> rat \<Rightarrow> rat \<Rightarrow> string \<Rightarrow> json result" where
  "disk_bw_document disk read_bandwidth write_bandwidth unit =
     rbind (item bandwidth_conversion unit) (\<lambda>f.
     Inr (JObj [(''resources'', JObj [(''disks'', JArr [JObj [(''name'', JStr disk),
            (''max_read'', JInt (py_round (read_bandwidth * f))),
            (''max_write'', JInt (py_round (write_bandwidth * f)))]])])]))"

section \<open>Containers\<close>

text \<open>\<open>{"max": .., "current": .., "min": .., "guard": .., "weight": ..}\<close> of one resource.\<close>

definition resource_entry :: "obj \<Rightarrow> string \<Rightarrow> string \<Rightarrow> bool \<Rightarrow> json result" where
  "resource_entry cont res current_key guard =
     rbind (rbind (item cont (res @ ''_max'')) jint) (\<lambda>mx.
     rbind (rbind (item cont (res @ current_key)) jint) (\<lambda>cur.
     rbind (rbind (item cont (res @ ''_min'')) jint) (\<lambda>mn.
     let entry = [(''max'', JInt mx), (''current'', JInt cur), (''min'', JInt mn), (''guard'', JBool guard)]
     in (case map_of cont (res @ ''_weight'') of
           None \<Rightarrow> Inr (JObj entry)
         | Some w \<Rightarrow> rbind (jfloat w) (\<lambda>x. Inr (JObj (entry @ [(''weight'', JNum x)])))))))"

text \<open>\<open>cont.get('<res>_guard', 'true') == 'true'\<close>\<close>

definition guard_flag :: "obj \<Rightarrow> string \<Rightarrow> bool" where
  "guard_flag cont res = (get_or cont (res @ ''_guard'') (JStr ''true'') = JStr ''true'')"

text \<open>\<open>cont.get('mem_guard' == 'true') == 'true'\<close> looks the key \<open>False\<close> up, which no JSON object has.\<close>

definition mem_guard_flag :: "obj \<Rightarrow> bool" where
  "mem_guard_flag cont = (JNull = JStr ''true'')"

definition limits_entry :: "obj \<Rightarrow> obj \<Rightarrow> string \<Rightarrow> json result" where
  "limits_entry config cont res =
     rbind (item cont (res @ ''_boundary'')) (\<lambda>b.
     rbind (if b = JNum 0 \<or> b = JBool False then rbind (item config (res @ ''_boundary'')) jint else jint b) (\<lambda>n.
     rbind (rbind (item cont (res @ ''_boundary_type'')) jstr) (\<lambda>t.
     Inr (JObj [(''boundary'', JInt n), (''boundary_type'', JStr t)]))))"

definition power_budgeting :: "obj \<Rightarrow> bool" where
  "power_budgeting config \<longleftrightarrow> jtruthy (get_or config ''power_budgeting'' JNull)"

definition with_disk :: "obj \<Rightarrow> obj \<Rightarrow> bool result" where
  "with_disk config cont =
     (if \<not> has_key cont ''disk'' then Inr False
      else rbind (item config ''disk_capabilities'') (\<lambda>c.
        if jtruthy c then rbind (item config ''disk_scaling'') (\<lambda>s. Inr (jtruthy s)) else Inr False))"

definition add_entry :: "obj \<Rightarrow> string \<Rightarrow> string \<Rightarrow> bool \<Rightarrow> obj \<Rightarrow> obj result" where
  "add_entry cont res current_key guard acc =
     rbind (resource_entry cont res current_key guard) (\<lambda>e. Inr (AList.update res e acc))"

definition disk_part :: "obj \<Rightarrow> obj \<Rightarrow> bool \<Rightarrow> obj \<Rightarrow> obj result" where
  "disk_part config cont wd acc =
     (if wd
      then rbind (item cont ''disk'') (\<lambda>d. rbind (item cont ''disk_path'') (\<lambda>p.
           rbind (add_entry cont ''disk_read'' ''_min'' (guard_flag cont ''disk_read'')
                    (AList.update ''disk'' (JObj [(''name'', d), (''path'', p)]) acc)) (\<lambda>acc'.
           add_entry cont ''disk_write'' ''_min'' (guard_flag cont ''disk_write'') acc')))
      else Inr acc)"

definition container_resources :: "obj \<Rightarrow> obj \<Rightarrow> (obj \<times> string list) result" where
  "container_resources config cont =
     rbind (add_entry cont ''cpu'' ''_min'' (guard_flag cont ''cpu'') []) (\<lambda>r1.
     rbind (add_entry cont ''mem'' ''_min'' (mem_guard_flag cont) r1) (\<lambda>r2.
     rbind (if power_budgeting config
            then add_entry cont ''energy'' ''_max'' (guard_flag cont ''energy'') r2 else Inr r2) (\<lambda>r3.
     rbind (with_disk config cont) (\<lambda>wd.
     rbind (disk_part config cont wd r3) (\<lambda>r5.
     Inr (r5, [''cpu'', ''mem''] @ (if power_budgeting config then [''energy''] else []) @
              (if wd then [''disk_read'', ''disk_write''] else [])))))))"

definition container_document :: "obj \<Rightarrow> obj \<Rightarrow> json result" where
  "container_document config cont =
     rbind (item cont ''container_name'') (\<lambda>name. rbind (item cont ''host'') (\<lambda>host.
     rbind (container_resources config cont) (\<lambda>(res, cont_resources).
     rbind (foldR (\<lambda>r acc. rbind (limits_entry config cont r) (\<lambda>e. Inr (AList.update r e acc))) cont_resources []) (\<lambda>lims.
     Inr (JObj [(''container'', JObj [(''name'', name), (''resources'', JObj res), (''host_rescaler_ip'', host),
                   (''host_rescaler_port'', JStr ''8000''), (''host'', host), (''guard'', JBool True),
                   (''subtype'', JStr ''container'')]),
                (''limits'', JObj [(''resources'', JObj lims)])])))))"

text \<open>One turn of the main loop: the document sent, unless building or sending it fails.\<close>

definition add_container_to_db ::
  "(string \<Rightarrow> string) \<Rightarrow> (string \<Rightarrow> json \<Rightarrow> http_response) \<Rightarrow> string \<Rightarrow> obj \<Rightarrow> obj \<Rightarrow> (string \<times> json) list \<Rightarrow>
   (string \<times> json) list result" where
  "add_container_to_db get_text reply orchestrator_url config cont sent =
     rbind (rbind (item cont ''container_name'') jstr) (\<lambda>name.
     rbind (container_document config cont) (\<lambda>doc.
     let url = orchestrator_url @ ''/structure/container/'' @ name;
         r = reply url doc;
         err = web_error get_text ''Error adding container'' r
     in if not_empty_string r \<and> err \<noteq> [] \<and> \<not> (status_code r = 400 \<and> contains ''already exists'' err)
        then Inl (PyException err) else Inr (sent @ [(url, doc)])))"

text \<open>\<open>add_container_to_app_in_db\<close>: the attempts left, and how many requests were made.\<close>

fun subscribe_attempts ::
  "(string \<Rightarrow> string) \<Rightarrow> (nat \<Rightarrow> http_response) \<Rightarrow> nat \<Rightarrow> nat \<Rightarrow> nat \<times> exn option" where
  "subscribe_attempts get_text reply 0 made = (made, Some (PyException ''Reached max tries''))"
| "subscribe_attempts get_text reply (Suc left) made =
     (let r = reply made;
          err = web_error get_text ''Error adding container to app'' r
      in if not_empty_string r
         then (if err = [] then (made + 1, None)
               else if status_code r = 400 \<and> contains ''already subscribed'' err then (made + 1, None)
               else (made + 1, Some (PyException err)))
         else subscribe_attempts get_text reply left (made + 1))"

definition add_container_to_app_in_db :: "(string \<Rightarrow> string) \<Rightarrow> (nat \<Rightarrow> http_response) \<Rightarrow> nat \<times> exn option" where
  "add_container_to_app_in_db get_text reply = subscribe_attempts get_text reply 10 0"

section \<open>Limiting bandwidth\<close>

record bw_container =
  b_name :: string
  b_read :: "rat \<times> rat"      \<comment> \<open>minimum and current of \<open>disk_read\<close>\<close>
  b_write :: "rat \<times> rat"

record bw_host =
  bh_max_read :: rat           \<comment> \<open>of the host's \<open>lvm\<close> disk\<close>
  bh_max_write :: rat
  bh_containers :: "bw_container list"

definition cap_bw :: rat where
  "cap_bw = 1 / 10"

text \<open>A request lowers a resource of a container by the amount.\<close>

type_synonym bw_request = "string \<times> string \<times> rat"

definition scale_requests :: "rat \<Rightarrow> rat \<Rightarrow> bw_container \<Rightarrow> bw_request list" where
  "scale_requests limited_read limited_write c =
     (let read_to_escale = max limited_read (fst (b_read c)) - snd (b_read c);
          write_to_escale = max limited_write (fst (b_write c)) - snd (b_write c)
      in (if read_to_escale < 0 then [(b_name c, ''disk_read'', read_to_escale)] else []) @
         (if write_to_escale < 0 then [(b_name c, ''disk_write'', write_to_escale)] else []))"

definition host_requests :: "bw_host \<Rightarrow> bw_request list" where
  "host_requests h =
     (let n = of_nat (length (bh_containers h));
          limited_read = bh_max_read h * cap_bw / n;
          limited_write = bh_max_write h * cap_bw / n
      in concat (map (scale_requests limited_read limited_write) (bh_containers h)))"

definition limit_containers_bw :: "bw_host list \<Rightarrow> bw_request list" where
  "limit_containers_bw hosts = concat (map host_requests hosts)"

text \<open>\<open>main\<close> takes the hosts as a string with commas and reads their structures.\<close>

definition wanted_hosts :: "string \<Rightarrow> string list" where
  "wanted_hosts hosts_str = split_on CHR '','' hosts_str"

definition jpair :: "json \<Rightarrow> string \<Rightarrow> (rat \<times> rat) result" where
  "jpair container res =
     rbind (jitem container ''resources'') (\<lambda>rs. rbind (jitem rs res) (\<lambda>r.
     rbind (rbind (jitem r ''min'') jnum) (\<lambda>mn. rbind (rbind (jitem r ''current'') jnum) (\<lambda>cur. Inr (mn, cur)))))"

definition bw_container_of :: "json \<Rightarrow> bw_container result" where
  "bw_container_of c =
     rbind (rbind (jitem c ''name'') jstr) (\<lambda>name. rbind (jpair c ''disk_read'') (\<lambda>r. rbind (jpair c ''disk_write'') (\<lambda>w.
       Inr \<lparr>b_name = name, b_read = r, b_write = w\<rparr>)))"

definition has_subtype :: "string \<Rightarrow> json \<Rightarrow> bool result" where
  "has_subtype kind s = rbind (jitem s ''subtype'') (\<lambda>t. Inr (t = JStr kind))"

text \<open>The structures of a subtype whose \<open>key\<close> is the given name.\<close>

definition filterR :: "('a \<Rightarrow> bool result) \<Rightarrow> 'a list \<Rightarrow> 'a list result" where
  "filterR P xs = foldR (\<lambda>x acc. rbind (P x) (\<lambda>b. Inr (if b then acc @ [x] else acc))) xs []"

definition named_structures :: "string \<Rightarrow> string \<Rightarrow> (string \<Rightarrow> bool) \<Rightarrow> json list \<Rightarrow> json list result" where
  "named_structures kind key P structures =
     filterR (\<lambda>s. andR (has_subtype kind s) (rbind (rbind (jitem s key) jstr) (\<lambda>n. Inr (P n)))) structures"

definition bw_host_of :: "json list \<Rightarrow> json \<Rightarrow> bw_host result" where
  "bw_host_of structures host =
     rbind (rbind (jitem host ''name'') jstr) (\<lambda>name.
     rbind (jitem host ''resources'') (\<lambda>rs. rbind (jitem rs ''disks'') (\<lambda>ds. rbind (jitem ds ''lvm'') (\<lambda>lvm.
     rbind (rbind (jitem lvm ''max_read'') jnum) (\<lambda>r. rbind (rbind (jitem lvm ''max_write'') jnum) (\<lambda>w.
     rbind (named_structures ''container'' ''host'' (\<lambda>h. h = name) structures) (\<lambda>cs.
     rbind (mapR bw_container_of cs) (\<lambda>containers.
       Inr \<lparr>bh_max_read = r, bh_max_write = w, bh_containers = containers\<rparr>))))))))"

definition bw_requests :: "string \<Rightarrow> json list \<Rightarrow> bw_request list result" where
  "bw_requests hosts_str structures =
     rbind (named_structures ''host'' ''name'' (\<lambda>n. n \<in> set (wanted_hosts hosts_str)) structures) (\<lambda>hosts.
     rbind (mapR (bw_host_of structures) hosts) (\<lambda>hs. Inr (limit_containers_bw hs)))"

section \<open>Properties\<close>

definition jpath :: "string list \<Rightarrow> json \<Rightarrow> json result" where
  "jpath ks v = foldR (\<lambda>k v. jitem v k) ks v"

lemma add_entry_other: "add_entry cont res ck g acc = Inr acc' \<Longrightarrow> k \<noteq> res \<Longrightarrow> item acc' k = item acc k"
  by (auto simp: add_entry_def elim!: rbindE)

lemma disk_part_mem: "disk_part config cont wd acc = Inr acc' \<Longrightarrow> item acc' ''mem'' = item acc ''mem''"
  by (auto simp: disk_part_def add_entry_def split: if_splits elim!: rbindE)

lemma resource_entry_guard:
  "resource_entry cont res ck g = Inr e \<Longrightarrow> jitem e ''guard'' = Inr (JBool g)"
  by (auto simp: resource_entry_def Let_def jitem_def item_def elim!: rbindE split: option.splits)

text \<open>A container is always sent to the database with the guard of its memory off, whatever
  \<open>mem_guard\<close> says.\<close>

theorem mem_guard_off:
  assumes "container_document config cont = Inr doc"
  shows "jpath [''container'', ''resources'', ''mem'', ''guard''] doc = Inr (JBool False)"
proof -
  from assms obtain res lims name host rs where doc: "container_resources config cont = Inr (res, rs)"
    "doc = JObj [(''container'', JObj [(''name'', name), (''resources'', JObj res), (''host_rescaler_ip'', host),
                   (''host_rescaler_port'', JStr ''8000''), (''host'', host), (''guard'', JBool True),
                   (''subtype'', JStr ''container'')]),
                (''limits'', JObj [(''resources'', JObj lims)])]"
    by (auto simp: container_document_def elim!: rbindE)
  from doc(1) obtain r1 r2 r3 wd where steps:
    "add_entry cont ''mem'' ''_min'' (mem_guard_flag cont) r1 = Inr r2"
    "(if power_budgeting config
      then add_entry cont ''energy'' ''_max'' (guard_flag cont ''energy'') r2 else Inr r2) = Inr r3"
    "disk_part config cont wd r3 = Inr res"
    by (auto simp: container_resources_def elim!: rbindE)
  note r2 = steps(1)
  from steps(2) have "item r3 ''mem'' = item r2 ''mem''"
    using add_entry_other [of cont "''energy''" "''_max''" "guard_flag cont ''energy''" r2 r3 "''mem''"]
    by (simp split: if_splits)
  with disk_part_mem [OF steps(3)] have rest: "item res ''mem'' = item r2 ''mem''" by simp
  from r2 obtain e where "resource_entry cont ''mem'' ''_min'' (mem_guard_flag cont) = Inr e" "item r2 ''mem'' = Inr e"
    by (auto simp: add_entry_def elim!: rbindE)
  then have "item res ''mem'' = Inr e" "jitem e ''guard'' = Inr (JBool False)"
    using rest resource_entry_guard [of cont "''mem''" "''_min''" "mem_guard_flag cont" e]
    by (simp_all add: mem_guard_flag_def)
  then show ?thesis
    by (simp add: jpath_def doc(2) jitem_def [of "JObj d" for d] item_def [of "(k, v) # d" for k v d])
qed

definition sample_cont :: obj where
  "sample_cont = [(''container_name'', JStr ''node0-cont0''), (''host'', JStr ''node0''),
     (''cpu_max'', JNum 200), (''cpu_min'', JNum 50), (''mem_max'', JStr ''2048''), (''mem_min'', JNum 512),
     (''mem_guard'', JStr ''true''), (''cpu_boundary'', JNum 10), (''cpu_boundary_type'', JStr ''percentage_of_max''),
     (''mem_boundary'', JNum 10), (''mem_boundary_type'', JStr ''percentage_of_max'')]"

theorem mem_guard_off_witness:
  "jpath [''container'', ''resources'', ''mem'', ''guard''] (projr (container_document [] sample_cont)) = Inr (JBool False)"
proof (rule mem_guard_off)
  have "(case container_document [] sample_cont of Inr d \<Rightarrow> True | _ \<Rightarrow> False)" by code_simp
  then show "container_document [] sample_cont = Inr (projr (container_document [] sample_cont))"
    by (auto split: sum.splits)
qed

lemma subscribe_first_turn:
  "fst (subscribe_attempts get_text reply (Suc k) n) = n + 1 \<and>
   (snd (subscribe_attempts get_text reply (Suc k) n) = None \<longleftrightarrow>
     response_ok (reply n) \<or> status_code (reply n) = 400 \<and>
       contains ''already subscribed'' (web_error get_text ''Error adding container to app'' (reply n)))"
  by (auto simp: Let_def web_error_empty_iff simp del: subscribe_attempts.simps(1))

text \<open>Subscribing a container to an application is tried once, not ten times: the answer object
  is never the empty string, so the loop ends at its first turn, with success or with an exception.\<close>

theorem subscribe_never_retries:
  "fst (add_container_to_app_in_db get_text reply) = 1 \<and>
   (snd (add_container_to_app_in_db get_text reply) = None \<longleftrightarrow>
     response_ok (reply 0) \<or> status_code (reply 0) = 400 \<and>
       contains ''already subscribed'' (web_error get_text ''Error adding container to app'' (reply 0)))"
  using subscribe_first_turn [of get_text reply 9 0]
  by (simp add: add_container_to_app_in_db_def)

text \<open>a bandwidth request only ever lowers a resource, to the container's minimum or its part of a
  tenth of the host's bandwidth, whichever is more.\<close>

theorem bw_requests_lower:
  assumes "(name, res, amount) \<in> set (host_requests h)"
  shows "amount < 0 \<and> (\<exists>c \<in> set (bh_containers h). b_name c = name \<and>
    (res = ''disk_read'' \<and> snd (b_read c) + amount = max (bh_max_read h / 10 / of_nat (length (bh_containers h))) (fst (b_read c)) \<or>
     res = ''disk_write'' \<and> snd (b_write c) + amount = max (bh_max_write h / 10 / of_nat (length (bh_containers h))) (fst (b_write c))))"
proof -
  from assms obtain c where c: "c \<in> set (bh_containers h)"
    and e: "(name, res, amount) \<in> set (scale_requests (bh_max_read h * cap_bw / of_nat (length (bh_containers h)))
      (bh_max_write h * cap_bw / of_nat (length (bh_containers h))) c)"
    by (auto simp: host_requests_def Let_def)
  show ?thesis
    using e by (intro conjI bexI [OF _ c]) (auto simp: scale_requests_def Let_def cap_bw_def split: if_splits)
qed

definition sample_bw_host :: bw_host where
  "sample_bw_host = \<lparr>bh_max_read = 200, bh_max_write = 100,
     bh_containers = [\<lparr>b_name = ''c0'', b_read = (5, 50), b_write = (5, 8)\<rparr>]\<rparr>"

theorem bw_requests_lower_witness:
  "(-30 :: rat) < 0 \<and> (\<exists>c \<in> set (bh_containers sample_bw_host). b_name c = ''c0'' \<and>
    (''disk_read'' = ''disk_read'' \<and> snd (b_read c) + -30 =
        max (bh_max_read sample_bw_host / 10 / of_nat (length (bh_containers sample_bw_host))) (fst (b_read c)) \<or>
     ''disk_read'' = ''disk_write'' \<and> snd (b_write c) + -30 =
        max (bh_max_write sample_bw_host / 10 / of_nat (length (bh_containers sample_bw_host))) (fst (b_write c))))"
  by (rule bw_requests_lower) code_simp

end
