(* ===== verification/NodeRescaler.thy ===== *)
theory NodeRescaler
  imports Json
begin

text \<open>
  \<open>scripts/hosts/init_host_node_rescaler.py\<close>: the first limits of the containers of a host, sent to the
  node rescaler that runs on it.

  The state database is a record of what \<open>get_structure\<close> answers; a missing structure is its
  \<open>ValueError\<close>.  What the node rescaler reports for a container is the parameter \<open>node_state\<close>, a
  function of the URL.  The script writes neither back to the database, so a run is the list of the
  requests it sends.
\<close>

section \<open>Lists of cores\<close>

text \<open>\<open>itertools.groupby(xs, x - next(count()))\<close>: first and last of every run of consecutive numbers.\<close>

fun runs :: "nat list \<Rightarrow> (nat \<times> nat) list" where
  "runs [] = []"
| "runs (x # xs) =
     (case runs xs of
        [] \<Rightarrow> [(x, x)]
      | (a, b) # rs \<Rightarrow> if a = x + 1 then (x, b) # rs else (x, x) # (a, b) # rs)"

definition show_run :: "nat \<times> nat \<Rightarrow> string" where
  "show_run r = (if fst r = snd r then str_of_nat (fst r) else str_of_nat (fst r) @ ''-'' @ str_of_nat (snd r))"

definition get_integer_list_range :: "nat list \<Rightarrow> string" where
  "get_integer_list_range xs = join '','' (map show_run (runs xs))"

section \<open>Cores of a new container\<close>

text \<open>\<open>core_usage_mapping\<close>: for each core, its free shares and those of every container on it.\<close>

type_synonym core = "rat dict"
type_synonym core_mapping = "core dict"

definition core_free :: "core_mapping \<Rightarrow> nat \<Rightarrow> rat result" where
  "core_free m k = rbind (item m (str_of_nat k)) (\<lambda>core. item core ''free'')"

text \<open>\<open>m[k][name] = amount; m[k]["free"] -= amount\<close>\<close>

definition give_core :: "string \<Rightarrow> nat \<Rightarrow> rat \<Rightarrow> core_mapping \<Rightarrow> core_mapping result" where
  "give_core name k amount m =
     rbind (item m (str_of_nat k)) (\<lambda>core.
     let core1 = AList.update name amount core
     in rbind (item core1 ''free'') (\<lambda>free.
          Inr (AList.update (str_of_nat k) (AList.update ''free'' (free - amount) core1) m)))"

text \<open>\<open>if current_core < number_of_cores: current_free = core_mapping[str(current_core)]['free']\<close>\<close>

definition next_free :: "nat list \<Rightarrow> core_mapping \<Rightarrow> rat \<Rightarrow> rat result" where
  "next_free ks m current_free = (case ks of [] \<Rightarrow> Inr current_free | k # _ \<Rightarrow> core_free m k)"

text \<open>The while loop; the cores from \<open>current_core\<close> on are a list.\<close>

fun allocate_cores ::
  "string \<Rightarrow> rat \<Rightarrow> nat list \<Rightarrow> rat \<Rightarrow> core_mapping \<Rightarrow> nat list \<Rightarrow> (rat \<times> core_mapping \<times> nat list) result" where
  "allocate_cores name to_allocate [] current_free m core_list = Inr (to_allocate, m, core_list)"
| "allocate_cores name to_allocate (k # ks) current_free m core_list =
     (if to_allocate \<le> 0 then Inr (to_allocate, m, core_list)
      else let core_list' = (if 0 < current_free then core_list @ [k] else core_list)
        in if 100 \<le> to_allocate
           then rbind (give_core name k current_free m) (\<lambda>m'.
                rbind (next_free ks m' current_free) (\<lambda>free'.
                allocate_cores name (to_allocate - current_free) ks free' m' core_list'))
           else let min_usage = min current_free to_allocate
             in rbind (give_core name k min_usage m) (\<lambda>m'.
                if min_usage = to_allocate then Inr (0, m', core_list')
                else rbind (next_free ks m' current_free) (\<lambda>free'.
                     allocate_cores name (to_allocate - current_free) ks free' m' core_list')))"

text \<open>A container that is in the database keeps the cores the mapping has for it.\<close>

fun known_cores :: "string \<Rightarrow> core_mapping \<Rightarrow> nat list \<Rightarrow> rat \<Rightarrow> nat list \<Rightarrow> (rat \<times> nat list) result" where
  "known_cores name m [] allocated core_list = Inr (allocated, core_list)"
| "known_cores name m (k # ks) allocated core_list =
     rbind (item m (str_of_nat k)) (\<lambda>core.
       case map_of core name of
         Some x \<Rightarrow> if 0 < x then known_cores name m ks (allocated + x) (core_list @ [k])
                  else known_cores name m ks allocated core_list
       | None \<Rightarrow> known_cores name m ks allocated core_list)"

definition cpu_of_mapping :: "core_mapping \<Rightarrow> bool \<Rightarrow> string \<Rightarrow> int result \<Rightarrow> (rat \<times> string) result" where
  "cpu_of_mapping m is_new name cpu_max =
     (let ks = [0..<length m]
      in rbind (core_free m 0) (\<lambda>free.
         if is_new
         then rbind cpu_max (\<lambda>x.
              rbind (allocate_cores name (of_int x) ks free m []) (\<lambda>(rest, m', cores).
              Inr (of_int x, get_integer_list_range cores)))
         else rbind (known_cores name m ks 0 []) (\<lambda>(allocated, cores).
              Inr (allocated, get_integer_list_range cores))))"

text \<open>Without a mapping: the cores from \<open>total_allowance_allocated\<close> on.\<close>

definition cpu_of_total :: "int \<Rightarrow> int \<Rightarrow> string" where
  "cpu_of_total total_allowance_allocated cpu_max =
     (let initial_core = total_allowance_allocated div 100;
          last_core = (total_allowance_allocated + cpu_max - 1) div 100
      in if initial_core < last_core then str_of_int initial_core @ ''-'' @ str_of_int last_core
         else str_of_int initial_core)"

section \<open>The request for a container\<close>

record database =
  db_exists :: bool
  db_hosts :: "core_mapping option dict"          \<comment> \<open>each host, and its mapping if it has one\<close>
  db_containers :: "(json \<times> json) dict dict"      \<comment> \<open>\<open>current\<close> and \<open>max\<close> of each resource\<close>

definition host_mapping :: "database \<Rightarrow> string \<Rightarrow> core_mapping option" where
  "host_mapping db host =
     (if db_exists db then (case map_of (db_hosts db) host of Some (Some m) \<Rightarrow> Some m | _ \<Rightarrow> None) else None)"

definition obj_int :: "obj \<Rightarrow> string \<Rightarrow> int result" where
  "obj_int c k = rbind (item c k) jint"

text \<open>\<open>get_structure(name)['resources'][res]['current']\<close>, or the maximum when that is \<open>-1\<close>.\<close>

definition stored_limit :: "database \<Rightarrow> string \<Rightarrow> string \<Rightarrow> json result" where
  "stored_limit db name res =
     (case map_of (db_containers db) name of
        None \<Rightarrow> Inl (ValueError name)
      | Some resources \<Rightarrow> rbind (item resources res) (\<lambda>(current, mx).
          Inr (if current = JNum (- 1) then mx else current)))"

type_synonym put_state = "nat \<times> obj"    \<comment> \<open>\<open>not_initialized_resources\<close> and \<open>put_field_data\<close>\<close>

definition count_if :: "bool \<Rightarrow> nat \<Rightarrow> nat" where
  "count_if b n = (if b then n + 1 else n)"

definition cpu_fields :: "database \<Rightarrow> bool \<Rightarrow> string \<Rightarrow> obj \<Rightarrow> json \<Rightarrow> put_state \<Rightarrow> put_state result" where
  "cpu_fields db is_new host c requested st =
     rbind (rbind (jitem requested ''cpu'') (\<lambda>v. jitem v ''cpu_allowance_limit'')) (\<lambda>v. rbind (jint v) (\<lambda>lim.
     let not_initialized = (lim = - 1); n = count_if not_initialized (fst st)
     in case host_mapping db host of
          Some m \<Rightarrow>
            if not_initialized
            then rbind (rbind (item c ''container_name'') jstr) (\<lambda>name.
                 rbind (cpu_of_mapping m is_new name (obj_int c ''cpu_max'')) (\<lambda>(limit, cpu_num).
                 Inr (n, AList.update ''cpu'' (JObj [(''cpu_allowance_limit'', JNum limit), (''cpu_num'', JStr cpu_num)]) (snd st))))
            else Inr (n, snd st)
        | None \<Rightarrow>
            rbind (obj_int c ''cpu_max'') (\<lambda>x.
            Inr (n, AList.update ''cpu'' (JObj [(''cpu_allowance_limit'', JInt x), (''cpu_num'', JStr (cpu_of_total 0 x))]) (snd st)))))"

definition mem_fields :: "database \<Rightarrow> bool \<Rightarrow> obj \<Rightarrow> json \<Rightarrow> put_state \<Rightarrow> put_state result" where
  "mem_fields db is_new c requested st =
     rbind (rbind (jitem requested ''mem'') (\<lambda>v. jitem v ''mem_limit'')) (\<lambda>v. rbind (jint v) (\<lambda>lim.
     if lim = - 1
     then rbind (if is_new then rbind (obj_int c ''mem_max'') (\<lambda>x. Inr (JInt x))
                 else rbind (rbind (item c ''container_name'') jstr) (\<lambda>name. stored_limit db name ''mem'')) (\<lambda>l.
          Inr (fst st + 1, AList.update ''mem'' (JObj [(''mem_limit'', l), (''unit'', JStr ''M'')]) (snd st)))
     else Inr st))"

definition disk_fields ::
  "database \<Rightarrow> bool \<Rightarrow> obj \<Rightarrow> json \<Rightarrow> string \<times> string \<Rightarrow> put_state \<Rightarrow> put_state result" where
  "disk_fields db is_new c requested p st =
     (case p of (res, label) \<Rightarrow>
      rbind (jitem requested res) (\<lambda>v.
      rbind (if v = JArr [] then Inr True
             else rbind (jitem v label) (\<lambda>x. rbind (jint x) (\<lambda>n. Inr (n = - 1)))) (\<lambda>not_initialized.
      if not_initialized
      then rbind (if is_new then rbind (obj_int c (res @ ''_max'')) (\<lambda>x. Inr (JInt x))
                  else rbind (rbind (item c ''container_name'') jstr) (\<lambda>name. stored_limit db name res)) (\<lambda>l.
           Inr (fst st + 1, AList.update res (JObj [(label, l), (''unit'', JStr ''Mbit'')]) (snd st)))
      else Inr st)))"

definition disk_labels :: "(string \<times> string) list" where
  "disk_labels = [(''disk_read'', ''disk_read_limit''), (''disk_write'', ''disk_write_limit'')]"

definition init_fields ::
  "database \<Rightarrow> string list \<Rightarrow> bool \<Rightarrow> string \<Rightarrow> obj \<Rightarrow> json \<Rightarrow> put_state result" where
  "init_fields db resources is_new host c requested =
     rbind (if ''cpu'' \<in> set resources then cpu_fields db is_new host c requested (0, []) else Inr (0, [])) (\<lambda>s1.
     rbind (if ''mem'' \<in> set resources then mem_fields db is_new c requested s1 else Inr s1) (\<lambda>s2.
     if ''disk'' \<in> set resources \<and> has_key c ''disk''
     then foldR (disk_fields db is_new c requested) disk_labels s2 else Inr s2))"

definition container_url :: "string \<Rightarrow> string \<Rightarrow> string" where
  "container_url host name = ''http://'' @ host @ '':8000/container/'' @ name"

text \<open>One turn of the inner loop; the state is the list of requests sent.\<close>

definition init_container ::
  "database \<Rightarrow> (string \<Rightarrow> json) \<Rightarrow> string list \<Rightarrow> obj list \<Rightarrow> string \<Rightarrow> obj \<Rightarrow>
   (string \<times> obj) list \<Rightarrow> (string \<times> obj) list result" where
  "init_container db node_state resources new_containers host c sent =
     rbind (item c ''host'') (\<lambda>h.
     if h \<noteq> JStr host then Inr sent
     else rbind (rbind (item c ''container_name'') jstr) (\<lambda>name.
       let full_url = container_url host name
       in rbind (init_fields db resources (c \<in> set new_containers) host c (node_state full_url)) (\<lambda>(n, put).
          Inr (if 0 < n then sent @ [(full_url, put)] else sent))))"

definition new_containers_of :: "database \<Rightarrow> obj list \<Rightarrow> obj list result" where
  "new_containers_of db containers =
     (if db_exists db
      then foldR (\<lambda>c acc. rbind (rbind (item c ''container_name'') jstr) (\<lambda>name.
             Inr (if has_key (db_containers db) name then acc else acc @ [c]))) containers []
      else Inr containers)"

text \<open>The whole run: \<open>for host in hosts\<close> on the string of the first argument.\<close>

definition init_node_rescaler ::
  "database \<Rightarrow> (string \<Rightarrow> json) \<Rightarrow> string \<Rightarrow> obj list \<Rightarrow> string list \<Rightarrow> (string \<times> obj) list result" where
  "init_node_rescaler db node_state hosts containers resources =
     (if containers = [] then Inr []
      else rbind (new_containers_of db containers) (\<lambda>new_containers.
        foldR (\<lambda>h. foldR (init_container db node_state resources new_containers [h]) containers) hosts []))"

text \<open>Waiting for the database: the answers of its tries, \<open>None\<close> for one that raised.\<close>

definition COUCHDB_INIT_TRIES :: nat where
  "COUCHDB_INIT_TRIES = 10"

fun wait_for_database :: "(nat \<Rightarrow> bool option) \<Rightarrow> nat \<Rightarrow> nat \<Rightarrow> nat \<times> bool" where
  "wait_for_database answer 0 tries = (tries, False)"
| "wait_for_database answer (Suc left) tries =
     (if answer tries = Some True then (tries + 1, True) else wait_for_database answer left (tries + 1))"

section \<open>The string of a list of cores\<close>

definition parse_run :: "string \<Rightarrow> nat list option" where
  "parse_run s = (case map int_of_str (split_on CHR ''-'' s) of
     [Some a] \<Rightarrow> Some [nat a]
   | [Some a, Some b] \<Rightarrow> Some [nat a..<nat b + 1]
   | _ \<Rightarrow> None)"

fun concat_options :: "'a list option list \<Rightarrow> 'a list option" where
  "concat_options [] = Some []"
| "concat_options (x # xs) = (case (x, concat_options xs) of (Some a, Some b) \<Rightarrow> Some (a @ b) | _ \<Rightarrow> None)"

definition parse_cores :: "string \<Rightarrow> nat list option" where
  "parse_cores s = (if s = [] then Some [] else concat_options (map parse_run (split_on CHR '','' s)))"

lemma runs_ordered: "(a, b) \<in> set (runs xs) \<Longrightarrow> a \<le> b"
  by (induction xs arbitrary: a b) (fastforce split: list.splits prod.splits if_splits)+

lemma runs_nonempty: "xs \<noteq> [] \<Longrightarrow> runs xs \<noteq> []"
  by (cases xs) (auto split: list.splits prod.splits)

lemma runs_expand: "concat (map (\<lambda>(a, b). [a..<b + 1]) (runs xs)) = xs"
proof (induction xs)
  case (Cons x xs)
  show ?case
  proof (cases "runs xs")
    case Nil
    with Cons show ?thesis by simp
  next
    case (Cons r rs)
    obtain a b where [simp]: "r = (a, b)" by (cases r)
    have "a \<le> b" using runs_ordered [of a b xs] by (simp add: Cons)
    then have "[x..<b + 1] = x # [a..<b + 1]" if "a = x + 1" using that by (simp add: upt_conv_Cons)
    with Cons.IH show ?thesis by (auto simp: Cons)
  qed
qed simp

lemma str_of_nat_no_sep: "CHR ''-'' \<notin> set (str_of_nat n)" "CHR '','' \<notin> set (str_of_nat n)"
proof -
  have "is_digit c" if "c \<in> set (str_of_nat n)" for c
    using that by (auto dest!: str_of_nat_digits simp: digit_char_props)
  moreover have "\<not> is_digit CHR ''-''" "\<not> is_digit CHR '',''" by code_simp+
  ultimately show "CHR ''-'' \<notin> set (str_of_nat n)" "CHR '','' \<notin> set (str_of_nat n)" by blast+
qed

lemma int_of_str_of_nat: "int_of_str (str_of_nat n) = Some (int n)"
  using int_of_str_of_int [of "int n"] by (simp add: str_of_int_def)

lemma parse_show_run: "fst r \<le> snd r \<Longrightarrow> parse_run (show_run r) = Some [fst r..<snd r + 1]"
proof -
  assume "fst r \<le> snd r"
  have "split_on CHR ''-'' (str_of_nat a @ CHR ''-'' # str_of_nat b) = [str_of_nat a, str_of_nat b]" for a b
    using split_on_append [of "CHR ''-''" "str_of_nat b" "str_of_nat a"]
    by (simp add: str_of_nat_no_sep split_on_no_sep)
  then show ?thesis
    by (simp add: parse_run_def show_run_def int_of_str_of_nat split_on_no_sep str_of_nat_no_sep)
qed

lemma concat_options_Some: "concat_options (map (\<lambda>x. Some (f x)) xs) = Some (concat (map f xs))"
  by (induction xs) auto

text \<open>C12: reading the core list that is sent gives back the cores that were allocated.\<close>

theorem core_list_roundtrip: "parse_cores (get_integer_list_range xs) = Some xs"
proof (cases "xs = []")
  case True
  then show ?thesis by (simp add: parse_cores_def get_integer_list_range_def)
next
  case False
  have sep: "\<forall>w \<in> set (map show_run (runs xs)). CHR '','' \<notin> set w"
    by (auto simp: show_run_def str_of_nat_no_sep)
  have "get_integer_list_range xs \<noteq> []"
    using runs_nonempty [OF False]
    by (cases "runs xs" rule: remdups_adj.cases) (auto simp: get_integer_list_range_def show_run_def)
  moreover have "split_on CHR '','' (get_integer_list_range xs) = map show_run (runs xs)"
    unfolding get_integer_list_range_def by (rule split_on_join) (use sep runs_nonempty [OF False] in auto)
  moreover have "map parse_run (map show_run (runs xs)) = map (\<lambda>r. Some [fst r..<snd r + 1]) (runs xs)"
  proof -
    have "parse_run (show_run r) = Some [fst r..<snd r + 1]" if "r \<in> set (runs xs)" for r
      using runs_ordered [of "fst r" "snd r" xs] that by (intro parse_show_run) simp
    then show ?thesis by (simp only: map_map comp_def cong: map_cong)
  qed
  ultimately have "parse_cores (get_integer_list_range xs) = Some (concat (map (\<lambda>r. [fst r..<snd r + 1]) (runs xs)))"
    by (simp only: parse_cores_def if_False concat_options_Some)
  then show ?thesis using runs_expand [of xs] by (simp add: case_prod_beta')
qed

section \<open>What a new container is given\<close>

definition free_shares :: "core_mapping \<Rightarrow> nat \<Rightarrow> rat" where
  "free_shares m k = (case map_of m (str_of_nat k) of None \<Rightarrow> 0 | Some core \<Rightarrow> get_or core ''free'' 0)"

definition shares_of :: "core_mapping \<Rightarrow> string \<Rightarrow> nat \<Rightarrow> rat" where
  "shares_of m name k = (case map_of m (str_of_nat k) of None \<Rightarrow> 0 | Some core \<Rightarrow> get_or core name 0)"

text \<open>A core the container is not on yet, with between 0 and 100 free shares.\<close>

definition usable_core :: "string \<Rightarrow> core_mapping \<Rightarrow> nat \<Rightarrow> bool" where
  "usable_core name m k \<longleftrightarrow>
     (case map_of m (str_of_nat k) of
        None \<Rightarrow> False
      | Some core \<Rightarrow> map_of core name = None \<and>
          (case map_of core ''free'' of None \<Rightarrow> False | Some f \<Rightarrow> 0 \<le> f \<and> f \<le> 100))"

definition given :: "string \<Rightarrow> core_mapping \<Rightarrow> core_mapping \<Rightarrow> nat list \<Rightarrow> bool" where
  "given name m m' ks \<longleftrightarrow>
     (\<forall>k \<in> set ks. 0 \<le> shares_of m' name k \<and> 0 \<le> free_shares m' k \<and>
        free_shares m' k + shares_of m' name k = free_shares m k) \<and>
     (\<forall>k. k \<notin> set ks \<longrightarrow> map_of m' (str_of_nat k) = map_of m (str_of_nat k)) \<and>
     (\<forall>k other. other \<noteq> name \<and> other \<noteq> ''free'' \<longrightarrow> shares_of m' other k = shares_of m other k)"

lemma core_free_usable: "usable_core name m k \<Longrightarrow> core_free m k = Inr (free_shares m k)"
  by (auto simp: usable_core_def core_free_def free_shares_def item_def get_or_def split: option.splits)

lemma give_core_usable:
  assumes "usable_core name m k" "name \<noteq> ''free''"
  obtains m' where "give_core name k a m = Inr m'"
    "shares_of m' name k = a" "free_shares m' k = free_shares m k - a"
    "\<And>j. j \<noteq> k \<Longrightarrow> map_of m' (str_of_nat j) = map_of m (str_of_nat j)"
    "\<And>other j. other \<noteq> name \<Longrightarrow> other \<noteq> ''free'' \<Longrightarrow> shares_of m' other j = shares_of m other j"
proof -
  from assms(1) obtain core f where core: "map_of m (str_of_nat k) = Some core" "map_of core ''free'' = Some f"
    by (auto simp: usable_core_def split: option.splits)
  let ?m = "AList.update (str_of_nat k) (AList.update ''free'' (f - a) (AList.update name a core)) m"
  have "give_core name k a m = Inr ?m"
    using core assms(2) by (simp add: give_core_def item_def)
  moreover have "shares_of ?m name k = a" "free_shares ?m k = free_shares m k - a"
    using core assms(2) by (simp_all add: shares_of_def free_shares_def get_or_def)
  moreover have "\<And>j. j \<noteq> k \<Longrightarrow> map_of ?m (str_of_nat j) = map_of m (str_of_nat j)"
    by (simp add: str_of_nat_inj)
  moreover have "\<And>other j. other \<noteq> name \<Longrightarrow> other \<noteq> ''free'' \<Longrightarrow> shares_of ?m other j = shares_of m other j"
    using core by (auto simp: shares_of_def get_or_def)
  ultimately show thesis by (rule that)
qed

lemma untouched:
  "map_of m' (str_of_nat k) = map_of m (str_of_nat k) \<Longrightarrow>
   usable_core name m' k = usable_core name m k \<and> free_shares m' k = free_shares m k \<and>
   shares_of m' other k = shares_of m other k"
  by (simp add: usable_core_def free_shares_def shares_of_def)

lemma usable_no_share: "usable_core name m k \<Longrightarrow> shares_of m name k = 0 \<and> 0 \<le> free_shares m k \<and> free_shares m k \<le> 100"
  by (auto simp: usable_core_def shares_of_def free_shares_def get_or_def split: option.splits)

lemma given_refl: "\<forall>k \<in> set ks. usable_core name m k \<Longrightarrow> given name m m ks"
proof -
  assume "\<forall>k \<in> set ks. usable_core name m k"
  then have "shares_of m name k = 0 \<and> 0 \<le> free_shares m k" if "k \<in> set ks" for k
    using usable_no_share [of name m k] that by blast
  then show ?thesis by (simp add: given_def)
qed

lemma given_step:
  assumes "given name m1 m' ks" "k \<notin> set ks"
    and "shares_of m1 name k = a" "free_shares m1 k = free_shares m k - a" "0 \<le> a" "a \<le> free_shares m k"
    and "\<And>j. j \<noteq> k \<Longrightarrow> map_of m1 (str_of_nat j) = map_of m (str_of_nat j)"
    and "\<And>other j. other \<noteq> name \<Longrightarrow> other \<noteq> ''free'' \<Longrightarrow> shares_of m1 other j = shares_of m other j"
  shows "given name m m' (k # ks)"
proof -
  have k: "map_of m' (str_of_nat k) = map_of m1 (str_of_nat k)" using assms(1,2) by (simp add: given_def)
  have "free_shares m1 j = free_shares m j" if "j \<in> set ks" for j
    using untouched [OF assms(7)] assms(2) that by metis
  then show ?thesis
    using assms untouched [OF k] by (simp add: given_def)
qed

lemma allocate_spec:
  assumes "0 \<le> x" "distinct ks" "\<forall>k \<in> set ks. usable_core name m k" "name \<noteq> ''free''"
    and "ks \<noteq> [] \<Longrightarrow> free = free_shares m (hd ks)"
  shows "\<exists>m'. allocate_cores name x ks free m cores =
      Inr (max 0 (x - sum_list (map (free_shares m) ks)), m',
           cores @ filter (\<lambda>k. 0 < shares_of m' name k) ks) \<and>
    given name m m' ks \<and>
    sum_list (map (shares_of m' name) ks) = min x (sum_list (map (free_shares m) ks))"
  using assms
proof (induction ks arbitrary: x free m cores)
  case Nil
  then show ?case by (auto simp: given_refl)
next
  case (Cons k ks)
  have u: "usable_core name m k" "k \<notin> set ks" "free = free_shares m k" using Cons.prems by simp_all
  note f = usable_no_share [OF u(1)]
  have tail: "0 \<le> sum_list (map (free_shares m) ks)"
    by (rule sum_list_nonneg) (use Cons.prems usable_no_share in auto)
  show ?case
  proof (cases "x = 0")
    case True
    have "filter (\<lambda>k. 0 < shares_of m name k) (k # ks) = []" "map (shares_of m name) (k # ks) = map (\<lambda>_. 0) (k # ks)"
      using Cons.prems(3) usable_no_share by (auto simp: filter_empty_conv)
    then show ?thesis
      using True tail f given_refl [OF Cons.prems(3)] by (intro exI [of _ m]) (auto simp: map_replicate_const sum_list_replicate)
  next
    case False
    with Cons.prems(1) have x: "0 < x" by simp
    define a where "a = min free x"
    obtain m1 where m1: "give_core name k a m = Inr m1" "shares_of m1 name k = a"
      "free_shares m1 k = free_shares m k - a"
      "\<And>j. j \<noteq> k \<Longrightarrow> map_of m1 (str_of_nat j) = map_of m (str_of_nat j)"
      "\<And>other j. other \<noteq> name \<Longrightarrow> other \<noteq> ''free'' \<Longrightarrow> shares_of m1 other j = shares_of m other j"
      using give_core_usable [OF u(1) Cons.prems(4), of a] by blast
    have same: "usable_core name m1 j" "free_shares m1 j = free_shares m j" if "j \<in> set ks" for j
      using untouched [OF m1(4), of j name] u(2) that Cons.prems(3) by auto
    have frees: "map (free_shares m1) ks = map (free_shares m) ks" using same(2) by simp
    have nf: "next_free ks m1 free = Inr (if ks = [] then free else free_shares m1 (hd ks))"
      using core_free_usable [OF same(1)] by (cases ks) (simp_all add: next_free_def)
    obtain m' where m': "allocate_cores name (x - a) ks (if ks = [] then free else free_shares m1 (hd ks)) m1
          (if 0 < free then cores @ [k] else cores) =
        Inr (max 0 (x - a - sum_list (map (free_shares m) ks)), m',
             (if 0 < free then cores @ [k] else cores) @ filter (\<lambda>k. 0 < shares_of m' name k) ks)"
      "given name m1 m' ks"
      "sum_list (map (shares_of m' name) ks) = min (x - a) (sum_list (map (free_shares m) ks))"
      using Cons.IH [of "x - a" m1 "if ks = [] then free else free_shares m1 (hd ks)"
        "if 0 < free then cores @ [k] else cores"] Cons.prems same frees by (auto simp: a_def)
    have k': "shares_of m' name k = a"
      using m'(2) u(2) untouched [of m' k m1 name name] m1(2) by (simp add: given_def)
    have g: "given name m m' (k # ks)"
      by (rule given_step [OF m'(2) u(2) m1(2,3) _ _ m1(4,5)]) (use f u(3) x in \<open>auto simp: a_def\<close>)
    have pos: "0 < a \<longleftrightarrow> 0 < free" using x by (simp add: a_def)
    have stop: "allocate_cores name 0 js fr m1 cl = Inr (0, m1, cl)" for js fr cl by (cases js) simp_all
    have "allocate_cores name x (k # ks) free m cores =
        allocate_cores name (x - a) ks (if ks = [] then free else free_shares m1 (hd ks)) m1
          (if 0 < free then cores @ [k] else cores)"
    proof (cases "100 \<le> x")
      case True
      then have "a = free" using f u(3) by (simp add: a_def)
      then show ?thesis using True x m1(1) nf by (simp add: Let_def)
    next
      case False
      show ?thesis
      proof (cases "a = x")
        case True
        then show ?thesis using False x m1(1) by (simp add: Let_def a_def [symmetric] stop)
      next
        case neq: False
        then have "a = free" by (auto simp: a_def min_def split: if_splits)
        with neq show ?thesis using False x m1(1) nf by (simp add: Let_def a_def [symmetric])
      qed
    qed
    with m' have "allocate_cores name x (k # ks) free m cores =
        Inr (max 0 (x - sum_list (map (free_shares m) (k # ks))), m',
             cores @ filter (\<lambda>k. 0 < shares_of m' name k) (k # ks))"
      using k' pos tail f u(3) by (auto simp: a_def max_def min_def)
    moreover have "sum_list (map (shares_of m' name) (k # ks)) = min x (sum_list (map (free_shares m) (k # ks)))"
      using m'(3) k' tail f u(3) by (auto simp: a_def min_def)
    ultimately show ?thesis using g by blast
  qed
qed

text \<open>C5: a new container is given as many shares as it asks for, or all that are free if there are
  fewer; no core gives more than it has, what a core gives leaves its free shares, no other container
  loses anything, and the cores that are listed are exactly those that give something.\<close>

theorem new_container_cores:
  assumes "0 \<le> x" "\<forall>k < length m. usable_core name m k" "name \<noteq> ''free''" "m \<noteq> []"
  shows "\<exists>m' free. core_free m 0 = Inr free \<and>
    allocate_cores name x [0..<length m] free m [] =
      Inr (max 0 (x - sum_list (map (free_shares m) [0..<length m])), m',
           filter (\<lambda>k. 0 < shares_of m' name k) [0..<length m]) \<and>
    given name m m' [0..<length m] \<and>
    sum_list (map (shares_of m' name) [0..<length m]) = min x (sum_list (map (free_shares m) [0..<length m]))"
proof -
  have "core_free m 0 = Inr (free_shares m 0)" using assms core_free_usable by (cases m) auto
  then show ?thesis
    using allocate_spec [of x "[0..<length m]" name m "free_shares m 0" "[]"] assms by (auto simp: hd_upt)
qed

definition sample_mapping :: core_mapping where
  "sample_mapping = [(''0'', [(''free'', 30), (''a0'', 70)]), (''1'', [(''free'', 0), (''a0'', 100)]), (''2'', [(''free'', 100)])]"

theorem new_container_cores_witness:
  "\<exists>m' free. core_free sample_mapping 0 = Inr free \<and>
    allocate_cores ''a1'' 120 [0..<length sample_mapping] free sample_mapping [] =
      Inr (max 0 (120 - sum_list (map (free_shares sample_mapping) [0..<length sample_mapping])), m',
           filter (\<lambda>k. 0 < shares_of m' ''a1'' k) [0..<length sample_mapping]) \<and>
    given ''a1'' sample_mapping m' [0..<length sample_mapping] \<and>
    sum_list (map (shares_of m' ''a1'') [0..<length sample_mapping]) =
      min 120 (sum_list (map (free_shares sample_mapping) [0..<length sample_mapping]))"
proof (rule new_container_cores)
  have "\<forall>k \<in> set [0..<length sample_mapping]. usable_core ''a1'' sample_mapping k" by code_simp
  then show "\<forall>k < length sample_mapping. usable_core ''a1'' sample_mapping k" by simp
qed (simp_all add: sample_mapping_def)

section \<open>Whole runs\<close>

lemma init_containers_skip:
  assumes "\<forall>c \<in> set cs. \<exists>h. map_of c ''host'' = Some (JStr h) \<and> h \<noteq> host"
  shows "foldR (init_container db node_state resources new host) cs sent = Inr sent"
  using assms by (induction cs) (auto simp: init_container_def item_def)

lemma new_containers_total:
  assumes "\<forall>c \<in> set cs. \<exists>n. map_of c ''container_name'' = Some (JStr n)"
  shows "\<exists>new. new_containers_of db cs = Inr new"
proof -
  have "\<exists>new. foldR (\<lambda>c acc. rbind (rbind (item c ''container_name'') jstr) (\<lambda>name.
      Inr (if has_key (db_containers db) name then acc else acc @ [c]))) cs acc = Inr new" for acc
    using assms by (induction cs arbitrary: acc) (auto simp: item_def jstr_def)
  then show ?thesis by (simp add: new_containers_of_def)
qed

text \<open>The hosts come as one string, and the loop over it takes its characters for hosts: nothing is
  initialised on a host whose name has more than one character.\<close>

theorem hosts_taken_by_character:
  assumes "\<forall>c \<in> set containers. \<exists>n h. map_of c ''container_name'' = Some (JStr n) \<and>
    map_of c ''host'' = Some (JStr h) \<and> 1 < length h"
  shows "init_node_rescaler db node_state hosts containers resources = Inr []"
proof -
  obtain new where new: "new_containers_of db containers = Inr new"
    using new_containers_total [of containers db] assms by blast
  have skip: "foldR (init_container db node_state resources new [h]) containers [] = Inr []" for h
    using assms by (intro init_containers_skip) fastforce
  have "foldR (\<lambda>h. foldR (init_container db node_state resources new [h]) containers) hs [] = Inr []" for hs
    by (induction hs) (simp_all add: skip)
  then show ?thesis using new by (simp add: init_node_rescaler_def)
qed

definition rescaler_cont :: "string \<Rightarrow> string \<Rightarrow> obj" where
  "rescaler_cont host name =
     [(''container_name'', JStr name), (''host'', JStr host), (''cpu_max'', JNum 100), (''mem_max'', JNum 512)]"

definition not_initialised :: "string \<Rightarrow> json" where
  "not_initialised url = JObj [(''cpu'', JObj [(''cpu_allowance_limit'', JNum (- 1))]), (''mem'', JObj [(''mem_limit'', JNum (- 1))])]"

definition sample_database :: database where
  "sample_database = \<lparr>db_exists = True,
     db_hosts = [(''a'', Some [(''0'', [(''free'', 100)]), (''1'', [(''free'', 100)])])], db_containers = []\<rparr>"

theorem hosts_taken_by_character_witness:
  "init_node_rescaler sample_database not_initialised ''host0,host1''
     [rescaler_cont ''host0'' ''host0-cont0'', rescaler_cont ''host1'' ''host1-cont0''] [''cpu'', ''mem''] = Inr []"
  by (rule hosts_taken_by_character) (simp add: rescaler_cont_def)

text \<open>The mapping of a host is read again for every container and never written back, so two new
  containers of one host are given the same core although another one is free; without a mapping
  every container starts at core 0.\<close>

theorem new_containers_share_cores:
  "init_node_rescaler sample_database not_initialised ''a'' [rescaler_cont ''a'' ''a-cont0'', rescaler_cont ''a'' ''a-cont1''] [''cpu''] =
     Inr [(''http://a:8000/container/a-cont0'', [(''cpu'', JObj [(''cpu_allowance_limit'', JNum 100), (''cpu_num'', JStr ''0'')])]),
          (''http://a:8000/container/a-cont1'', [(''cpu'', JObj [(''cpu_allowance_limit'', JNum 100), (''cpu_num'', JStr ''0'')])])] \<and>
   init_node_rescaler (sample_database\<lparr>db_hosts := []\<rparr>) not_initialised ''a'' [rescaler_cont ''a'' ''a-cont0'', rescaler_cont ''a'' ''a-cont1''] [''cpu''] =
     Inr [(''http://a:8000/container/a-cont0'', [(''cpu'', JObj [(''cpu_allowance_limit'', JNum 100), (''cpu_num'', JStr ''0'')])]),
          (''http://a:8000/container/a-cont1'', [(''cpu'', JObj [(''cpu_allowance_limit'', JNum 100), (''cpu_num'', JStr ''0'')])])]"
  by (rule conjI; code_simp)

end
