(* ===== verification/DiskAtop.thy ===== *)
theory DiskAtop
  imports Json
begin

text \<open>
  The disk monitor \<open>services/disk_atop/DiskAtop.py\<close>: it reads the cumulative I/O counters of the
  cgroups of the Apptainer instances and emits rates between two snapshots.

  What the operating system answers is an argument: \<open>read\<close> gives the lines of a file, or nothing when
  opening it raises \<open>OSError\<close>; \<open>glob\<close> the paths matching a pattern; \<open>block_devices\<close> the names
  of \<open>/sys/block\<close> with the contents of their \<open>dev\<close> file; \<open>loads\<close> is \<open>json.loads\<close>, and \<open>show\<close> is
  \<open>str\<close> of a JSON value that is no string.  Rates are exact rationals before they are rounded.
\<close>

section \<open>Fields of a line\<close>

text \<open>\<open>s.split()\<close>, \<open>s.partition(c)\<close> and \<open>round(x, k)\<close>.\<close>

definition py_split :: "string \<Rightarrow> string list" where
  "py_split s = filter (\<lambda>w. w \<noteq> []) (split_on CHR '' '' (map (\<lambda>c. if is_space c then CHR '' '' else c) s))"

definition partition_at :: "char \<Rightarrow> string \<Rightarrow> string \<times> string" where
  "partition_at c s = (takeWhile (\<lambda>x. x \<noteq> c) s, tl (dropWhile (\<lambda>x. x \<noteq> c) s))"

definition round_digits :: "nat \<Rightarrow> rat \<Rightarrow> rat" where
  "round_digits k x = of_int (py_round (x * 10 ^ k)) / 10 ^ k"

definition field :: "string \<Rightarrow> nat \<Rightarrow> string result" where
  "field line i = (let ws = py_split (strip line) in if i < length ws then Inr (ws ! i) else Inl IndexError)"

section \<open>Instances and their cgroups\<close>

datatype command_result =
    NotRun                     \<comment> \<open>timed out, or could not be started\<close>
  | Exited int string          \<comment> \<open>return code and standard output\<close>

definition find_apptainer_bin ::
  "(string \<Rightarrow> bool) \<Rightarrow> (string \<Rightarrow> string option) \<Rightarrow> string option \<Rightarrow> string result" where
  "find_apptainer_bin isfile which override =
     (case override of
        Some (c # cs) \<Rightarrow> if isfile (c # cs) then Inr (c # cs)
          else Inl (PyException ''Specified apptainer binary not found'')
      | _ \<Rightarrow> (case List.find (\<lambda>p. p \<noteq> None \<and> p \<noteq> Some []) [which ''apptainer'', which ''singularity''] of
          Some (Some path) \<Rightarrow> Inr path
        | _ \<Rightarrow> Inl (PyException ''Neither apptainer nor singularity found on PATH'')))"

text \<open>\<open>for entry in data.get("instances") or []\<close>: what a JSON value iterates over.\<close>

definition iterate :: "json \<Rightarrow> json list result" where
  "iterate v = (case v of
     JArr xs \<Rightarrow> Inr xs
   | JObj d \<Rightarrow> Inr (map (\<lambda>p. JStr (fst p)) d)
   | JStr s \<Rightarrow> Inr (map (\<lambda>c. JStr [c]) s)
   | _ \<Rightarrow> Inl (TypeError ''not iterable''))"

definition py_str :: "(json \<Rightarrow> string) \<Rightarrow> json \<Rightarrow> string" where
  "py_str show v = (case v of JStr s \<Rightarrow> s | _ \<Rightarrow> show v)"

definition instance_entry :: "(json \<Rightarrow> string) \<Rightarrow> json \<Rightarrow> (int \<times> string) result" where
  "instance_entry show entry =
     rbind (rbind (jitem entry ''pid'') jint) (\<lambda>pid.
     rbind (jitem entry ''instance'') (\<lambda>name. Inr (pid, py_str show name)))"

text \<open>An entry that raises is malformed and skipped.\<close>

definition add_instance :: "(json \<Rightarrow> string) \<Rightarrow> (int \<times> string) list \<Rightarrow> json \<Rightarrow> (int \<times> string) list" where
  "add_instance show pids entry =
     (case instance_entry show entry of Inl _ \<Rightarrow> pids | Inr (pid, name) \<Rightarrow> AList.update pid name pids)"

definition get_pid_to_instance ::
  "(json \<Rightarrow> string) \<Rightarrow> (string \<Rightarrow> json option) \<Rightarrow> command_result \<Rightarrow> (int \<times> string) list result" where
  "get_pid_to_instance show loads listing =
     (case listing of
        NotRun \<Rightarrow> Inr []
      | Exited code out \<Rightarrow>
          if code \<noteq> 0 then Inr []
          else (case loads out of
              None \<Rightarrow> Inr []
            | Some (JObj data) \<Rightarrow>
                (let v = get_or data ''instances'' JNull
                 in rbind (if jtruthy v then iterate v else Inr []) (\<lambda>entries.
                      Inr (foldl (add_instance show) [] entries)))
            | Some _ \<Rightarrow> Inl (AttributeError ''get'')))"

definition pid_from_scope :: "string \<Rightarrow> int option" where
  "pid_from_scope scope_path =
     (let b = basename scope_path; name = take (length b - 6) b
      in if starts_with ''apptainer-'' name then int_of_str (drop 10 name) else None)"

definition CGROUP_PATTERN :: string where
  "CGROUP_PATTERN = ''apptainer-*.scope''"

definition discover_scope ::
  "(int \<times> string) list \<Rightarrow> string dict \<Rightarrow> string \<Rightarrow> string dict" where
  "discover_scope pid_to_instance found scope_path =
     (case pid_from_scope scope_path of
        None \<Rightarrow> found
      | Some pid \<Rightarrow> (case map_of pid_to_instance pid of
            None \<Rightarrow> found
          | Some name \<Rightarrow> AList.update scope_path name found))"

definition discover_containers ::
  "(string \<Rightarrow> string list) \<Rightarrow> (int \<times> string) list \<Rightarrow> string \<Rightarrow> string dict" where
  "discover_containers glob pid_to_instance CGROUPS_BASE =
     foldl (discover_scope pid_to_instance) [] (sort (glob (CGROUPS_BASE @ ''/'' @ CGROUP_PATTERN)))"

section \<open>Counters\<close>

type_synonym stats = "int dict"
type_synonym snapshot = "stats dict dict"

text \<open>\<open>zip(*[fh] * 6)\<close>: the lines in groups of six, an incomplete last group dropped.\<close>

function groups_of_six :: "'a list \<Rightarrow> 'a list list" where
  "groups_of_six xs = (if length xs < 6 then [] else take 6 xs # groups_of_six (drop 6 xs))"
  by pat_completeness auto
termination
  by (relation "measure length") auto

declare groups_of_six.simps [simp del]

definition third_int :: "string \<Rightarrow> int result" where
  "third_int line = rbind (field line 2) int_str"

definition v1_bytes :: "string list \<Rightarrow> stats dict \<Rightarrow> stats dict result" where
  "v1_bytes device_stats acc =
     rbind (field (device_stats ! 0) 0) (\<lambda>major_minor.
     rbind (third_int (device_stats ! 0)) (\<lambda>r. rbind (third_int (device_stats ! 1)) (\<lambda>w.
       Inr (AList.update major_minor [(''rbytes'', r), (''wbytes'', w)] acc))))"

definition v1_iops :: "string list \<Rightarrow> stats dict \<Rightarrow> stats dict result" where
  "v1_iops device_stats acc =
     rbind (field (device_stats ! 0) 0) (\<lambda>major_minor.
     rbind (third_int (device_stats ! 0)) (\<lambda>r. rbind (item acc major_minor) (\<lambda>d.
     rbind (third_int (device_stats ! 1)) (\<lambda>w.
       Inr (AList.update major_minor (AList.update ''wios'' w (AList.update ''rios'' r d)) acc)))))"

definition read_v1_io_stats :: "(string \<Rightarrow> string list option) \<Rightarrow> string \<Rightarrow> stats dict result" where
  "read_v1_io_stats read scope_path =
     (case read (scope_path @ ''/blkio.throttle.io_service_bytes_recursive'') of
        None \<Rightarrow> Inr []
      | Some bytes_lines \<Rightarrow>
          rbind (foldR v1_bytes (groups_of_six bytes_lines) []) (\<lambda>acc.
          case read (scope_path @ ''/blkio.throttle.io_serviced_recursive'') of
            None \<Rightarrow> Inr acc
          | Some iops_lines \<Rightarrow> foldR v1_iops (groups_of_six iops_lines) acc))"

definition v2_token :: "stats \<Rightarrow> string \<Rightarrow> stats" where
  "v2_token st token =
     (if CHR ''='' \<in> set token
      then (case partition_at CHR ''='' token of (key, raw_val) \<Rightarrow>
             (case int_of_str raw_val of Some n \<Rightarrow> AList.update key n st | None \<Rightarrow> st))
      else st)"

definition v2_line :: "stats dict \<Rightarrow> string \<Rightarrow> stats dict" where
  "v2_line acc line =
     (case py_split (strip line) of
        [] \<Rightarrow> acc
      | major_minor # tokens \<Rightarrow> AList.update major_minor (foldl v2_token [] tokens) acc)"

definition read_v2_io_stats :: "(string \<Rightarrow> string list option) \<Rightarrow> string \<Rightarrow> stats dict" where
  "read_v2_io_stats read scope_path =
     (case read (scope_path @ ''/io.stat'') of None \<Rightarrow> [] | Some lines \<Rightarrow> foldl v2_line [] lines)"

section \<open>Snapshots and rates\<close>

definition snapshot_scope ::
  "(string \<Rightarrow> string list option) \<Rightarrow> string \<Rightarrow> string \<Rightarrow> snapshot \<Rightarrow> snapshot result" where
  "snapshot_scope read cgroups_version scope_path snap =
     rbind (if cgroups_version = ''v1'' then read_v1_io_stats read scope_path
            else Inr (read_v2_io_stats read scope_path)) (\<lambda>io_stats.
     Inr (if io_stats \<noteq> [] then AList.update scope_path io_stats snap else snap))"

definition take_snapshot ::
  "(string \<Rightarrow> string list) \<Rightarrow> (string \<Rightarrow> string list option) \<Rightarrow> (int \<times> string) list \<Rightarrow> string \<Rightarrow> string \<Rightarrow>
   (snapshot \<times> string dict) result" where
  "take_snapshot glob read pid_to_instance cgroups_version CGROUPS_BASE =
     (let scope_to_name = discover_containers glob pid_to_instance CGROUPS_BASE
      in rbind (foldR (snapshot_scope read cgroups_version) (keys_of scope_to_name) []) (\<lambda>snap.
           Inr (snap, scope_to_name)))"

text \<open>The cache of device names is filled when it is empty; unreadable devices are left out.\<close>

definition fill_cache :: "(string \<times> string option) list \<Rightarrow> string dict" where
  "fill_cache block_devices =
     foldl (\<lambda>cache (name, content). case content of
              None \<Rightarrow> cache | Some mm \<Rightarrow> AList.update (strip mm) name cache) [] block_devices"

definition resolve_device_name ::
  "(string \<times> string option) list \<Rightarrow> string dict \<Rightarrow> string \<Rightarrow> string dict \<times> string" where
  "resolve_device_name block_devices cache major_minor =
     (let cache' = (if cache = [] then fill_cache block_devices else cache)
      in (cache', get_or cache' major_minor major_minor))"

record metric =
  m_metric :: string
  m_timestamp :: int
  m_value :: rat
  m_host :: string
  m_disk :: string

definition counter_delta :: "stats \<Rightarrow> stats \<Rightarrow> string \<Rightarrow> int" where
  "counter_delta curr_stats prev_stats key = max (get_or curr_stats key 0 - get_or prev_stats key 0) 0"

definition rate :: "nat \<Rightarrow> rat \<Rightarrow> rat \<Rightarrow> int \<Rightarrow> rat result" where
  "rate digits elapsed unit d = rbind (py_div (of_int d) elapsed) (\<lambda>x. Inr (round_digits digits (x / unit)))"

definition device_records ::
  "int \<Rightarrow> rat \<Rightarrow> string \<Rightarrow> string \<Rightarrow> stats \<Rightarrow> stats \<Rightarrow> metric list result" where
  "device_records timestamp elapsed instance_name disk curr_stats prev_stats =
     (let metric = (\<lambda>name v. \<lparr>m_metric = name, m_timestamp = timestamp, m_value = v,
                              m_host = instance_name, m_disk = disk\<rparr>);
          d = counter_delta curr_stats prev_stats
      in rbind (rate 3 elapsed 1 (d ''rios'')) (\<lambda>read_iops.
         rbind (rate 3 elapsed 1 (d ''wios'')) (\<lambda>write_iops.
         rbind (rate 6 elapsed (1024 ^ 2) (d ''rbytes'')) (\<lambda>read_mibs.
         rbind (rate 6 elapsed (1024 ^ 2) (d ''wbytes'')) (\<lambda>write_mibs.
         Inr [metric ''sys.disk.read.ios'' read_iops, metric ''sys.disk.read.mb'' read_mibs,
              metric ''sys.disk.write.ios'' write_iops, metric ''sys.disk.write.mb'' write_mibs])))))"

definition device_step ::
  "(string \<times> string option) list \<Rightarrow> int \<Rightarrow> rat \<Rightarrow> string \<Rightarrow> stats dict \<Rightarrow> string \<times> stats \<Rightarrow>
   metric list \<times> string dict \<Rightarrow> (metric list \<times> string dict) result" where
  "device_step block_devices timestamp elapsed instance_name prev_devices p st =
     (case map_of prev_devices (fst p) of
        None \<Rightarrow> Inr st
      | Some prev_stats \<Rightarrow>
          (case resolve_device_name block_devices (snd st) (fst p) of (cache, disk) \<Rightarrow>
           rbind (device_records timestamp elapsed instance_name disk (snd p) prev_stats) (\<lambda>rs.
             Inr (fst st @ rs, cache))))"

definition scope_step ::
  "(string \<times> string option) list \<Rightarrow> int \<Rightarrow> rat \<Rightarrow> snapshot \<Rightarrow> string dict \<Rightarrow> string \<times> stats dict \<Rightarrow>
   metric list \<times> string dict \<Rightarrow> (metric list \<times> string dict) result" where
  "scope_step block_devices timestamp elapsed prev scope_to_name p st =
     (case map_of prev (fst p) of
        None \<Rightarrow> Inr st
      | Some prev_devices \<Rightarrow>
          foldR (device_step block_devices timestamp elapsed
                   (get_or scope_to_name (fst p) (basename (fst p))) prev_devices) (snd p) st)"

definition compute_deltas ::
  "(string \<times> string option) list \<Rightarrow> string dict \<Rightarrow> rat \<Rightarrow> snapshot \<Rightarrow> snapshot \<Rightarrow> string dict \<Rightarrow> rat \<Rightarrow>
   (metric list \<times> string dict) result" where
  "compute_deltas block_devices cache now prev cur scope_to_name elapsed =
     foldR (scope_step block_devices (py_int now) elapsed prev scope_to_name) cur ([], cache)"

datatype emission = Line metric | Array "metric list"

definition emit :: "metric list \<Rightarrow> string \<Rightarrow> emission list" where
  "emit records output_format =
     (if records = [] then [] else if output_format = ''json'' then [Array records] else map Line records)"

section \<open>The main loop\<close>

record options =
  op_interval :: rat
  op_cgroups_version :: string
  op_output :: string
  op_apptainer_bin :: "string option"

text \<open>What the monitor sees in one cycle.\<close>

record observation =
  ob_listing :: command_result
  ob_glob :: "string \<Rightarrow> string list"
  ob_read :: "string \<Rightarrow> string list option"
  ob_block :: "(string \<times> string option) list"
  ob_monotonic :: rat
  ob_clock :: rat

record monitor =
  mon_snapshot :: snapshot
  mon_time :: rat
  mon_cache :: "string dict"

definition cgroups_base :: "options \<Rightarrow> string result" where
  "cgroups_base args =
     (if op_interval args \<le> 0 then Inl (PyException ''--interval must be a positive number'')
      else if op_cgroups_version args = ''v1'' then Inr ''/sys/fs/cgroup/blkio/system.slice''
      else if op_cgroups_version args = ''v2'' then Inr ''/sys/fs/cgroup/system.slice''
      else Inl (PyException ''--cgroups_version must be v1 or v2''))"

definition observe ::
  "(json \<Rightarrow> string) \<Rightarrow> (string \<Rightarrow> json option) \<Rightarrow> options \<Rightarrow> string \<Rightarrow> observation \<Rightarrow>
   (snapshot \<times> string dict) result" where
  "observe show loads args base ob =
     rbind (get_pid_to_instance show loads (ob_listing ob)) (\<lambda>pids.
     take_snapshot (ob_glob ob) (ob_read ob) pids (op_cgroups_version args) base)"

definition monitor_start ::
  "(json \<Rightarrow> string) \<Rightarrow> (string \<Rightarrow> json option) \<Rightarrow> options \<Rightarrow> string \<Rightarrow> observation \<Rightarrow> monitor result" where
  "monitor_start show loads args base ob =
     rbind (observe show loads args base ob) (\<lambda>(snap, names).
     Inr \<lparr>mon_snapshot = snap, mon_time = ob_monotonic ob, mon_cache = []\<rparr>)"

definition monitor_cycle ::
  "(json \<Rightarrow> string) \<Rightarrow> (string \<Rightarrow> json option) \<Rightarrow> options \<Rightarrow> string \<Rightarrow> observation \<Rightarrow>
   monitor \<times> emission list \<Rightarrow> (monitor \<times> emission list) result" where
  "monitor_cycle show loads args base ob s =
     (case s of (mon, out) \<Rightarrow>
      rbind (observe show loads args base ob) (\<lambda>(cur, names).
      rbind (compute_deltas (ob_block ob) (mon_cache mon) (ob_clock ob) (mon_snapshot mon) cur names
               (ob_monotonic ob - mon_time mon)) (\<lambda>(records, cache).
      Inr (\<lparr>mon_snapshot = cur, mon_time = ob_monotonic ob, mon_cache = cache\<rparr>,
           out @ emit records (op_output args)))))"

text \<open>The endless loop, for as many cycles as there are observations.\<close>

definition run_monitor ::
  "(json \<Rightarrow> string) \<Rightarrow> (string \<Rightarrow> json option) \<Rightarrow> (string \<Rightarrow> bool) \<Rightarrow> (string \<Rightarrow> string option) \<Rightarrow> options \<Rightarrow>
   observation \<Rightarrow> observation list \<Rightarrow> (monitor \<times> emission list) result" where
  "run_monitor show loads isfile which args first obs =
     rbind (cgroups_base args) (\<lambda>base.
     rbind (find_apptainer_bin isfile which (op_apptainer_bin args)) (\<lambda>bin.
     rbind (monitor_start show loads args base first) (\<lambda>mon.
     foldR (monitor_cycle show loads args base) obs (mon, []))))"

section \<open>Rates\<close>

lemma round_digits_dist: "\<bar>round_digits k x - x\<bar> \<le> 1 / (2 * 10 ^ k)"
proof -
  have "\<bar>of_int (py_round (x * 10 ^ k)) - x * 10 ^ k\<bar> \<le> 1/2" by (rule py_round_dist)
  moreover have "\<bar>round_digits k x - x\<bar> * 10 ^ k = \<bar>of_int (py_round (x * 10 ^ k)) - x * 10 ^ k\<bar>"
  proof -
    have "\<bar>round_digits k x - x\<bar> * 10 ^ k = \<bar>(round_digits k x - x) * 10 ^ k\<bar>" by (simp add: abs_mult)
    also have "(round_digits k x - x) * 10 ^ k = of_int (py_round (x * 10 ^ k)) - x * 10 ^ k"
      by (simp add: round_digits_def left_diff_distrib)
    finally show ?thesis .
  qed
  ultimately have "\<bar>round_digits k x - x\<bar> * 10 ^ k \<le> 1/2" by simp
  then show ?thesis by (simp add: field_simps)
qed

lemma round_digits_nonneg: "0 \<le> x \<Longrightarrow> 0 \<le> round_digits k x"
  using py_round_mono_ge [of 0 "x * 10 ^ k"] by (simp add: round_digits_def)

lemma rate_eq: "rate k e u d = Inr v \<longleftrightarrow> e \<noteq> 0 \<and> v = round_digits k (of_int d / e / u)"
  by (auto simp: rate_def py_div_def)

lemma counter_delta_nonneg: "0 \<le> counter_delta c p key"
  by (simp add: counter_delta_def)

text \<open>The digits, the unit and the counter of each metric.\<close>

definition metric_table :: "(string \<times> nat \<times> rat \<times> string) list" where
  "metric_table =
     [(''sys.disk.read.ios'', 3, 1, ''rios''), (''sys.disk.read.mb'', 6, 1024 ^ 2, ''rbytes''),
      (''sys.disk.write.ios'', 3, 1, ''wios''), (''sys.disk.write.mb'', 6, 1024 ^ 2, ''wbytes'')]"

lemma device_records_eq:
  "device_records ts e inst disk c p = Inr rs \<longleftrightarrow> e \<noteq> 0 \<and>
     rs = map (\<lambda>(name, digits, unit, key).
       \<lparr>m_metric = name, m_timestamp = ts, m_value = round_digits digits (of_int (counter_delta c p key) / e / unit),
        m_host = inst, m_disk = disk\<rparr>) metric_table"
  by (auto simp: device_records_def Let_def rate_def py_div_def metric_table_def)

text \<open>A metric reports a container and a device that are in both snapshots.\<close>

definition reports ::
  "snapshot \<Rightarrow> snapshot \<Rightarrow> string dict \<Rightarrow> rat \<Rightarrow> metric \<Rightarrow> bool" where
  "reports prev cur scope_to_name elapsed m \<longleftrightarrow>
     (\<exists>(scope, devices) \<in> set cur. \<exists>(mm, c) \<in> set devices. \<exists>(name, digits, unit, key) \<in> set metric_table.
        m_metric m = name \<and> m_host m = get_or scope_to_name scope (basename scope) \<and>
        (case map_of prev scope of None \<Rightarrow> False | Some prev_devices \<Rightarrow>
          (case map_of prev_devices mm of None \<Rightarrow> False | Some p \<Rightarrow>
            \<bar>m_value m - of_int (counter_delta c p key) / elapsed / unit\<bar> \<le> 1 / (2 * 10 ^ digits))))"

definition sound_metric :: "snapshot \<Rightarrow> snapshot \<Rightarrow> string dict \<Rightarrow> rat \<Rightarrow> metric \<Rightarrow> bool" where
  "sound_metric prev cur scope_to_name elapsed m \<longleftrightarrow>
     0 \<le> m_value m \<and> reports prev cur scope_to_name elapsed m"

lemma device_records_sound:
  assumes "device_records ts e (get_or names scope (basename scope)) disk c p = Inr rs" "0 < e"
    and "(scope, devices) \<in> set cur" "(mm, c) \<in> set devices"
    and "map_of prev scope = Some prev_devices" "map_of prev_devices mm = Some p" "m \<in> set rs"
  shows "sound_metric prev cur names e m"
proof -
  from assms(1,7) obtain name digits unit key where t: "(name, digits, unit, key) \<in> set metric_table"
    and m: "m = \<lparr>m_metric = name, m_timestamp = ts,
      m_value = round_digits digits (of_int (counter_delta c p key) / e / unit),
      m_host = get_or names scope (basename scope), m_disk = disk\<rparr>"
    by (auto simp: device_records_eq)
  from t have "0 < unit" by (auto simp: metric_table_def)
  then have "0 \<le> m_value m"
    using assms(2) counter_delta_nonneg [of c p key] by (simp add: m round_digits_nonneg)
  moreover have "reports prev cur names e m"
    unfolding reports_def
    by (rule bexI [OF _ assms(3)], simp only: prod.case, rule bexI [OF _ assms(4)], simp only: prod.case,
        rule bexI [OF _ t]) (simp add: m assms(5,6) round_digits_dist)
  ultimately show ?thesis by (simp add: sound_metric_def)
qed

text \<open>C6: every record of \<open>compute_deltas\<close> is a non-negative rate of a device and a container that are
  in both snapshots, within half of its last digit of the growth of the counter by elapsed time; a
  counter that went backwards counts as no growth.\<close>

theorem disk_rates_correct:
  assumes "compute_deltas block cache now prev cur names elapsed = Inr (records, cache')" "0 < elapsed"
    and "m \<in> set records"
  shows "sound_metric prev cur names elapsed m"
proof -
  let ?I = "\<lambda>st :: metric list \<times> string dict. \<forall>m \<in> set (fst st). sound_metric prev cur names elapsed m"
  have step: "?I t" if "q \<in> set cur" "?I s" "scope_step block (py_int now) elapsed prev names q s = Inr t" for q s t
  proof (cases "map_of prev (fst q)")
    case None
    with that show ?thesis by (simp add: scope_step_def)
  next
    case (Some prev_devices)
    with that(3) have f: "foldR (device_step block (py_int now) elapsed
        (get_or names (fst q) (basename (fst q))) prev_devices) (snd q) s = Inr t"
      by (simp add: scope_step_def)
    show ?thesis
    proof (rule foldR_invariant [OF f, of ?I])
      show "?I s" by (rule that(2))
      fix d u v
      assume d: "d \<in> set (snd q)" and u: "?I u"
        and v: "device_step block (py_int now) elapsed (get_or names (fst q) (basename (fst q))) prev_devices d u = Inr v"
      show "?I v"
      proof (cases "map_of prev_devices (fst d)")
        case None
        with u v show ?thesis by (simp add: device_step_def)
      next
        case (Some p)
        with v obtain cch disk rs where rs: "device_records (py_int now) elapsed
            (get_or names (fst q) (basename (fst q))) disk (snd d) p = Inr rs" and eq: "v = (fst u @ rs, cch)"
          by (auto simp: device_step_def elim!: rbindE split: prod.splits)
        have q: "(fst q, snd q) \<in> set cur" "(fst d, snd d) \<in> set (snd q)" using that(1) d by simp_all
        have "\<forall>m \<in> set rs. sound_metric prev cur names elapsed m"
          using device_records_sound [OF rs assms(2) q \<open>map_of prev (fst q) = Some prev_devices\<close> Some] by blast
        with u eq show ?thesis by auto
      qed
    qed
  qed
  have "?I (records, cache')"
    by (rule foldR_invariant [OF assms(1) [unfolded compute_deltas_def], of ?I]) (use step in auto)
  with assms(3) show ?thesis by simp
qed

definition sample_snapshot :: "int \<Rightarrow> snapshot" where
  "sample_snapshot n = [(''/sys/fs/cgroup/system.slice/apptainer-42.scope'',
     [(''8:0'', [(''rbytes'', n * 1048576), (''wbytes'', 0), (''rios'', 10 * n), (''wios'', 7)])])]"

definition sample_metric :: metric where
  "sample_metric = \<lparr>m_metric = ''sys.disk.read.ios'', m_timestamp = 100, m_value = 2, m_host = ''cont0'', m_disk = ''sda''\<rparr>"

theorem disk_rates_correct_witness:
  "sound_metric (sample_snapshot 3) (sample_snapshot 4)
     [(''/sys/fs/cgroup/system.slice/apptainer-42.scope'', ''cont0'')] 5 sample_metric"
proof (rule disk_rates_correct)
  let ?r = "compute_deltas [(''sda'', Some ''8:0'')] [] 100 (sample_snapshot 3) (sample_snapshot 4)
     [(''/sys/fs/cgroup/system.slice/apptainer-42.scope'', ''cont0'')] 5"
  have "(case ?r of Inr x \<Rightarrow> sample_metric \<in> set (fst x) | _ \<Rightarrow> False)" by code_simp
  then obtain x where x: "?r = Inr x" "sample_metric \<in> set (fst x)" by (cases ?r) auto
  then show "?r = Inr (fst (projr ?r), snd (projr ?r))" by simp
  show "(0 :: rat) < 5" by simp
  show "sample_metric \<in> set (fst (projr ?r))" using x by simp
qed

fun counted :: "(rat \<times> int) list \<Rightarrow> rat result" where
  "counted ((t, c) # (t', c') # rest) =
     rbind (rate 3 (t' - t) 1 (max (c' - c) 0)) (\<lambda>v. rbind (counted ((t', c') # rest)) (\<lambda>sum. Inr (v * (t' - t) + sum)))"
| "counted _ = Inr 0"

text \<open>The rates of consecutive readings of a counter that never decreases add up to its growth, with
  an error of at most half a thousandth per second.\<close>

theorem iops_add_up:
  assumes "sorted_wrt (\<lambda>a b. fst a < fst b \<and> snd a \<le> snd b) (x # xs)"
  shows "\<exists>total. counted (x # xs) = Inr total \<and>
    \<bar>total - of_int (snd (last (x # xs)) - snd x)\<bar> \<le> (fst (last (x # xs)) - fst x) / 2000"
  using assms
proof (induction xs arbitrary: x)
  case Nil
  then show ?case by (cases x) simp
next
  case (Cons y ys)
  obtain t c t' c' where xy: "x = (t, c)" "y = (t', c')" by (cases x, cases y)
  from Cons.prems have lt: "t < t'" "c \<le> c'" by (simp_all add: xy)
  from Cons.prems have "sorted_wrt (\<lambda>a b. fst a < fst b \<and> snd a \<le> snd b) (y # ys)" by simp
  from Cons.IH [OF this] obtain total where IH: "counted (y # ys) = Inr total"
    "\<bar>total - of_int (snd (last (y # ys)) - c')\<bar> \<le> (fst (last (y # ys)) - t') / 2000"
    by (auto simp: xy)
  define v where "v = round_digits 3 (of_int (c' - c) / (t' - t))"
  have "\<bar>v - of_int (c' - c) / (t' - t)\<bar> \<le> 1 / 2000"
    using round_digits_dist [of 3 "of_int (c' - c) / (t' - t)"] by (simp add: v_def)
  then have "\<bar>v - of_int (c' - c) / (t' - t)\<bar> * (t' - t) \<le> (t' - t) / 2000"
    using lt mult_right_mono [of "\<bar>v - of_int (c' - c) / (t' - t)\<bar>" "1 / 2000" "t' - t"] by simp
  moreover have "\<bar>v - of_int (c' - c) / (t' - t)\<bar> * (t' - t) = \<bar>v * (t' - t) - of_int (c' - c)\<bar>"
  proof -
    have "\<bar>v - of_int (c' - c) / (t' - t)\<bar> * (t' - t) = \<bar>(v - of_int (c' - c) / (t' - t)) * (t' - t)\<bar>"
      using lt by (simp add: abs_mult)
    also have "(v - of_int (c' - c) / (t' - t)) * (t' - t) = v * (t' - t) - of_int (c' - c)"
      using lt by (simp only: left_diff_distrib) simp
    finally show ?thesis .
  qed
  ultimately have v: "\<bar>v * (t' - t) - of_int (c' - c)\<bar> \<le> (t' - t) / 2000" by simp
  have "rate 3 (t' - t) 1 (max (c' - c) 0) = Inr v" using lt by (simp add: rate_eq v_def)
  then have total: "counted (x # y # ys) = Inr (v * (t' - t) + total)" using IH(1) by (simp add: xy)
  have "\<bar>v * (t' - t) + total - of_int (snd (last (y # ys)) - c)\<bar> \<le>
      \<bar>v * (t' - t) - of_int (c' - c)\<bar> + \<bar>total - of_int (snd (last (y # ys)) - c')\<bar>"
    by (simp add: abs_le_iff) linarith
  also have "\<dots> \<le> (t' - t) / 2000 + (fst (last (y # ys)) - t') / 2000" using v IH(2) by (rule add_mono)
  also have "\<dots> = (fst (last (y # ys)) - t) / 2000" by (simp add: field_simps)
  finally show ?case using total by (simp add: xy)
qed

theorem iops_add_up_witness:
  "\<exists>total. counted [(0, 0), (3, 10), (6, 11)] = Inr total \<and>
    \<bar>total - of_int (snd (last [(0 :: rat, 0 :: int), (3, 10), (6, 11)]) - snd (0 :: rat, 0 :: int))\<bar> \<le>
      (fst (last [(0 :: rat, 0 :: int), (3, 10), (6, 11)]) - fst (0 :: rat, 0 :: int)) / 2000"
  by (rule iops_add_up) simp

section \<open>The two formats\<close>

text \<open>
  What the kernel counts for one device: bytes and operations that were read, written and discarded, how
  many of them were synchronous and asynchronous (cgroups v1), and whatever further keys the line of the
  device in \<open>io.stat\<close> has (the \<open>...\<close> of the comment of \<open>read_v2_io_stats\<close>; the values need not be numbers).
\<close>

record device =
  dv_name :: string
  dv_rbytes :: int
  dv_wbytes :: int
  dv_rios :: int
  dv_wios :: int
  dv_dbytes :: int
  dv_dios :: int
  dv_sync_bytes :: int
  dv_async_bytes :: int
  dv_sync_ios :: int
  dv_async_ios :: int
  dv_extra :: "(string \<times> string) list"

definition newline :: char where
  "newline = CHR 10"

definition v1_file_line :: "string \<Rightarrow> string \<Rightarrow> int \<Rightarrow> string" where
  "v1_file_line mm label n = join '' '' [mm, label, str_of_int n] @ [newline]"

definition v1_group :: "string \<Rightarrow> int \<Rightarrow> int \<Rightarrow> int \<Rightarrow> int \<Rightarrow> int \<Rightarrow> string list" where
  "v1_group mm r w sync async discard =
     [v1_file_line mm ''Read'' r, v1_file_line mm ''Write'' w, v1_file_line mm ''Sync'' sync,
      v1_file_line mm ''Async'' async, v1_file_line mm ''Discard'' discard, v1_file_line mm ''Total'' (r + w + discard)]"

definition bytes_group :: "device \<Rightarrow> string list" where
  "bytes_group d = v1_group (dv_name d) (dv_rbytes d) (dv_wbytes d) (dv_sync_bytes d) (dv_async_bytes d) (dv_dbytes d)"

definition iops_group :: "device \<Rightarrow> string list" where
  "iops_group d = v1_group (dv_name d) (dv_rios d) (dv_wios d) (dv_sync_ios d) (dv_async_ios d) (dv_dios d)"

definition total_line :: "int \<Rightarrow> string" where
  "total_line n = ''Total '' @ str_of_int n @ [newline]"

definition v1_bytes_file :: "device list \<Rightarrow> string list" where
  "v1_bytes_file ds = concat (map bytes_group ds) @
     [total_line (sum_list (map (\<lambda>d. dv_rbytes d + dv_wbytes d + dv_dbytes d) ds))]"

definition v1_iops_file :: "device list \<Rightarrow> string list" where
  "v1_iops_file ds = concat (map iops_group ds) @
     [total_line (sum_list (map (\<lambda>d. dv_rios d + dv_wios d + dv_dios d) ds))]"

text \<open>\<open>MAJ:MIN rbytes=N wbytes=N rios=N wios=N dbytes=N dios=N ...\<close>\<close>

definition v2_pairs :: "device \<Rightarrow> (string \<times> string) list" where
  "v2_pairs d = [(''rbytes'', str_of_int (dv_rbytes d)), (''wbytes'', str_of_int (dv_wbytes d)),
     (''rios'', str_of_int (dv_rios d)), (''wios'', str_of_int (dv_wios d)),
     (''dbytes'', str_of_int (dv_dbytes d)), (''dios'', str_of_int (dv_dios d))] @ dv_extra d"

definition key_value :: "string \<times> string \<Rightarrow> string" where
  "key_value p = fst p @ CHR ''='' # snd p"

definition v2_file_line :: "device \<Rightarrow> string" where
  "v2_file_line d = join '' '' (dv_name d # map key_value (v2_pairs d)) @ [newline]"

text \<open>The counters the monitor uses.\<close>

definition device_stats :: "device \<Rightarrow> string \<times> stats" where
  "device_stats d = (dv_name d, [(''rbytes'', dv_rbytes d), (''wbytes'', dv_wbytes d),
     (''rios'', dv_rios d), (''wios'', dv_wios d)])"

definition used_counters :: "stats \<Rightarrow> stats" where
  "used_counters st = filter (\<lambda>p. fst p \<in> {''rbytes'', ''wbytes'', ''rios'', ''wios''}) st"

definition device_name :: "string \<Rightarrow> bool" where
  "device_name w \<longleftrightarrow> w \<noteq> [] \<and> (\<forall>c \<in> set w. \<not> is_space c)"

text \<open>The names of devices have no blank; the further keys of a line are none of the four counters.\<close>

definition device_ok :: "device \<Rightarrow> bool" where
  "device_ok d \<longleftrightarrow> device_name (dv_name d) \<and>
     (\<forall>(k, v) \<in> set (dv_extra d). device_name k \<and> CHR ''='' \<notin> set k \<and>
        k \<notin> {''rbytes'', ''wbytes'', ''rios'', ''wios''} \<and> (\<forall>c \<in> set v. \<not> is_space c))"

lemma device_ok_name: "device_ok d \<Longrightarrow> device_name (dv_name d)"
  by (simp add: device_ok_def)

lemma is_space_blank: "is_space CHR '' ''" and is_space_newline: "is_space newline"
  by (simp_all add: is_space_def newline_def)

lemma map_blank: "\<forall>c \<in> set w. \<not> is_space c \<Longrightarrow> map (\<lambda>c. if is_space c then CHR '' '' else c) w = w"
  by (simp add: map_idI)

lemma map_join: "map f (join s ws) = join (map f s) (map (map f) ws)"
proof (induction ws)
  case (Cons w ws)
  then show ?case by (cases ws) auto
qed simp

lemma device_name_no_blank: "device_name w \<Longrightarrow> CHR '' '' \<notin> set w"
  by (auto simp: device_name_def is_space_def)

lemma py_split_join:
  assumes "ws \<noteq> []" "\<forall>w \<in> set ws. device_name w"
  shows "py_split (join '' '' ws) = ws"
proof -
  have "map (map (\<lambda>c. if is_space c then CHR '' '' else c)) ws = ws"
    using assms(2) by (intro map_idI) (auto simp: device_name_def map_blank)
  then have "py_split (join '' '' ws) = filter (\<lambda>w. w \<noteq> []) ws"
    using assms split_on_join [of ws "CHR '' ''"] device_name_no_blank
    by (auto simp: py_split_def map_join is_space_blank)
  also have "\<dots> = ws" using assms(2) by (auto simp: filter_id_conv device_name_def)
  finally show ?thesis .
qed

lemma strip_line:
  assumes "s \<noteq> []" "\<not> is_space (hd s)" "\<not> is_space (last s)"
  shows "strip (s @ [newline]) = s"
proof -
  have "dropWhile is_space (s @ [newline]) = s @ [newline]" using assms by (cases s) auto
  moreover have "dropWhile is_space (rev s) = rev s"
    using assms by (cases "rev s") (auto simp: last_rev hd_rev [symmetric])
  ultimately show ?thesis by (simp add: strip_def strip_when_def is_space_newline)
qed

lemma join_hd: "ws \<noteq> [] \<Longrightarrow> hd ws \<noteq> [] \<Longrightarrow> join s ws \<noteq> [] \<and> hd (join s ws) = hd (hd ws)"
  by (cases ws rule: remdups_adj.cases) auto

lemma join_last: "ws \<noteq> [] \<Longrightarrow> last ws \<noteq> [] \<Longrightarrow> join s ws \<noteq> [] \<and> last (join s ws) = last (last ws)"
proof (induction ws)
  case (Cons w ws)
  then show ?case by (cases ws) auto
qed simp

lemma fields_of_line:
  assumes "ws \<noteq> []" "\<forall>w \<in> set ws. device_name w"
  shows "py_split (strip (join '' '' ws @ [newline])) = ws"
proof -
  have "device_name (hd ws)" "device_name (last ws)" using assms by simp_all
  then have "strip (join '' '' ws @ [newline]) = join '' '' ws"
    using join_hd [of ws "'' ''"] join_last [of ws "'' ''"] assms(1)
    by (intro strip_line) (auto simp: device_name_def)
  then show ?thesis using py_split_join [OF assms] by simp
qed

lemma device_name_str_of_int [simp]: "device_name (str_of_int n)"
  using str_of_int_no_space [of n] by (auto simp: device_name_def str_of_int_def)

lemma v1_fields:
  assumes "device_name mm" "device_name label"
  shows "field (v1_file_line mm label n) 0 = Inr mm" "third_int (v1_file_line mm label n) = Inr n"
proof -
  have "py_split (strip (v1_file_line mm label n)) = [mm, label, str_of_int n]"
    unfolding v1_file_line_def by (rule fields_of_line) (use assms in auto)
  then show "field (v1_file_line mm label n) 0 = Inr mm" "third_int (v1_file_line mm label n) = Inr n"
    by (simp_all add: field_def third_int_def int_str_def)
qed

lemma groups_of_six_concat:
  assumes "\<forall>g \<in> set gs. length g = 6" "length rest < 6"
  shows "groups_of_six (concat gs @ rest) = gs"
  using assms(1)
proof (induction gs)
  case Nil
  then show ?case using assms(2) by (simp add: groups_of_six.simps [of rest])
next
  case (Cons g gs)
  then show ?case by (simp add: groups_of_six.simps [of "g @ concat gs @ rest"])
qed

lemma labels [simp]: "device_name ''Read''" "device_name ''Write''"
  by (simp_all add: device_name_def is_space_def)

lemma v1_bytes_group:
  "device_name mm \<Longrightarrow> v1_bytes (v1_group mm r w sy as di) acc = Inr (AList.update mm [(''rbytes'', r), (''wbytes'', w)] acc)"
  by (simp add: v1_bytes_def v1_group_def v1_fields)

lemma v1_iops_group:
  "device_name mm \<Longrightarrow> v1_iops (v1_group mm r w sy as di) acc =
     rbind (item acc mm) (\<lambda>d. Inr (AList.update mm (AList.update ''wios'' w (AList.update ''rios'' r d)) acc))"
  by (simp add: v1_iops_def v1_group_def v1_fields)

lemma update_fresh: "k \<notin> set (map fst d) \<Longrightarrow> AList.update k v d = d @ [(k, v)]"
  by (induction d) auto

lemma fold_bytes:
  assumes "\<forall>d \<in> set ds. device_ok d" "distinct (map fst acc @ map dv_name ds)"
  shows "foldR v1_bytes (map bytes_group ds) acc =
    Inr (acc @ map (\<lambda>d. (dv_name d, [(''rbytes'', dv_rbytes d), (''wbytes'', dv_wbytes d)])) ds)"
  using assms
  by (induction ds arbitrary: acc) (auto simp: bytes_group_def v1_bytes_group update_fresh device_ok_name)

lemma update_middle: "k \<notin> set (map fst d) \<Longrightarrow> AList.update k v (d @ (k, u) # e) = d @ (k, v) # e"
  by (induction d) auto

lemma item_middle: "k \<notin> set (map fst d) \<Longrightarrow> item (d @ (k, u) # e) k = Inr u"
  by (induction d) (auto simp: item_def split: option.splits)

lemma fold_iops:
  assumes "\<forall>d \<in> set ds. device_ok d" "distinct (map fst acc @ map dv_name ds)"
  shows "foldR v1_iops (map iops_group ds)
      (acc @ map (\<lambda>d. (dv_name d, [(''rbytes'', dv_rbytes d), (''wbytes'', dv_wbytes d)])) ds) =
    Inr (acc @ map device_stats ds)"
  using assms
proof (induction ds arbitrary: acc)
  case (Cons d ds)
  then have "dv_name d \<notin> set (map fst acc)" by auto
  then have "v1_iops (iops_group d)
      (acc @ (dv_name d, [(''rbytes'', dv_rbytes d), (''wbytes'', dv_wbytes d)]) #
         map (\<lambda>d. (dv_name d, [(''rbytes'', dv_rbytes d), (''wbytes'', dv_wbytes d)])) ds) =
    Inr ((acc @ [device_stats d]) @ map (\<lambda>d. (dv_name d, [(''rbytes'', dv_rbytes d), (''wbytes'', dv_wbytes d)])) ds)"
    using Cons.prems(1) by (simp add: iops_group_def device_ok_name v1_iops_group item_middle update_middle device_stats_def)
  with Cons.IH [of "acc @ [device_stats d]"] Cons.prems show ?case by (simp add: device_stats_def)
qed simp

lemma partition_at_eq: "CHR ''='' \<notin> set k \<Longrightarrow> partition_at CHR ''='' (k @ CHR ''='' # v) = (k, v)"
  by (induction k) (auto simp: partition_at_def)

lemma v2_token_eq:
  "CHR ''='' \<notin> set k \<Longrightarrow> v2_token st (key_value (k, v)) =
     (case int_of_str v of Some n \<Rightarrow> AList.update k n st | None \<Rightarrow> st)"
  by (simp add: v2_token_def key_value_def partition_at_eq)

lemma used_counters_update:
  "k \<notin> {''rbytes'', ''wbytes'', ''rios'', ''wios''} \<Longrightarrow> used_counters (AList.update k n st) = used_counters st"
  by (induction st) (auto simp: used_counters_def)

lemma used_counters_extra:
  assumes "\<forall>(k, v) \<in> set ps. CHR ''='' \<notin> set k \<and> k \<notin> {''rbytes'', ''wbytes'', ''rios'', ''wios''}"
  shows "used_counters (foldl v2_token st (map key_value ps)) = used_counters st"
  using assms
proof (induction ps arbitrary: st)
  case (Cons p ps)
  obtain k v where p: "p = (k, v)" by (cases p)
  have "used_counters (v2_token st (key_value p)) = used_counters st"
    using Cons.prems by (auto simp: p v2_token_eq used_counters_update split: option.splits)
  with Cons show ?case by simp
qed simp

definition v2_stats :: "device \<Rightarrow> stats" where
  "v2_stats d = foldl v2_token [] (map key_value (v2_pairs d))"

lemma v2_stats_used:
  assumes "device_ok d"
  shows "(dv_name d, used_counters (v2_stats d)) = device_stats d"
proof -
  let ?st = "[(''rbytes'', dv_rbytes d), (''wbytes'', dv_wbytes d), (''rios'', dv_rios d), (''wios'', dv_wios d),
    (''dbytes'', dv_dbytes d), (''dios'', dv_dios d)]"
  have "v2_stats d = foldl v2_token ?st (map key_value (dv_extra d))"
    by (simp add: v2_stats_def v2_pairs_def v2_token_eq)
  moreover have "used_counters (foldl v2_token ?st (map key_value (dv_extra d))) = used_counters ?st"
    by (rule used_counters_extra) (use assms in \<open>auto simp: device_ok_def\<close>)
  ultimately show ?thesis by (simp add: device_stats_def used_counters_def)
qed

lemma key_value_name:
  assumes "device_name k" "\<forall>c \<in> set v. \<not> is_space c"
  shows "device_name (key_value (k, v))"
  using assms by (auto simp: device_name_def key_value_def is_space_def)

lemma v2_tokens_ok:
  assumes "device_ok d"
  shows "\<forall>t \<in> set (map key_value (v2_pairs d)). device_name t"
proof -
  have n: "\<forall>c \<in> set (str_of_int n). \<not> is_space c" for n using device_name_str_of_int [of n] by (simp add: device_name_def)
  have k: "device_name ''rbytes''" "device_name ''wbytes''" "device_name ''rios''" "device_name ''wios''"
    "device_name ''dbytes''" "device_name ''dios''" by (simp_all add: device_name_def is_space_def)
  have "device_name (key_value p)" if "p \<in> set (dv_extra d)" for p
    using that assms by (cases p) (auto simp: device_ok_def intro: key_value_name)
  then show ?thesis by (simp add: v2_pairs_def key_value_name k n)
qed

lemma v2_line_eq:
  assumes "device_ok d"
  shows "v2_line acc (v2_file_line d) = AList.update (dv_name d) (v2_stats d) acc"
proof -
  have "py_split (strip (v2_file_line d)) = dv_name d # map key_value (v2_pairs d)"
    unfolding v2_file_line_def by (rule fields_of_line) (use v2_tokens_ok [OF assms] device_ok_name [OF assms] in simp_all)
  then show ?thesis by (simp add: v2_line_def v2_stats_def)
qed

lemma fold_v2:
  assumes "\<forall>d \<in> set ds. device_ok d" "distinct (map fst acc @ map dv_name ds)"
  shows "foldl v2_line acc (map v2_file_line ds) = acc @ map (\<lambda>d. (dv_name d, v2_stats d)) ds"
  using assms
proof (induction ds arbitrary: acc)
  case (Cons d ds)
  then have "AList.update (dv_name d) (v2_stats d) acc = acc @ [(dv_name d, v2_stats d)]"
    by (simp add: update_fresh)
  with Cons.IH [of "acc @ [(dv_name d, v2_stats d)]"] Cons.prems show ?case by (simp add: v2_line_eq)
qed simp

text \<open>C7: whatever further keys the lines of \<open>io.stat\<close> have, the readers of both cgroup versions recover
  for every device the four counters the kernel counted: the reader of v1 nothing else, the reader of v2
  beside the discards and the further keys, which the monitor does not use.\<close>

theorem cgroup_formats_agree:
  assumes "distinct (map dv_name ds)" "\<forall>d \<in> set ds. device_ok d"
    and "read1 (scope @ ''/blkio.throttle.io_service_bytes_recursive'') = Some (v1_bytes_file ds)"
    and "read1 (scope @ ''/blkio.throttle.io_serviced_recursive'') = Some (v1_iops_file ds)"
    and "read2 (scope @ ''/io.stat'') = Some (map v2_file_line ds)"
  shows "read_v1_io_stats read1 scope = Inr (map device_stats ds) \<and>
    map (\<lambda>(name, st). (name, used_counters st)) (read_v2_io_stats read2 scope) = map device_stats ds"
proof -
  have "groups_of_six (v1_bytes_file ds) = map bytes_group ds" "groups_of_six (v1_iops_file ds) = map iops_group ds"
    unfolding v1_bytes_file_def v1_iops_file_def
    by (rule groups_of_six_concat; simp add: bytes_group_def iops_group_def v1_group_def)+
  then have "read_v1_io_stats read1 scope = Inr (map device_stats ds)"
    using assms fold_bytes [of ds "[]"] fold_iops [of ds "[]"] by (simp add: read_v1_io_stats_def)
  moreover have "read_v2_io_stats read2 scope = map (\<lambda>d. (dv_name d, v2_stats d)) ds"
    using assms fold_v2 [of ds "[]"] by (simp add: read_v2_io_stats_def)
  moreover have "map (\<lambda>d. (dv_name d, used_counters (v2_stats d))) ds = map device_stats ds"
    using assms(2) by (simp add: v2_stats_used)
  ultimately show ?thesis by (simp add: o_def)
qed

definition sample_devices :: "device list" where
  "sample_devices =
     [\<lparr>dv_name = ''8:0'', dv_rbytes = 4096, dv_wbytes = 512, dv_rios = 3, dv_wios = 1, dv_dbytes = 1024, dv_dios = 2,
       dv_sync_bytes = 512, dv_async_bytes = 4096, dv_sync_ios = 1, dv_async_ios = 3,
       dv_extra = [(''cost.usage'', ''17''), (''cost.state'', ''idle'')]\<rparr>,
      \<lparr>dv_name = ''259:1'', dv_rbytes = 0, dv_wbytes = 8192, dv_rios = 0, dv_wios = 2, dv_dbytes = 0, dv_dios = 0,
       dv_sync_bytes = 8192, dv_async_bytes = 0, dv_sync_ios = 2, dv_async_ios = 0, dv_extra = []\<rparr>]"

definition sample_files :: "string \<Rightarrow> string list option" where
  "sample_files path =
     (if path = ''s/blkio.throttle.io_service_bytes_recursive'' then Some (v1_bytes_file sample_devices)
      else if path = ''s/blkio.throttle.io_serviced_recursive'' then Some (v1_iops_file sample_devices)
      else if path = ''s/io.stat'' then Some (map v2_file_line sample_devices) else None)"

theorem cgroup_formats_agree_witness:
  "read_v1_io_stats sample_files ''s'' = Inr (map device_stats sample_devices) \<and>
   map (\<lambda>(name, st). (name, used_counters st)) (read_v2_io_stats sample_files ''s'') = map device_stats sample_devices"
  by (rule cgroup_formats_agree)
    (simp_all add: sample_files_def, simp_all add: sample_devices_def device_ok_def device_name_def is_space_def)

text \<open>With cgroups v1, a device whose first operation falls between the reads of the two files is in
  the second file only; the reader then raises \<open>KeyError\<close>, which stops the monitor.\<close>

theorem v1_new_device_stops_monitor:
  assumes "device_name mm" "mm \<notin> dv_name ` set ds"
    and "distinct (map dv_name ds)" "\<forall>d \<in> set ds. device_ok d"
    and "read (scope @ ''/blkio.throttle.io_service_bytes_recursive'') = Some (v1_bytes_file ds)"
    and "read (scope @ ''/blkio.throttle.io_serviced_recursive'') = Some (v1_group mm r w sy as di @ v1_iops_file ds)"
    and "discover_containers glob pids base = (scope, name) # others"
  shows "take_snapshot glob read pids ''v1'' base = Inl (KeyError mm)"
proof -
  have "groups_of_six (v1_bytes_file ds) = map bytes_group ds"
    unfolding v1_bytes_file_def by (rule groups_of_six_concat; simp add: bytes_group_def v1_group_def)
  moreover have "groups_of_six (v1_group mm r w sy as di @ v1_iops_file ds) = v1_group mm r w sy as di # groups_of_six (v1_iops_file ds)"
    by (subst groups_of_six.simps) (simp add: v1_group_def)
  moreover have "item (map (\<lambda>d. (dv_name d, [(''rbytes'', dv_rbytes d), (''wbytes'', dv_wbytes d)])) ds) mm = Inl (KeyError mm)"
    using assms(2) by (auto simp: item_def map_of_eq_None_iff split: option.splits dest!: map_of_SomeD)
  ultimately have r: "read_v1_io_stats read scope = Inl (KeyError mm)"
    using assms fold_bytes [of ds "[]"] by (simp add: read_v1_io_stats_def v1_iops_group)
  show ?thesis
    using r by (simp add: take_snapshot_def Let_def assms(7) keys_of_def snapshot_scope_def)
qed

theorem v1_new_device_stops_monitor_witness:
  "take_snapshot (\<lambda>p. [''s/apptainer-42.scope''])
     (\<lambda>path. if path = ''s/apptainer-42.scope/blkio.throttle.io_service_bytes_recursive''
        then Some (v1_bytes_file sample_devices)
        else Some (v1_group ''8:16'' 1 0 1 0 0 @ v1_iops_file sample_devices))
     [(42, ''cont0'')] ''v1'' ''s'' = Inl (KeyError ''8:16'')"
proof (rule v1_new_device_stops_monitor [where ds = sample_devices and r = 1 and w = 0 and sy = 1 and as = 0 and di = 0 and scope = "''s/apptainer-42.scope''"])
  show "discover_containers (\<lambda>p. [''s/apptainer-42.scope'']) [(42, ''cont0'')] ''s'' = [(''s/apptainer-42.scope'', ''cont0'')]"
    by code_simp
qed (simp_all add: sample_devices_def device_ok_def device_name_def is_space_def)

end
