(* ===== verification/HadoopResources.thy ===== *)
theory HadoopResources
  imports Json
begin

text \<open>
  The pure helpers of \<open>ui/background_tasks.py\<close> (lines 139 to 344): the conversion of the strings of a
  request into numbers, and the memory and core settings of a Hadoop cluster.  Products with the factors
  0.95, 0.9 and 1.5 and the division by 3.5 are exact.
\<close>

section \<open>Dictionaries and strings\<close>

text \<open>\<open>{**dict_2, **dict_1}\<close>, the values of common keys added.\<close>

definition mergeDictionary :: "rat dict \<Rightarrow> rat dict \<Rightarrow> rat dict" where
  "mergeDictionary dict_1 dict_2 =
     map (\<lambda>(key, value). (key, case (map_of dict_1 key, map_of dict_2 key) of
            (Some _, Some y) \<Rightarrow> value + y | _ \<Rightarrow> value)) (dict_update dict_2 dict_1)"

text \<open>Numbers in strings become numbers, everywhere in a document; \<open>nan\<close> and \<open>inf\<close> stay strings.\<close>

definition number_of_string :: "string \<Rightarrow> json" where
  "number_of_string s =
     (case int_of_str s of
        Some n \<Rightarrow> JInt n
      | None \<Rightarrow> (case float_of_str s of Some x \<Rightarrow> JNum x | None \<Rightarrow> JStr s))"

fun convert_strings_to_numbers :: "json \<Rightarrow> json" where
  "convert_strings_to_numbers (JObj d) = JObj (map (\<lambda>(k, v). (k, convert_strings_to_numbers v)) d)"
| "convert_strings_to_numbers (JArr xs) = JArr (map convert_strings_to_numbers xs)"
| "convert_strings_to_numbers (JStr s) = number_of_string s"
| "convert_strings_to_numbers v = v"

section \<open>The classic table\<close>

definition get_node_reserved_memory :: "int \<Rightarrow> int" where
  "get_node_reserved_memory node_memory =
     (if node_memory < 8192 then 512
      else if node_memory \<le> 16384 then 2048
      else if node_memory \<le> 24576 then 4096
      else if node_memory \<le> 49152 then 6144
      else if node_memory \<le> 73728 then 8192
      else if node_memory \<le> 98304 then 12288
      else if node_memory \<le> 131072 then 24576
      else py_int (of_int node_memory / 8))"

definition get_min_container_size :: "int \<Rightarrow> int" where
  "get_min_container_size node_memory =
     (if node_memory < 4096 then 256 else if node_memory \<le> 8192 then 512
      else if node_memory \<le> 24576 then 1024 else 2048)"

section \<open>Settings of a cluster\<close>

type_synonym settings = "int dict"     \<comment> \<open>the values before \<open>str\<close>\<close>

definition heapsize :: "bool \<Rightarrow> int" where
  "heapsize virtual_cluster = (if virtual_cluster then 128 else 1024)"

definition am_overhead :: "int \<Rightarrow> int" where
  "am_overhead app_master_heapsize =
     (let o1 = py_int (of_int app_master_heapsize * (1 / 10)) in if o1 < 384 then 384 else o1)"

definition check_settings :: "settings \<Rightarrow> settings result" where
  "check_settings s =
     (case List.find (\<lambda>(res, value). value \<le> 0) s of
        None \<Rightarrow> Inr s
      | Some (res, value) \<Rightarrow> Inl (PyException (''Error allocating resources for containers in Hadoop application: '' @ res)))"

text \<open>\<open>(map_memory, reduce_memory, mapreduce_am_memory, scheduler_minimum_memory)\<close>, sliced when the
  workers together have less than one of each.\<close>

definition task_memory :: "int \<Rightarrow> int \<Rightarrow> int \<Rightarrow> int \<Rightarrow> int \<Rightarrow> int \<times> int \<times> int \<times> int" where
  "task_memory available_memory number_of_workers nodemanager_memory mem_per_container mapreduce_am_memory =
     (let map_memory = min mem_per_container available_memory;
          reduce_memory = min mem_per_container available_memory;
          total_available_memory = available_memory * number_of_workers
      in if total_available_memory < map_memory + reduce_memory + mapreduce_am_memory
         then (let memory_slice = of_int nodemanager_memory / (7 / 2) :: rat;
                   m = py_int memory_slice
               in (m, m, py_int (3 / 2 * memory_slice), m))
         else (map_memory, reduce_memory, mapreduce_am_memory, 256))"

definition set_hadoop_resources :: "obj \<Rightarrow> bool \<Rightarrow> int \<Rightarrow> int \<Rightarrow> settings result" where
  "set_hadoop_resources container_resources virtual_cluster number_of_workers replication_factor =
     rbind (rbind (item container_resources ''cpu_max'') jint) (\<lambda>cpu_max.
     rbind (rbind (item container_resources ''cpu_min'') jint) (\<lambda>cpu_min.
     rbind (rbind (item container_resources ''mem_max'') jint) (\<lambda>total_memory.
     let heap = heapsize virtual_cluster;
         all_cores = max (cpu_max div 100) 1;
         min_cores = max (cpu_min div 100) 1;
         total_cores = (if virtual_cluster then all_cores else all_cores div 2);
         am_memory = heap + am_overhead heap;
         available_memory = py_int (of_int total_memory * (95 / 100));
         nodemanager_memory = available_memory - heap - heap
     in rbind (py_div (of_int (nodemanager_memory - am_memory)) (of_int total_cores)) (\<lambda>q.
        case task_memory available_memory number_of_workers nodemanager_memory (py_int q) am_memory of
          (map_memory, reduce_memory, mapreduce_am_memory, scheduler_minimum_memory) \<Rightarrow>
        check_settings
          [(''vcores'', total_cores), (''min_vcores'', min_cores),
           (''scheduler_maximum_memory'', nodemanager_memory),
           (''scheduler_minimum_memory'', scheduler_minimum_memory),
           (''nodemanager_memory'', nodemanager_memory),
           (''map_memory'', map_memory), (''map_memory_java_opts'', py_int (9 / 10 * of_int map_memory)),
           (''reduce_memory'', reduce_memory), (''reduce_memory_java_opts'', py_int (9 / 10 * of_int reduce_memory)),
           (''mapreduce_am_memory'', mapreduce_am_memory), (''mapreduce_am_memory_java_opts'', heap),
           (''datanode_heapsize'', heap), (''nodemanager_heapsize'', heap),
           (''hdfs_replication'', replication_factor)]))))"

definition resources_to_extract :: "string list" where
  "resources_to_extract =
     [''vcores'', ''min_vcores'', ''scheduler_maximum_memory'', ''scheduler_minimum_memory'', ''nodemanager_memory'',
      ''map_memory'', ''map_memory_java_opts'', ''reduce_memory'', ''reduce_memory_java_opts'', ''mapreduce_am_memory'',
      ''mapreduce_am_memory_java_opts'', ''datanode_heapsize'', ''nodemanager_heapsize'', ''hdfs_replication'']"

definition extract_hadoop_resources :: "settings \<Rightarrow> int list result" where
  "extract_hadoop_resources hadoop_resources = mapR (item hadoop_resources) resources_to_extract"

section \<open>Properties\<close>

lemma check_settings_Inr: "check_settings s = Inr r \<longleftrightarrow> r = s \<and> (\<forall>(res, value) \<in> set s. 0 < value)"
proof (cases "List.find (\<lambda>(res, value). value \<le> 0) s")
  case None
  then have "\<forall>p \<in> set s. 0 < snd p" by (auto simp: find_None_iff not_le)
  with None show ?thesis by (auto simp: check_settings_def)
next
  case (Some p)
  then obtain i where "i < length s" "s ! i = p" "snd p \<le> 0" by (auto simp: find_Some_iff)
  then have "p \<in> set s" "\<not> 0 < snd p" by auto
  then have "\<not> (\<forall>(res, value) \<in> set s. 0 < value)" by (auto simp: case_prod_beta)
  with Some show ?thesis by (auto simp: check_settings_def split: prod.splits)
qed

text \<open>What \<open>set_hadoop_resources\<close> computes, under names of its own.\<close>

lemma set_hadoop_resourcesE:
  assumes "set_hadoop_resources c v n rep = Inr s"
  obtains vc mc nm sm mm rm am mem q where
    "s = [(''vcores'', vc), (''min_vcores'', mc), (''scheduler_maximum_memory'', nm), (''scheduler_minimum_memory'', sm),
       (''nodemanager_memory'', nm), (''map_memory'', mm), (''map_memory_java_opts'', py_int (9 / 10 * of_int mm)),
       (''reduce_memory'', rm), (''reduce_memory_java_opts'', py_int (9 / 10 * of_int rm)),
       (''mapreduce_am_memory'', am), (''mapreduce_am_memory_java_opts'', heapsize v),
       (''datanode_heapsize'', heapsize v), (''nodemanager_heapsize'', heapsize v), (''hdfs_replication'', rep)]"
    "\<forall>(res, value) \<in> set s. 0 < value" "rbind (item c ''mem_max'') jint = Inr mem"
    "nm = py_int (of_int mem * (95 / 100)) - heapsize v - heapsize v" "vc \<noteq> 0"
    "q = of_int (nm - (heapsize v + am_overhead (heapsize v))) / of_int vc"
    "task_memory (py_int (of_int mem * (95 / 100))) n nm (py_int q) (heapsize v + am_overhead (heapsize v)) = (mm, rm, am, sm)"
  using assms
  by (auto simp: set_hadoop_resources_def Let_def check_settings_Inr py_div_eq_Inr elim!: rbindE split: prod.splits)

lemma py_int_le_max: "of_int (py_int x) \<le> max x 0"
  by (auto simp: py_int_def max_def)

lemma task_memory_fits:
  assumes "task_memory avail n nm (py_int q) am0 = (mm, rm, am, sm)" "0 < mm" "0 < am" "0 < nm"
    "q = of_int (nm - am0) / of_int vc" "0 < vc"
  shows "(vc * mm + am \<le> nm \<and> am = am0) \<or> mm + rm + am \<le> nm"
proof (cases "avail * n < min (py_int q) avail + min (py_int q) avail + am0")
  case True
  define x where "x = (of_int nm / (7 / 2) :: rat)"
  have eq: "mm = py_int x" "rm = py_int x" "am = py_int (3 / 2 * x)"
    using assms(1) True by (auto simp: task_memory_def Let_def x_def)
  have x: "0 \<le> x" using assms(4) by (simp add: x_def)
  then have "0 \<le> 3 / 2 * x" by simp
  from py_int_nonneg_le [OF x] py_int_nonneg_le [OF this]
  have "of_int (mm + rm + am) \<le> x + x + 3 / 2 * x" by (simp only: eq of_int_add)
  also have "\<dots> = of_int nm" by (simp add: x_def)
  finally show ?thesis by simp
next
  case False
  then have eq: "mm = min (py_int q) avail" "am = am0"
    using assms(1) by (auto simp: task_memory_def Let_def)
  then have "0 < py_int q" using assms(2) by simp
  then have "of_int (py_int q) \<le> q" using py_int_le_max [of q] by (auto simp: max_def split: if_splits)
  then have "of_int vc * of_int (py_int q) \<le> of_int vc * q" using assms(6) by (intro mult_left_mono) simp_all
  also have "\<dots> = of_int (nm - am0)" using assms(5,6) by simp
  finally have "vc * py_int q \<le> nm - am0" by (simp only: of_int_mult [symmetric] of_int_le_iff)
  moreover have "vc * mm \<le> vc * py_int q" using eq assms(6) by (intro mult_left_mono) simp_all
  ultimately show ?thesis using eq by simp
qed

text \<open>C8: the settings that are accepted fit the container: the heaps and the memory of the node manager
  leave a twentieth of the container's memory free, and either a map task for every core beside the
  application master, or one map task, one reduce task and the master, fit the node manager.\<close>

theorem hadoop_memory_fits:
  assumes "set_hadoop_resources c v n rep = Inr s" "rbind (item c ''mem_max'') jint = Inr mem" "0 \<le> mem"
  shows "\<exists>vc nm mm rm am dn nh.
    item s ''vcores'' = Inr vc \<and> item s ''nodemanager_memory'' = Inr nm \<and> item s ''map_memory'' = Inr mm \<and>
    item s ''reduce_memory'' = Inr rm \<and> item s ''mapreduce_am_memory'' = Inr am \<and>
    item s ''datanode_heapsize'' = Inr dn \<and> item s ''nodemanager_heapsize'' = Inr nh \<and>
    of_int (nm + dn + nh) \<le> (of_int mem * (95 / 100) :: rat) \<and>
    (vc * mm + am \<le> nm \<or> mm + rm + am \<le> nm)"
proof -
  from assms(1) obtain vc mc nm sm mm rm am mem' q where s:
    "s = [(''vcores'', vc), (''min_vcores'', mc), (''scheduler_maximum_memory'', nm), (''scheduler_minimum_memory'', sm),
       (''nodemanager_memory'', nm), (''map_memory'', mm), (''map_memory_java_opts'', py_int (9 / 10 * of_int mm)),
       (''reduce_memory'', rm), (''reduce_memory_java_opts'', py_int (9 / 10 * of_int rm)),
       (''mapreduce_am_memory'', am), (''mapreduce_am_memory_java_opts'', heapsize v),
       (''datanode_heapsize'', heapsize v), (''nodemanager_heapsize'', heapsize v), (''hdfs_replication'', rep)]"
    and pos: "\<forall>(res, value) \<in> set s. 0 < value" and t: "rbind (item c ''mem_max'') jint = Inr mem'"
    and nm: "nm = py_int (of_int mem' * (95 / 100)) - heapsize v - heapsize v"
    and q: "q = of_int (nm - (heapsize v + am_overhead (heapsize v))) / of_int vc"
    and tm: "task_memory (py_int (of_int mem' * (95 / 100))) n nm (py_int q) (heapsize v + am_overhead (heapsize v)) = (mm, rm, am, sm)"
    by (rule set_hadoop_resourcesE) blast
  from pos have "0 < vc" "0 < nm" "0 < mm" "0 < am" unfolding s by simp_all
  from task_memory_fits [OF tm this(3,4,2) q this(1)]
  have fit: "vc * mm + am \<le> nm \<or> mm + rm + am \<le> nm" by blast
  have "mem' = mem" using t assms(2) by simp
  then have "of_int (nm + heapsize v + heapsize v) \<le> (of_int mem * (95 / 100) :: rat)"
    using py_int_nonneg_le [of "of_int mem * (95 / 100)"] assms(3) by (simp add: nm)
  with fit show ?thesis unfolding s by (simp add: item_def)
qed

definition sample_worker :: obj where
  "sample_worker = [(''cpu_max'', JNum 400), (''cpu_min'', JNum 50), (''mem_max'', JNum 16384)]"

theorem hadoop_memory_fits_witness:
  "\<exists>vc nm mm rm am dn nh.
    item (projr (set_hadoop_resources sample_worker False 2 3)) ''vcores'' = Inr vc \<and>
    item (projr (set_hadoop_resources sample_worker False 2 3)) ''nodemanager_memory'' = Inr nm \<and>
    item (projr (set_hadoop_resources sample_worker False 2 3)) ''map_memory'' = Inr mm \<and>
    item (projr (set_hadoop_resources sample_worker False 2 3)) ''reduce_memory'' = Inr rm \<and>
    item (projr (set_hadoop_resources sample_worker False 2 3)) ''mapreduce_am_memory'' = Inr am \<and>
    item (projr (set_hadoop_resources sample_worker False 2 3)) ''datanode_heapsize'' = Inr dn \<and>
    item (projr (set_hadoop_resources sample_worker False 2 3)) ''nodemanager_heapsize'' = Inr nh \<and>
    of_int (nm + dn + nh) \<le> (of_int 16384 * (95 / 100) :: rat) \<and>
    (vc * mm + am \<le> nm \<or> mm + rm + am \<le> nm)"
proof (rule hadoop_memory_fits)
  have "(case set_hadoop_resources sample_worker False 2 3 of Inr d \<Rightarrow> True | _ \<Rightarrow> False)" by code_simp
  then show "set_hadoop_resources sample_worker False 2 3 = Inr (projr (set_hadoop_resources sample_worker False 2 3))"
    by (auto split: sum.splits)
  show "rbind (item sample_worker ''mem_max'') jint = Inr 16384" by code_simp
  show "(0 :: int) \<le> 16384" by simp
qed

text \<open>on a physical cluster a container with less than two CPUs has no core left after halving them, and
  the division by it raises before the check that would report the lack of CPU.\<close>

theorem one_cpu_divides_by_zero:
  assumes "rbind (item c ''cpu_max'') jint = Inr cpu" "cpu < 200" "rbind (item c ''cpu_min'') jint = Inr m"
    and "rbind (item c ''mem_max'') jint = Inr mem"
  shows "set_hadoop_resources c False n rep = Inl ZeroDivisionError"
proof -
  have "max (cpu div 100) 1 div 2 = 0" using assms(2) by (simp add: max_def)
  with assms show ?thesis by (simp add: set_hadoop_resources_def Let_def py_div_def)
qed

theorem one_cpu_divides_by_zero_witness:
  "set_hadoop_resources [(''cpu_max'', JNum 100), (''cpu_min'', JNum 50), (''mem_max'', JNum 16384)] False 2 3 =
     Inl ZeroDivisionError"
  by (rule one_cpu_divides_by_zero [where cpu = 100 and m = 50 and mem = 16384]; code_simp)

end
