(* ===== verification/Ansible.thy ===== *)
theory Ansible
  imports Json
begin

text \<open>
  \<open>serverlessyarn_utils/manage_ansible.py\<close>: how the arguments of a run reach Ansible, and what is read
  from the events of a run.  Ansible itself answers with a status and a list of events.  \<open>show\<close> is
  \<open>str\<close> of a value that is no string, \<open>timestamp\<close> is \<open>datetime.fromisoformat\<close> in seconds.
\<close>

section \<open>Runs\<close>

record playbook =
  pb_name :: string
  pb_tags :: "string option"
  pb_limit :: "string option"
  pb_extravars :: "obj option"

record adhoc =
  ah_hosts :: string
  ah_module :: string
  ah_args :: "string option"
  ah_extravars :: "obj option"

text \<open>\<open>",".join(xs) if xs else None\<close>; a string given as \<open>xs\<close> is the list of its characters.\<close>

definition joined :: "string list \<Rightarrow> string option" where
  "joined xs = (if xs = [] then None else Some (join '','' xs))"

definition characters :: "string \<Rightarrow> string list" where
  "characters s = map (\<lambda>c. [c]) s"

definition if_any :: "obj \<Rightarrow> obj option" where
  "if_any d = (if d = [] then None else Some d)"

definition playbook_config :: "string \<Rightarrow> string list \<Rightarrow> string list \<Rightarrow> obj \<Rightarrow> playbook" where
  "playbook_config name tags hosts extravars =
     \<lparr>pb_name = name, pb_tags = joined tags, pb_limit = joined hosts, pb_extravars = if_any extravars\<rparr>"

definition adhoc_config :: "string list \<Rightarrow> string \<Rightarrow> string option \<Rightarrow> obj \<Rightarrow> adhoc" where
  "adhoc_config hosts action module_args extravars =
     \<lparr>ah_hosts = join '','' hosts, ah_module = action, ah_args = module_args, ah_extravars = if_any extravars\<rparr>"

section \<open>Events of a run\<close>

record runner_event =
  re_event :: string
  re_task :: "string option"
  re_host :: "string option"
  re_res :: "obj option"
  re_start :: "string option"
  re_end :: "string option"

type_synonym runner_result = "int \<times> runner_event list"   \<comment> \<open>status and events\<close>

definition task_of :: "runner_event \<Rightarrow> string" where
  "task_of e = (case re_task e of Some t \<Rightarrow> t | None \<Rightarrow> ''None'')"

type_synonym outputs = "obj \<times> rat dict"     \<comment> \<open>output variables and durations of tasks\<close>

definition add_facts :: "runner_event \<Rightarrow> obj \<Rightarrow> obj result" where
  "add_facts e out =
     (case re_res e of
        None \<Rightarrow> Inr out
      | Some res \<Rightarrow>
          rbind (case map_of res ''ansible_facts'' of
              None \<Rightarrow> Inr out
            | Some facts \<Rightarrow> rbind (jobj facts) (\<lambda>d. Inr (dict_update out d))) (\<lambda>out1.
          case map_of res ''stdout'' of
            None \<Rightarrow> Inr out1
          | Some s \<Rightarrow> Inr (AList.update (task_of e @ ''_stdout'') s out1)))"

definition add_timing :: "(string \<Rightarrow> rat) \<Rightarrow> runner_event \<Rightarrow> rat dict \<Rightarrow> rat dict" where
  "add_timing timestamp e timings =
     (case (re_start e, re_end e) of
        (Some s, Some t) \<Rightarrow> AList.update (task_of e) (timestamp t - timestamp s) timings
      | _ \<Rightarrow> timings)"

definition process_event :: "(string \<Rightarrow> rat) \<Rightarrow> runner_event \<Rightarrow> outputs \<Rightarrow> outputs result" where
  "process_event timestamp e s =
     (if re_event e = ''runner_on_ok''
      then rbind (add_facts e (fst s)) (\<lambda>out. Inr (out, add_timing timestamp e (snd s)))
      else Inr s)"

definition playbook_outputs :: "(string \<Rightarrow> rat) \<Rightarrow> bool \<Rightarrow> runner_result \<Rightarrow> outputs result" where
  "playbook_outputs timestamp ignore_failure r =
     (if fst r \<noteq> 0 \<and> \<not> ignore_failure then Inl (PyException ''Playbook has failed'')
      else foldR (process_event timestamp) (snd r) ([], []))"

definition adhoc_outcome :: "bool \<Rightarrow> int \<Rightarrow> unit result" where
  "adhoc_outcome ignore_failure status =
     (if status \<noteq> 0 \<and> \<not> ignore_failure then Inl (PyException ''Ad-hoc command has failed'') else Inr ())"

section \<open>The report of a failed run\<close>

definition text_of :: "(json \<Rightarrow> string) \<Rightarrow> json \<Rightarrow> string" where
  "text_of show v = (case v of JStr s \<Rightarrow> s | _ \<Rightarrow> show v)"

definition newline_char :: char where
  "newline_char = CHR 10"

definition res_line :: "(json \<Rightarrow> string) \<Rightarrow> obj \<Rightarrow> string \<Rightarrow> string \<Rightarrow> string list" where
  "res_line show res key label = (case map_of res key of None \<Rightarrow> [] | Some v \<Rightarrow> [label @ text_of show v])"

definition rule_line :: string where
  "rule_line = replicate 60 CHR ''=''"

definition name_or :: "string option \<Rightarrow> string \<Rightarrow> string" where
  "name_or x d = (case x of Some s \<Rightarrow> s | None \<Rightarrow> d)"

definition report_event :: "(json \<Rightarrow> string) \<Rightarrow> runner_event \<Rightarrow> string list" where
  "report_event show e =
     (let host = name_or (re_host e) ''Unknown host'';
          res = (case re_res e of Some d \<Rightarrow> d | None \<Rightarrow> [])
      in if re_event e \<in> {''runner_on_failed'', ''runner_on_async_failed''}
         then [newline_char # rule_line, ''FAILED TASK: '' @ name_or (re_task e) ''Unknown task'', ''HOST: '' @ host, rule_line] @
              res_line show res ''msg'' ''Message: '' @ res_line show res ''stderr'' (''STDERR:'' @ [newline_char]) @
              res_line show res ''stdout'' (''STDOUT:'' @ [newline_char]) @
              res_line show res ''exception'' (''Exception:'' @ [newline_char])
         else if re_event e = ''runner_on_unreachable''
         then [newline_char # rule_line, ''UNREACHABLE HOST: '' @ host, rule_line] @ res_line show res ''msg'' ''Message: ''
         else [])"

definition format_ansible_output :: "(json \<Rightarrow> string) \<Rightarrow> runner_event list \<Rightarrow> string" where
  "format_ansible_output show events =
     (let output_lines = concat (map (report_event show) events)
      in if output_lines \<noteq> [] then join [newline_char] output_lines
         else ''No detailed error information available'')"

section \<open>Laws\<close>

lemma playbook_outputs_failure:
  "playbook_outputs ts False (st, evs) = Inr out \<Longrightarrow> st = 0"
  by (simp add: playbook_outputs_def split: if_splits)

text \<open>The duration of a task is that of its last successful event.\<close>

lemma add_timing_other: "task_of e \<noteq> t \<Longrightarrow> map_of (add_timing ts e d) t = map_of d t"
  by (simp add: add_timing_def split: option.splits)

text \<open>The tags Ansible takes from the option are its parts between commas.\<close>

definition selected_tags :: "playbook \<Rightarrow> string list" where
  "selected_tags p = (case pb_tags p of None \<Rightarrow> [] | Some s \<Rightarrow> split_on CHR '','' s)"

lemma selected_tags_list:
  assumes "\<forall>t \<in> set tags. CHR '','' \<notin> set t" "tags \<noteq> []"
  shows "selected_tags (playbook_config name tags hosts vars) = tags"
  using assms split_on_join [of tags "CHR '',''"] by (simp add: selected_tags_def playbook_config_def joined_def)

lemma selected_tags_characters:
  assumes "CHR '','' \<notin> set s" "s \<noteq> []"
  shows "selected_tags (playbook_config name (characters s) hosts vars) = characters s"
  by (rule selected_tags_list) (use assms in \<open>auto simp: characters_def\<close>)

lemma characters_single: "t \<in> set (characters s) \<Longrightarrow> length t = 1"
  by (auto simp: characters_def)

end
