(* ===== verification/Watchers.thy ===== *)
theory Watchers
  imports Ansible
begin

text \<open>
  The two watching services: \<open>services/rebooter/Rebooter.py\<close>, which restarts services whose tmux
  session is gone, and \<open>services/config_updater/ConfigUpdater.py\<close>, which reloads the configuration when
  one of its modules changes.  Their log lines are not modelled; what they do is the list of playbooks
  they run.
\<close>

section \<open>Rebooter\<close>

definition BDW_SERVICES :: "string list" where
  "BDW_SERVICES = [''EVE_TIMES'', ''OPENTSDB'']"

definition SC_SERVICES :: "string list" where
  "SC_SERVICES = [''orchestrator'', ''database_snapshoter'', ''structure_snapshoter'', ''guardian'', ''scaler'',
     ''refeeder'', ''sanity_checker'', ''rebalancer'', ''config_updater'']"

definition SY_SERVICES :: "string list" where
  "SY_SERVICES = [''web_interface'', ''celery'', ''redis_server'']"

definition ONLY_VIRTUAL_MODE :: "string list" where
  "ONLY_VIRTUAL_MODE = [''EVE_TIMES'']"

definition watched_services :: "bool \<Rightarrow> bool \<Rightarrow> string list" where
  "watched_services virtual_mode deploy_local_opentsdb =
     (let all = BDW_SERVICES @ SC_SERVICES @ SY_SERVICES;
          services = (if virtual_mode then all else filter (\<lambda>x. x \<notin> set ONLY_VIRTUAL_MODE) all)
      in if deploy_local_opentsdb then services else remove1 ''OPENTSDB'' services)"

text \<open>The answer of OpenTSDB to the probe.\<close>

datatype probe = Status nat | ConnectionFailed | TimedOut | Failed exn

text \<open>\<open>run_playbook(playbook_name=.., tags="..")\<close>: the tags are a string, not a list.\<close>

definition stop_opentsdb :: playbook where
  "stop_opentsdb = playbook_config ''stop_services_playbook.yml'' (characters ''stop_opentsdb'') [] []"

definition restart_services :: playbook where
  "restart_services = playbook_config ''launch_playbook.yml'' (characters ''restart_services'') [] []"

definition test_opentsdb_connection :: "probe \<Rightarrow> playbook list result" where
  "test_opentsdb_connection answer =
     (case answer of
        Status code \<Rightarrow> Inr (if code = 200 \<or> code = 400 then [] else [stop_opentsdb])
      | ConnectionFailed \<Rightarrow> Inr []
      | TimedOut \<Rightarrow> Inr [stop_opentsdb]
      | Failed e \<Rightarrow> Inl e)"

text \<open>The sessions tmux knows; \<open>None\<close> is its \<open>LibTmuxException\<close>, which ends the loop.\<close>

fun count_missing :: "(string \<Rightarrow> bool option) \<Rightarrow> string list \<Rightarrow> nat \<Rightarrow> nat" where
  "count_missing session [] sessions_missing = sessions_missing"
| "count_missing session (service # services) sessions_missing =
     (case session service of
        None \<Rightarrow> sessions_missing + 1
      | Some True \<Rightarrow> count_missing session services sessions_missing
      | Some False \<Rightarrow> count_missing session services (sessions_missing + 1))"

definition check_cycle :: "string list \<Rightarrow> probe \<Rightarrow> (string \<Rightarrow> bool option) \<Rightarrow> playbook list result" where
  "check_cycle services answer session =
     rbind (if ''OPENTSDB'' \<in> set services then test_opentsdb_connection answer else Inr []) (\<lambda>stops.
     Inr (stops @ (if count_missing session services 0 \<noteq> 0 then [restart_services] else [])))"

text \<open>\<open>while time_waited < delay: sleep(heartbeat_delay)\<close>; the number of sleeps.\<close>

function heartbeats :: "nat \<Rightarrow> nat \<Rightarrow> nat \<Rightarrow> nat" where
  "heartbeats heartbeat_delay delay time_waited =
     (if time_waited < delay \<and> 0 < heartbeat_delay
      then heartbeats heartbeat_delay delay (time_waited + heartbeat_delay) + 1 else 0)"
  by pat_completeness auto
termination
  by (relation "measure (\<lambda>(h, d, t). d - t)") auto

declare heartbeats.simps [simp del]

text \<open>The service, for as many cycles as there are observations.\<close>

fun check_services ::
  "string list \<Rightarrow> (probe \<times> (string \<Rightarrow> bool option)) list \<Rightarrow> playbook list result" where
  "check_services services [] = Inr []"
| "check_services services ((answer, session) # obs) =
     rbind (check_cycle services answer session) (\<lambda>ps. rbind (check_services services obs) (\<lambda>qs. Inr (ps @ qs)))"

section \<open>Config updater\<close>

definition load_config :: playbook where
  "load_config = playbook_config ''load_config_playbook.yml'' [] [] []"

definition on_any_event :: "string \<Rightarrow> playbook list" where
  "on_any_event src_path = (if \<not> starts_with ''template.'' src_path then [load_config] else [])"

section \<open>Properties\<close>

lemma count_missing_ge: "n \<le> count_missing session services n"
proof (induction services arbitrary: n)
  case (Cons s services)
  from Cons.IH [of n] Cons.IH [of "n + 1"] show ?case by (auto split: option.splits bool.splits)
qed simp

lemma count_missing_zero:
  "count_missing session services n = n \<longleftrightarrow> (\<forall>s \<in> set services. session s = Some True)"
proof (induction services arbitrary: n)
  case (Cons s services)
  have "count_missing session services (n + 1) \<noteq> n" using count_missing_ge [of "n + 1" session services] by simp
  with Cons show ?case by (auto split: option.splits bool.splits)
qed simp

text \<open>a cycle of the rebooter asks for a restart exactly when some watched service has no session or
  tmux fails, and before that stops OpenTSDB exactly when it is watched and its probe times out or
  answers neither 200 nor 400.\<close>

theorem restart_when_missing:
  assumes "check_cycle services answer session = Inr ps"
  shows "ps = (if ''OPENTSDB'' \<in> set services \<and> (answer = TimedOut \<or> (\<exists>code. answer = Status code \<and> code \<notin> {200, 400}))
               then [stop_opentsdb] else []) @
              (if \<exists>s \<in> set services. session s \<noteq> Some True then [restart_services] else [])"
proof -
  obtain stops where stops: "(if ''OPENTSDB'' \<in> set services then test_opentsdb_connection answer else Inr []) = Inr stops"
    and ps: "ps = stops @ (if count_missing session services 0 \<noteq> 0 then [restart_services] else [])"
    using assms by (auto simp: check_cycle_def elim!: rbindE)
  then show ?thesis
    using count_missing_zero [of session services 0]
    by (auto simp: test_opentsdb_connection_def split: if_splits probe.splits)
qed

theorem restart_when_missing_witness:
  "[stop_opentsdb, restart_services] =
     (if ''OPENTSDB'' \<in> set (watched_services False True) \<and>
         (TimedOut = TimedOut \<or> (\<exists>code. TimedOut = Status code \<and> code \<notin> {200, 400})) then [stop_opentsdb] else []) @
     (if \<exists>s \<in> set (watched_services False True). (\<lambda>s. Some (s \<noteq> ''scaler'')) s \<noteq> Some True then [restart_services] else [])"
  by (rule restart_when_missing) code_simp

text \<open>The tags of the rebooter's playbooks are strings where lists are expected, so Ansible is given
  single letters for tags and never the tag that is meant: neither playbook does its work.\<close>

theorem rebooter_tags_scattered:
  "''restart_services'' \<notin> set (selected_tags restart_services) \<and>
   ''stop_opentsdb'' \<notin> set (selected_tags stop_opentsdb) \<and>
   (\<forall>t \<in> set (selected_tags restart_services) \<union> set (selected_tags stop_opentsdb). length t = 1)"
proof -
  have "selected_tags restart_services = characters ''restart_services''"
    "selected_tags stop_opentsdb = characters ''stop_opentsdb''"
    unfolding restart_services_def stop_opentsdb_def by (rule selected_tags_characters; simp)+
  then show ?thesis by (auto simp: characters_def)
qed

text \<open>The exclusion of template files never applies: the paths the observer reports start at the root.\<close>

theorem templates_not_excluded: "on_any_event (''/'' @ path) = [load_config]"
  by (simp add: on_any_event_def starts_with_def)

text \<open>The delay between two cycles is five heartbeats of a minute.\<close>

lemma five_heartbeats: "heartbeats 60 300 0 = 5"
  by (simp add: heartbeats.simps)

end
