(* ===== verification/Effects.thy ===== *)
theory Effects
  imports Ansible Inventory StateScripts
begin

text \<open>
  What the background tasks act on, and how they are composed.  A task is a function from the world to
  an outcome and a world.  The world holds the redis hashes, the stored results of Celery tasks, the
  inventory file, whether the inventory lock is held, and the trace of what was done so far.

  Everything outside answers according to the trace, which ends with the request being answered: an
  \<open>env\<close> record has one function per kind of answer.  Two requests of the same kind may so be answered
  differently, and nothing is assumed of the answers.

  A loop that polls is given fuel; running out of it is the outcome \<open>StillRunning\<close>.
\<close>

section \<open>The world\<close>

datatype call = Call string "json list"       \<comment> \<open>a Celery task and its arguments\<close>

datatype event =
    Ran playbook
  | RanAdhoc adhoc
  | Requested string string "json option"     \<comment> \<open>operation, URL, data\<close>
  | Fetched string
  | Launched string string                    \<comment> \<open>a service's local script\<close>
  | Waited string                             \<comment> \<open>for the script of a service\<close>
  | Dispatched call
  | Grouped "call list"
  | Polled
  | Queued json                               \<comment> \<open>a scaling request added to the database\<close>
  | Slept rat
  | Took_lock
  | Released_lock
  | Saved bool                                \<comment> \<open>the inventory, by a task; whether the lock was held\<close>
  | Measured bool                             \<comment> \<open>the inventory, by a script of a playbook; whether the lock was held\<close>

text \<open>The arguments of \<open>update_host_disks_bw_inv.py\<close>: what was measured of a disk of a host.\<close>

record measured =
  me_host :: string
  me_disk :: string
  me_read :: rat
  me_write :: rat
  me_unit :: string

record world =
  w_redis :: "string dict dict"
  w_results :: "(string \<times> string) dict"       \<comment> \<open>state and result of finished tasks\<close>
  w_inventory :: inventory
  w_locked :: bool
  w_trace :: "event list"

record env =
  env_playbook :: "event list \<Rightarrow> runner_result"
  env_measured :: "event list \<Rightarrow> measured list"  \<comment> \<open>the runs of \<open>update_host_disks_bw_inv.py\<close> of a playbook\<close>
  env_adhoc :: "event list \<Rightarrow> int"
  env_web :: "event list \<Rightarrow> http_response result"
  env_fetch :: "event list \<Rightarrow> json result"
  env_script :: "event list \<Rightarrow> int \<times> string"     \<comment> \<open>return code, standard error\<close>
  env_ready :: "event list \<Rightarrow> bool"
  env_group :: "event list \<Rightarrow> exn option"
  env_task_id :: "event list \<Rightarrow> string"
  env_clock :: "event list \<Rightarrow> rat"
  env_stamp :: "event list \<Rightarrow> string"             \<comment> \<open>\<open>time.strftime\<close>\<close>
  env_text :: "string \<Rightarrow> string"                   \<comment> \<open>the text of an HTML answer\<close>
  env_timestamp :: "string \<Rightarrow> rat"                 \<comment> \<open>\<open>datetime.fromisoformat\<close>\<close>
  env_message :: "exn \<Rightarrow> string"                   \<comment> \<open>\<open>str(e)\<close>\<close>
  env_expandvars :: "string \<Rightarrow> string"
  env_platform :: obj                              \<comment> \<open>\<open>settings.PLATFORM_CONFIG\<close> and \<open>config.yml\<close>\<close>
  env_vars :: obj                                  \<comment> \<open>\<open>settings.VARS_CONFIG\<close>, \<open>vars/main.yml\<close>\<close>
  env_base_url :: string
  env_installation_path :: string

datatype 'a outcome = Returned 'a | Raised exn | StillRunning

type_synonym 'a m = "world \<Rightarrow> 'a outcome \<times> world"

section \<open>Composition\<close>

definition returnM :: "'a \<Rightarrow> 'a m" where
  "returnM x w = (Returned x, w)"

definition raiseM :: "exn \<Rightarrow> 'a m" where
  "raiseM e w = (Raised e, w)"

definition still_running :: "'a m" where
  "still_running w = (StillRunning, w)"

definition bindM :: "'a m \<Rightarrow> ('a \<Rightarrow> 'b m) \<Rightarrow> 'b m" where
  "bindM p f w = (case p w of
     (Returned x, w') \<Rightarrow> f x w' | (Raised e, w') \<Rightarrow> (Raised e, w') | (StillRunning, w') \<Rightarrow> (StillRunning, w'))"

definition thenM :: "'a m \<Rightarrow> 'b m \<Rightarrow> 'b m" where
  "thenM p q = bindM p (\<lambda>_. q)"

text \<open>\<open>try: p / except Exception as e: handler\<close>\<close>

definition tryM :: "'a m \<Rightarrow> (exn \<Rightarrow> 'a m) \<Rightarrow> 'a m" where
  "tryM p handler w = (case p w of (Raised e, w') \<Rightarrow> handler e w' | r \<Rightarrow> r)"

text \<open>\<open>try: p / finally: q\<close>; an exception of \<open>q\<close> replaces the outcome of \<open>p\<close>.\<close>

definition finallyM :: "'a m \<Rightarrow> 'b m \<Rightarrow> 'a m" where
  "finallyM p q w = (case p w of
     (StillRunning, w') \<Rightarrow> (StillRunning, w')
   | (r, w') \<Rightarrow> (case q w' of (Returned _, w2) \<Rightarrow> (r, w2) | (Raised e, w2) \<Rightarrow> (Raised e, w2)
                | (StillRunning, w2) \<Rightarrow> (StillRunning, w2)))"

definition whenM :: "bool \<Rightarrow> unit m \<Rightarrow> unit m" where
  "whenM b p = (if b then p else returnM ())"

definition liftR :: "'a result \<Rightarrow> 'a m" where
  "liftR r = (case r of Inl e \<Rightarrow> raiseM e | Inr x \<Rightarrow> returnM x)"

fun forM :: "'a list \<Rightarrow> ('a \<Rightarrow> unit m) \<Rightarrow> unit m" where
  "forM [] f = returnM ()"
| "forM (x # xs) f = thenM (f x) (forM xs f)"

fun foldM :: "('a \<Rightarrow> 's \<Rightarrow> 's m) \<Rightarrow> 'a list \<Rightarrow> 's \<Rightarrow> 's m" where
  "foldM f [] s = returnM s"
| "foldM f (x # xs) s = bindM (f x s) (foldM f xs)"

text \<open>\<open>while not ready(): body\<close>, at most as often as there is fuel.\<close>

fun pollM :: "nat \<Rightarrow> bool m \<Rightarrow> unit m \<Rightarrow> unit m" where
  "pollM 0 ready body = still_running"
| "pollM (Suc fuel) ready body =
     bindM ready (\<lambda>r. if r then returnM () else thenM body (pollM fuel ready body))"

section \<open>Primitive effects\<close>

definition log_event :: "event \<Rightarrow> unit m" where
  "log_event ev w = (Returned (), w\<lparr>w_trace := w_trace w @ [ev]\<rparr>)"

definition ask :: "(event list \<Rightarrow> 'a) \<Rightarrow> 'a m" where
  "ask f w = (Returned (f (w_trace w)), w)"

definition request :: "event \<Rightarrow> (event list \<Rightarrow> 'a) \<Rightarrow> 'a m" where
  "request ev f = thenM (log_event ev) (ask f)"

definition sleep :: "rat \<Rightarrow> unit m" where
  "sleep seconds = (if seconds < 0 then raiseM (ValueError ''sleep length must be non-negative'')
     else log_event (Slept seconds))"

text \<open>A \<open>with\<close> statement: the block runs between entering and leaving, and leaving happens however it ends.\<close>

definition bracket :: "unit m \<Rightarrow> unit m \<Rightarrow> 'a m \<Rightarrow> 'a m" where
  "bracket enter leave block = thenM enter (finallyM block leave)"

text \<open>\<open>with redis_server.lock(lock_key)\<close>: a holder that asks again waits for ever.\<close>

definition take_lock :: "unit m" where
  "take_lock w = (if w_locked w then (StillRunning, w)
     else (Returned (), w\<lparr>w_locked := True, w_trace := w_trace w @ [Took_lock]\<rparr>))"

definition release_lock :: "unit m" where
  "release_lock w = (Returned (), w\<lparr>w_locked := False, w_trace := w_trace w @ [Released_lock]\<rparr>)"

definition with_lock :: "'a m \<Rightarrow> 'a m" where
  "with_lock block = bracket take_lock release_lock block"

text \<open>An operation of \<open>update_inventory_file.py\<close>: it loads the file, changes it and saves it; when the
  change raises, nothing is saved.\<close>

definition change_inventory :: "(inventory \<Rightarrow> (inventory \<times> 'a) result) \<Rightarrow> 'a m" where
  "change_inventory f w = (case f (w_inventory w) of
     Inl e \<Rightarrow> (Raised e, w)
   | Inr (doc, x) \<Rightarrow> (Returned x, w\<lparr>w_inventory := doc, w_trace := w_trace w @ [Saved (w_locked w)]\<rparr>))"

definition store :: "(inventory \<Rightarrow> inventory result) \<Rightarrow> unit m" where
  "store f = change_inventory (\<lambda>doc. rbind (f doc) (\<lambda>doc'. Inr (doc', ())))"

text \<open>Hashes: \<open>hset\<close>, \<open>hget\<close>, \<open>delete\<close>.\<close>

definition hset :: "string \<Rightarrow> string \<Rightarrow> string \<Rightarrow> unit m" where
  "hset key field v w = (Returned (),
     w\<lparr>w_redis := AList.update key (AList.update field v (get_or (w_redis w) key [])) (w_redis w)\<rparr>)"

definition hget :: "string \<Rightarrow> string \<Rightarrow> string option m" where
  "hget key field w = (Returned (map_of (get_or (w_redis w) key []) field), w)"

definition delete_key :: "string \<Rightarrow> unit m" where
  "delete_key key w = (Returned (), w\<lparr>w_redis := pop_key key (w_redis w)\<rparr>)"

definition redis_keys :: "string list m" where
  "redis_keys w = (Returned (keys_of (w_redis w)), w)"

text \<open>\<open>web_request\<close> of \<open>web_utils.py\<close>: the error string and the answer.\<close>

definition supported_operation :: "string \<Rightarrow> bool" where
  "supported_operation operation \<longleftrightarrow> operation \<in> {''put'', ''post'', ''delete''}"

definition send_data :: "json option \<Rightarrow> json option" where   \<comment> \<open>\<open>if data:\<close>\<close>
  "send_data d = (case d of Some v \<Rightarrow> if jtruthy v then Some v else None | None \<Rightarrow> None)"

definition web_request :: "env \<Rightarrow> string \<Rightarrow> string \<Rightarrow> string \<Rightarrow> json option \<Rightarrow> (string \<times> http_response) m" where
  "web_request E url operation error_message d =
     (if \<not> supported_operation operation then raiseM (PyException ''HTTP operation not supported'')
      else bindM (request (Requested operation url (send_data d)) (env_web E)) (\<lambda>answer.
           bindM (liftR answer) (\<lambda>response.
           returnM (web_error (env_text E) error_message response, response))))"

text \<open>\<open>getDbData\<close>: an HTTP error gives the empty document.  The answer \<open>Inl (PyException _)\<close> of the
  environment stands for \<open>urllib.error.HTTPError\<close>, any other exception passes.\<close>

definition getDbData :: "env \<Rightarrow> string \<Rightarrow> json m" where
  "getDbData E url = bindM (request (Fetched url) (env_fetch E)) (\<lambda>answer.
     case answer of Inr v \<Rightarrow> returnM v | Inl (PyException _) \<Rightarrow> returnM (JObj []) | Inl e \<Rightarrow> raiseM e)"

definition fetch :: "env \<Rightarrow> string \<Rightarrow> json m" where
  "fetch E url = bindM (request (Fetched url) (env_fetch E)) liftR"

text \<open>
  The install playbook measures the disks of its hosts, unless it is limited to other tags
  (\<open>tasks/install/measure_disks_bandwidth.yml\<close>); for each it runs \<open>scripts/hosts/update_host_disks_bw_inv.py\<close>,
  which loads, changes and saves the inventory and knows nothing of the lock.  Which disks are measured, and
  what, is an answer of the environment; a script that raises saves nothing.
\<close>

definition measures_disks :: "string \<Rightarrow> string list \<Rightarrow> bool" where
  "measures_disks name tags \<longleftrightarrow>
     name = ''install_playbook.yml'' \<and> (tags = [] \<or> ''extend_lv'' \<in> set tags \<or> ''add_disks'' \<in> set tags)"

declare measures_disks_def [simp]

definition update_host_disks_bw_inv :: "measured \<Rightarrow> inventory \<Rightarrow> inventory result" where
  "update_host_disks_bw_inv m doc =
     rbind (item bandwidth_conversion (me_unit m)) (\<lambda>factor.
     update_disk (me_host m) (me_disk m)
       [(''read_bw'', ANum (of_int (py_round (me_read m * factor)))),
        (''write_bw'', ANum (of_int (py_round (me_write m * factor))))] doc)"

definition save_measured :: "measured \<Rightarrow> unit m" where
  "save_measured m w = (case update_host_disks_bw_inv m (w_inventory w) of
     Inl e \<Rightarrow> (Returned (), w)
   | Inr doc \<Rightarrow> (Returned (), w\<lparr>w_inventory := doc, w_trace := w_trace w @ [Measured (w_locked w)]\<rparr>))"

definition measure_disks :: "env \<Rightarrow> string \<Rightarrow> string list \<Rightarrow> unit m" where
  "measure_disks E name tags =
     whenM (measures_disks name tags) (bindM (ask (env_measured E)) (\<lambda>ms. forM ms save_measured))"

definition run_playbook ::
  "env \<Rightarrow> string \<Rightarrow> string list \<Rightarrow> string list \<Rightarrow> obj \<Rightarrow> outputs m" where
  "run_playbook E name tags hosts extravars =
     bindM (request (Ran (playbook_config name tags hosts extravars)) (env_playbook E)) (\<lambda>r.
     thenM (measure_disks E name tags) (
     liftR (playbook_outputs (env_timestamp E) False r)))"

definition run_adhoc :: "env \<Rightarrow> string list \<Rightarrow> string \<Rightarrow> string \<Rightarrow> obj \<Rightarrow> bool \<Rightarrow> unit m" where
  "run_adhoc E hosts action args extravars ignore_failure =
     bindM (request (RanAdhoc (adhoc_config hosts action (Some args) extravars)) (env_adhoc E)) (\<lambda>status.
     liftR (adhoc_outcome ignore_failure status))"

text \<open>A flag of the configuration: a missing key raises.\<close>

definition config_flag :: "env \<Rightarrow> string \<Rightarrow> bool m" where
  "config_flag E key = liftR (rbind (item (env_platform E) key) (\<lambda>v. Inr (jtruthy v)))"

definition config_text :: "obj \<Rightarrow> string \<Rightarrow> string m" where
  "config_text d key = liftR (rbind (item d key) jstr)"

section \<open>Reasoning\<close>

text \<open>\<open>I\<close> is an invariant of \<open>p\<close>: whatever the outcome, the world after satisfies it again.\<close>

definition keeps :: "(world \<Rightarrow> bool) \<Rightarrow> 'a m \<Rightarrow> bool" where
  "keeps I p \<longleftrightarrow> (\<forall>w. I w \<longrightarrow> I (snd (p w)))"

named_theorems keeps_intro \<open>invariants of composed tasks\<close>

lemma keepsI: "(\<And>w. I w \<Longrightarrow> I (snd (p w))) \<Longrightarrow> keeps I p"
  by (simp add: keeps_def)

lemma keepsD: "keeps I p \<Longrightarrow> I w \<Longrightarrow> I (snd (p w))"
  by (simp add: keeps_def)

lemma keeps_basic [keeps_intro]:
  "keeps I (returnM x)" "keeps I (raiseM e)" "keeps I still_running" "keeps I (liftR r)" "keeps I (ask f)"
  by (auto simp: keeps_def returnM_def raiseM_def still_running_def liftR_def ask_def split: sum.splits)

lemma keeps_bindM [keeps_intro]:
  assumes "keeps I p" "\<And>x. keeps I (f x)"
  shows "keeps I (bindM p f)"
proof (rule keepsI)
  fix w assume "I w"
  with assms(1) have "I (snd (p w))" by (rule keepsD)
  with assms(2) show "I (snd (bindM p f w))"
    by (auto simp: bindM_def keeps_def split: prod.splits outcome.splits)
qed

lemma keeps_thenM [keeps_intro]: "keeps I p \<Longrightarrow> keeps I q \<Longrightarrow> keeps I (thenM p q)"
  by (simp add: thenM_def keeps_bindM)

lemma keeps_tryM [keeps_intro]:
  assumes "keeps I p" "\<And>e. keeps I (h e)"
  shows "keeps I (tryM p h)"
proof (rule keepsI)
  fix w assume "I w"
  with assms(1) have "I (snd (p w))" by (rule keepsD)
  with assms(2) show "I (snd (tryM p h w))"
    by (auto simp: tryM_def keeps_def split: prod.splits outcome.splits)
qed

lemma keeps_finallyM [keeps_intro]:
  assumes "keeps I p" "keeps I q"
  shows "keeps I (finallyM p q)"
proof (rule keepsI)
  fix w assume "I w"
  obtain r w1 where p: "p w = (r, w1)" by (cases "p w")
  with keepsD [OF assms(1) \<open>I w\<close>] have "I w1" by simp
  from keepsD [OF assms(2) this] \<open>I w1\<close> show "I (snd (finallyM p q w))"
    by (cases r) (auto simp: finallyM_def p split: prod.splits outcome.splits)
qed

lemma keeps_bracket: "keeps I p \<Longrightarrow> keeps I q \<Longrightarrow> keeps I b \<Longrightarrow> keeps I (bracket p q b)"
  by (auto simp: bracket_def intro!: keeps_intro)

lemma keeps_whenM [keeps_intro]: "keeps I p \<Longrightarrow> keeps I (whenM b p)"
  by (simp add: whenM_def keeps_basic)

lemma keeps_if [keeps_intro]: "(b \<Longrightarrow> keeps I p) \<Longrightarrow> (\<not> b \<Longrightarrow> keeps I q) \<Longrightarrow> keeps I (if b then p else q)"
  by simp

lemma keeps_forM [keeps_intro]: "(\<And>x. x \<in> set xs \<Longrightarrow> keeps I (f x)) \<Longrightarrow> keeps I (forM xs f)"
  by (induction xs) (auto intro!: keeps_intro)

lemma keeps_foldM [keeps_intro]: "(\<And>x s. x \<in> set xs \<Longrightarrow> keeps I (f x s)) \<Longrightarrow> keeps I (foldM f xs s)"
  by (induction xs arbitrary: s) (auto intro!: keeps_intro)

lemma keeps_pollM [keeps_intro]: "keeps I r \<Longrightarrow> keeps I b \<Longrightarrow> keeps I (pollM fuel r b)"
  by (induction fuel) (auto intro!: keeps_intro)

lemma keeps_case_option [keeps_intro]:
  "keeps I p \<Longrightarrow> (\<And>x. keeps I (f x)) \<Longrightarrow> keeps I (case v of None \<Rightarrow> p | Some x \<Rightarrow> f x)"
  by (cases v) auto

lemma keeps_case_prod [keeps_intro]: "(\<And>x y. keeps I (f x y)) \<Longrightarrow> keeps I (case v of (x, y) \<Rightarrow> f x y)"
  by (cases v) auto

text \<open>A task that never waits for ever.\<close>

definition finishes :: "'a m \<Rightarrow> bool" where
  "finishes p \<longleftrightarrow> (\<forall>w. fst (p w) \<noteq> StillRunning)"

named_theorems finishes_intro \<open>termination of composed tasks\<close>

lemma finishes_basic [finishes_intro]:
  "finishes (returnM x)" "finishes (raiseM e)" "finishes (liftR r)" "finishes (ask f)" "finishes (log_event ev)"
  "finishes (change_inventory g)" "finishes (store h)"
  by (auto simp: finishes_def returnM_def raiseM_def liftR_def ask_def log_event_def change_inventory_def store_def
      split: sum.splits prod.splits)

lemma finishes_redis [finishes_intro]:
  "finishes (hset k f v)" "finishes (hget k f)" "finishes (delete_key k)" "finishes redis_keys"
  by (auto simp: finishes_def hset_def hget_def delete_key_def redis_keys_def)

lemma finishes_bindM [finishes_intro]:
  assumes "finishes p" "\<And>x. finishes (f x)"
  shows "finishes (bindM p f)"
  using assms by (auto simp: finishes_def bindM_def split: prod.splits outcome.splits) (metis fst_conv)

lemma finishes_thenM [finishes_intro]: "finishes p \<Longrightarrow> finishes q \<Longrightarrow> finishes (thenM p q)"
  by (simp add: thenM_def finishes_bindM)

lemma finishes_tryM [finishes_intro]:
  assumes "finishes p" "\<And>e. finishes (h e)"
  shows "finishes (tryM p h)"
  using assms by (auto simp: finishes_def tryM_def split: prod.splits outcome.splits) (metis fst_conv)

lemma finishes_finallyM [finishes_intro]:
  assumes "finishes p" "finishes q"
  shows "finishes (finallyM p q)"
  using assms by (auto simp: finishes_def finallyM_def split: prod.splits outcome.splits) (metis fst_conv)+

lemma finishes_whenM [finishes_intro]: "finishes p \<Longrightarrow> finishes (whenM b p)"
  by (simp add: whenM_def finishes_basic)

lemma finishes_if [finishes_intro]: "(b \<Longrightarrow> finishes p) \<Longrightarrow> (\<not> b \<Longrightarrow> finishes q) \<Longrightarrow> finishes (if b then p else q)"
  by simp

lemma finishes_forM [finishes_intro]: "(\<And>x. x \<in> set xs \<Longrightarrow> finishes (f x)) \<Longrightarrow> finishes (forM xs f)"
  by (induction xs) (auto intro!: finishes_intro)

lemma finishes_foldM [finishes_intro]: "(\<And>x s. x \<in> set xs \<Longrightarrow> finishes (f x s)) \<Longrightarrow> finishes (foldM f xs s)"
  by (induction xs arbitrary: s) (auto intro!: finishes_intro)

lemma finishes_request [finishes_intro]: "finishes (request ev f)"
  by (auto simp: request_def intro!: finishes_intro)

lemma finishes_sleep [finishes_intro]: "finishes (sleep x)"
  by (auto simp: sleep_def intro!: finishes_intro)

lemma finishes_case_option [finishes_intro]:
  "finishes p \<Longrightarrow> (\<And>x. finishes (f x)) \<Longrightarrow> finishes (case v of None \<Rightarrow> p | Some x \<Rightarrow> f x)"
  by (cases v) auto

lemma finishes_case_prod [finishes_intro]: "(\<And>x y. finishes (f x y)) \<Longrightarrow> finishes (case v of (x, y) \<Rightarrow> f x y)"
  by (cases v) auto

lemma finishes_measure [finishes_intro]: "finishes (measure_disks E n t)"
proof -
  have "finishes (save_measured m)" for m by (simp add: finishes_def save_measured_def split: sum.splits)
  then show ?thesis unfolding measure_disks_def by (intro finishes_intro)
qed

lemma finishes_web [finishes_intro]:
  "finishes (web_request E u x msg d)" "finishes (run_playbook E n t h v)" "finishes (run_adhoc E hs a as ev i)"
  "finishes (fetch E u)" "finishes (config_flag E k)" "finishes (config_text c k)" "finishes (getDbData E u)"
  by (auto simp: web_request_def run_playbook_def run_adhoc_def fetch_def config_flag_def config_text_def getDbData_def
      intro!: finishes_intro split: sum.splits exn.splits)

text \<open>The inventory lock: it is free between tasks, and every save a task made of the file happened under it.\<close>

definition saves_locked :: "event list \<Rightarrow> bool" where
  "saves_locked tr \<longleftrightarrow> Saved False \<notin> set tr"

definition lock_free :: "world \<Rightarrow> bool" where
  "lock_free w \<longleftrightarrow> \<not> w_locked w \<and> saves_locked (w_trace w)"

definition lock_held :: "world \<Rightarrow> bool" where
  "lock_held w \<longleftrightarrow> w_locked w \<and> saves_locked (w_trace w)"

text \<open>Events that are no save keep both.\<close>

definition no_save :: "event \<Rightarrow> bool" where
  "no_save ev \<longleftrightarrow> ev \<noteq> Saved False"

lemma keeps_log_lock [keeps_intro]:
  "no_save ev \<Longrightarrow> keeps lock_free (log_event ev)" "no_save ev \<Longrightarrow> keeps lock_held (log_event ev)"
  by (auto simp: keeps_def log_event_def lock_free_def lock_held_def saves_locked_def no_save_def)

lemma keeps_request [keeps_intro]:
  "keeps I (log_event ev) \<Longrightarrow> keeps I (request ev f)"
  by (simp add: request_def keeps_intro)

lemma no_save_simps [simp]:
  "no_save (Ran p)" "no_save (RanAdhoc a)" "no_save (Requested x u d)" "no_save (Fetched u)"
  "no_save (Launched s t)" "no_save (Waited s)" "no_save (Dispatched c)" "no_save (Grouped cs)" "no_save Polled" "no_save (Queued q)"
  "no_save (Slept r)" "no_save Took_lock" "no_save Released_lock" "no_save (Measured b)"
  by (simp_all add: no_save_def)

lemma keeps_redis [keeps_intro]:
  "keeps lock_free (hset k f v)" "keeps lock_free (hget k f)" "keeps lock_free (delete_key k)" "keeps lock_free redis_keys"
  by (auto simp: keeps_def hset_def hget_def delete_key_def redis_keys_def lock_free_def)

lemma keeps_sleep [keeps_intro]: "keeps lock_free (sleep x)"
  by (auto simp: sleep_def intro!: keeps_intro)

lemma keeps_store_held [keeps_intro]: "keeps lock_held (change_inventory f)" "keeps lock_held (store g)"
  by (auto simp: keeps_def store_def change_inventory_def lock_held_def saves_locked_def split: sum.splits prod.splits)

lemma keeps_with_lock [keeps_intro]:
  assumes "keeps lock_held p" "finishes p"
  shows "keeps lock_free (with_lock p)"
proof (rule keepsI)
  fix w assume w: "lock_free w"
  let ?w = "w\<lparr>w_locked := True, w_trace := w_trace w @ [Took_lock]\<rparr>"
  have "lock_held ?w" using w by (simp add: lock_free_def lock_held_def saves_locked_def)
  obtain r w1 where p: "p ?w = (r, w1)" by (cases "p ?w")
  with keepsD [OF assms(1) \<open>lock_held ?w\<close>] have h: "lock_held w1" by simp
  have "r \<noteq> StillRunning" using assms(2) p unfolding finishes_def by (metis fst_conv)
  show "lock_free (snd (with_lock p w))"
    using w p h \<open>r \<noteq> StillRunning\<close>
    by (cases r) (auto simp: with_lock_def bracket_def thenM_def bindM_def take_lock_def finallyM_def release_lock_def
        lock_free_def lock_held_def saves_locked_def)
qed

lemma finishes_lock: "\<not> w_locked w \<Longrightarrow> finishes p \<Longrightarrow> fst (with_lock p w) \<noteq> StillRunning"
  unfolding with_lock_def bracket_def thenM_def bindM_def take_lock_def finallyM_def release_lock_def finishes_def
  by (auto split: prod.splits outcome.splits) (metis fst_conv)+

text \<open>What the measuring scripts keep, a playbook that measures disks keeps.\<close>

lemma keeps_measure_disks:
  "(measures_disks n t \<Longrightarrow> (\<And>m. keeps I (save_measured m))) \<Longrightarrow> keeps I (measure_disks E n t)"
  by (auto simp: measure_disks_def whenM_def intro!: keeps_intro)

lemma keeps_save_measured [keeps_intro]: "keeps lock_free (save_measured m)"
  by (auto simp: keeps_def save_measured_def lock_free_def saves_locked_def split: sum.splits)

lemma keeps_web [keeps_intro]:
  "keeps lock_free (web_request E u x msg d)" "keeps lock_free (run_playbook E n t h v)"
  "keeps lock_free (run_adhoc E hs a as ev i)" "keeps lock_free (fetch E u)" "keeps I (config_flag E k)"
  "keeps I (config_text c k)" "keeps lock_free (getDbData E u)"
  by (auto simp: web_request_def run_playbook_def run_adhoc_def fetch_def config_flag_def config_text_def getDbData_def
      intro!: keeps_intro keeps_measure_disks split: sum.splits exn.splits)

section \<open>With statements\<close>

text \<open>What the client of a \<open>with\<close> statement relies on: leaving establishes a condition whatever happened before.\<close>

locale guarded_block =
  fixes enter leave :: "unit m"
    and restored :: "world \<Rightarrow> bool"
  assumes leave_restores: "restored (snd (leave w))"
begin

lemma restored_after:
  assumes "fst (enter w) = Returned ()" "fst (block (snd (enter w))) \<noteq> StillRunning"
  shows "restored (snd (bracket enter leave block w))"
proof -
  obtain v where v: "enter w = (Returned (), v)" using assms(1) by (metis prod.collapse)
  obtain r u where b: "block v = (r, u)" by (cases "block v")
  obtain q x where l: "leave u = (q, x)" by (cases "leave u")
  have "r \<noteq> StillRunning" using assms(2) v b by simp
  then have "snd (bracket enter leave block w) = x"
    using v b l by (cases r; cases q) (simp_all add: bracket_def thenM_def bindM_def finallyM_def)
  with leave_restores [of u] l show ?thesis by simp
qed

lemma not_entered:
  "fst (enter w) = Raised e \<Longrightarrow> bracket enter leave block w = (Raised e, snd (enter w))"
  by (cases "enter w") (simp add: bracket_def thenM_def bindM_def)

end

interpretation inventory_lock: guarded_block take_lock release_lock "\<lambda>w. \<not> w_locked w"
  by unfold_locales (simp add: release_lock_def)

section \<open>Tasks that come to an end\<close>

text \<open>Started with the lock free, the task ends, with a value or an exception, and leaves the lock free.\<close>

definition completes :: "'a m \<Rightarrow> bool" where
  "completes p \<longleftrightarrow> (\<forall>w. lock_free w \<longrightarrow> lock_free (snd (p w)) \<and> fst (p w) \<noteq> StillRunning)"

named_theorems completes_intro \<open>tasks that end\<close>

lemma completesD: "completes p \<Longrightarrow> lock_free w \<Longrightarrow> lock_free (snd (p w)) \<and> fst (p w) \<noteq> StillRunning"
  by (simp add: completes_def)

lemma completes_keeps: "completes p \<Longrightarrow> keeps lock_free p"
  by (simp add: completes_def keeps_def)

lemma completesI: "keeps lock_free p \<Longrightarrow> finishes p \<Longrightarrow> completes p"
  by (simp add: completes_def keeps_def finishes_def)

lemma completes_basic [completes_intro]:
  "completes (returnM x)" "completes (raiseM e)" "completes (liftR r)" "completes (ask f)"
  "completes (hset k fd v)" "completes (hget k fd)" "completes (delete_key k)" "completes redis_keys" "completes (sleep t)"
  by (auto intro!: completesI keeps_intro finishes_intro)

lemma completes_effects [completes_intro]:
  "no_save ev \<Longrightarrow> completes (log_event ev)" "no_save ev \<Longrightarrow> completes (request ev g)"
  "completes (web_request E u x msg d)" "completes (run_playbook E n t h v)" "completes (run_adhoc E hs a as v i)"
  "completes (fetch E u)" "completes (config_flag E k)" "completes (config_text c k)" "completes (getDbData E u)"
  by (auto intro!: completesI keeps_intro finishes_intro)

lemma completes_bindM [completes_intro]:
  assumes "completes p" "\<And>x. completes (f x)"
  shows "completes (bindM p f)"
  unfolding completes_def
proof (intro allI impI)
  fix w assume "lock_free w"
  then show "lock_free (snd (bindM p f w)) \<and> fst (bindM p f w) \<noteq> StillRunning"
    using completesD [OF assms(1), of w] completesD [OF assms(2)]
    by (cases "p w") (auto simp: bindM_def split: outcome.splits)
qed

lemma completes_thenM [completes_intro]: "completes p \<Longrightarrow> completes q \<Longrightarrow> completes (thenM p q)"
  by (simp add: thenM_def completes_bindM)

lemma completes_tryM [completes_intro]:
  assumes "completes p" "\<And>e. completes (h e)"
  shows "completes (tryM p h)"
  unfolding completes_def
proof (intro allI impI)
  fix w assume "lock_free w"
  then show "lock_free (snd (tryM p h w)) \<and> fst (tryM p h w) \<noteq> StillRunning"
    using completesD [OF assms(1), of w] completesD [OF assms(2)]
    by (cases "p w") (auto simp: tryM_def split: outcome.splits)
qed

lemma completes_finallyM [completes_intro]:
  assumes "completes p" "completes q"
  shows "completes (finallyM p q)"
  unfolding completes_def
proof (intro allI impI)
  fix w assume "lock_free w"
  then show "lock_free (snd (finallyM p q w)) \<and> fst (finallyM p q w) \<noteq> StillRunning"
    using completesD [OF assms(1), of w] completesD [OF assms(2), of "snd (p w)"]
    by (cases "p w"; cases "q (snd (p w))") (auto simp: finallyM_def split: outcome.splits)
qed

lemma completes_bracket [completes_intro]:
  "completes p \<Longrightarrow> completes q \<Longrightarrow> completes b \<Longrightarrow> completes (bracket p q b)"
  by (auto simp: bracket_def intro!: completes_intro)

lemma completes_if [completes_intro]: "(b \<Longrightarrow> completes p) \<Longrightarrow> (\<not> b \<Longrightarrow> completes q) \<Longrightarrow> completes (if b then p else q)"
  by simp

lemma completes_whenM [completes_intro]: "completes p \<Longrightarrow> completes (whenM b p)"
  by (simp add: whenM_def completes_basic)

lemma completes_forM [completes_intro]: "(\<And>x. x \<in> set xs \<Longrightarrow> completes (f x)) \<Longrightarrow> completes (forM xs f)"
  by (induction xs) (auto intro!: completes_intro)

lemma completes_foldM [completes_intro]: "(\<And>x s. x \<in> set xs \<Longrightarrow> completes (f x s)) \<Longrightarrow> completes (foldM f xs s)"
  by (induction xs arbitrary: s) (auto intro!: completes_intro)

lemma completes_case_option [completes_intro]:
  "completes p \<Longrightarrow> (\<And>x. completes (f x)) \<Longrightarrow> completes (case v of None \<Rightarrow> p | Some x \<Rightarrow> f x)"
  by (cases v) auto

lemma completes_case_prod [completes_intro]: "(\<And>x y. completes (f x y)) \<Longrightarrow> completes (case v of (x, y) \<Rightarrow> f x y)"
  by (cases v) auto

lemma completes_with_lock [completes_intro]:
  assumes "keeps lock_held p" "finishes p"
  shows "completes (with_lock p)"
  using keepsD [OF keeps_with_lock [OF assms]] finishes_lock [OF _ assms(2)]
  by (auto simp: completes_def lock_free_def)

section \<open>What has happened stays in the trace\<close>

definition happened :: "event \<Rightarrow> world \<Rightarrow> bool" where
  "happened ev w \<longleftrightarrow> ev \<in> set (w_trace w)"

lemma keeps_happened [keeps_intro]:
  "keeps (happened ev) (log_event e)" "keeps (happened ev) (hset k f v)" "keeps (happened ev) (hget k f)"
  "keeps (happened ev) (delete_key k)" "keeps (happened ev) (change_inventory g)" "keeps (happened ev) (store h)"
  "keeps (happened ev) take_lock" "keeps (happened ev) release_lock" "keeps (happened ev) (sleep t)"
  "keeps (happened ev) (save_measured m)"
  by (auto simp: keeps_def happened_def log_event_def hset_def hget_def delete_key_def change_inventory_def store_def
      take_lock_def release_lock_def sleep_def raiseM_def save_measured_def split: sum.splits prod.splits)

end
