(* ===== verification/Playbooks.thy ===== *)
theory Playbooks
  imports Effects StateScripts
begin

text \<open>
  \<open>ui/run_playbooks.py\<close>: the Ansible runs the web service asks for.  \<open>vars/main.yml\<close> and
  \<open>config/config.yml\<close> are read from the environment.
\<close>

section \<open>Running playbooks for their effect\<close>

definition playbook_for :: "env \<Rightarrow> string \<Rightarrow> string list \<Rightarrow> string list \<Rightarrow> obj \<Rightarrow> unit m" where
  "playbook_for E name tags hosts extravars = thenM (run_playbook E name tags hosts extravars) (returnM ())"

definition jstrs :: "string list \<Rightarrow> json" where
  "jstrs xs = JArr (map JStr xs)"

definition manage_app :: string where
  "manage_app = ''manage_app_on_container.yml''"

definition check_container_bind_path :: "env \<Rightarrow> string \<Rightarrow> string \<Rightarrow> string m" where
  "check_container_bind_path E container bind_path =
     (if bind_path \<noteq> [] then returnM bind_path
      else bindM (config_text (env_vars E) ''bind_dir'') (\<lambda>d. returnM (join ''/'' [d, container])))"

section \<open>Hosts and disks\<close>

definition configure_host :: "env \<Rightarrow> string \<Rightarrow> unit m" where
  "configure_host E host_name =
     thenM (playbook_for E ''install_playbook.yml'' [] [host_name] [])
     (thenM (playbook_for E ''start_containers_playbook.yml'' [] [host_name, ''localhost''] [])
            (playbook_for E ''launch_playbook.yml'' [''add_hosts'', ''start_containers''] [] []))"

definition run_add_disks :: "env \<Rightarrow> string list \<Rightarrow> string \<Rightarrow> unit m" where
  "run_add_disks E host_names new_disks =
     thenM (playbook_for E ''install_playbook.yml'' [''add_disks''] host_names [(''new_disks_dict_str'', JStr new_disks)])
           (playbook_for E ''launch_playbook.yml'' [''add_disks''] [] [(''new_disks_dict_str'', JStr new_disks)])"

definition scaling_playbook :: "env \<Rightarrow> bool \<Rightarrow> unit m" where
  "scaling_playbook E enable =
     playbook_for E ''manage_scaling_services.yml''
       [if enable then ''enable_scaling_services'' else ''disable_scaling_services''] [] []"

text \<open>\<open>limit_containers_bw.main\<close>: the requests are computed from the structures and queued.\<close>

definition request_document :: "bw_request \<Rightarrow> json" where
  "request_document r = (case r of (name, res, amount) \<Rightarrow> JArr [JStr name, JStr res, JNum amount])"

definition run_limit_containers_bw :: "env \<Rightarrow> string \<Rightarrow> unit m" where
  "run_limit_containers_bw E hosts_str =
     bindM (fetch E (env_base_url E @ ''/structure/'')) (\<lambda>v.
     bindM (liftR (rbind (jarr v) (bw_requests hosts_str))) (\<lambda>rs.
     thenM (sleep 5) (forM rs (\<lambda>r. log_event (Queued (request_document r))))))"

definition extend_lv :: "env \<Rightarrow> string list \<Rightarrow> json \<Rightarrow> json \<Rightarrow> string \<Rightarrow> bool \<Rightarrow> unit m" where
  "extend_lv E host_names new_disks extra_disk measure_host_list throttle_containers_bw =
     thenM (whenM throttle_containers_bw
              (thenM (scaling_playbook E False) (run_limit_containers_bw E (py_repr (jstrs host_names)))))
     (thenM (playbook_for E ''install_playbook.yml'' [''extend_lv''] host_names
               [(''new_disks_list'', new_disks), (''extra_disk'', extra_disk), (''measure_host_list_str'', JStr measure_host_list)])
     (thenM (playbook_for E ''launch_playbook.yml'' [''extend_lv''] [] [(''host_list'', JStr (join '','' host_names))])
            (whenM throttle_containers_bw
              (thenM (scaling_playbook E True) (run_limit_containers_bw E (py_repr (jstrs host_names)))))))"

section \<open>Containers\<close>

definition run_start_containers :: "env \<Rightarrow> string list \<Rightarrow> string \<Rightarrow> unit m" where
  "run_start_containers E host_names containers_info =
     (let extravars = [(''host_list'', JStr (join '','' host_names)), (''containers_info_str'', JStr containers_info)]
      in thenM (playbook_for E ''start_containers_playbook.yml'' [''start_containers''] (host_names @ [''localhost'']) extravars)
               (playbook_for E ''launch_playbook.yml'' [''start_containers''] [] extravars))"

definition start_containers_with_app ::
  "env \<Rightarrow> string list \<Rightarrow> string \<Rightarrow> string \<Rightarrow> json \<Rightarrow> obj \<Rightarrow> unit m" where
  "start_containers_with_app E host_names containers_info app_name app_type app_files =
     thenM (playbook_for E ''start_containers_playbook.yml'' [''start_containers''] (host_names @ [''localhost''])
              (dict_update [(''host_list'', JStr (join '','' host_names)), (''containers_info_str'', JStr containers_info),
                            (''app_type'', app_type)] app_files))
           (playbook_for E ''launch_playbook.yml'' [''start_containers''] []
              [(''host_list'', jstrs host_names), (''containers_info_str'', JStr containers_info), (''app_name'', JStr app_name)])"

definition stop_command :: "string \<Rightarrow> string \<Rightarrow> string \<Rightarrow> string option" where
  "stop_command engine alias container =
     (if engine = ''lxc'' then Some (''lxc stop '' @ container @ '' || lxc stop -f '' @ container)
      else if engine = ''apptainer''
      then Some (''sudo '' @ alias @ '' instance stop '' @ container @ '' || sudo '' @ alias @ '' instance stop -f '' @ container)
      else None)"

definition run_stop_container :: "env \<Rightarrow> string \<Rightarrow> string \<Rightarrow> string \<Rightarrow> bool \<Rightarrow> unit m" where
  "run_stop_container E host_name container bind_path clean_bind_dir =
     bindM (config_text (env_platform E) ''container_engine'') (\<lambda>engine.
     bindM (config_text (env_platform E) ''singularity_command_alias'') (\<lambda>alias.
     bindM (liftR (item (env_platform E) ''cgroups_version'')) (\<lambda>_.
     thenM (case stop_command engine alias container of
              None \<Rightarrow> raiseM (PyException ''No valid container engine'')
            | Some cmd \<Rightarrow> run_adhoc E [host_name] ''shell'' cmd [] True)
     (whenM clean_bind_dir
        (bindM (check_container_bind_path E container bind_path) (\<lambda>path.
         run_adhoc E [host_name] ''file'' (''path='' @ path @ '' state=absent'') (env_vars E) False))))))"

definition setup_network_on_containers :: "env \<Rightarrow> string list \<Rightarrow> string \<Rightarrow> string \<Rightarrow> unit m" where
  "setup_network_on_containers E host_names containers_info app_name =
     playbook_for E manage_app [''setup_network''] host_names
       [(''containers_info_str'', JStr containers_info), (''app_name'', JStr app_name)]"

section \<open>Applications\<close>

definition create_app :: "env \<Rightarrow> obj \<Rightarrow> unit m" where
  "create_app E app_files = playbook_for E ''start_containers_playbook.yml'' [''create_app''] [] app_files"

definition start_app_on_container ::
  "env \<Rightarrow> string \<Rightarrow> string \<Rightarrow> string \<Rightarrow> obj \<Rightarrow> string \<Rightarrow> obj \<Rightarrow> unit m" where
  "start_app_on_container E host_name container app_name app_files bind_path global_hdfs_data =
     bindM (check_container_bind_path E container bind_path) (\<lambda>path.
     playbook_for E manage_app [''start_app''] [host_name]
       (dict_update (dict_update
          [(''container'', JStr container), (''app_name'', JStr app_name), (''container_bind_dir'', JStr path)]
          app_files) global_hdfs_data))"

definition wait_for_app_on_container :: "env \<Rightarrow> string \<Rightarrow> string \<Rightarrow> unit m" where
  "wait_for_app_on_container E host_name container =
     playbook_for E manage_app [''wait_app''] [host_name] [(''container'', JStr container)]"

definition stop_app_on_container ::
  "env \<Rightarrow> string \<Rightarrow> string \<Rightarrow> string \<Rightarrow> obj \<Rightarrow> string \<Rightarrow> string \<Rightarrow> json \<Rightarrow> rat \<Rightarrow> rat \<Rightarrow> unit m" where
  "stop_app_on_container E host_name container app_name app_files rm_container bind_path timestamp download_time upload_time =
     bindM (check_container_bind_path E container bind_path) (\<lambda>path.
     playbook_for E manage_app [''stop_app''] [host_name]
       (dict_update
          [(''container'', JStr container), (''app_name'', JStr app_name), (''container_bind_dir'', JStr path),
           (''rm_container'', JStr rm_container), (''timestamp'', timestamp), (''download_time'', JNum download_time),
           (''upload_time'', JNum upload_time)] app_files))"

section \<open>Services\<close>

definition disable_scaler :: "env \<Rightarrow> unit m" where
  "disable_scaler E = playbook_for E ''manage_scaling_services.yml'' [''disable_scaler''] [] []"

definition enable_scaler :: "env \<Rightarrow> unit m" where
  "enable_scaler E = playbook_for E ''manage_scaling_services.yml'' [''enable_scaler''] [] []"

definition stop_host_scaler :: "env \<Rightarrow> string \<Rightarrow> unit m" where
  "stop_host_scaler E host_name = playbook_for E ''stop_services_playbook.yml'' [''stop_node_scaler''] [host_name] []"

section \<open>Hadoop\<close>

definition cluster_vars :: "string \<Rightarrow> string \<Rightarrow> string \<Rightarrow> string \<Rightarrow> obj" where
  "cluster_vars app_name containers_info rm_host rm_container =
     [(''app_name'', JStr app_name), (''containers_info_str'', JStr containers_info), (''rm_host'', JStr rm_host),
      (''rm_container'', JStr rm_container)]"

definition setup_hadoop_network_on_containers ::
  "env \<Rightarrow> string list \<Rightarrow> string \<Rightarrow> obj \<Rightarrow> string \<Rightarrow> string \<Rightarrow> string \<Rightarrow> obj \<Rightarrow> bool \<Rightarrow> unit m" where
  "setup_hadoop_network_on_containers E host_names app_name app_files containers_info rm_host rm_container hadoop_conf start_zookeeper =
     playbook_for E manage_app
       ([''setup_network'', ''setup_hadoop''] @ (if start_zookeeper then [''start_zookeeper''] else []) @
        (if app_name = ''global_hdfs'' then [''copy_files''] else []))
       host_names
       (dict_update (dict_update (cluster_vars app_name containers_info rm_host rm_container) app_files) hadoop_conf)"

definition stop_hadoop_cluster :: "env \<Rightarrow> string \<Rightarrow> string \<Rightarrow> unit m" where
  "stop_hadoop_cluster E rm_host rm_container =
     playbook_for E manage_app [''stop_hadoop_cluster''] [rm_host] [(''rm_host'', JStr rm_host), (''rm_container'', JStr rm_container)]"

section \<open>HDFS\<close>

definition setup_hdfs_network ::
  "env \<Rightarrow> string list \<Rightarrow> string \<Rightarrow> json \<Rightarrow> string \<Rightarrow> string \<Rightarrow> string \<Rightarrow> obj \<Rightarrow> unit m" where
  "setup_hdfs_network E host_names app_name app_type containers_info rm_host rm_container hdfs_resources =
     playbook_for E manage_app [''setup_network'', ''setup_hdfs''] host_names
       (dict_update [(''app_name'', JStr app_name), (''app_type'', app_type), (''containers_info_str'', JStr containers_info),
          (''rm_host'', JStr rm_host), (''rm_container'', JStr rm_container)] hdfs_resources)"

definition start_hdfs_frontend ::
  "env \<Rightarrow> string list \<Rightarrow> string \<Rightarrow> string \<Rightarrow> string \<Rightarrow> string \<Rightarrow> unit m" where
  "start_hdfs_frontend E host_names app_type containers_info nn_host nn_container =
     playbook_for E ''start_containers_playbook.yml'' [''setup_hdfs''] host_names
       [(''app_type'', JStr app_type), (''containers_info_str'', JStr containers_info), (''nn_host'', JStr nn_host),
        (''nn_container'', JStr nn_container)]"

definition run_create_dir_on_hdfs :: "env \<Rightarrow> string \<Rightarrow> string \<Rightarrow> string \<Rightarrow> unit m" where
  "run_create_dir_on_hdfs E host_name namenode_container dir_to_create =
     playbook_for E manage_app [''create_dir_on_hdfs''] [host_name]
       [(''container'', JStr namenode_container), (''dest_path'', JStr dir_to_create)]"

definition run_remove_file_from_hdfs :: "env \<Rightarrow> string \<Rightarrow> string \<Rightarrow> string \<Rightarrow> unit m" where
  "run_remove_file_from_hdfs E host_name namenode_container path_to_remove =
     playbook_for E manage_app [''remove_file_from_hdfs''] [host_name]
       [(''container'', JStr namenode_container), (''dest_path'', JStr path_to_remove)]"

definition transfer_vars :: "string \<Rightarrow> string \<Rightarrow> string \<Rightarrow> string \<Rightarrow> obj" where
  "transfer_vars namenode_container origin_path dest_path frontend_container =
     [(''namenode_container'', JStr namenode_container), (''origin_path'', JStr origin_path),
      (''dest_path'', JStr dest_path), (''frontend_container'', JStr frontend_container)]"

definition run_add_file_to_hdfs :: "env \<Rightarrow> string \<Rightarrow> string \<Rightarrow> string \<Rightarrow> string \<Rightarrow> string \<Rightarrow> unit m" where
  "run_add_file_to_hdfs E host_name namenode_container file_to_add dest_path frontend_container =
     playbook_for E manage_app [''add_file_to_hdfs''] [host_name]
       (transfer_vars namenode_container file_to_add dest_path frontend_container)"

definition run_get_file_from_hdfs :: "env \<Rightarrow> string \<Rightarrow> string \<Rightarrow> string \<Rightarrow> string \<Rightarrow> string \<Rightarrow> unit m" where
  "run_get_file_from_hdfs E host_name namenode_container file_to_download dest_path frontend_container =
     playbook_for E manage_app [''get_file_from_hdfs''] [host_name]
       (transfer_vars namenode_container file_to_download dest_path frontend_container)"

definition transfer_tasks :: "string list" where
  "transfer_tasks = [''Get input data'', ''Put input data into target HDFS'', ''Remove file in temporary location'', ''Transfer data'']"

definition transfer_time :: "rat dict \<Rightarrow> rat" where
  "transfer_time task_timings = sum_list (map (\<lambda>t. get_or task_timings t 0) transfer_tasks)"

definition setup_hadoop_network_with_global_hdfs ::
  "env \<Rightarrow> string list \<Rightarrow> string \<Rightarrow> obj \<Rightarrow> string \<Rightarrow> string \<Rightarrow> string \<Rightarrow> obj \<Rightarrow> obj \<Rightarrow> rat m" where
  "setup_hadoop_network_with_global_hdfs E host_names app_name app_files containers_info rm_host rm_container hadoop_conf global_hdfs_data =
     bindM (liftR (rbind (item global_hdfs_data ''namenode_host'') jstr)) (\<lambda>namenode_host.
     bindM (run_playbook E manage_app [''setup_network'', ''setup_global_hdfs_connection'', ''setup_hadoop'', ''download_to_local'']
              (host_names @ [namenode_host])
              (dict_update (dict_update (dict_update (cluster_vars app_name containers_info rm_host rm_container)
                 app_files) hadoop_conf) global_hdfs_data)) (\<lambda>out.
     returnM (transfer_time (snd out))))"

definition upload_local_hdfs_data_to_global :: "env \<Rightarrow> string \<Rightarrow> string \<Rightarrow> obj \<Rightarrow> string \<Rightarrow> rat m" where
  "upload_local_hdfs_data_to_global E rm_host rm_container global_hdfs_data containers_info =
     (let extravars = dict_update [(''rm_host'', JStr rm_host), (''rm_container'', JStr rm_container),
            (''containers_info_str'', JStr containers_info)] global_hdfs_data
      in bindM (liftR (rbind (item global_hdfs_data ''namenode_host'') jstr)) (\<lambda>namenode_host.
         bindM (run_playbook E manage_app [''upload_to_global''] [namenode_host] extravars) (\<lambda>out.
         thenM (playbook_for E manage_app [''remove_global_hdfs_connection''] [] extravars)
               (returnM (transfer_time (snd out))))))"

definition clean_hdfs :: "env \<Rightarrow> string \<Rightarrow> string \<Rightarrow> unit m" where
  "clean_hdfs E host_name container = playbook_for E manage_app [''clean_hdfs''] [host_name] [(''container'', JStr container)]"

definition set_global_hdfs_replication :: "env \<Rightarrow> string \<Rightarrow> string \<Rightarrow> json \<Rightarrow> unit m" where
  "set_global_hdfs_replication E nn_host nn_container replication_factor =
     playbook_for E manage_app [''set_hdfs_replication''] [nn_host]
       [(''namenode_host'', JStr nn_host), (''namenode_container_name'', JStr nn_container), (''replication_factor'', replication_factor)]"

definition get_hdfs_filesystem :: "env \<Rightarrow> string \<Rightarrow> string \<Rightarrow> json m" where
  "get_hdfs_filesystem E namenode_host namenode_container_name =
     bindM (run_playbook E manage_app [''get_hdfs_filesystem''] [namenode_host]
        [(''namenode_host'', JStr namenode_host), (''namenode_container_name'', JStr namenode_container_name)]) (\<lambda>out.
     liftR (item (fst out) ''Get HDFS filesystem_stdout''))"

definition drop_host_caches :: "env \<Rightarrow> unit m" where
  "drop_host_caches E = playbook_for E ''start_containers_playbook.yml'' [''drop_caches''] [] []"

section \<open>Laws\<close>

lemmas playbook_defs =
  configure_host_def run_add_disks_def scaling_playbook_def run_start_containers_def start_containers_with_app_def
  setup_network_on_containers_def create_app_def start_app_on_container_def wait_for_app_on_container_def
  stop_app_on_container_def disable_scaler_def enable_scaler_def stop_host_scaler_def
  setup_hadoop_network_on_containers_def stop_hadoop_cluster_def setup_hdfs_network_def start_hdfs_frontend_def
  run_create_dir_on_hdfs_def run_remove_file_from_hdfs_def run_add_file_to_hdfs_def run_get_file_from_hdfs_def
  setup_hadoop_network_with_global_hdfs_def upload_local_hdfs_data_to_global_def clean_hdfs_def
  set_global_hdfs_replication_def get_hdfs_filesystem_def drop_host_caches_def

lemma keeps_playbook_for [keeps_intro]: "keeps lock_free (playbook_for E n t h v)"
  and finishes_playbook_for [finishes_intro]: "finishes (playbook_for E n t h v)"
  by (auto simp: playbook_for_def intro!: keeps_intro finishes_intro)

lemma bind_path_intro [keeps_intro, finishes_intro]:
  "keeps I (check_container_bind_path E c b)" "finishes (check_container_bind_path E c b)"
  by (auto simp: check_container_bind_path_def intro!: keeps_intro finishes_intro)

lemma keeps_playbooks [keeps_intro]:
  "keeps lock_free (configure_host E h)" "keeps lock_free (run_add_disks E hs d)" "keeps lock_free (scaling_playbook E en)"
  "keeps lock_free (run_start_containers E hs ci)" "keeps lock_free (start_containers_with_app E hs ci a ty fs)"
  "keeps lock_free (setup_network_on_containers E hs ci a)" "keeps lock_free (create_app E fs)"
  "keeps lock_free (start_app_on_container E h c a fs b g)" "keeps lock_free (wait_for_app_on_container E h c)"
  "keeps lock_free (stop_app_on_container E h c a fs rm b ts dt ut)" "keeps lock_free (stop_host_scaler E h)"
  "keeps lock_free (setup_hadoop_network_on_containers E hs a fs ci rh rc hc z)" "keeps lock_free (stop_hadoop_cluster E rh rc)"
  "keeps lock_free (start_hdfs_frontend E hs fty ci nh nc)"
  "keeps lock_free (setup_hadoop_network_with_global_hdfs E hs a fs ci rh rc hc gd)"
  "keeps lock_free (upload_local_hdfs_data_to_global E rh rc gd ci)" "keeps lock_free (clean_hdfs E h c)"
  "keeps lock_free (set_global_hdfs_replication E h c r)" "keeps lock_free (run_create_dir_on_hdfs E h c p)"
  "keeps lock_free (run_remove_file_from_hdfs E h c p)" "keeps lock_free (run_add_file_to_hdfs E h c p q f)"
  "keeps lock_free (run_get_file_from_hdfs E h c p q f)"
  by (auto simp: playbook_defs Let_def intro!: keeps_intro)

lemma keeps_stop_container [keeps_intro]: "keeps lock_free (run_stop_container E h c b cl)"
  by (auto simp: run_stop_container_def intro!: keeps_intro)

lemma finishes_stop [finishes_intro]:
  "finishes (run_stop_container E h c b cl)" "finishes (stop_app_on_container E h c a fs rm b ts dt ut)"
  by (auto simp: run_stop_container_def stop_app_on_container_def intro!: finishes_intro)

lemma keeps_queue [keeps_intro]: "keeps lock_free (run_limit_containers_bw E hs)" "keeps lock_free (extend_lv E hns nd ed mh th)"
  by (auto simp: run_limit_containers_bw_def extend_lv_def intro!: keeps_intro)

end
