(* ===== verification/TaskRegistry.thy ===== *)
theory TaskRegistry
  imports Effects
begin

text \<open>
  The registry of background tasks in redis, \<open>ui/background_tasks.py\<close> lines 36 to 137: a hash for every
  task the web page should report, the results Celery stores under the same server, and the counters of
  the active containers of an application.  \<open>scan_iter\<close> is taken to visit every key once.
\<close>

section \<open>Registered tasks\<close>

definition redis_prefix :: string where
  "redis_prefix = ''pending_tasks''"

definition task_key :: "string \<Rightarrow> string" where
  "task_key task_id = redis_prefix @ CHR '':'' # task_id"

definition register_task :: "string \<Rightarrow> string \<Rightarrow> unit m" where
  "register_task task_id task_name = hset (task_key task_id) ''task_name'' task_name"

definition store_result :: "string \<Rightarrow> string \<Rightarrow> string \<Rightarrow> unit m" where
  "store_result task_id state result w =
     (Returned (), w\<lparr>w_results := AList.update task_id (state, result) (w_results w)\<rparr>)"

definition upper :: "string \<Rightarrow> string" where
  "upper = map (\<lambda>c. if CHR ''a'' \<le> c \<and> c \<le> CHR ''z'' then char_of (of_char c - 32 :: nat) else c)"

definition create_artificial_task :: "env \<Rightarrow> string \<Rightarrow> string \<Rightarrow> string \<Rightarrow> string m" where
  "create_artificial_task E task_name status result =
     bindM (ask (env_task_id E)) (\<lambda>task_id.
     thenM (store_result task_id (upper status) result)
     (thenM (register_task task_id task_name) (returnM task_id)))"

definition update_task_runtime :: "string \<Rightarrow> string \<Rightarrow> unit m" where
  "update_task_runtime task_id runtime = hset (task_key task_id) ''runtime'' runtime"

definition remove_task :: "string \<Rightarrow> unit m" where
  "remove_task task_id = delete_key (task_key task_id)"

definition task_pattern :: "string \<Rightarrow> bool" where     \<comment> \<open>\<open>pending_tasks:*\<close>\<close>
  "task_pattern key \<longleftrightarrow> starts_with (redis_prefix @ '':'') key"

definition id_of_key :: "string \<Rightarrow> string" where
  "id_of_key key = drop (length redis_prefix + 1) key"

fun remove_first_named :: "string \<Rightarrow> string list \<Rightarrow> unit m" where
  "remove_first_named task_name [] = returnM ()"
| "remove_first_named task_name (key # keys) =
     bindM (hget key ''task_name'') (\<lambda>stored.
     if stored = Some task_name \<and> task_name \<noteq> [] \<and> id_of_key key \<noteq> [] then remove_task (id_of_key key)
     else remove_first_named task_name keys)"

definition remove_task_by_name :: "string \<Rightarrow> unit m" where
  "remove_task_by_name task_name =
     bindM redis_keys (\<lambda>keys. remove_first_named task_name (filter task_pattern keys))"

section \<open>Reporting\<close>

record task_report =
  t_id :: string
  t_name :: string
  t_runtime :: "string option"
  t_state :: string
  t_result :: string

text \<open>\<open>AsyncResult(task_id).status\<close>: a task without a stored result is pending.\<close>

definition async_result :: "world \<Rightarrow> string \<Rightarrow> string \<times> string" where
  "async_result w task_id = (case map_of (w_results w) task_id of None \<Rightarrow> (''PENDING'', []) | Some r \<Rightarrow> r)"

definition report_of :: "world \<Rightarrow> string \<Rightarrow> task_report" where
  "report_of w key =
     (let hash = get_or (w_redis w) key []; r = async_result w (id_of_key key)
      in \<lparr>t_id = id_of_key key, t_name = get_or hash ''task_name'' ''None'', t_runtime = map_of hash ''runtime'',
          t_state = fst r, t_result = snd r\<rparr>)"

definition is_pending :: "task_report \<Rightarrow> bool" where
  "is_pending r \<longleftrightarrow> t_state r \<noteq> ''SUCCESS'' \<and> t_state r \<noteq> ''FAILURE''"

definition is_successful :: "task_report \<Rightarrow> bool" where
  "is_successful r \<longleftrightarrow> t_state r = ''SUCCESS''"

definition is_failed :: "task_report \<Rightarrow> bool" where
  "is_failed r \<longleftrightarrow> \<not> is_pending r \<and> \<not> is_successful r"

definition forget :: "task_report \<Rightarrow> world \<Rightarrow> world" where
  "forget r w = w\<lparr>w_redis := pop_key (task_key (t_id r)) (w_redis w), w_results := pop_key (t_id r) (w_results w)\<rparr>"

definition get_pending_tasks :: "(task_report list \<times> task_report list \<times> task_report list) m" where
  "get_pending_tasks w =
     (let reports = map (report_of w) (filter task_pattern (keys_of (w_redis w)));
          still_pending_tasks = filter is_pending reports;
          successful_tasks = filter is_successful reports;
          failed_tasks = filter is_failed reports
      in (Returned (still_pending_tasks, successful_tasks, failed_tasks),
          fold forget failed_tasks (fold forget successful_tasks w)))"

definition pending_message :: "task_report \<Rightarrow> string" where
  "pending_message r = ''Task with ID '' @ t_id r @ '' and name '' @ t_name r @ '' is pending''"

definition success_message :: "task_report \<Rightarrow> string" where
  "success_message r =
     ''Task with ID '' @ t_id r @ '' and name '' @ t_name r @ '' has completed successfully'' @
     (case t_runtime r of Some s \<Rightarrow> '' in '' @ s @ '' seconds'' | None \<Rightarrow> [])"

definition failure_message :: "task_report \<Rightarrow> string" where
  "failure_message r = ''Task with ID '' @ t_id r @ '' and name '' @ t_name r @ '' has failed with error: '' @ t_result r"

type_synonym notices = "(string \<times> string) list"     \<comment> \<open>id and message\<close>

definition get_pending_tasks_messages :: "(notices \<times> notices \<times> notices) m" where
  "get_pending_tasks_messages =
     bindM get_pending_tasks (\<lambda>(pending, successful, failed).
     returnM (map (\<lambda>r. (t_id r, pending_message r)) pending,
              map (\<lambda>r. (t_id r, success_message r)) successful,
              map (\<lambda>r. (t_id r, failure_message r)) failed))"

section \<open>Counters of applications\<close>

definition app_key :: "string \<Rightarrow> string" where
  "app_key app_name = ''app:'' @ app_name"

definition create_app_counter :: "string \<Rightarrow> string \<Rightarrow> unit m" where
  "create_app_counter app_name initial_value = hset (app_key app_name) ''active_containers'' initial_value"

definition get_app_counter :: "string \<Rightarrow> string m" where
  "get_app_counter app_name =
     bindM (hget (app_key app_name) ''active_containers'') (\<lambda>v.
     case v of Some s \<Rightarrow> returnM s | None \<Rightarrow> raiseM (AttributeError ''decode''))"

definition remove_app_counter :: "string \<Rightarrow> unit m" where
  "remove_app_counter app_name = delete_key (app_key app_name)"

section \<open>Laws\<close>

lemma id_of_task_key [simp]: "id_of_key (task_key i) = i"
  by (simp add: id_of_key_def task_key_def)

lemma task_pattern_key [simp]: "task_pattern (task_key i)"
  using starts_with_append [of "redis_prefix @ '':''" i] by (simp add: task_pattern_def task_key_def)

lemma task_key_of_pattern: "task_pattern key \<Longrightarrow> task_key (id_of_key key) = key"
proof -
  assume "task_pattern key"
  then have "take (Suc (length redis_prefix)) key = redis_prefix @ '':''"
    by (simp add: task_pattern_def starts_with_def)
  then have "key = (redis_prefix @ '':'') @ drop (Suc (length redis_prefix)) key"
    by (metis append_take_drop_id)
  then show ?thesis by (simp add: task_key_def id_of_key_def)
qed

lemma task_key_inj [simp]: "task_key i = task_key j \<longleftrightarrow> i = j"
  by (simp add: task_key_def)

lemma app_key_no_task [simp]: "\<not> task_pattern (app_key a)"
  by (simp add: task_pattern_def app_key_def starts_with_def redis_prefix_def)

lemma keys_pop: "keys_of (pop_key k d) = filter (\<lambda>x. x \<noteq> k) (keys_of d)"
  by (simp add: keys_of_def pop_key_def filter_map comp_def)

lemma map_of_forget:
  "map_of (w_redis (fold forget rs w)) k = (if \<exists>r \<in> set rs. task_key (t_id r) = k then None else map_of (w_redis w) k)"
  "map_of (w_results (fold forget rs w)) i = (if \<exists>r \<in> set rs. t_id r = i then None else map_of (w_results w) i)"
  by (induction rs arbitrary: w) (auto simp: forget_def)

lemma keys_forget:
  "keys_of (w_redis (fold forget rs w)) = filter (\<lambda>k. \<forall>r \<in> set rs. task_key (t_id r) \<noteq> k) (keys_of (w_redis w))"
  by (induction rs arbitrary: w) (auto simp: forget_def keys_pop intro!: filter_cong)

lemma report_id: "task_pattern k \<Longrightarrow> task_key (t_id (report_of w k)) = k"
  by (simp add: report_of_def Let_def task_key_of_pattern)

text \<open>The keys that are left, and what is reported for them.\<close>

definition task_keys :: "world \<Rightarrow> string list" where
  "task_keys w = filter task_pattern (keys_of (w_redis w))"

lemma get_pending_eq:
  "get_pending_tasks w =
     (Returned (filter is_pending (map (report_of w) (task_keys w)), filter is_successful (map (report_of w) (task_keys w)),
                filter is_failed (map (report_of w) (task_keys w))),
      fold forget (filter is_successful (map (report_of w) (task_keys w)) @ filter is_failed (map (report_of w) (task_keys w))) w)"
  by (simp add: get_pending_tasks_def task_keys_def Let_def)

text \<open>Whether a task is reported as finished is decided by its own report.\<close>

definition finished :: "world \<Rightarrow> task_report list" where
  "finished w = filter is_successful (map (report_of w) (task_keys w)) @ filter is_failed (map (report_of w) (task_keys w))"

lemma finished_iff: "r \<in> set (finished w) \<longleftrightarrow> (\<exists>k \<in> set (task_keys w). r = report_of w k \<and> \<not> is_pending r)"
  by (auto simp: finished_def is_failed_def is_successful_def is_pending_def)

lemma finished_key:
  assumes "task_pattern k" "k \<in> set (task_keys w)"
  shows "(\<forall>r \<in> set (finished w). task_key (t_id r) \<noteq> k) \<longleftrightarrow> is_pending (report_of w k)"
proof
  assume none: "\<forall>r \<in> set (finished w). task_key (t_id r) \<noteq> k"
  show "is_pending (report_of w k)"
  proof (rule ccontr)
    assume "\<not> is_pending (report_of w k)"
    with assms(2) have "report_of w k \<in> set (finished w)" by (auto simp: finished_iff)
    with none report_id [OF assms(1)] show False by blast
  qed
next
  assume pending: "is_pending (report_of w k)"
  show "\<forall>r \<in> set (finished w). task_key (t_id r) \<noteq> k"
  proof
    fix r assume "r \<in> set (finished w)"
    then obtain j where j: "j \<in> set (task_keys w)" "r = report_of w j" "\<not> is_pending r" by (auto simp: finished_iff)
    then have "task_key (t_id r) = j" by (simp add: task_keys_def report_id)
    with j pending show "task_key (t_id r) \<noteq> k" by metis
  qed
qed

lemma kept_keys:
  "task_keys (snd (get_pending_tasks w)) = filter (\<lambda>k. is_pending (report_of w k)) (task_keys w)"
proof -
  have "task_keys (snd (get_pending_tasks w)) = filter (\<lambda>k. \<forall>r \<in> set (finished w). task_key (t_id r) \<noteq> k) (task_keys w)"
    unfolding get_pending_eq snd_conv finished_def [symmetric] task_keys_def [of "fold _ _ _"] keys_forget
    by (simp add: task_keys_def conj_commute)
  also have "\<dots> = filter (\<lambda>k. is_pending (report_of w k)) (task_keys w)"
    by (rule filter_cong [OF refl]) (rule finished_key, simp_all add: task_keys_def)
  finally show ?thesis .
qed

lemma kept_reports:
  assumes "k \<in> set (task_keys w)" "is_pending (report_of w k)"
  shows "report_of (snd (get_pending_tasks w)) k = report_of w k"
proof -
  let ?done = "filter is_successful (map (report_of w) (task_keys w)) @ filter is_failed (map (report_of w) (task_keys w))"
  have pat: "task_pattern k" using assms(1) by (simp add: task_keys_def)
  have "t_id r \<noteq> id_of_key k" if "r \<in> set ?done" for r
  proof
    assume "t_id r = id_of_key k"
    moreover from that obtain j where j: "j \<in> set (task_keys w)" "r = report_of w j" "\<not> is_pending r"
      by (auto simp: is_failed_def is_successful_def is_pending_def)
    moreover have "task_key (t_id r) = j" using j by (simp add: task_keys_def report_id)
    ultimately have "j = k" using task_key_of_pattern [OF pat] by simp
    with assms(2) j show False by simp
  qed
  then have "map_of (w_redis (fold forget ?done w)) k = map_of (w_redis w) k"
    "map_of (w_results (fold forget ?done w)) (id_of_key k) = map_of (w_results w) (id_of_key k)"
    using map_of_forget [of ?done w] pat task_key_of_pattern by (metis task_key_inj)+
  then show ?thesis
    unfolding get_pending_eq snd_conv by (simp add: report_of_def get_or_def async_result_def Let_def)
qed

text \<open>a report of the tasks shows every registered task in exactly one of its three lists, and forgets
  exactly the finished ones: asking again shows the pending tasks unchanged and no finished one.\<close>

theorem pending_tasks_partition:
  "\<exists>p s f. fst (get_pending_tasks w) = Returned (p, s, f) \<and>
     mset (map t_id (p @ s @ f)) = mset (map id_of_key (task_keys w)) \<and>
     fst (get_pending_tasks (snd (get_pending_tasks w))) = Returned (p, [], []) \<and>
     map t_id p = map id_of_key (task_keys (snd (get_pending_tasks w)))"
proof (intro exI conjI)
  let ?R = "map (report_of w) (task_keys w)"
  let ?w = "snd (get_pending_tasks w)"
  show "fst (get_pending_tasks w) = Returned (filter is_pending ?R, filter is_successful ?R, filter is_failed ?R)"
    by (simp add: get_pending_eq)
  have part: "mset (filter is_pending xs @ filter is_successful xs @ filter is_failed xs) = mset xs" for xs
    by (induction xs) (auto simp: is_failed_def is_successful_def is_pending_def)
  have ids: "map t_id ?R = map id_of_key (task_keys w)" by (simp add: report_of_def Let_def)
  have "mset (map t_id (filter is_pending ?R @ filter is_successful ?R @ filter is_failed ?R)) = mset (map t_id ?R)"
    using part [of ?R] by (metis mset_map)
  then show "mset (map t_id (filter is_pending ?R @ filter is_successful ?R @ filter is_failed ?R)) =
      mset (map id_of_key (task_keys w))" unfolding ids .
  have kept: "map (report_of ?w) (task_keys ?w) = filter is_pending ?R"
    using kept_reports [of _ w] by (simp add: kept_keys filter_map comp_def)
  show "fst (get_pending_tasks ?w) = Returned (filter is_pending ?R, [], [])"
    unfolding get_pending_eq [of ?w] kept
    by (simp add: filter_empty_conv is_failed_def) (simp add: is_successful_def is_pending_def)
  show "map t_id (filter is_pending ?R) = map id_of_key (task_keys ?w)"
    unfolding kept [symmetric] by (simp add: report_of_def Let_def)
qed

text \<open>Registering and reading back.\<close>

lemma register_reports:
  "report_of (snd (register_task i n w)) (task_key i) =
     (report_of w (task_key i))\<lparr>t_name := n\<rparr>"
  by (simp add: register_task_def hset_def report_of_def async_result_def get_or_def Let_def split: option.splits)

text \<open>The counter of an application reads back what was stored last, and raises after it is removed.\<close>

theorem app_counter_roundtrip:
  "fst (thenM (create_app_counter a v) (get_app_counter a) w) = Returned v \<and>
   fst (thenM (remove_app_counter a) (get_app_counter a) w) = Raised (AttributeError ''decode'')"
  by (simp add: thenM_def bindM_def create_app_counter_def get_app_counter_def remove_app_counter_def hset_def hget_def
      delete_key_def returnM_def raiseM_def get_or_def)

lemma keeps_registry [keeps_intro]:
  "keeps lock_free (register_task i n)" "keeps lock_free (update_task_runtime i r)" "keeps lock_free (remove_task i)"
  "keeps lock_free (create_app_counter a v)" "keeps lock_free (remove_app_counter a)"
  by (auto simp: register_task_def update_task_runtime_def remove_task_def create_app_counter_def remove_app_counter_def
      intro!: keeps_intro)

lemma finishes_registry [finishes_intro]:
  "finishes (register_task i n)" "finishes (update_task_runtime i r)" "finishes (create_app_counter a v)"
  by (auto simp: register_task_def update_task_runtime_def create_app_counter_def intro!: finishes_intro)

end
