(* ===== verification/ScalingTasks.thy ===== *)
theory ScalingTasks
  imports Playbooks TaskRegistry HadoopResources
begin

text \<open>
  The parts the tasks of \<open>ui/background_tasks.py\<close> share: switching the scaling services off and on again
  (lines 347 to 377), the requests to the state database with their retries (503 to 560, 1322 to 1372) and
  the stop of a container (1375 to 1390).

  A document that came with a request is a dictionary; reading a key it lacks raises.  Texts that are
  only printed are not modelled.
\<close>

section \<open>Reading and dispatching\<close>

abbreviation field :: "obj \<Rightarrow> string \<Rightarrow> string m" where
  "field \<equiv> config_text"

definition text_or :: "obj \<Rightarrow> string \<Rightarrow> string \<Rightarrow> string m" where    \<comment> \<open>\<open>d.get(key, default)\<close>\<close>
  "text_or d key otherwise = liftR (jstr (get_or d key (JStr otherwise)))"

definition jobjs :: "obj list \<Rightarrow> json" where
  "jobjs cs = JArr (map JObj cs)"

text \<open>\<open>task.delay(...)\<close>, and its registration under a name.\<close>

definition run_later :: "env \<Rightarrow> string \<Rightarrow> call \<Rightarrow> unit m" where
  "run_later E task_name c = bindM (request (Dispatched c) (env_task_id E)) (\<lambda>task_id. register_task task_id task_name)"

definition output_timestamp :: "env \<Rightarrow> obj \<Rightarrow> json m" where
  "output_timestamp E app_files =
     (if has_key app_files ''output_dir'' \<and> get_or app_files ''output_dir'' JNull \<noteq> JStr []
      then bindM (ask (env_stamp E)) (\<lambda>t. returnM (JStr t)) else returnM JNull)"

text \<open>\<open>raise Exception(str(errors))\<close> when there are any.\<close>

definition raise_errors :: "string list \<Rightarrow> unit m" where
  "raise_errors errors = (if errors \<noteq> [] then raiseM (PyException (py_repr (jstrs errors))) else returnM ())"

section \<open>The scaling services\<close>

definition scaling_services :: "env \<Rightarrow> string list m" where
  "scaling_services E = bindM (config_flag E ''power_budgeting'') (\<lambda>power.
     returnM ([''Scaler'', ''Guardian'', ''Rebalancer''] @ (if power then [''EnergyController''] else [])))"

definition scaling_script :: "bool \<Rightarrow> string" where
  "scaling_script enable = (if enable then ''activate.sh'' else ''deactivate.sh'')"

definition check_script :: "bool \<Rightarrow> string \<Rightarrow> int \<times> string \<Rightarrow> unit m" where
  "check_script enable service r =
     (case r of (returncode, err) \<Rightarrow>
      if returncode \<noteq> 0
      then raiseM (PyException (''Error managing scaling service '' @ service @ '' (enable='' @ py_repr (JBool enable) @ ''): '' @
             (if strip err = [] then ''Please consult Celery log under services/celery for further details'' else err)))
      else returnM ())"

definition manage_scaling_services :: "env \<Rightarrow> bool \<Rightarrow> bool \<Rightarrow> unit m" where
  "manage_scaling_services E enable skip_ansible =
     (if skip_ansible
      then bindM (scaling_services E) (\<lambda>services.
           thenM (forM services (\<lambda>service. log_event (Launched service (scaling_script enable))))
                 (forM services (\<lambda>service.
                    bindM (request (Waited service) (env_script E)) (check_script enable service))))
      else scaling_playbook E enable)"

text \<open>The context manager: the block runs between a deactivation and an activation.\<close>

definition scaling_services_disabled :: "env \<Rightarrow> 'a m \<Rightarrow> 'a m" where
  "scaling_services_disabled E block =
     bracket (manage_scaling_services E False True) (manage_scaling_services E True True) block"

section \<open>Requests with retries\<close>

text \<open>A turn gives \<open>None\<close> to try again.\<close>

fun retry :: "nat \<Rightarrow> 'a option m \<Rightarrow> 'a m \<Rightarrow> 'a m" where
  "retry 0 attempt reached_max = reached_max"
| "retry (Suc left) attempt reached_max =
     bindM attempt (\<lambda>r. case r of Some x \<Rightarrow> returnM x | None \<Rightarrow> retry left attempt reached_max)"

definition max_retries :: nat where "max_retries = 10"

definition change_app_state_in_db :: "env \<Rightarrow> string \<Rightarrow> string \<Rightarrow> string \<Rightarrow> unit m" where
  "change_app_state_in_db E url app_name state =
     retry max_retries
       (bindM (web_request E (url @ app_name @ ''/state/'' @ state) ''put''
                 (''Error changing app '' @ app_name @ '' execution state to '' @ state) None) (\<lambda>(error, response).
        if not_empty_string response
        then (if error = [] then returnM (Some ()) else raiseM (PyException error))
        else returnM None))
       (raiseM (PyException (''Reached max tries when changing app '' @ app_name @ '' execution state to '' @ state)))"

definition subscribe_container_in_db :: "env \<Rightarrow> string \<Rightarrow> string \<Rightarrow> string \<Rightarrow> unit m" where
  "subscribe_container_in_db E full_url container app_name =
     retry max_retries
       (bindM (web_request E full_url ''put'' (''Error adding container '' @ container @ '' to app '' @ app_name) None)
          (\<lambda>(error, response).
        if not_empty_string response
        then (if error = [] then returnM (Some ())
              else if status_code response = 400 \<and> contains ''already subscribed'' error then returnM (Some ())
              else raiseM (PyException error))
        else returnM None))
       (raiseM (PyException (''Reached max tries when adding '' @ container @ '' to app '' @ app_name)))"

definition manage_app_with_user_in_db :: "env \<Rightarrow> string \<Rightarrow> string \<Rightarrow> string \<Rightarrow> string \<Rightarrow> unit m" where
  "manage_app_with_user_in_db E full_url app_name user operation =
     retry max_retries
       (bindM (web_request E full_url operation (''Error adding app '' @ app_name @ '' to user '' @ user) None)
          (\<lambda>(error, response).
        if not_empty_string response
        then (if error = [] then returnM (Some ())
              else if status_code response = 400 \<and> (contains ''already subscribed'' error \<or> contains ''missing in'' error)
              then returnM (Some ())
              else raiseM (PyException error))
        else returnM None))
       (raiseM (PyException (''Reached max tries when adding '' @ app_name @ '' to user '' @ user)))"

definition remove_container_from_db :: "env \<Rightarrow> string \<Rightarrow> string \<Rightarrow> string m" where
  "remove_container_from_db E full_url container =
     bindM (web_request E full_url ''delete'' (''Error removing container '' @ container) None) (\<lambda>(error, _). returnM error)"

text \<open>The three ways out of the loop leave it with the error of the answer.\<close>

definition leave_app_attempt :: "env \<Rightarrow> string \<Rightarrow> string \<Rightarrow> string \<Rightarrow> string option m" where
  "leave_app_attempt E full_url container app_name =
     bindM (web_request E full_url ''delete'' (''Error removing container '' @ container @ '' from app '' @ app_name) None)
       (\<lambda>(error, response).
     if not_empty_string response
     then (if error = [] then returnM (Some error)
           else if status_code response = 400 \<and> contains ''missing in app'' error then returnM (Some error)
           else returnM (Some error))
     else returnM None)"

definition remove_container_from_app_db :: "env \<Rightarrow> string \<Rightarrow> string \<Rightarrow> string \<Rightarrow> string m" where
  "remove_container_from_app_db E full_url container app_name =
     bindM (retry max_retries (leave_app_attempt E full_url container app_name)
              (returnM (''Reached max tries when removing '' @ container @ '' from app '' @ app_name))) (\<lambda>error.
     bindM (remove_container_from_db E (before_last CHR ''/'' full_url) container) (\<lambda>remove_error.
     returnM (if remove_error \<noteq> [] then remove_error else error)))"

section \<open>Stopping a container\<close>

definition error_text :: "env \<Rightarrow> string \<Rightarrow> 'a m \<Rightarrow> string m" where
  "error_text E prefix p = tryM (thenM p (returnM [])) (\<lambda>e. returnM (prefix @ env_message E e))"

definition stop_container :: "env \<Rightarrow> string \<Rightarrow> string \<Rightarrow> string \<Rightarrow> bool \<Rightarrow> unit m" where
  "stop_container E host container bind_path clean_bind_dir =
     bindM (error_text E (''Error removing container '' @ container @ '' from remote host '' @ host @ '': '')
              (run_stop_container E host container bind_path clean_bind_dir)) (\<lambda>remote_error.
     bindM (error_text E (newline_char # ''Error removing container '' @ container @ '' from inventory: '')
              (with_lock (store (remove_container_from_host container host)))) (\<lambda>inventory_error.
     if remote_error @ inventory_error \<noteq> [] then raiseM (PyException (remote_error @ inventory_error)) else returnM ()))"

definition stop_app_on_container_task ::
  "env \<Rightarrow> string \<Rightarrow> string \<Rightarrow> string \<Rightarrow> string \<Rightarrow> obj \<Rightarrow> string \<Rightarrow> json \<Rightarrow> rat \<Rightarrow> rat \<Rightarrow> unit m" where
  "stop_app_on_container_task E host container bind_path app_name app_files rm_container timestamp download_time upload_time =
     thenM (stop_app_on_container E host container app_name app_files rm_container bind_path timestamp download_time upload_time)
           (stop_container E host container bind_path True)"

section \<open>Laws\<close>

lemma completes_playbook_for [completes_intro]: "completes (playbook_for E n t h v)"
  by (intro completesI keeps_intro finishes_intro)

lemma completes_playbooks [completes_intro]:
  "completes (run_stop_container E h c b cl)" "completes (stop_app_on_container E h c a fs rm b ts dt ut)"
  "completes (check_container_bind_path E c b)" "completes (scaling_playbook E en)"
  by (auto intro!: completesI keeps_intro finishes_intro simp: scaling_playbook_def)

lemma completes_retry [completes_intro]: "completes a \<Longrightarrow> completes r \<Longrightarrow> completes (retry n a r)"
  by (induction n) (auto intro!: completes_intro)

lemma completes_shared [completes_intro]:
  "completes (text_or d k t)" "completes (run_later E n c)" "completes (output_timestamp E fs)" "completes (raise_errors es)"
  "completes (scaling_services E)" "completes (check_script en s r)"
  by (auto simp: text_or_def run_later_def output_timestamp_def raise_errors_def scaling_services_def check_script_def
      register_task_def intro!: completes_intro)

lemma completes_registry [completes_intro]:
  "completes (register_task i n)" "completes (update_task_runtime i r)" "completes (create_app_counter a v)"
  by (auto simp: register_task_def update_task_runtime_def create_app_counter_def intro!: completes_intro)

lemma completes_scaling [completes_intro]:
  "completes (manage_scaling_services E en sk)" "completes p \<Longrightarrow> completes (scaling_services_disabled E p)"
  by (auto simp: manage_scaling_services_def scaling_services_disabled_def intro!: completes_intro)

lemma completes_db [completes_intro]:
  "completes (change_app_state_in_db E u a s)" "completes (subscribe_container_in_db E u c a)"
  "completes (manage_app_with_user_in_db E u a us op)" "completes (remove_container_from_db E u c)"
  "completes (remove_container_from_app_db E u c a)"
  by (auto simp: change_app_state_in_db_def subscribe_container_in_db_def manage_app_with_user_in_db_def
      remove_container_from_db_def remove_container_from_app_db_def leave_app_attempt_def intro!: completes_intro)

lemma completes_error_text [completes_intro]: "completes p \<Longrightarrow> completes (error_text E s p)"
  by (auto simp: error_text_def intro!: completes_intro)

lemma completes_stop [completes_intro]:
  "completes (stop_container E h c b cl)" "completes (stop_app_on_container_task E h c b a fs rm ts dt ut)"
  by (auto simp: stop_container_def stop_app_on_container_task_def intro!: completes_intro keeps_intro finishes_intro)

lemma retry_never_again:
  assumes "\<And>w. fst (attempt w) \<noteq> Returned None"
  shows "fst (retry (Suc k) attempt reached_max w) = (case fst (attempt w) of
           Returned (Some x) \<Rightarrow> Returned x | Raised e \<Rightarrow> Raised e | _ \<Rightarrow> StillRunning)"
    "snd (retry (Suc k) attempt reached_max w) = snd (attempt w)"
  using assms [of w]
  by (cases "attempt w"; auto simp: bindM_def returnM_def split: outcome.splits option.splits)+

section \<open>The scaling services are switched on again\<close>

definition service_names :: "env \<Rightarrow> string list" where
  "service_names E = [''Scaler'', ''Guardian'', ''Rebalancer''] @
     (if jtruthy (get_or (env_platform E) ''power_budgeting'' JNull) then [''EnergyController''] else [])"

text \<open>The script of a service that was launched last.\<close>

fun note_script :: "string \<Rightarrow> event \<Rightarrow> string option \<Rightarrow> string option" where
  "note_script service (Launched s script) found = (if s = service then Some script else found)"
| "note_script service _ found = found"

definition last_script :: "string \<Rightarrow> event list \<Rightarrow> string option" where
  "last_script service tr = fold (note_script service) tr None"

lemma note_waits: "fold (note_script s) (map Waited xs) found = found"
  by (induction xs) auto

lemma note_launches:
  "fold (note_script s) (map (\<lambda>x. Launched x script) xs) found = (if s \<in> set xs then Some script else found)"
  by (induction xs arbitrary: found) auto

lemma launches:
  "forM xs (\<lambda>x. log_event (Launched x script)) w = (Returned (), w\<lparr>w_trace := w_trace w @ map (\<lambda>x. Launched x script) xs\<rparr>)"
  by (induction xs arbitrary: w) (auto simp: returnM_def thenM_def bindM_def log_event_def)

lemma waits:
  "\<exists>k. snd (forM xs (\<lambda>x. bindM (request (Waited x) (env_script E)) (check_script en x)) w) =
     w\<lparr>w_trace := w_trace w @ map Waited (take k xs)\<rparr>"
proof (induction xs arbitrary: w)
  case Nil
  then show ?case by (simp add: returnM_def)
next
  case (Cons x xs)
  let ?w = "w\<lparr>w_trace := w_trace w @ [Waited x]\<rparr>"
  obtain k where k: "snd (forM xs (\<lambda>x. bindM (request (Waited x) (env_script E)) (check_script en x)) ?w) =
      ?w\<lparr>w_trace := w_trace ?w @ map Waited (take k xs)\<rparr>" using Cons by blast
  have "snd (check_script en x r ?w) = ?w" for r by (auto simp: check_script_def raiseM_def returnM_def split: prod.splits)
  then have one: "snd (bindM (request (Waited x) (env_script E)) (check_script en x) w) = ?w"
    by (simp add: bindM_def request_def thenM_def log_event_def ask_def)
  show ?case
  proof (cases "fst (bindM (request (Waited x) (env_script E)) (check_script en x) w)")
    case (Returned u)
    with one have "bindM (request (Waited x) (env_script E)) (check_script en x) w = (Returned u, ?w)"
      by (metis prod.collapse)
    with k show ?thesis by (intro exI [of _ "Suc k"]) (simp add: thenM_def bindM_def [of "bindM _ _"])
  next
    case (Raised e)
    with one have "bindM (request (Waited x) (env_script E)) (check_script en x) w = (Raised e, ?w)"
      by (metis prod.collapse)
    then show ?thesis by (intro exI [of _ 1]) (simp add: thenM_def bindM_def [of "bindM _ _"])
  next
    case StillRunning
    with one have "bindM (request (Waited x) (env_script E)) (check_script en x) w = (StillRunning, ?w)"
      by (metis prod.collapse)
    then show ?thesis by (intro exI [of _ 1]) (simp add: thenM_def bindM_def [of "bindM _ _"])
  qed
qed

lemma manage_trace:
  assumes "has_key (env_platform E) ''power_budgeting''"
  obtains k where "snd (manage_scaling_services E en True w) =
    w\<lparr>w_trace := w_trace w @ map (\<lambda>s. Launched s (scaling_script en)) (service_names E) @ map Waited (take k (service_names E))\<rparr>"
proof -
  let ?w = "w\<lparr>w_trace := w_trace w @ map (\<lambda>s. Launched s (scaling_script en)) (service_names E)\<rparr>"
  obtain k where k: "snd (forM (service_names E) (\<lambda>x. bindM (request (Waited x) (env_script E)) (check_script en x)) ?w) =
      ?w\<lparr>w_trace := w_trace ?w @ map Waited (take k (service_names E))\<rparr>" using waits by blast
  have "scaling_services E w = (Returned (service_names E), w)"
    using assms by (auto simp: scaling_services_def service_names_def config_flag_def item_def has_key_def get_or_def
        bindM_def returnM_def liftR_def split: option.splits)
  then have "manage_scaling_services E en True w =
      forM (service_names E) (\<lambda>x. bindM (request (Waited x) (env_script E)) (check_script en x)) ?w"
    unfolding manage_scaling_services_def if_True bindM_def [of "scaling_services E"]
    by (simp add: thenM_def bindM_def [of "forM _ _"] launches)
  with k show ?thesis by (intro that [of k]) simp
qed

lemma manage_last:
  assumes "has_key (env_platform E) ''power_budgeting''" "s \<in> set (service_names E)"
  shows "last_script s (w_trace (snd (manage_scaling_services E en True w))) = Some (scaling_script en)"
  using assms by (elim manage_trace [of E en w]) (simp add: last_script_def note_waits note_launches)

lemma manage_needs_flag:
  "fst (manage_scaling_services E en True w) = Returned () \<Longrightarrow> has_key (env_platform E) ''power_budgeting''"
  by (auto simp: manage_scaling_services_def scaling_services_def config_flag_def item_def has_key_def bindM_def liftR_def
      raiseM_def split: option.splits)

interpretation scaling_block: guarded_block "manage_scaling_services E False True" "manage_scaling_services E True True"
    "\<lambda>w. has_key (env_platform E) ''power_budgeting'' \<longrightarrow>
       (\<forall>s \<in> set (service_names E). last_script s (w_trace w) = Some ''activate.sh'')" for E
  by unfold_locales (simp add: manage_last scaling_script_def)

text \<open>C14: once the scaling services were switched off, they are switched on again after the block, whether it
  returned or raised: the script launched last for each of them is the one that activates it.\<close>

theorem scaling_reenabled:
  assumes "fst (manage_scaling_services E False True w) = Returned ()"
    and "fst (block (snd (manage_scaling_services E False True w))) \<noteq> StillRunning"
    and "s \<in> set (service_names E)"
  shows "last_script s (w_trace (snd (scaling_services_disabled E block w))) = Some ''activate.sh''"
proof -
  have "has_key (env_platform E) ''power_budgeting'' \<longrightarrow>
      (\<forall>s \<in> set (service_names E). last_script s (w_trace (snd (scaling_services_disabled E block w))) = Some ''activate.sh'')"
    unfolding scaling_services_disabled_def by (rule scaling_block.restored_after [OF assms(1), of block, OF assms(2)])
  with manage_needs_flag [OF assms(1)] assms(3) show ?thesis by blast
qed

text \<open>When a service cannot be switched off, the block does not run and every service stays switched off: the
  script launched last is the one that deactivates it.\<close>

theorem scaling_left_off:
  assumes "fst (manage_scaling_services E False True w) = Raised e"
    and "has_key (env_platform E) ''power_budgeting''" and "s \<in> set (service_names E)"
  shows "fst (scaling_services_disabled E block w) = Raised e \<and>
    last_script s (w_trace (snd (scaling_services_disabled E block w))) = Some ''deactivate.sh''"
proof -
  have "scaling_services_disabled E block w = (Raised e, snd (manage_scaling_services E False True w))"
    unfolding scaling_services_disabled_def by (rule scaling_block.not_entered [OF assms(1)])
  then show ?thesis
    using manage_last [OF assms(2,3), of False w] by (simp_all add: scaling_script_def)
qed

section \<open>A stopped container leaves the inventory\<close>

lemma keeps_inventory [keeps_intro]:
  "keeps (\<lambda>w. w_inventory w = d) (log_event ev)" "keeps (\<lambda>w. w_inventory w = d) (run_adhoc E hs a as v i)"
  "keeps (\<lambda>w. w_inventory w = d) (web_request E u x msg dd)" "keeps (\<lambda>w. w_inventory w = d) (hset k f v')"
  "\<not> measures_disks n t \<Longrightarrow> keeps (\<lambda>w. w_inventory w = d) (run_playbook E n t h v)"
proof -
  show log: "keeps (\<lambda>w. w_inventory w = d) (log_event ev)" for ev by (simp add: keeps_def log_event_def)
  show "keeps (\<lambda>w. w_inventory w = d) (hset k f v')" by (simp add: keeps_def hset_def)
  show "keeps (\<lambda>w. w_inventory w = d) (run_adhoc E hs a as v i)" "keeps (\<lambda>w. w_inventory w = d) (web_request E u x msg dd)"
    "\<not> measures_disks n t \<Longrightarrow> keeps (\<lambda>w. w_inventory w = d) (run_playbook E n t h v)"
    by (auto simp: run_adhoc_def web_request_def run_playbook_def intro!: keeps_intro keeps_measure_disks log)
qed

lemma stop_keeps_inventory: "keeps (\<lambda>w. w_inventory w = d) (run_stop_container E h c b cl)"
  by (auto simp: run_stop_container_def check_container_bind_path_def intro!: keeps_intro)

text \<open>stopping a container takes it out of the inventory even when the container could not be stopped on
  its host, and returns exactly when it could.\<close>

theorem stop_container_leaves_inventory:
  assumes free: "lock_free w"
    and present: "remove_container_from_host container host (w_inventory w) = Inr doc"
  shows "w_inventory (snd (stop_container E host container bind_path clean w)) = doc \<and>
    (fst (stop_container E host container bind_path clean w) = Returned () \<longleftrightarrow>
     (\<exists>x. fst (run_stop_container E host container bind_path clean w) = Returned x))"
proof -
  obtain r v where run: "run_stop_container E host container bind_path clean w = (r, v)"
    by (cases "run_stop_container E host container bind_path clean w")
  have v: "w_inventory v = w_inventory w"
    using keepsD [OF stop_keeps_inventory [where d = "w_inventory w"] refl] run by (metis snd_conv)
  have "lock_free v" "r \<noteq> StillRunning"
    using completesD [OF completes_playbooks(1) free] run by (metis fst_conv snd_conv)+
  then show ?thesis
    using run v present by (cases r; simp add: stop_container_def error_text_def tryM_def thenM_def bindM_def returnM_def
        raiseM_def with_lock_def bracket_def take_lock_def finallyM_def release_lock_def store_def change_inventory_def rbind_def
        lock_free_def)
qed

section \<open>A run\<close>

definition sample_env :: env where
  "sample_env = \<lparr>env_playbook = (\<lambda>_. (0, [])), env_measured = (\<lambda>_. []), env_adhoc = (\<lambda>_. 0),
     env_web = (\<lambda>_. Inr (Response 200 ''ok'')), env_fetch = (\<lambda>_. Inr (JArr [])), env_script = (\<lambda>_. (0, [])),
     env_ready = (\<lambda>_. True), env_group = (\<lambda>_. None), env_task_id = (\<lambda>_. ''id''), env_clock = (\<lambda>_. 0),
     env_stamp = (\<lambda>_. ''now''), env_text = id, env_timestamp = (\<lambda>_. 0), env_message = (\<lambda>_. ''failed''), env_expandvars = id,
     env_platform = [(''power_budgeting'', JBool True), (''container_engine'', JStr ''lxc''),
       (''singularity_command_alias'', JStr ''apptainer''), (''cgroups_version'', JStr ''v2''), (''server_as_host'', JBool True),
       (''disk_capabilities'', JBool False), (''disk_scaling'', JBool False), (''reserve_server_for_master'', JBool False),
       (''enable_app_callback'', JBool False)],
     env_vars = [(''bind_dir'', JStr ''/bind'')], env_base_url = ''http://db'', env_installation_path = ''/opt''\<rparr>"

definition sample_world :: world where
  "sample_world = \<lparr>w_redis = [], w_results = [], w_inventory =
     [(''nodes'', \<lparr>g_hosts = Some [(''h0'', [(''containers'', VList [''h0-cont0'', ''h0-cont1''])])], g_vars = Some []\<rparr>)],
     w_locked = False, w_trace = []\<rparr>"

lemma sample_free: "lock_free sample_world"
  by (simp add: lock_free_def sample_world_def saves_locked_def)

lemmas run_simps = returnM_def raiseM_def bindM_def thenM_def tryM_def finallyM_def whenM_def liftR_def log_event_def ask_def
  request_def item_def config_flag_def

theorem scaling_reenabled_witness:
  "last_script ''EnergyController''
     (w_trace (snd (scaling_services_disabled sample_env (raiseM (ValueError ''block'') :: unit m) sample_world))) = Some ''activate.sh''"
proof (rule scaling_reenabled)
  show "fst (manage_scaling_services sample_env False True sample_world) = Returned ()"
    by (simp add: manage_scaling_services_def scaling_services_def check_script_def sample_env_def run_simps)
  show "fst (raiseM (ValueError ''block'') (snd (manage_scaling_services sample_env False True sample_world))) \<noteq> StillRunning"
    by (simp add: raiseM_def)
  show "''EnergyController'' \<in> set (service_names sample_env)"
    by (simp add: service_names_def sample_env_def get_or_def)
qed

definition failing_env :: env where
  "failing_env = sample_env\<lparr>env_script := (\<lambda>_. (1, ''no such session''))\<rparr>"

theorem scaling_left_off_witness:
  "\<exists>e. fst (scaling_services_disabled failing_env (returnM ()) sample_world) = Raised e \<and>
     last_script ''Scaler'' (w_trace (snd (scaling_services_disabled failing_env (returnM ()) sample_world))) = Some ''deactivate.sh''"
proof -
  have "\<exists>e. fst (manage_scaling_services failing_env False True sample_world) = Raised e"
    by (simp add: manage_scaling_services_def scaling_services_def check_script_def sample_env_def failing_env_def run_simps)
  then obtain e where e: "fst (manage_scaling_services failing_env False True sample_world) = Raised e" ..
  show ?thesis
    by (rule exI [of _ e], rule scaling_left_off [OF e])
      (simp_all add: failing_env_def sample_env_def service_names_def has_key_def)
qed

theorem stop_container_leaves_inventory_witness:
  "w_inventory (snd (stop_container sample_env ''h0'' ''h0-cont0'' [] True sample_world)) =
     [(''nodes'', \<lparr>g_hosts = Some [(''h0'', [(''containers'', VList [''h0-cont1''])])], g_vars = Some []\<rparr>)]"
  by (rule conjunct1 [OF stop_container_leaves_inventory [OF sample_free]]) (simp add: sample_world_def, code_simp)

end
