(* ===== verification/Tasks.thy ===== *)
theory Tasks
  imports ScalingTasks
begin

text \<open>
  The Celery tasks of \<open>ui/background_tasks.py\<close> that add and remove hosts, disks, applications, users and
  containers (lines 380 to 607 and 1195 to 1396).
\<close>

section \<open>Hosts and disks\<close>

definition add_host_task ::
  "env \<Rightarrow> string \<Rightarrow> ival \<Rightarrow> ival \<Rightarrow> disk_info option \<Rightarrow> ival \<Rightarrow> nat \<Rightarrow> unit m" where
  "add_host_task E host_name cpu mem disks energy new_containers =
     thenM (with_lock (store (add_host (env_expandvars E) host_name cpu mem disks energy new_containers)))
           (configure_host E host_name)"

definition note_host :: "json \<Rightarrow> json dict \<Rightarrow> json dict result" where
  "note_host x hosts =
     rbind (jitem x ''subtype'') (\<lambda>subtype.
     if subtype = JStr ''host''
     then rbind (rbind (jitem x ''name'') jstr) (\<lambda>host_name. Inr (AList.update host_name x hosts))
     else Inr hosts)"

definition getHostsInfo :: "env \<Rightarrow> string \<Rightarrow> json dict m" where
  "getHostsInfo E url = bindM (fetch E url) (\<lambda>v. liftR (rbind (jarr v) (\<lambda>items. foldR note_host items [])))"

text \<open>Largest and free read and write bandwidth of the volume of a host.\<close>

definition lvm_number :: "json dict \<Rightarrow> string \<Rightarrow> string \<Rightarrow> rat result" where
  "lvm_number infos host_name key =
     rbind (item infos host_name) (\<lambda>x. rbind (jpath [''resources'', ''disks'', ''lvm'', key] x) jnum)"

definition enough_free_bw :: "rat \<Rightarrow> rat \<Rightarrow> rat \<Rightarrow> rat \<Rightarrow> rat \<Rightarrow> bool" where
  "enough_free_bw threshold max_read max_write free_read free_write \<longleftrightarrow>
     (let consumed_read = max_read - free_read;
          consumed_write = max_write - free_write;
          total_free_bw = max max_read max_write - consumed_read - consumed_write
      in max max_read max_write - total_free_bw \<le> max max_read max_write * threshold \<and>
         max_read - free_read \<le> max_read * threshold \<and> max_write - free_write \<le> max_write * threshold)"

definition host_has_free_bw :: "rat \<Rightarrow> json dict \<Rightarrow> string \<Rightarrow> bool result" where
  "host_has_free_bw threshold infos host_name =
     rbind (lvm_number infos host_name ''max_read'') (\<lambda>mr. rbind (lvm_number infos host_name ''max_write'') (\<lambda>mw.
     rbind (lvm_number infos host_name ''free_read'') (\<lambda>fr. rbind (lvm_number infos host_name ''free_write'') (\<lambda>fw.
     Inr (enough_free_bw threshold mr mw fr fw)))))"

definition measure_text :: "obj \<Rightarrow> string" where
  "measure_text measure_host_list = formatted (JObj measure_host_list)"

definition extend_later :: "env \<Rightarrow> string list \<Rightarrow> json \<Rightarrow> obj \<Rightarrow> string \<Rightarrow> unit m" where
  "extend_later E new_disks extra_disk measure_host_list host_name =
     run_later E ''extend_lv_task''
       (Call ''extend_lv'' [jstrs [host_name], JStr (join '','' new_disks), extra_disk, JStr (measure_text measure_host_list)])"

definition extend_empty_hosts ::
  "env \<Rightarrow> string list \<Rightarrow> json \<Rightarrow> obj \<Rightarrow> string list \<Rightarrow> string list m" where
  "extend_empty_hosts E new_disks extra_disk measure_host_list =
     foldM (\<lambda>(host_name, measured) host_list.
         if jtruthy measured
         then thenM (extend_later E new_disks extra_disk measure_host_list host_name)
                (if host_name \<in> set host_list then returnM (remove1 host_name host_list)
                 else raiseM (ValueError ''list.remove(x): x not in list''))
         else returnM host_list) measure_host_list"

definition extend_idle_hosts ::
  "env \<Rightarrow> rat \<Rightarrow> string list \<Rightarrow> json \<Rightarrow> obj \<Rightarrow> json dict \<Rightarrow> string list \<Rightarrow> string list m" where
  "extend_idle_hosts E threshold new_disks extra_disk measure_host_list infos host_list =
     foldM (\<lambda>host_name finished_hosts.
         bindM (liftR (host_has_free_bw threshold infos host_name)) (\<lambda>idle.
         if idle then thenM (extend_later E new_disks extra_disk measure_host_list host_name) (returnM (finished_hosts @ [host_name]))
         else returnM finished_hosts)) host_list []"

text \<open>The rounds that are left; the hosts no round could extend.\<close>

fun extend_rounds ::
  "env \<Rightarrow> string \<Rightarrow> rat \<Rightarrow> rat \<Rightarrow> string list \<Rightarrow> json \<Rightarrow> obj \<Rightarrow> nat \<Rightarrow> string list \<Rightarrow> string list m" where
  "extend_rounds E structures_url threshold polling_frequency new_disks extra_disk measure_host_list 0 host_list = returnM host_list"
| "extend_rounds E structures_url threshold polling_frequency new_disks extra_disk measure_host_list (Suc left) host_list =
     (if host_list = [] then returnM []
      else bindM (getHostsInfo E structures_url) (\<lambda>infos.
           bindM (extend_idle_hosts E threshold new_disks extra_disk measure_host_list infos host_list) (\<lambda>finished_hosts.
           let rest = filter (\<lambda>h. h \<notin> set finished_hosts) host_list
           in thenM (whenM (0 < left \<and> rest \<noteq> []) (sleep polling_frequency))
                (extend_rounds E structures_url threshold polling_frequency new_disks extra_disk measure_host_list left rest))))"

definition attr_json :: "attr \<Rightarrow> json" where
  "attr_json a = (case a of ANum x \<Rightarrow> JNum x | AStr s \<Rightarrow> JStr s)"

definition disks_json :: "attr dict dict dict \<Rightarrow> json" where
  "disks_json d = JObj (map (\<lambda>(h, ds). (h, JObj (map (\<lambda>(n, info). (n, JObj (map (\<lambda>(k, a). (k, attr_json a)) info))) ds))) d)"

definition add_disks_to_hosts_task ::
  "env \<Rightarrow> string list \<Rightarrow> bool \<Rightarrow> string list \<Rightarrow> json \<Rightarrow> obj \<Rightarrow> string \<Rightarrow> rat \<Rightarrow> rat \<Rightarrow> int \<Rightarrow> unit m" where
  "add_disks_to_hosts_task E host_list add_to_lv new_disks extra_disk measure_host_list structures_url threshold
       polling_frequency timeout_events =
     bindM (with_lock (change_inventory (add_disks_to_hosts host_list new_disks))) (\<lambda>added_disks.
     if add_to_lv
     then bindM (extend_empty_hosts E new_disks extra_disk measure_host_list host_list) (\<lambda>busy_hosts.
          bindM (extend_rounds E structures_url threshold polling_frequency new_disks extra_disk measure_host_list
                   (nat timeout_events) busy_hosts) (\<lambda>rest.
          whenM (rest \<noteq> []) (extend_lv E rest (jstrs new_disks) extra_disk (measure_text measure_host_list) True)))
     else run_add_disks E host_list (formatted (disks_json added_disks)))"

definition remove_host_task :: "env \<Rightarrow> string \<Rightarrow> string \<Rightarrow> unit m" where
  "remove_host_task E full_url host_name =
     bindM (web_request E full_url ''delete'' (''Error removing host '' @ host_name) None) (\<lambda>(error, _).
     if error = []
     then thenM (stop_host_scaler E host_name) (with_lock (store (\<lambda>doc. Inr (remove_host host_name doc))))
     else raiseM (PyException error))"

section \<open>Applications and users\<close>

text \<open>\<open>urlparse\<close> of an absolute URL: scheme and network location.\<close>

definition url_scheme :: "string \<Rightarrow> string" where
  "url_scheme url = (if CHR '':'' \<in> set url then takeWhile (\<lambda>c. c \<noteq> CHR '':'') url else [])"

definition url_netloc :: "string \<Rightarrow> string" where
  "url_netloc url =
     (let rest = tl (dropWhile (\<lambda>c. c \<noteq> CHR '':'') url)
      in if starts_with ''//'' rest then takeWhile (\<lambda>c. c \<notin> set ''/?#'') (drop 2 rest) else [])"

definition user_given :: "string option \<Rightarrow> bool" where    \<comment> \<open>\<open>user and user != ""\<close>\<close>
  "user_given user \<longleftrightarrow> (case user of Some u \<Rightarrow> u \<noteq> [] | None \<Rightarrow> False)"

definition add_app_task :: "env \<Rightarrow> string \<Rightarrow> obj \<Rightarrow> string \<Rightarrow> obj \<Rightarrow> string option \<Rightarrow> unit m" where
  "add_app_task E full_url put_field_data app_name app_files user =
     bindM (web_request E full_url ''put'' (''Error adding app '' @ app_name) (Some (JObj put_field_data))) (\<lambda>(error, _).
     thenM (if error = [] then create_app E app_files else raiseM (PyException error))
     (whenM (user_given user)
        (manage_app_with_user_in_db E
           (url_scheme full_url @ ''://'' @ url_netloc full_url @ ''/user/clusters/'' @ the user @ ''/'' @ app_name)
           app_name (the user) ''put'')))"

definition add_user_task :: "env \<Rightarrow> string \<Rightarrow> obj \<Rightarrow> string \<Rightarrow> unit m" where
  "add_user_task E full_url put_field_data user =
     bindM (web_request E full_url ''put'' (''Error adding user '' @ user) (Some (JObj put_field_data))) (\<lambda>(error, _).
     if error \<noteq> [] then raiseM (PyException error) else returnM ())"

text \<open>The helper is called with the user in the place of the application and the other way round.\<close>

definition subscribe_apps_to_user :: "env \<Rightarrow> string \<Rightarrow> string \<Rightarrow> string list \<Rightarrow> unit m" where
  "subscribe_apps_to_user E url user_name user_apps =
     scaling_services_disabled E (forM user_apps (\<lambda>app_name.
       manage_app_with_user_in_db E (url @ ''clusters/'' @ user_name @ ''/'' @ app_name) user_name app_name ''put''))"

definition desubscribe_apps_from_user :: "env \<Rightarrow> string \<Rightarrow> string \<Rightarrow> string list \<Rightarrow> unit m" where
  "desubscribe_apps_from_user E url user_name user_apps =
     scaling_services_disabled E (forM user_apps (\<lambda>app_name.
       manage_app_with_user_in_db E (url @ ''clusters/'' @ user_name @ ''/'' @ app_name) user_name app_name ''delete''))"

definition remove_users_task :: "env \<Rightarrow> string \<Rightarrow> string list \<Rightarrow> unit m" where
  "remove_users_task E url users =
     bindM (scaling_services_disabled E (foldM (\<lambda>user_name errors.
        bindM (web_request E (url @ ''/'' @ user_name) ''delete'' (''Error removing user '' @ user_name) None) (\<lambda>(error, _).
        returnM (if error \<noteq> [] then errors @ [error] else errors))) users []))
     raise_errors"

section \<open>Containers\<close>

definition member_url :: "string \<Rightarrow> string \<Rightarrow> string \<Rightarrow> string" where
  "member_url url container app_name = url @ ''container/'' @ container @ ''/'' @ app_name"

text \<open>Every container leaves the application; the errors are collected.\<close>

definition leave_app :: "env \<Rightarrow> string \<Rightarrow> string \<Rightarrow> string \<Rightarrow> obj list \<Rightarrow> string list m" where
  "leave_app E name_key url app_name containers =
     foldM (\<lambda>c errors. bindM (field c name_key) (\<lambda>container.
       bindM (remove_container_from_app_db E (member_url url container app_name) container app_name) (\<lambda>error.
       returnM (if error \<noteq> [] then errors @ [error] else errors)))) containers []"

definition wait_for_app_on_container_task :: "env \<Rightarrow> string \<Rightarrow> obj \<Rightarrow> string \<Rightarrow> unit m" where
  "wait_for_app_on_container_task E host_name container app_name =
     bindM (field container ''container_name'') (wait_for_app_on_container E host_name)"

definition start_app_on_container_task ::
  "env \<Rightarrow> string \<Rightarrow> string \<Rightarrow> obj \<Rightarrow> string \<Rightarrow> obj \<Rightarrow> obj \<Rightarrow> unit m" where
  "start_app_on_container_task E full_url host_name container app_name app_files global_hdfs_data =
     bindM (text_or container ''disk_path'' []) (\<lambda>bind_path.
     bindM (field container ''container_name'') (\<lambda>container_name.
     start_app_on_container E host_name container_name app_name app_files bind_path global_hdfs_data))"

definition limit_fields :: "string list" where
  "limit_fields = [''max'', ''min'', ''weight'', ''boundary'', ''boundary_type'']"

definition resource_keys :: "string list \<Rightarrow> string list" where
  "resource_keys rs = concat (map (\<lambda>res. map (\<lambda>key. res @ ''_'' @ key) limit_fields) rs)"

definition v2_info :: "env \<Rightarrow> obj \<Rightarrow> obj dict \<Rightarrow> string \<Rightarrow> string \<Rightarrow> obj result" where
  "v2_info E resources disks host_name container =
     (let info = [(''container_name'', JStr container), (''host'', JStr host_name)] @
        concat (map (\<lambda>k. case map_of resources k of Some v \<Rightarrow> [(k, v)] | None \<Rightarrow> [])
          (resource_keys [''cpu'', ''mem'', ''disk_read'', ''disk_write'', ''energy'']))
      in if disks \<noteq> []
         then rbind (item disks host_name) (\<lambda>d. rbind (item d ''name'') (\<lambda>disk. rbind (rbind (item d ''path'') jstr) (\<lambda>path.
              rbind (rbind (item (env_vars E) ''bind_dir_name'') jstr) (\<lambda>bind_dir_name.
              Inr (info @ [(''disk'', disk), (''disk_path'', JStr (join ''/'' [path, bind_dir_name, container]))])))))
         else Inr info)"

definition start_containers_task_v2 :: "env \<Rightarrow> nat dict \<Rightarrow> obj \<Rightarrow> obj dict \<Rightarrow> unit m" where
  "start_containers_task_v2 E new_containers resources disks =
     bindM (with_lock (change_inventory (add_containers_to_hosts new_containers))) (\<lambda>added_containers.
     bindM (liftR (mapR (\<lambda>(h, c). v2_info E resources disks h c)
                     (concat (map (\<lambda>(h, cs). map (Pair h) cs) added_containers)))) (\<lambda>containers_info.
     if containers_info = [] then returnM ()
     else run_start_containers E (keys_of added_containers) (formatted (jobjs containers_info))))"

text \<open>\<open>container['resources']['disk']['path']\<close>, if there is one.\<close>

definition disk_path_of :: "obj \<Rightarrow> string result" where
  "disk_path_of c =
     rbind (rbind (item c ''resources'') jobj) (\<lambda>res.
     case map_of res ''disk'' of None \<Rightarrow> Inr []
     | Some d \<Rightarrow> rbind (jobj d) (\<lambda>disk. case map_of disk ''path'' of None \<Rightarrow> Inr [] | Some path \<Rightarrow> jstr path))"

definition remove_containers_task :: "env \<Rightarrow> string \<Rightarrow> obj list \<Rightarrow> unit m" where
  "remove_containers_task E url container_list =
     bindM (scaling_services_disabled E (foldM (\<lambda>c errors. bindM (field c ''name'') (\<lambda>container.
              bindM (remove_container_from_db E (url @ ''container/'' @ container) container) (\<lambda>error.
              returnM (if error \<noteq> [] then errors @ [error] else errors)))) container_list [])) (\<lambda>errors.
     thenM (forM container_list (\<lambda>c.
              bindM (field c ''name'') (\<lambda>container. bindM (liftR (disk_path_of c)) (\<lambda>bind_path.
              bindM (field c ''host'') (\<lambda>host_name.
              run_later E ''stop_container_task'' (Call ''stop_container'' [JStr host_name, JStr container, JStr bind_path]))))))
           (raise_errors errors))"

definition remove_app_task ::
  "env \<Rightarrow> string \<Rightarrow> string \<Rightarrow> string \<Rightarrow> obj list \<Rightarrow> obj \<Rightarrow> string option \<Rightarrow> unit m" where
  "remove_app_task E url structure_type_url app_name container_list app_files user =
     thenM (whenM (container_list \<noteq> [])
        (bindM (scaling_services_disabled E (leave_app E ''name'' url app_name container_list)) (\<lambda>errors.
         bindM (output_timestamp E app_files) (\<lambda>timestamp.
         forM container_list (\<lambda>c.
           bindM (field c ''name'') (\<lambda>container. bindM (text_or c ''disk_path'' []) (\<lambda>bind_path.
           bindM (field c ''host'') (\<lambda>host_name.
           run_later E ''stop_app_on_container_task'' (Call ''stop_app_on_container_task''
             [JStr host_name, JStr container, JStr bind_path, JStr app_name, JObj app_files, JStr [], timestamp])))))))))
     (thenM (whenM (user_given user)
        (bindM (web_request E (env_base_url E @ ''/user/clusters/'' @ the user @ ''/'' @ app_name @ ''/'') ''delete''
                  (''Error removing app '' @ app_name @ '' from user '' @ the user) None) (\<lambda>(error, _).
         if error \<noteq> [] then raiseM (PyException error) else returnM ())))
     (bindM (web_request E (url @ structure_type_url @ ''/'' @ app_name) ''delete'' (''Error removing app '' @ app_name) None)
        (\<lambda>_. returnM ())))"

text \<open>An exception is turned into a text and collected.\<close>

definition collect_error :: "(exn \<Rightarrow> string m) \<Rightarrow> unit m \<Rightarrow> string list \<Rightarrow> string list m" where
  "collect_error describe p errors =
     tryM (thenM p (returnM errors)) (\<lambda>e. bindM (describe e) (\<lambda>msg. returnM (errors @ [msg])))"

definition stop_error :: "env \<Rightarrow> string \<Rightarrow> obj \<Rightarrow> exn \<Rightarrow> string m" where
  "stop_error E app_name c e =
     bindM (field c ''container_name'') (\<lambda>container.
     returnM (''Error stopping aplication '' @ app_name @ '' inside container '' @ container @ '': '' @ env_message E e))"

definition stop_listed :: "env \<Rightarrow> obj \<Rightarrow> unit m" where
  "stop_listed E c =
     bindM (field c ''host'') (\<lambda>host_name. bindM (field c ''container_name'') (\<lambda>container.
     bindM (text_or c ''disk_path'' []) (\<lambda>bind_path. stop_container E host_name container bind_path True)))"

definition remove_containers_from_app :: "env \<Rightarrow> string \<Rightarrow> obj list \<Rightarrow> string \<Rightarrow> obj \<Rightarrow> unit m" where
  "remove_containers_from_app E url container_list app_name app_files =
     bindM (scaling_services_disabled E
       (thenM (change_app_state_in_db E url app_name ''stopped'') (leave_app E ''container_name'' url app_name container_list)))
       (\<lambda>errors.
     bindM (output_timestamp E app_files) (\<lambda>timestamp.
     bindM (foldM (\<lambda>c. collect_error (stop_error E app_name c)
        (bindM (field c ''host'') (\<lambda>host_name. bindM (field c ''container_name'') (\<lambda>container.
         bindM (text_or c ''disk_path'' []) (\<lambda>bind_path.
         stop_app_on_container E host_name container app_name app_files [] bind_path timestamp 0 0)))))
        container_list errors) (\<lambda>errors1.
     bindM (foldM (\<lambda>c. collect_error (\<lambda>e. returnM (env_message E e)) (stop_listed E c)) container_list errors1)
     raise_errors)))"

section \<open>No task waits for ever\<close>

lemma completes_more_playbooks [completes_intro]:
  "completes (configure_host E h)" "completes (run_add_disks E hs d)" "completes (run_limit_containers_bw E s)"
  "completes (extend_lv E hs nd ed mh th)" "completes (run_start_containers E hs ci)" "completes (create_app E fs)"
  "completes (stop_host_scaler E h)" "completes (start_app_on_container E h c a fs b g)" "completes (wait_for_app_on_container E h c)"
  by (auto simp: configure_host_def run_add_disks_def run_limit_containers_bw_def extend_lv_def run_start_containers_def
      create_app_def stop_host_scaler_def start_app_on_container_def wait_for_app_on_container_def Let_def intro!: completes_intro)

lemma completes_change [completes_intro]: "completes (with_lock (store f))" "completes (with_lock (change_inventory g))"
  by (intro completes_with_lock keeps_intro finishes_intro)+

lemma completes_extend [completes_intro]:
  "completes (extend_later E nd ed mh h)" "completes (extend_empty_hosts E nd ed mh hs)"
  "completes (extend_idle_hosts E t nd ed mh infos hs)" "completes (getHostsInfo E u)"
  by (auto simp: extend_later_def extend_empty_hosts_def extend_idle_hosts_def getHostsInfo_def intro!: completes_intro)

lemma completes_rounds [completes_intro]: "completes (extend_rounds E u t f nd ed mh n hs)"
  by (induction n arbitrary: hs) (auto simp: Let_def intro!: completes_intro)

lemma completes_collect [completes_intro]:
  "(\<And>e. completes (d e)) \<Longrightarrow> completes p \<Longrightarrow> completes (collect_error d p es)"
  by (auto simp: collect_error_def intro!: completes_intro)

lemma completes_leave_app [completes_intro]:
  "completes (leave_app E k u a cs)" "completes (stop_error E a c e)"
  "completes (start_app_on_container_task E u h c a fs g)" "completes (wait_for_app_on_container_task E h c a)"
  "completes (stop_listed E c)"
  by (auto simp: leave_app_def stop_error_def start_app_on_container_task_def wait_for_app_on_container_task_def
      stop_listed_def intro!: completes_intro)

lemma completes_removals [completes_intro]: "completes (remove_containers_from_app E url cs a fs)"
  by (auto simp: remove_containers_from_app_def intro!: completes_intro)

lemma tasks_complete [completes_intro]:
  "completes (add_host_task E h cpu mem di en n)" "completes (add_disks_to_hosts_task E hs lv nd ed mh su th pf te)"
  "completes (remove_host_task E u h)" "completes (start_containers_task_v2 E nc cr ds)"
  "completes (remove_containers_task E u cs)" "completes (remove_app_task E u st a cs fs us)"
  by (auto simp: add_host_task_def add_disks_to_hosts_task_def remove_host_task_def start_containers_task_v2_def
      remove_containers_task_def remove_app_task_def intro!: completes_intro)

lemma users_complete [completes_intro]:
  "completes (add_app_task E u d a fs us)" "completes (add_user_task E u d us')" "completes (remove_users_task E u us'')"
  "completes (subscribe_apps_to_user E u us' as)" "completes (desubscribe_apps_from_user E u us' as)"
  by (auto simp: add_app_task_def add_user_task_def remove_users_task_def subscribe_apps_to_user_def
      desubscribe_apps_from_user_def intro!: completes_intro)

section \<open>Removed containers leave the inventory\<close>

lemma collect_none:
  "collect_error d p errors w = (Returned [], w') \<Longrightarrow> errors = [] \<and> p w = (Returned (), w')"
  by (cases "p w") (auto simp: collect_error_def tryM_def thenM_def bindM_def returnM_def split: outcome.splits prod.splits)

lemma collect_all_none:
  "foldM (\<lambda>c. collect_error (d c) (p c)) cs errors w = (Returned [], w') \<Longrightarrow>
   errors = [] \<and> forM cs p w = (Returned (), w')"
proof (induction cs arbitrary: errors w)
  case Nil
  then show ?case by (simp add: returnM_def)
next
  case (Cons c cs)
  from Cons.prems obtain errs v where v: "collect_error (d c) (p c) errors w = (Returned errs, v)"
    "foldM (\<lambda>c. collect_error (d c) (p c)) cs errs v = (Returned [], w')"
    by (auto simp: bindM_def split: prod.splits outcome.splits)
  from Cons.IH [OF v(2)] have errs: "errs = []" and tail: "forM cs p v = (Returned (), w')" by auto
  with v(1) have "errors = [] \<and> p c w = (Returned (), v)" by (intro collect_none) simp
  with tail show ?case by (simp add: thenM_def bindM_def)
qed

lemma stop_container_removes:
  assumes "stop_container E host container bind_path clean w = (Returned (), w')" "lock_free w"
  shows "remove_container_from_host container host (w_inventory w) = Inr (w_inventory w') \<and> lock_free w'"
proof -
  obtain r v where run: "run_stop_container E host container bind_path clean w = (r, v)"
    by (cases "run_stop_container E host container bind_path clean w")
  have v: "w_inventory v = w_inventory w"
    using keepsD [OF stop_keeps_inventory [where d = "w_inventory w"] refl] run by (metis snd_conv)
  have "lock_free v" "r \<noteq> StillRunning" using completesD [OF completes_playbooks(1) assms(2)] run by (metis fst_conv snd_conv)+
  moreover have "lock_free w'" using completesD [OF completes_stop(1) assms(2)] assms(1) by (metis snd_conv)
  ultimately show ?thesis
    using assms(1) run v by (cases r; cases "remove_container_from_host container host (w_inventory w)")
      (auto simp: stop_container_def error_text_def tryM_def thenM_def bindM_def returnM_def raiseM_def with_lock_def bracket_def
        take_lock_def finallyM_def release_lock_def store_def change_inventory_def rbind_def lock_free_def newline_char_def)
qed

text \<open>The containers of a request by name and host.\<close>

definition named_container :: "obj \<Rightarrow> (string \<times> string) result" where
  "named_container c =
     rbind (rbind (item c ''host'') jstr) (\<lambda>h. rbind (rbind (item c ''container_name'') jstr) (\<lambda>n. Inr (n, h)))"

definition forget_container :: "obj \<Rightarrow> inventory \<Rightarrow> inventory result" where
  "forget_container c doc = rbind (named_container c) (\<lambda>(n, h). remove_container_from_host n h doc)"

lemma field_value: "field c k w = (case rbind (item c k) jstr of Inl e \<Rightarrow> (Raised e, w) | Inr x \<Rightarrow> (Returned x, w))"
  by (simp add: config_text_def liftR_def raiseM_def returnM_def split: sum.splits)

lemma stop_listed_removes:
  assumes "stop_listed E c w = (Returned (), w')" "lock_free w"
  shows "forget_container c (w_inventory w) = Inr (w_inventory w') \<and> lock_free w'"
proof (cases "rbind (item c ''host'') jstr")
  case (Inl e)
  then show ?thesis using assms(1) by (simp add: stop_listed_def bindM_def field_value)
next
  case host: (Inr h)
  show ?thesis
  proof (cases "rbind (item c ''container_name'') jstr")
    case (Inl e)
    then show ?thesis using assms(1) host by (simp add: stop_listed_def bindM_def field_value)
  next
    case (Inr n)
    with assms(1) host obtain b where "stop_container E h n b True w = (Returned (), w')"
      by (cases "get_or c ''disk_path'' (JStr [])")
        (auto simp: stop_listed_def bindM_def field_value text_or_def liftR_def jstr_def raiseM_def returnM_def)
    from stop_container_removes [OF this assms(2)] show ?thesis
      using host Inr by (simp add: forget_container_def named_container_def rbind_def)
  qed
qed

lemma stop_all_removes:
  "forM cs (stop_listed E) w = (Returned (), w') \<Longrightarrow> lock_free w \<Longrightarrow>
   foldR forget_container cs (w_inventory w) = Inr (w_inventory w')"
proof (induction cs arbitrary: w)
  case Nil
  then show ?case by (simp add: returnM_def)
next
  case (Cons c cs)
  then obtain v where v: "stop_listed E c w = (Returned (), v)" "forM cs (stop_listed E) v = (Returned (), w')"
    by (auto simp: thenM_def bindM_def split: prod.splits outcome.splits)
  from stop_listed_removes [OF v(1) Cons.prems(2)] Cons.IH [OF v(2)] show ?case by (simp add: rbind_def)
qed

lemma inventory_kept [keeps_intro]:
  "keeps (\<lambda>w. w_inventory w = d) (request ev g)" "keeps (\<lambda>w. w_inventory w = d) (manage_scaling_services E en sk)"
  "keeps (\<lambda>w. w_inventory w = d) (change_app_state_in_db E u a s)"
  "keeps (\<lambda>w. w_inventory w = d) (leave_app E k u a cs)" "keeps (\<lambda>w. w_inventory w = d) (output_timestamp E fs)"
  "keeps (\<lambda>w. w_inventory w = d) (stop_app_on_container E h c a fs rm b ts dt ut)"
proof -
  show r: "keeps (\<lambda>w. w_inventory w = d) (request ev g)" for ev and g :: "event list \<Rightarrow> 'z"
    by (auto simp: request_def intro!: keeps_intro)
  have retry: "keeps I (retry n a z)" if "keeps I a" "keeps I z" for I n and a :: "'y option m" and z
    using that by (induction n) (auto intro!: keeps_intro)
  show "keeps (\<lambda>w. w_inventory w = d) (manage_scaling_services E en sk)"
    by (auto simp: manage_scaling_services_def scaling_services_def check_script_def scaling_playbook_def playbook_for_def
        intro!: keeps_intro r)
  show "keeps (\<lambda>w. w_inventory w = d) (change_app_state_in_db E u a s)" "keeps (\<lambda>w. w_inventory w = d) (leave_app E k u a cs)"
    by (auto simp: change_app_state_in_db_def leave_app_def remove_container_from_app_db_def leave_app_attempt_def
        remove_container_from_db_def intro!: keeps_intro retry)
  show "keeps (\<lambda>w. w_inventory w = d) (output_timestamp E fs)"
    "keeps (\<lambda>w. w_inventory w = d) (stop_app_on_container E h c a fs rm b ts dt ut)"
    by (auto simp: output_timestamp_def stop_app_on_container_def check_container_bind_path_def playbook_for_def intro!: keeps_intro)
qed

lemma bind_returned:
  "bindM p f w = (Returned y, w') \<longleftrightarrow> (\<exists>x v. p w = (Returned x, v) \<and> f x v = (Returned y, w'))"
  by (auto simp: bindM_def split: prod.splits outcome.splits)

lemma kept_value: "keeps (\<lambda>w. w_inventory w = w_inventory v) p \<Longrightarrow> p v = (r, w') \<Longrightarrow> w_inventory w' = w_inventory v"
  using keepsD [of "\<lambda>w. w_inventory w = w_inventory v" p v] by simp

text \<open>C15: when the removal of containers from an application reports no error, the inventory is the one before
  with every container of the list taken from its host.\<close>

theorem removal_empties_inventory:
  assumes "remove_containers_from_app E url containers app_name app_files w = (Returned (), w')" "lock_free w"
  shows "foldR forget_container containers (w_inventory w) = Inr (w_inventory w')"
proof -
  let ?off = "scaling_services_disabled E
       (thenM (change_app_state_in_db E url app_name ''stopped'') (leave_app E ''container_name'' url app_name containers))"
  let ?stop_apps = "\<lambda>ts. foldM (\<lambda>c. collect_error (stop_error E app_name c)
        (bindM (field c ''host'') (\<lambda>host_name. bindM (field c ''container_name'') (\<lambda>container.
         bindM (text_or c ''disk_path'' []) (\<lambda>bind_path.
         stop_app_on_container E host_name container app_name app_files [] bind_path ts 0 0))))) containers"
  from assms(1) obtain es v1 ts v2 es1 v3 es2 v4 where
    step: "?off w = (Returned es, v1)" "output_timestamp E app_files v1 = (Returned ts, v2)"
      "?stop_apps ts es v2 = (Returned es1, v3)"
      "foldM (\<lambda>c. collect_error (\<lambda>e. returnM (env_message E e)) (stop_listed E c)) containers es1 v3 = (Returned es2, v4)"
      "raise_errors es2 v4 = (Returned (), w')"
    unfolding remove_containers_from_app_def bind_returned by blast
  have last: "es2 = []" "v4 = w'" using step(5) by (auto simp: raise_errors_def raiseM_def returnM_def split: if_splits)
  have "keeps (\<lambda>w. w_inventory w = d) ?off" for d
    by (auto simp: scaling_services_disabled_def intro!: keeps_intro keeps_bracket)
  then have 1: "w_inventory v1 = w_inventory w" using kept_value step(1) by blast
  have 2: "w_inventory v2 = w_inventory v1" using kept_value [OF inventory_kept(5)] step(2) by blast
  have "keeps (\<lambda>w. w_inventory w = d) (?stop_apps t e)" for d t e
    by (auto simp: collect_error_def stop_error_def text_or_def intro!: keeps_intro)
  then have 3: "w_inventory v3 = w_inventory v2" using kept_value step(3) by blast
  have "lock_free v1" using completesD [OF completes_scaling(2) assms(2)] step(1)
    by (metis completes_db(1) completes_leave_app(1) completes_thenM snd_conv)
  then have "lock_free v2" using completesD [OF completes_shared(3)] step(2) by (metis snd_conv)
  moreover have "completes (?stop_apps t e)" for t e by (auto intro!: completes_intro)
  ultimately have "lock_free v3" using completesD step(3) by (metis (no_types, lifting) snd_conv)
  moreover have "forM containers (stop_listed E) v3 = (Returned (), w')"
    using collect_all_none [of "\<lambda>c e. returnM (env_message E e)" "stop_listed E"] step(4) last by blast
  ultimately show ?thesis using stop_all_removes 1 2 3 by metis
qed

definition sample_containers :: "obj list" where
  "sample_containers = [[(''container_name'', JStr ''h0-cont0''), (''host'', JStr ''h0'')]]"

theorem removal_empties_inventory_witness:
  "foldR forget_container sample_containers (w_inventory sample_world) =
     Inr (w_inventory (snd (remove_containers_from_app sample_env ''http://db/'' sample_containers ''app0'' [] sample_world)))"
proof (rule removal_empties_inventory [OF _ sample_free])
  have "fst (remove_containers_from_app sample_env ''http://db/'' sample_containers ''app0'' [] sample_world) = Returned ()"
    by code_simp
  then show "remove_containers_from_app sample_env ''http://db/'' sample_containers ''app0'' [] sample_world =
      (Returned (), snd (remove_containers_from_app sample_env ''http://db/'' sample_containers ''app0'' [] sample_world))"
    by (metis prod.collapse)
qed

end
