(* ===== verification/Deployment.thy ===== *)
theory Deployment
  imports Tasks Allocation
begin

text \<open>
  Starting an application: \<open>wait_for_app_dependency\<close>, \<open>deploy_app_containers\<close>, \<open>start_app_task\<close> and its
  rollback in \<open>ui/background_tasks.py\<close> (lines 610 to 823), with the group tasks of lines 908 to 947.

  The hosts of the database are read into the records of \<open>Structures\<close>; a number the allocation may need must
  be in the document.  Polling loops take fuel.
\<close>

section \<open>Reading documents\<close>

definition data_items :: "json \<Rightarrow> json list result" where
  "data_items v = (case v of JArr xs \<Rightarrow> Inr xs | JObj [] \<Rightarrow> Inr [] | _ \<Rightarrow> Inl (TypeError ''string indices''))"

definition number_in :: "json \<Rightarrow> string \<Rightarrow> rat result" where
  "number_in v k = rbind (jitem v k) jnum"

definition disk_of_json :: "json \<Rightarrow> disk result" where
  "disk_of_json v =
     rbind (rbind (jitem v ''path'') jstr) (\<lambda>p. rbind (number_in v ''max_read'') (\<lambda>mr. rbind (number_in v ''free_read'') (\<lambda>fr.
     rbind (number_in v ''max_write'') (\<lambda>mw. rbind (number_in v ''free_write'') (\<lambda>fw. rbind (number_in v ''load'') (\<lambda>l.
     Inr \<lparr>d_path = p, d_max_read = mr, d_free_read = fr, d_max_write = mw, d_free_write = fw, d_load = l\<rparr>))))))"

definition quota_of_json :: "json \<Rightarrow> quota result" where
  "quota_of_json v = rbind (number_in v ''max'') (\<lambda>m. rbind (number_in v ''free'') (\<lambda>f. Inr \<lparr>q_max = m, q_free = f\<rparr>))"

definition host_of_json :: "json \<Rightarrow> host result" where
  "host_of_json v =
     rbind (rbind (jitem v ''name'') jstr) (\<lambda>n. rbind (rbind (jitem v ''resources'') jobj) (\<lambda>res.
     rbind (mapR (\<lambda>(k, q). rbind (quota_of_json q) (\<lambda>q. Inr (k, q))) (filter (\<lambda>(k, q). k \<noteq> ''disks'') res)) (\<lambda>quotas.
     rbind (case map_of res ''disks'' of None \<Rightarrow> Inr None
       | Some d \<Rightarrow> rbind (jobj d) (\<lambda>ds. rbind (mapR (\<lambda>(k, x). rbind (disk_of_json x) (\<lambda>x. Inr (k, x))) ds) (\<lambda>ds. Inr (Some ds))))
     (\<lambda>disks. Inr \<lparr>h_name = n, h_quota = quotas, h_disks = disks\<rparr>))))"

definition hosts_of_data :: "json \<Rightarrow> host list result" where
  "hosts_of_data v =
     rbind (data_items v) (\<lambda>items.
     rbind (filterR (\<lambda>x. rbind (jitem x ''subtype'') (\<lambda>s. Inr (s = JStr ''host''))) items) (\<lambda>docs.
     rbind (mapR host_of_json docs) (\<lambda>hs. Inr (getHostsNames (map Host hs)))))"

text \<open>The resources of each kind of container, as the allocation reads them.\<close>

definition value_of_json :: "json \<Rightarrow> rval result" where
  "value_of_json v = (case v of JNum x \<Rightarrow> Inr (Num x) | JStr s \<Rightarrow> Inr (Txt s) | _ \<Rightarrow> Inl (TypeError ''value''))"

definition spec_of_json :: "json \<Rightarrow> spec result" where
  "spec_of_json v = rbind (jobj v) (mapR (\<lambda>(k, x). rbind (value_of_json x) (\<lambda>x. Inr (k, x))))"

definition specs_of_json :: "obj \<Rightarrow> (ctype \<times> spec) list result" where
  "specs_of_json crs =
     mapR (\<lambda>ct. rbind (spec_of_json (get_or crs (ctype_name ct) JNull)) (\<lambda>c. Inr (ct, c)))
       (filter (\<lambda>ct. has_key crs (ctype_name ct)) ctypes)"

definition inspect :: "(inventory \<Rightarrow> 'a) \<Rightarrow> 'a m" where
  "inspect f w = (Returned (f (w_inventory w)), w)"

definition server_name :: "inventory \<Rightarrow> string result" where
  "server_name doc = rbind (get_server_hostname doc) (\<lambda>v. case v of Some (VStr s) \<Rightarrow> Inr s | _ \<Rightarrow> Inl (TypeError ''ansible_host''))"

definition platform_of :: "obj \<Rightarrow> platform result" where
  "platform_of d =
     (let flag = (\<lambda>k. rbind (item d k) (\<lambda>v. Inr (jtruthy v)))
      in rbind (flag ''disk_capabilities'') (\<lambda>c. rbind (flag ''disk_scaling'') (\<lambda>s. rbind (flag ''power_budgeting'') (\<lambda>p.
         rbind (flag ''server_as_host'') (\<lambda>a. rbind (flag ''reserve_server_for_master'') (\<lambda>r.
         Inr \<lparr>pc_disk_capabilities = c, pc_disk_scaling = s, pc_power_budgeting = p, pc_server_as_host = a,
              pc_reserve_server_for_master = r\<rparr>))))))"

section \<open>Waiting for a dependency and for space\<close>

record requirements =
  ar_resources :: "limits dict"
  ar_policy :: string
  ar_oversubscription :: bool
  ar_number :: int
  ar_exclusions :: "string list dict dict"      \<comment> \<open>host, category, names\<close>

definition without_reserved_disks :: "string list dict dict \<Rightarrow> host \<Rightarrow> host" where
  "without_reserved_disks excluded h =
     (case (map_of excluded (h_name h), h_disks h) of
        (Some e, Some ds) \<Rightarrow> (case map_of e ''disks'' of
           Some names \<Rightarrow> h\<lparr>h_disks := Some (filter (\<lambda>(n, _). n \<notin> set names) ds)\<rparr> | None \<Rightarrow> h)
      | _ \<Rightarrow> h)"

definition add_free :: "host \<Rightarrow> string \<Rightarrow> rat dict \<Rightarrow> rat dict result" where
  "add_free h res free = rbind (free_quota h res) (\<lambda>x. Inr (AList.update res (get_or free res 0 + x) free))"

definition add_if_asked :: "string \<Rightarrow> rat \<Rightarrow> rat dict \<Rightarrow> rat dict" where
  "add_if_asked res x free = (case map_of free res of Some y \<Rightarrow> AList.update res (y + x) free | None \<Rightarrow> free)"

definition add_free_disk :: "disk \<Rightarrow> rat dict \<Rightarrow> rat dict" where
  "add_free_disk d free = add_if_asked ''disk_write'' (d_free_write d) (add_if_asked ''disk_read'' (d_free_read d) free)"

definition add_host_free :: "bool \<Rightarrow> host \<Rightarrow> rat dict \<Rightarrow> rat dict result" where
  "add_host_free check_disks h free =
     rbind (foldR (add_free h) (filter (\<lambda>r. r \<notin> {''disk_read'', ''disk_write''}) (keys_of free)) free) (\<lambda>free1.
     Inr (case h_disks h of Some ds \<Rightarrow> if check_disks then fold add_free_disk (map snd ds) free1 else free1 | None \<Rightarrow> free1))"

fun lacks_capacity :: "limits dict \<Rightarrow> rat dict \<Rightarrow> bool result" where
  "lacks_capacity app_resources [] = Inr False"
| "lacks_capacity app_resources ((res, x) # free) =
     rbind (item app_resources res) (\<lambda>l.
     rbind (case r_current l of Some c \<Rightarrow> Inr c | None \<Rightarrow> Inl (KeyError ''current'')) (\<lambda>c.
     if x < r_min l - c then Inr True else lacks_capacity app_resources free))"

definition alloc_text :: "alloc_error \<Rightarrow> string" where
  "alloc_text e = (case e of NotAllocated a \<Rightarrow> ''Could not allocate containers for app '' @ a
     | UnsupportedPolicy p \<Rightarrow> ''Assignation policy '' @ p @ '' not supported'')"

type_synonym assignation = "new_containers \<times> slot dict dict"

definition space_on_hosts ::
  "platform \<Rightarrow> string result \<Rightarrow> requirements \<Rightarrow> (ctype \<times> spec) list \<Rightarrow> string \<Rightarrow> host list \<Rightarrow> assignation result" where
  "space_on_hosts pc server req specs app_name all_hosts =
     (let check_disks = (pc_disk_capabilities pc \<and> pc_disk_scaling pc);
          hosts = (if check_disks then map (without_reserved_disks (ar_exclusions req)) all_hosts else all_hosts)
      in rbind (foldR (add_host_free check_disks) hosts (map (\<lambda>r. (r, 0)) (keys_of (ar_resources req)))) (\<lambda>free.
         rbind (lacks_capacity (ar_resources req) free) (\<lambda>lacks.
         if lacks then Inl (PyException (''There is no capacity for app '' @ app_name))
         else rbind (getContainerAssignationForApp pc server (ar_policy req) (ar_oversubscription req) hosts (ar_number req)
                       specs app_name) (\<lambda>(new, ledger, err).
              case err of Some e \<Rightarrow> Inl (PyException (alloc_text e)) | None \<Rightarrow> Inr (new, ledger)))))"

definition check_space_for_app ::
  "env \<Rightarrow> requirements \<Rightarrow> string \<Rightarrow> json \<Rightarrow> string \<Rightarrow> assignation m" where
  "check_space_for_app E req url crs app_name =
     bindM (liftR (rbind (jobj (convert_strings_to_numbers crs)) specs_of_json)) (\<lambda>specs.
     bindM (getDbData E url) (\<lambda>data.
     bindM (liftR (hosts_of_data data)) (\<lambda>hosts.
     bindM (liftR (platform_of (env_platform E))) (\<lambda>pc.
     bindM (inspect server_name) (\<lambda>server.
     liftR (space_on_hosts pc server req specs app_name hosts))))))"

fun find_app_doc :: "json list \<Rightarrow> string \<Rightarrow> json option result" where
  "find_app_doc [] app_name = Inr None"
| "find_app_doc (x # xs) app_name =
     rbind (jitem x ''subtype'') (\<lambda>s.
     if s = JStr ''application''
     then rbind (jitem x ''name'') (\<lambda>n. if n = JStr app_name then Inr (Some x) else find_app_doc xs app_name)
     else find_app_doc xs app_name)"

definition dependency_met :: "env \<Rightarrow> string \<Rightarrow> string \<Rightarrow> string list \<Rightarrow> bool m" where
  "dependency_met E url app_name conditions =
     bindM (getDbData E url) (\<lambda>data.
     liftR (rbind (rbind (data_items data) (\<lambda>xs. find_app_doc xs app_name)) (\<lambda>found.
       case found of None \<Rightarrow> Inl (TypeError ''NoneType'')
       | Some d \<Rightarrow> rbind (jitem d ''state'') (\<lambda>state. Inr (list_ex (\<lambda>c. state = JStr c) conditions)))))"

fun await_dependency :: "nat \<Rightarrow> env \<Rightarrow> string \<Rightarrow> string \<Rightarrow> string list \<Rightarrow> unit m" where
  "await_dependency 0 E url app_name conditions = still_running"
| "await_dependency (Suc fuel) E url app_name conditions =
     thenM (sleep 1) (bindM (dependency_met E url app_name conditions) (\<lambda>met.
       if met then returnM () else await_dependency fuel E url app_name conditions))"

definition wait_for_app_dependency ::
  "nat \<Rightarrow> env \<Rightarrow> requirements \<Rightarrow> string \<Rightarrow> string \<Rightarrow> json \<Rightarrow> (string \<times> string list) option \<Rightarrow> assignation m" where
  "wait_for_app_dependency fuel E req url app_name crs dependencies =
     thenM (case dependencies of None \<Rightarrow> returnM ()
       | Some (dep, conditions) \<Rightarrow> bindM (dependency_met E url dep conditions) (\<lambda>met.
           if met then returnM () else thenM (await_dependency fuel E url dep conditions) (sleep 60)))
     (check_space_for_app E req url crs app_name)"

section \<open>Deploying the containers of an application\<close>

fun kind_key :: "kind \<Rightarrow> string" where
  "kind_key RmNnKind = ''rm-nn''"
| "kind_key IrregularKind = ''irregular''"
| "kind_key RegularKind = ''regular''"

definition kinds :: "kind list" where
  "kinds = [RmNnKind, IrregularKind, RegularKind]"

text \<open>The names the inventory gave to the containers of a host, kind by kind; each kind is saved on its own.\<close>

definition add_typed :: "string \<Rightarrow> (kind \<times> int) list \<Rightarrow> (kind \<times> string list) list m" where
  "add_typed host_name counts =
     foldM (\<lambda>kind added. case map_of counts kind of
         None \<Rightarrow> returnM added
       | Some n \<Rightarrow> bindM (change_inventory (add_containers_to_hosts [(host_name, nat n)])) (\<lambda>r.
           bindM (liftR (item r host_name)) (\<lambda>names. returnM (added @ [(kind, names)])))) kinds []"

definition add_all_typed :: "new_containers \<Rightarrow> (kind \<times> string list) list dict m" where
  "add_all_typed new =
     with_lock (foldM (\<lambda>(host_name, counts) added.
       bindM (add_typed host_name counts) (\<lambda>t. returnM (AList.update host_name t added))) new [])"

definition copy_fields :: "obj \<Rightarrow> string list \<Rightarrow> obj result" where
  "copy_fields d ks = mapR (\<lambda>k. rbind (item d k) (\<lambda>v. Inr (k, v))) ks"

definition energy_keys :: "string list" where
  "energy_keys = [''energy_max'', ''energy_min'', ''energy_weight'', ''energy_boundary'', ''energy_boundary_type'']"

text \<open>The first disk of the host that still has a container to take, and the fields it brings.\<close>

definition disk_info_fields ::
  "env \<Rightarrow> obj \<Rightarrow> string \<Rightarrow> slot dict \<Rightarrow> (obj \<times> slot dict) result" where
  "disk_info_fields E res container slots =
     (case List.find (\<lambda>(n, s). 0 < s_new s) slots of
        None \<Rightarrow> Inr ([], slots)
      | Some (disk, s) \<Rightarrow>
          rbind (rbind (item (env_vars E) ''bind_dir_name'') jstr) (\<lambda>bind_dir_name.
          rbind (copy_fields res (resource_keys [''disk_read'', ''disk_write''])) (\<lambda>fields.
          Inr ([(''disk'', JStr disk), (''disk_path'', JStr (join ''/'' [s_path s, bind_dir_name, container]))] @ fields,
               AList.update disk (s\<lparr>s_new := s_new s - 1\<rparr>) slots))))"

definition flag_of :: "env \<Rightarrow> string \<Rightarrow> bool result" where
  "flag_of E k = rbind (item (env_platform E) k) (\<lambda>v. Inr (jtruthy v))"

definition container_info ::
  "env \<Rightarrow> obj dict \<Rightarrow> string \<times> kind \<times> string \<Rightarrow> slot dict dict \<Rightarrow> (obj \<times> slot dict dict) result" where
  "container_info E crs entry ledger =
     (case entry of (host_name, kind, container) \<Rightarrow>
      rbind (item crs (kind_key kind)) (\<lambda>res.
      rbind (copy_fields res (resource_keys [''cpu'', ''mem''])) (\<lambda>fields.
      rbind (rbind (flag_of E ''power_budgeting'') (\<lambda>p. if p then copy_fields res energy_keys else Inr [])) (\<lambda>energy.
      rbind (andR (flag_of E ''disk_capabilities'') (flag_of E ''disk_scaling'')) (\<lambda>disks.
      rbind (if disks \<and> kind \<noteq> RmNnKind
             then rbind (item ledger host_name) (\<lambda>slots. rbind (disk_info_fields E res container slots) (\<lambda>(d, slots').
                    Inr (d, AList.update host_name slots' ledger)))
             else Inr ([], ledger)) (\<lambda>(disk, ledger').
      Inr ([(''container_name'', JStr container), (''host'', JStr host_name)] @ fields @ energy @ disk, ledger')))))))"

definition placed_containers :: "(kind \<times> string list) list dict \<Rightarrow> (string \<times> kind \<times> string) list" where
  "placed_containers added =
     concat (map (\<lambda>(host_name, t). concat (map (\<lambda>kind. case map_of t kind of
         None \<Rightarrow> [] | Some names \<Rightarrow> map (\<lambda>n. (host_name, kind, n)) names) kinds)) added)"

definition containers_info_of ::
  "env \<Rightarrow> obj dict \<Rightarrow> slot dict dict \<Rightarrow> (kind \<times> string list) list dict \<Rightarrow> obj list result" where
  "containers_info_of E crs ledger added =
     rbind (foldR (\<lambda>entry (infos, led). rbind (container_info E crs entry led) (\<lambda>(info, led').
              Inr (infos @ [info], led'))) (placed_containers added) ([], ledger)) (\<lambda>(infos, _). Inr infos)"

definition clean_deployment :: "env \<Rightarrow> string \<Rightarrow> string \<Rightarrow> obj list \<Rightarrow> unit m" where
  "clean_deployment E url app_name containers_info =
     thenM (forM containers_info (\<lambda>c. bindM (field c ''host'') (\<lambda>host_name.
              bindM (field c ''container_name'') (\<lambda>container. stop_container E host_name container [] True))))
           (change_app_state_in_db E url app_name ''stopped'')"

text \<open>\<open>None\<close>: there was nothing to deploy.\<close>

definition deploy_app_containers ::
  "env \<Rightarrow> string \<Rightarrow> new_containers \<Rightarrow> string \<Rightarrow> obj \<Rightarrow> obj dict \<Rightarrow> slot dict dict \<Rightarrow> json \<Rightarrow> obj list option m" where
  "deploy_app_containers E url new app_name app_files crs ledger app_type =
     bindM (add_all_typed new) (\<lambda>added.
     bindM (liftR (containers_info_of E crs ledger added)) (\<lambda>infos.
     if infos = [] then returnM None
     else thenM (scaling_services_disabled E
            (tryM (start_containers_with_app E (keys_of added) (formatted (jobjs infos)) app_name app_type app_files)
               (\<lambda>e. thenM (clean_deployment E url app_name infos) (raiseM e))))
          (returnM (Some infos))))"

section \<open>Tasks on all containers of an application\<close>

definition run_group :: "nat \<Rightarrow> env \<Rightarrow> call list \<Rightarrow> unit m" where
  "run_group fuel E calls =
     thenM (log_event (Grouped calls))
     (thenM (pollM fuel (request Polled (env_ready E)) (sleep 1))
     (bindM (ask (env_group E)) (\<lambda>failed. case failed of None \<Rightarrow> returnM () | Some e \<Rightarrow> raiseM e)))"

definition some_containers :: "obj list option \<Rightarrow> obj list m" where     \<comment> \<open>iterating over \<open>None\<close> raises\<close>
  "some_containers cs = (case cs of Some xs \<Rightarrow> returnM xs | None \<Rightarrow> raiseM (TypeError ''NoneType''))"

definition containers_json :: "obj list option \<Rightarrow> json" where
  "containers_json cs = (case cs of Some xs \<Rightarrow> jobjs xs | None \<Rightarrow> JNull)"

definition setup_containers_network_task ::
  "env \<Rightarrow> string \<Rightarrow> string \<Rightarrow> obj list option \<Rightarrow> new_containers \<Rightarrow> unit m" where
  "setup_containers_network_task E url app_name app_containers new =
     setup_network_on_containers E (keys_of new) (formatted (containers_json app_containers)) app_name"

definition subscribe_containers_to_app :: "env \<Rightarrow> string \<Rightarrow> string \<Rightarrow> obj list \<Rightarrow> unit m" where
  "subscribe_containers_to_app E url app_name app_containers =
     scaling_services_disabled E (forM app_containers (\<lambda>c. bindM (field c ''container_name'') (\<lambda>container.
       subscribe_container_in_db E (member_url url container app_name) container app_name)))"

definition wait_for_app_on_containers :: "nat \<Rightarrow> env \<Rightarrow> string \<Rightarrow> obj list option \<Rightarrow> unit m" where
  "wait_for_app_on_containers fuel E app_name app_containers =
     bindM (some_containers app_containers) (\<lambda>cs.
     bindM (liftR (mapR (\<lambda>c. rbind (item c ''host'') (\<lambda>h.
        Inr (Call ''wait_for_app_on_container_task'' [h, JObj c, JStr app_name]))) cs))
     (run_group fuel E))"

definition start_call :: "string \<Rightarrow> string \<Rightarrow> obj \<Rightarrow> obj \<Rightarrow> call result" where
  "start_call url app_name app_files c =
     rbind (rbind (item c ''container_name'') jstr) (\<lambda>container. rbind (item c ''host'') (\<lambda>h.
     Inr (Call ''start_app_on_container_task''
       [JStr (member_url url container app_name), h, JObj c, JStr app_name, JObj app_files])))"

definition start_app_on_containers :: "nat \<Rightarrow> env \<Rightarrow> string \<Rightarrow> string \<Rightarrow> obj list option \<Rightarrow> obj \<Rightarrow> unit m" where
  "start_app_on_containers fuel E url app_name app_containers app_files =
     bindM (some_containers app_containers) (\<lambda>cs.
     bindM (liftR (mapR (start_call url app_name app_files) cs)) (run_group fuel E))"

section \<open>Starting an application\<close>

text \<open>An exception is printed; the text of the print reads the keys given.\<close>

definition print_errors :: "obj \<Rightarrow> string list \<Rightarrow> unit m \<Rightarrow> unit m" where
  "print_errors c read_keys p = tryM p (\<lambda>_. forM read_keys (\<lambda>k. thenM (liftR (item c k)) (returnM ())))"

definition rollback_start_flow :: "env \<Rightarrow> string \<Rightarrow> string \<Rightarrow> obj list option \<Rightarrow> obj \<Rightarrow> unit m" where
  "rollback_start_flow E url app_name app_containers app_files =
     (let cs = (case app_containers of Some xs \<Rightarrow> xs | None \<Rightarrow> [])
      in thenM (forM cs (\<lambda>c. print_errors c [''container_name'']
            (bindM (field c ''host'') (\<lambda>host_name. bindM (field c ''container_name'') (\<lambda>container.
             bindM (text_or c ''disk_path'' []) (\<lambda>bind_path.
             stop_app_on_container E host_name container app_name app_files [] bind_path JNull 0 0))))))
         (thenM (forM cs (\<lambda>c. print_errors c [''container_name'', ''host''] (stop_listed E c)))
         (thenM (forM cs (\<lambda>c. print_errors c [''container_name'']
            (bindM (field c ''container_name'') (\<lambda>container.
             thenM (remove_container_from_app_db E (member_url url container app_name) container app_name) (returnM ())))))
         (thenM (tryM (change_app_state_in_db E url app_name ''stopped'') (\<lambda>_. returnM ()))
                (tryM (manage_scaling_services E True True) (\<lambda>_. returnM ()))))))"

definition undo_start :: "env \<Rightarrow> string \<Rightarrow> string \<Rightarrow> obj list option \<Rightarrow> obj \<Rightarrow> exn \<Rightarrow> 'a m" where
  "undo_start E url app_name app_containers app_files e =
     thenM (rollback_start_flow E url app_name app_containers app_files) (raiseM e)"

text \<open>The guarded block: what is undone depends on whether the containers were deployed.\<close>

definition start_flow ::
  "nat \<Rightarrow> env \<Rightarrow> string \<Rightarrow> new_containers \<Rightarrow> string \<Rightarrow> obj \<Rightarrow> obj dict \<Rightarrow> slot dict dict \<Rightarrow> json \<Rightarrow> obj list option m" where
  "start_flow fuel E url new app_name app_files crs ledger app_type =
     bindM (tryM (deploy_app_containers E url new app_name app_files crs ledger app_type)
                 (undo_start E url app_name None app_files)) (\<lambda>app_containers.
     thenM (tryM (thenM (setup_containers_network_task E url app_name app_containers new)
                        (start_app_on_containers fuel E url app_name app_containers app_files))
                 (undo_start E url app_name app_containers app_files))
     (returnM app_containers))"

text \<open>\<open>"{:.2f}".format(x)\<close>\<close>

definition two_decimals :: "rat \<Rightarrow> string" where
  "two_decimals x =
     (let n = \<bar>py_round (100 * x)\<bar>; frac = str_of_int (n mod 100)
      in (if x < 0 then ''-'' else []) @ str_of_int (n div 100) @ ''.'' @ (if n mod 100 < 10 then ''0'' else []) @ frac)"

definition update_runtime :: "env \<Rightarrow> string \<Rightarrow> rat \<Rightarrow> unit m" where
  "update_runtime E task_id start_time =
     bindM (ask (env_clock E)) (\<lambda>end_time. update_task_runtime task_id (two_decimals (end_time - start_time)))"

definition start_app_task ::
  "nat \<Rightarrow> env \<Rightarrow> string \<Rightarrow> requirements \<Rightarrow> string \<Rightarrow> string \<Rightarrow> obj \<Rightarrow> obj dict \<Rightarrow> json \<Rightarrow> (string \<times> string list) option \<Rightarrow> unit m" where
  "start_app_task fuel E task_id req url app_name app_files crs app_type dependencies =
     bindM (wait_for_app_dependency fuel E req url app_name (JObj (map (\<lambda>(k, d). (k, JObj d)) crs)) dependencies)
       (\<lambda>(new, ledger).
     bindM (config_flag E ''enable_app_callback'') (\<lambda>callback.
     thenM (whenM callback (create_app_counter app_name (str_of_int (ar_number req))))
     (bindM (ask (env_clock E)) (\<lambda>start_time.
     thenM (change_app_state_in_db E url app_name ''running'')
     (bindM (start_flow fuel E url new app_name app_files crs ledger app_type) (\<lambda>app_containers.
     whenM (\<not> callback)
       (thenM (wait_for_app_on_containers fuel E app_name app_containers)
       (thenM (update_runtime E task_id start_time)
       (bindM (some_containers app_containers) (\<lambda>cs.
        remove_containers_from_app E url cs app_name app_files))))))))))"

section \<open>Every container of the answer is named\<close>

lemma copy_fields_keys: "copy_fields d ks = Inr fs \<Longrightarrow> map fst fs = ks"
  by (induction ks arbitrary: fs) (auto simp: copy_fields_def rbind_def split: sum.splits)

lemma container_info_named:
  assumes "container_info E crs (h, kind, n) led = Inr (info, led')"
  shows "map_of info ''container_name'' = Some (JStr n)" "map_of info ''host'' = Some (JStr h)"
  using assms by (auto simp: container_info_def rbind_def split: sum.splits prod.splits)

lemma infos_named_loop:
  assumes "foldR (\<lambda>entry (infos, led). rbind (container_info E crs entry led) (\<lambda>(info, led'). Inr (infos @ [info], led')))
      ps (acc, led) = Inr (infos, led')"
  shows "\<exists>new. infos = acc @ new \<and> map named_container new = map (\<lambda>(h, k, n). Inr (n, h)) ps"
  using assms
proof (induction ps arbitrary: acc led)
  case Nil
  then show ?case by simp
next
  case (Cons e ps)
  obtain h k n where e: "e = (h, k, n)" by (cases e)
  from Cons.prems obtain info led1 where info: "container_info E crs e led = Inr (info, led1)"
    "foldR (\<lambda>entry (infos, led). rbind (container_info E crs entry led) (\<lambda>(info, led'). Inr (infos @ [info], led')))
      ps (acc @ [info], led1) = Inr (infos, led')"
    by (auto simp: rbind_def split: sum.splits)
  from Cons.IH [OF info(2)] obtain new where
    "infos = (acc @ [info]) @ new" "map named_container new = map (\<lambda>(h, k, n). Inr (n, h)) ps" by blast
  moreover have "named_container info = Inr (n, h)"
    using container_info_named info(1) unfolding e by (fastforce simp: named_container_def item_def jstr_def rbind_def)
  ultimately show ?case using e by (intro exI [of _ "info # new"]) simp
qed

lemma infos_named:
  "containers_info_of E crs ledger added = Inr infos \<Longrightarrow>
   map named_container infos = map (\<lambda>(h, k, n). Inr (n, h)) (placed_containers added)"
  unfolding containers_info_of_def using infos_named_loop by (fastforce simp: rbind_def split: sum.splits)

definition named :: "obj list option \<Rightarrow> bool" where
  "named cs \<longleftrightarrow> (case cs of None \<Rightarrow> True | Some xs \<Rightarrow> list_all (\<lambda>c. \<not> isl (named_container c)) xs)"

lemma liftR_returned: "liftR r v = (Returned x, w') \<longleftrightarrow> r = Inr x \<and> w' = v"
  by (auto simp: liftR_def raiseM_def returnM_def split: sum.splits)

lemma deploy_named:
  assumes "deploy_app_containers E url new a fs crs ledger ty w = (Returned cs, w')"
  shows "named cs"
proof -
  have ok: "list_all (\<lambda>c. \<not> isl (named_container c)) infos" if "containers_info_of E crs ledger added = Inr infos" for added infos
  proof -
    have "\<not> isl (named_container c)" if "c \<in> set infos" for c
    proof -
      from that have "named_container c \<in> set (map named_container infos)" by simp
      then show ?thesis using infos_named [OF \<open>containers_info_of E crs ledger added = Inr infos\<close>] by auto
    qed
    then show ?thesis by (simp add: list_all_iff)
  qed
  from assms obtain added v infos v1 where "containers_info_of E crs ledger added = Inr infos"
    "(if infos = [] then returnM None
     else thenM (scaling_services_disabled E
            (tryM (start_containers_with_app E (keys_of added) (formatted (jobjs infos)) a ty fs)
               (\<lambda>e. thenM (clean_deployment E url a infos) (raiseM e))))
          (returnM (Some infos))) v1 = (Returned cs, w')"
    unfolding deploy_app_containers_def bind_returned liftR_returned by blast
  then show ?thesis
    using ok by (auto simp: named_def returnM_def thenM_def bind_returned split: if_splits)
qed

section \<open>Rolling back\<close>

text \<open>Started with the lock free, it returns.\<close>

definition succeeds :: "unit m \<Rightarrow> bool" where
  "succeeds p \<longleftrightarrow> completes p \<and> (\<forall>w. lock_free w \<longrightarrow> fst (p w) = Returned ())"

lemma succeeds_step: "succeeds p \<Longrightarrow> lock_free w \<Longrightarrow> fst (p w) = Returned () \<and> lock_free (snd (p w))"
  by (simp add: succeeds_def completes_def)

lemma succeeds_thenM: "succeeds p \<Longrightarrow> succeeds q \<Longrightarrow> succeeds (thenM p q)"
  unfolding succeeds_def
proof (intro conjI allI impI)
  fix w assume p: "completes p \<and> (\<forall>w. lock_free w \<longrightarrow> fst (p w) = Returned ())"
    and q: "completes q \<and> (\<forall>w. lock_free w \<longrightarrow> fst (q w) = Returned ())" and "lock_free w"
  then have "fst (p w) = Returned ()" "lock_free (snd (p w))" using completesD by blast+
  with q show "fst (thenM p q w) = Returned ()" by (cases "p w") (simp add: thenM_def bindM_def)
qed (auto intro!: completes_intro)

lemma succeeds_forM: "(\<And>c. c \<in> set cs \<Longrightarrow> succeeds (f c)) \<Longrightarrow> succeeds (forM cs f)"
proof (induction cs)
  case Nil
  then show ?case by (simp add: succeeds_def completes_basic) (simp add: returnM_def)
next
  case (Cons c cs)
  then show ?case by (auto intro!: succeeds_thenM)
qed

lemma succeeds_ignored:
  assumes "completes p" "\<And>e. succeeds (h e)"
  shows "succeeds (tryM p h)"
  unfolding succeeds_def
proof (intro conjI allI impI)
  show "completes (tryM p h)" using assms by (auto simp: succeeds_def intro!: completes_intro)
  fix w assume w: "lock_free w"
  obtain r v where p: "p w = (r, v)" by (cases "p w")
  with completesD [OF assms(1) w] have "r \<noteq> StillRunning" "lock_free v" by auto
  with p succeeds_step [OF assms(2)] show "fst (tryM p h w) = Returned ()" by (cases r) (auto simp: tryM_def)
qed

lemma succeeds_return: "succeeds (returnM ())"
  by (simp add: succeeds_def completes_basic) (simp add: returnM_def)

lemma succeeds_print:
  assumes "completes p" "\<And>k. k \<in> set ks \<Longrightarrow> has_key c k"
  shows "succeeds (print_errors c ks p)"
  unfolding print_errors_def
proof (intro succeeds_ignored assms(1) succeeds_forM)
  fix k assume "k \<in> set ks"
  then obtain v where "map_of c k = Some v" using assms(2) by (auto simp: has_key_def)
  then have "liftR (item c k) = returnM v" by (simp add: liftR_def item_def)
  then show "succeeds (thenM (liftR (item c k)) (returnM ()))"
    by (simp add: succeeds_def completes_intro) (simp add: thenM_def bindM_def returnM_def)
qed

lemma named_keys: "\<not> isl (named_container c) \<Longrightarrow> has_key c ''container_name'' \<and> has_key c ''host''"
  by (auto simp: named_container_def rbind_def item_def has_key_def split: option.splits sum.splits)

lemma rollback_succeeds:
  assumes "named cs"
  shows "succeeds (rollback_start_flow E url a cs fs)"
proof -
  have keys: "has_key c ''container_name'' \<and> has_key c ''host''" if "cs = Some xs" "c \<in> set xs" for c xs
    using assms that named_keys by (auto simp: named_def list_all_iff)
  show ?thesis
    unfolding rollback_start_flow_def Let_def
    by (cases cs) (auto intro!: succeeds_thenM succeeds_forM succeeds_print succeeds_ignored succeeds_return completes_intro
        dest: keys)
qed

text \<open>The parts of the flow with their guarantees.\<close>

lemma completes_deployment [completes_intro]:
  "completes (start_containers_with_app E hs ci a ty fs)" "completes (setup_containers_network_task E u a cs new)"
  "completes (clean_deployment E u a infos)"
  by (auto simp: start_containers_with_app_def setup_containers_network_task_def setup_network_on_containers_def
      clean_deployment_def intro!: completes_intro)

lemma completes_add_all [completes_intro]: "completes (add_all_typed new)"
  unfolding add_all_typed_def add_typed_def
  by (rule completes_with_lock) (auto intro!: keeps_intro finishes_intro)

lemma completes_deploy [completes_intro]: "completes (deploy_app_containers E u new a fs crs led ty)"
  by (auto simp: deploy_app_containers_def intro!: completes_intro)

lemma keeps_group [keeps_intro]:
  "keeps lock_free (run_group n E calls)" "keeps lock_free (start_app_on_containers n E u a cs fs)"
  "keeps lock_free (wait_for_app_on_containers n E a cs)"
  by (auto simp: run_group_def start_app_on_containers_def wait_for_app_on_containers_def some_containers_def intro!: keeps_intro)

text \<open>The flow without its two handlers.\<close>

definition unguarded_flow ::
  "nat \<Rightarrow> env \<Rightarrow> string \<Rightarrow> new_containers \<Rightarrow> string \<Rightarrow> obj \<Rightarrow> obj dict \<Rightarrow> slot dict dict \<Rightarrow> json \<Rightarrow> obj list option m" where
  "unguarded_flow fuel E url new app_name app_files crs ledger app_type =
     bindM (deploy_app_containers E url new app_name app_files crs ledger app_type) (\<lambda>app_containers.
     thenM (thenM (setup_containers_network_task E url app_name app_containers new)
                  (start_app_on_containers fuel E url app_name app_containers app_files))
     (returnM app_containers))"

lemma undo_raises:
  assumes "named cs" "lock_free v"
  shows "fst (undo_start E url a cs fs e v) = Raised e"
  using succeeds_step [OF rollback_succeeds [OF assms(1)] assms(2), of E url a fs]
  by (cases "rollback_start_flow E url a cs fs v") (auto simp: undo_start_def thenM_def bindM_def raiseM_def)

text \<open>C16: the two rollbacks of \<open>start_app_task\<close> never hide the cause of a failed start: the guarded flow returns,
  raises or waits exactly as the flow without these two handlers does, with the same exception, whatever of the rollback
  fails.  (The clean-up \<open>deploy_app_containers\<close> makes of its own failure is part of both flows; it is not so
  guarded, and may raise another exception than the playbook: \<open>clean_up_stops_early\<close>.)\<close>

theorem rollback_keeps_outcome:
  assumes "lock_free w"
  shows "fst (start_flow fuel E url new app_name app_files crs ledger app_type w) =
    fst (unguarded_flow fuel E url new app_name app_files crs ledger app_type w)"
proof -
  let ?deploy = "deploy_app_containers E url new app_name app_files crs ledger app_type"
  obtain r v where d: "?deploy w = (r, v)" by (cases "?deploy w")
  have v: "lock_free v" using completesD [OF completes_deploy assms] d by (metis snd_conv)
  show ?thesis
  proof (cases r)
    case (Raised e)
    obtain x where "(undo_start E url app_name None app_files e :: obj list option m) v = (Raised e, x)"
      using undo_raises [of None v E url app_name app_files e] v by (metis named_def option.case(1) prod.collapse)
    with d Raised show ?thesis by (simp add: start_flow_def unguarded_flow_def bindM_def tryM_def)
  next
    case StillRunning
    with d show ?thesis by (simp add: start_flow_def unguarded_flow_def bindM_def tryM_def)
  next
    case (Returned cs)
    let ?rest = "thenM (setup_containers_network_task E url app_name cs new)
       (start_app_on_containers fuel E url app_name cs app_files)"
    obtain q u where q: "?rest v = (q, u)" by (cases "?rest v")
    have "keeps lock_free ?rest" by (intro keeps_thenM keeps_group completes_keeps completes_deployment)
    then have u: "lock_free u" using keepsD [of lock_free ?rest v] v q by simp
    have named: "named cs" using deploy_named d Returned by blast
    have "fst (thenM (tryM ?rest (undo_start E url app_name cs app_files)) (returnM cs) v) = fst (thenM ?rest (returnM cs) v)"
    proof (cases q)
      case (Raised e)
      obtain x where "(undo_start E url app_name cs app_files e :: unit m) u = (Raised e, x)"
        using undo_raises [OF named u, of E url app_name app_files e] by (metis prod.collapse)
      with q Raised show ?thesis by (simp add: thenM_def [of _ "returnM cs"] bindM_def tryM_def)
    qed (use q in \<open>simp_all add: thenM_def [of _ "returnM cs"] bindM_def tryM_def\<close>)
    with d Returned show ?thesis by (simp add: start_flow_def unguarded_flow_def bindM_def tryM_def)
  qed
qed

section \<open>A failed start marks the application as stopped\<close>

lemma web_request_world:
  "supported_operation op \<Longrightarrow>
   snd (web_request E u op msg d w) = w\<lparr>w_trace := w_trace w @ [Requested op u (send_data d)]\<rparr>"
  by (auto simp: web_request_def request_def thenM_def bindM_def log_event_def ask_def liftR_def returnM_def raiseM_def
      split: sum.splits)

lemma state_requested:
  "happened (Requested ''put'' (url @ a @ ''/state/'' @ s) None) (snd (change_app_state_in_db E url a s w))"
proof -
  let ?msg = "''Error changing app '' @ a @ '' execution state to '' @ s"
  let ?attempt = "bindM (web_request E (url @ a @ ''/state/'' @ s) ''put'' ?msg None) (\<lambda>(error, response).
        if not_empty_string response
        then (if error = [] then returnM (Some ()) else raiseM (PyException error))
        else returnM None)"
  have snd: "snd (?attempt v) = snd (web_request E (url @ a @ ''/state/'' @ s) ''put'' ?msg None v)" for v
    by (auto simp: bindM_def returnM_def raiseM_def split: prod.splits outcome.splits)
  have "fst (?attempt v) \<noteq> Returned None" for v
    by (auto simp: bindM_def returnM_def raiseM_def split: prod.splits outcome.splits)
  note again = retry_never_again(2) [of ?attempt, OF this, of 9]
  have ten: "max_retries = Suc 9" by (simp add: max_retries_def)
  have "snd (change_app_state_in_db E url a s w) = snd (?attempt w)"
    unfolding change_app_state_in_db_def ten by (rule again)
  then show ?thesis
    using web_request_world [of "''put''" E "url @ a @ ''/state/'' @ s" ?msg None w] unfolding snd
    by (simp add: happened_def supported_operation_def send_data_def)
qed

lemma then_world: "fst (p w) = Returned () \<Longrightarrow> snd (thenM p q w) = snd (q (snd (p w)))"
  by (cases "p w") (simp add: thenM_def bindM_def)

lemma try_world_happened:
  "happened ev (snd (p w)) \<Longrightarrow> (\<And>e. keeps (happened ev) (h e)) \<Longrightarrow> happened ev (snd (tryM p h w))"
  by (auto simp: tryM_def keeps_def split: prod.splits outcome.splits)

lemma manage_keeps_happened: "keeps (happened ev) (manage_scaling_services E en True)"
  by (auto simp: manage_scaling_services_def scaling_services_def check_script_def intro!: keeps_intro)

lemma rollback_marks:
  assumes "named cs" "lock_free v"
  shows "happened (Requested ''put'' (url @ a @ ''/state/stopped'') None) (snd (rollback_start_flow E url a cs fs v))"
proof -
  let ?ev = "Requested ''put'' (url @ a @ ''/state/stopped'') None"
  have keys: "has_key c ''container_name'' \<and> has_key c ''host''" if "c \<in> set (case cs of Some xs \<Rightarrow> xs | None \<Rightarrow> [])" for c
    using assms(1) that named_keys by (auto simp: named_def list_all_iff split: option.splits)
  let ?c = "tryM (change_app_state_in_db E url a ''stopped'') (\<lambda>_. returnM ())"
  have c: "fst (?c u) = Returned () \<and> happened ?ev (snd (?c u))" if "lock_free u" for u
  proof -
    have "succeeds ?c" by (intro succeeds_ignored succeeds_return completes_db)
    moreover have "happened ?ev (snd (?c u))"
      using state_requested [of url a "''stopped''"] by (intro try_world_happened keeps_basic) simp
    ultimately show ?thesis using succeeds_step that by blast
  qed
  have step: "happened ?ev (snd (thenM p q u))" if "succeeds p" "lock_free u" "\<And>x. lock_free x \<Longrightarrow> happened ?ev (snd (q x))"
    for p u and q :: "unit m"
    using that succeeds_step by (simp add: then_world)
  have states: "happened ?ev (snd (thenM ?c (tryM (manage_scaling_services E True True) (\<lambda>_. returnM ())) x))"
    if "lock_free x" for x
  proof -
    have "keeps (happened ?ev) (tryM (manage_scaling_services E True True) (\<lambda>_. returnM ()))"
      by (intro keeps_tryM manage_keeps_happened keeps_basic)
    from keepsD [OF this] c [OF that] show ?thesis by (simp only: then_world)
  qed
  have all: "succeeds (forM (case cs of Some xs \<Rightarrow> xs | None \<Rightarrow> []) (\<lambda>c. print_errors c ks (f c)))"
    if "set ks \<subseteq> {''container_name'', ''host''}" "\<And>c. completes (f c)" for ks f
  proof (intro succeeds_forM succeeds_print that(2))
    fix c k assume "c \<in> set (case cs of Some xs \<Rightarrow> xs | None \<Rightarrow> [])" "k \<in> set ks"
    with keys [of c] that(1) show "has_key c k" by auto
  qed
  show ?thesis
    unfolding rollback_start_flow_def Let_def
  proof (rule step [OF all assms(2)])
    fix x assume x: "lock_free x"
    show "happened ?ev (snd (thenM (forM (case cs of Some xs \<Rightarrow> xs | None \<Rightarrow> []) (\<lambda>c. print_errors c [''container_name'', ''host'']
        (stop_listed E c))) (thenM (forM (case cs of Some xs \<Rightarrow> xs | None \<Rightarrow> []) (\<lambda>c. print_errors c [''container_name'']
          (bindM (field c ''container_name'') (\<lambda>container.
             thenM (remove_container_from_app_db E (member_url url container a) container a) (returnM ())))))
        (thenM ?c (tryM (manage_scaling_services E True True) (\<lambda>_. returnM ())))) x))"
      by (rule step [OF all x], simp, rule completes_leave_app)
        (rule step [OF all _ states], auto intro!: completes_intro)
  qed (auto intro!: completes_intro)
qed

text \<open>C17: whenever starting the containers of an application raises, the database was asked to mark the
  application as stopped.\<close>

theorem failed_start_marks_stopped:
  assumes "lock_free w" and "fst (start_flow fuel E url new app_name app_files crs ledger app_type w) = Raised e"
  shows "happened (Requested ''put'' (url @ app_name @ ''/state/stopped'') None)
    (snd (start_flow fuel E url new app_name app_files crs ledger app_type w))"
proof -
  let ?ev = "Requested ''put'' (url @ app_name @ ''/state/stopped'') None"
  let ?deploy = "deploy_app_containers E url new app_name app_files crs ledger app_type"
  have undo: "happened ?ev (snd (undo_start E url app_name cs app_files e v))" if "named cs" "lock_free v" for cs e v
    using rollback_marks [OF that, of url app_name E app_files] succeeds_step [OF rollback_succeeds [OF that(1)] that(2)]
    by (simp add: undo_start_def then_world) (simp add: raiseM_def)
  obtain r v where d: "?deploy w = (r, v)" by (cases "?deploy w")
  have v: "lock_free v" using completesD [OF completes_deploy assms(1)] d by (metis snd_conv)
  show ?thesis
  proof (cases r)
    case (Raised e')
    obtain x where x: "(undo_start E url app_name None app_files e' :: obj list option m) v = (Raised e', x)"
      using undo_raises [of None v E url app_name app_files e'] v by (metis named_def option.case(1) prod.collapse)
    then have "happened ?ev x" using undo [of None v e'] v by (metis named_def option.case(1) snd_conv)
    with d Raised x show ?thesis by (simp add: start_flow_def bindM_def tryM_def)
  next
    case StillRunning
    with d assms(2) show ?thesis by (simp add: start_flow_def bindM_def tryM_def)
  next
    case (Returned cs)
    let ?rest = "thenM (setup_containers_network_task E url app_name cs new)
       (start_app_on_containers fuel E url app_name cs app_files)"
    obtain q u where q: "?rest v = (q, u)" by (cases "?rest v")
    have "keeps lock_free ?rest" by (intro keeps_thenM keeps_group completes_keeps completes_deployment)
    then have u: "lock_free u" using keepsD [of lock_free ?rest v] v q by simp
    have named: "named cs" using deploy_named d Returned by blast
    have flow: "start_flow fuel E url new app_name app_files crs ledger app_type w =
        thenM (tryM ?rest (undo_start E url app_name cs app_files)) (returnM cs) v"
      using d Returned by (simp add: start_flow_def bindM_def tryM_def)
    show ?thesis
    proof (cases q)
      case (Raised e')
      obtain x where x: "(undo_start E url app_name cs app_files e' :: unit m) u = (Raised e', x)"
        using undo_raises [OF named u, of E url app_name app_files e'] by (metis prod.collapse)
      then have "happened ?ev x" using undo [OF named u, of e'] by (metis snd_conv)
      with q Raised x show ?thesis unfolding flow by (simp add: thenM_def [of _ "returnM cs"] bindM_def tryM_def)
    qed (use assms(2) flow q in \<open>auto simp: thenM_def [of _ "returnM cs"] bindM_def tryM_def returnM_def\<close>)
  qed
qed

section \<open>Disks of new containers\<close>

definition on_disk :: "string \<Rightarrow> string \<Rightarrow> obj \<Rightarrow> bool" where
  "on_disk h d info \<longleftrightarrow> map_of info ''host'' = Some (JStr h) \<and> map_of info ''disk'' = Some (JStr d)"

text \<open>The containers the assignation still has for a disk.\<close>

definition left_on :: "slot dict dict \<Rightarrow> string \<Rightarrow> string \<Rightarrow> int" where
  "left_on ledger h d =
     (case map_of ledger h of None \<Rightarrow> 0 | Some slots \<Rightarrow> (case map_of slots d of None \<Rightarrow> 0 | Some s \<Rightarrow> s_new s))"

definition slots_distinct :: "slot dict dict \<Rightarrow> bool" where
  "slots_distinct ledger \<longleftrightarrow> (\<forall>h slots. map_of ledger h = Some slots \<longrightarrow> distinct (map fst slots))"

lemma no_disk_key:
  "''disk'' \<notin> set (resource_keys [''cpu'', ''mem''])" "''disk'' \<notin> set energy_keys" "''disk'' \<notin> set (resource_keys [''disk_read'', ''disk_write''])"
  by (simp_all add: resource_keys_def limit_fields_def energy_keys_def)

lemma copy_no_key: "copy_fields d ks = Inr fs \<Longrightarrow> k \<notin> set ks \<Longrightarrow> map_of fs k = None"
  by (drule copy_fields_keys) (simp add: map_of_eq_None_iff flip: set_map)

lemma disk_info_fields_step:
  assumes "disk_info_fields E res n slots = Inr (fs, slots')" "distinct (map fst slots)"
  shows "distinct (map fst slots') \<and>
    (case map_of fs ''disk'' of
       None \<Rightarrow> slots' = slots
     | Some v \<Rightarrow> \<exists>d s. v = JStr d \<and> map_of slots d = Some s \<and> 0 < s_new s \<and> slots' = AList.update d (s\<lparr>s_new := s_new s - 1\<rparr>) slots)"
proof (cases "List.find (\<lambda>(n, s). 0 < s_new s) slots")
  case None
  with assms show ?thesis by (simp add: disk_info_fields_def)
next
  case (Some p)
  obtain d s where p: "p = (d, s)" by (cases p)
  with Some have "(d, s) \<in> set slots" "0 < s_new s" by (auto simp: find_Some_iff) (metis nth_mem)
  then have m: "map_of slots d = Some s" "0 < s_new s" using assms(2) by simp_all
  from assms(1) Some p obtain rest where fs: "fs = (''disk'', JStr d) # rest"
    and slots': "slots' = AList.update d (s\<lparr>s_new := s_new s - 1\<rparr>) slots"
    by (auto simp: disk_info_fields_def rbind_eq_Inr)
  show ?thesis unfolding fs slots' using m assms(2) by (simp add: distinct_update del: map_of_eq_Some_iff)
qed

lemma container_info_disks:
  assumes "container_info E crs (g, k, n) led = Inr (info, led')" "slots_distinct led"
  shows "slots_distinct led' \<and> left_on led' h d = left_on led h d - (if on_disk h d info then 1 else 0) \<and>
    (on_disk h d info \<longrightarrow> 0 < left_on led h d)"
proof -
  from assms(1) obtain res fields energy disks disk led1 where
    f: "copy_fields res (resource_keys [''cpu'', ''mem'']) = Inr fields"
    and en: "rbind (flag_of E ''power_budgeting'') (\<lambda>p. if p then copy_fields res energy_keys else Inr []) = Inr energy"
    and di: "(if disks \<and> k \<noteq> RmNnKind
             then rbind (item led g) (\<lambda>slots. rbind (disk_info_fields E res n slots) (\<lambda>(d, slots').
                    Inr (d, AList.update g slots' led)))
             else Inr ([], led)) = Inr (disk, led1)"
    and out: "info = [(''container_name'', JStr n), (''host'', JStr g)] @ fields @ energy @ disk" "led' = led1"
    unfolding container_info_def prod.case rbind_eq_Inr by (auto split: prod.splits)
  note info = out(1)
  have e: "energy = [] \<or> copy_fields res energy_keys = Inr energy"
    using en by (auto simp: rbind_eq_Inr split: if_splits)
  have disk: "(disk = [] \<and> led' = led) \<or> (\<exists>slots slots'. map_of led g = Some slots \<and>
       disk_info_fields E res n slots = Inr (disk, slots') \<and> led' = AList.update g slots' led)"
    using di out(2) by (auto simp: rbind_eq_Inr item_def split: if_splits option.splits prod.splits)
  have "map_of fields ''disk'' = None" "map_of energy ''disk'' = None"
    using copy_no_key [OF f no_disk_key(1)] e copy_no_key [OF _ no_disk_key(2)] by auto
  then have d: "map_of info ''disk'' = map_of disk ''disk''" by (simp add: info map_add_def split: option.splits)
  have host: "map_of info ''host'' = Some (JStr g)" by (simp add: info)
  from disk show ?thesis
  proof
    assume "disk = [] \<and> led' = led"
    with d assms(2) show ?thesis by (simp add: on_disk_def)
  next
    assume "\<exists>slots slots'. map_of led g = Some slots \<and> disk_info_fields E res n slots = Inr (disk, slots') \<and> led' = AList.update g slots' led"
    then obtain slots slots' where s: "map_of led g = Some slots" "disk_info_fields E res n slots = Inr (disk, slots')"
      "led' = AList.update g slots' led" by blast
    have "distinct (map fst slots)" using assms(2) s(1) by (auto simp: slots_distinct_def)
    note step = disk_info_fields_step [OF s(2) this]
    show ?thesis
      using step s assms(2) d host
      by (cases "map_of disk ''disk''")
        (auto simp: slots_distinct_def left_on_def on_disk_def update_conv' simp del: map_of_eq_Some_iff Some_eq_map_of_iff
          split: option.splits if_splits)
  qed
qed

lemma infos_disks_loop:
  assumes "foldR (\<lambda>entry (infos, led). rbind (container_info E crs entry led) (\<lambda>(info, led'). Inr (infos @ [info], led')))
      ps (acc, led) = Inr (infos, led')" "slots_distinct led" "0 \<le> left_on led h d"
  shows "int (length (filter (on_disk h d) infos)) \<le> int (length (filter (on_disk h d) acc)) + left_on led h d"
  using assms
proof (induction ps arbitrary: acc led)
  case Nil
  then show ?case by simp
next
  case (Cons e ps)
  obtain g k n where e: "e = (g, k, n)" by (cases e)
  from Cons.prems(1) obtain info led1 where info: "container_info E crs e led = Inr (info, led1)"
    "foldR (\<lambda>entry (infos, led). rbind (container_info E crs entry led) (\<lambda>(info, led'). Inr (infos @ [info], led')))
      ps (acc @ [info], led1) = Inr (infos, led')"
    by (auto simp: rbind_def split: sum.splits)
  note step = container_info_disks [OF info(1) [unfolded e] Cons.prems(2), of h d]
  with Cons.prems(3) have "0 \<le> left_on led1 h d" by (auto split: if_splits)
  with Cons.IH [OF info(2)] step show ?case by (auto split: if_splits)
qed

text \<open>C18: of the containers that are deployed on a host, no more get a disk than the assignation counted for it.\<close>

theorem deployed_within_assignation:
  assumes "containers_info_of E crs ledger added = Inr infos" and "slots_distinct ledger"
    and "map_of ledger h = Some slots" and "map_of slots d = Some s" and "0 \<le> s_new s"
  shows "int (length (filter (on_disk h d) infos)) \<le> s_new s"
proof -
  from assms(1) obtain led where
    "foldR (\<lambda>entry (infos, led). rbind (container_info E crs entry led) (\<lambda>(info, led'). Inr (infos @ [info], led')))
      (placed_containers added) ([], ledger) = Inr (infos, led)"
    by (auto simp: containers_info_of_def rbind_def split: sum.splits)
  from infos_disks_loop [OF this assms(2), of h d] show ?thesis using assms by (simp add: left_on_def)
qed

section \<open>Runs\<close>

lemma keeps_start_app [keeps_intro]: "keeps lock_free (start_app_task n E i req u a fs crs ty deps)"
proof -
  have inspect: "completes (inspect f)" for f :: "inventory \<Rightarrow> 'z"
    by (simp add: completes_def inspect_def)
  have space: "completes (check_space_for_app E req u c a)" for c
    by (auto simp: check_space_for_app_def intro!: completes_intro inspect)
  have met: "completes (dependency_met E u d conds)" for d conds
    by (auto simp: dependency_met_def intro!: completes_intro)
  have await: "keeps lock_free (await_dependency k E u d conds)" for k d conds
    by (induction k) (auto intro!: keeps_intro completes_keeps [OF met])
  have undo: "completes (undo_start E u a cs fs e)" for cs e
    by (cases cs) (auto simp: undo_start_def rollback_start_flow_def print_errors_def intro!: completes_intro)
  show ?thesis
    unfolding start_app_task_def wait_for_app_dependency_def start_flow_def update_runtime_def some_containers_def
    by (auto intro!: keeps_intro completes_keeps [OF space] completes_keeps [OF met] await completes_keeps [OF undo]
        completes_keeps [OF completes_deploy] completes_keeps [OF completes_deployment(2)] completes_keeps [OF completes_db(1)]
        completes_keeps [OF completes_removals])
qed

theorem rollback_keeps_outcome_witness:
  "fst (start_flow 1 sample_env ''http://db/'' [] ''app0'' [] [] [] JNull sample_world) =
   fst (unguarded_flow 1 sample_env ''http://db/'' [] ''app0'' [] [] [] JNull sample_world)"
  by (rule rollback_keeps_outcome [OF sample_free])

lemma sample_start_raises:
  "fst (start_flow 1 sample_env ''http://db/'' [] ''app0'' [] [] [] JNull sample_world) = Raised (TypeError ''NoneType'')"
  by code_simp

theorem failed_start_marks_stopped_witness:
  "happened (Requested ''put'' (''http://db/'' @ ''app0'' @ ''/state/stopped'') None)
     (snd (start_flow 1 sample_env ''http://db/'' [] ''app0'' [] [] [] JNull sample_world))"
  by (rule failed_start_marks_stopped [OF sample_free sample_start_raises])

text \<open>Two containers on a host with one place on its disk.\<close>

definition sample_kind :: obj where
  "sample_kind = map (\<lambda>k. (k, JNum 1)) (resource_keys [''cpu'', ''mem'', ''disk_read'', ''disk_write''])"

definition disk_env :: env where
  "disk_env = sample_env\<lparr>
     env_platform := [(''power_budgeting'', JBool False), (''disk_capabilities'', JBool True), (''disk_scaling'', JBool True)],
     env_vars := [(''bind_dir_name'', JStr ''binds'')]\<rparr>"

definition sample_ledger :: "slot dict dict" where
  "sample_ledger = [(''h0'', [(''ssd_0'', \<lparr>s_new = 1, s_path = ''/ssd'', s_read = 0, s_write = 0, s_total = 0\<rparr>)])]"

theorem deployed_within_assignation_witness:
  "int (length (filter (on_disk ''h0'' ''ssd_0'')
     (projr (containers_info_of disk_env [(''regular'', sample_kind)] sample_ledger [(''h0'', [(RegularKind, [''c0'', ''c1''])])])))) \<le> 1"
proof -
  let ?r = "containers_info_of disk_env [(''regular'', sample_kind)] sample_ledger [(''h0'', [(RegularKind, [''c0'', ''c1''])])]"
  have "\<not> isl ?r" by code_simp
  then have r: "?r = Inr (projr ?r)" by simp
  have "int (length (filter (on_disk ''h0'' ''ssd_0'') (projr ?r))) \<le>
      s_new \<lparr>s_new = 1, s_path = ''/ssd'', s_read = 0, s_write = 0, s_total = 0\<rparr>"
    by (rule deployed_within_assignation [OF r, of "''h0''" "snd (hd sample_ledger)" "''ssd_0''"])
      (auto simp: sample_ledger_def slots_distinct_def split: if_splits)
  then show ?thesis by simp
qed

text \<open>When the clean-up of a failed deployment cannot stop its first container, the second one is never stopped:
  it stays in the inventory, and the exception is the one of the clean-up.\<close>

definition broken_env :: env where
  "broken_env = sample_env\<lparr>env_playbook := (\<lambda>_. (2, [])), env_adhoc := (\<lambda>_. 2)\<rparr>"

lemma clean_up_stops_early:
  "case clean_deployment broken_env ''http://db/'' ''app0''
      [[(''container_name'', JStr ''h0-cont0''), (''host'', JStr ''h0'')], [(''container_name'', JStr ''h0-cont1''), (''host'', JStr ''h0'')]]
      sample_world of
     (r, w) \<Rightarrow> r = Raised (PyException ''Error removing container h0-cont0 from remote host h0: failed'') \<and>
       listed_containers ''h0'' (w_inventory w) = Inr [''h0-cont1''] \<and>
       list_all (\<lambda>ev. ev \<noteq> Requested ''put'' ''http://db/app0/state/stopped'' None) (w_trace w)"
  by code_simp

end
