(* ===== verification/HadoopTasks.thy ===== *)
theory HadoopTasks
  imports Deployment
begin

text \<open>
  Hadoop applications and the global HDFS: \<open>start_hadoop_app_task\<close>, the network of its cluster, the file
  operations, the replication monitor, the start and the stop of the global HDFS
  (\<open>ui/background_tasks.py\<close> lines 825 to 896 and 949 to 1193).

  Global HDFS data that are \<open>None\<close> or empty are the empty dictionary.
\<close>

section \<open>The cluster of an application\<close>

definition settings_json :: "settings \<Rightarrow> obj" where
  "settings_json s = map (\<lambda>(k, v). (k, JStr (str_of_int v))) s"

definition platform_int :: "env \<Rightarrow> string \<Rightarrow> int result" where
  "platform_int E k = rbind (item (env_platform E) k) jint"

definition workers_of :: "kind \<Rightarrow> new_containers \<Rightarrow> int" where
  "workers_of kind new = sum_list (map (\<lambda>(_, counts). case map_of counts kind of Some n \<Rightarrow> n | None \<Rightarrow> 0) new)"

definition replication_key :: "env \<Rightarrow> string result" where
  "replication_key E = rbind (item (env_platform E) ''hdfs_mode'') (\<lambda>mode.
     Inr (if mode \<noteq> JStr ''single'' then ''local_hdfs_replication'' else ''global_hdfs_replication''))"

definition cluster_resources :: "env \<Rightarrow> obj dict \<Rightarrow> bool \<Rightarrow> new_containers \<Rightarrow> obj dict result" where
  "cluster_resources E crs virtual_cluster new =
     foldR (\<lambda>kind acc. case map_of crs (kind_key kind) of
         None \<Rightarrow> Inr acc
       | Some res \<Rightarrow> rbind (rbind (replication_key E) (platform_int E)) (\<lambda>replication.
           rbind (set_hadoop_resources res virtual_cluster (workers_of kind new) replication) (\<lambda>s.
           Inr (acc @ [(kind_key kind, settings_json s)])))) [RegularKind, IrregularKind] []"

text \<open>The host that got the master, and its first container without a disk.\<close>

definition master_host :: "new_containers \<Rightarrow> string option" where
  "master_host new = map_option fst (List.find (\<lambda>(_, counts). map_of counts RmNnKind \<noteq> None) new)"

definition master_container :: "string \<Rightarrow> obj list \<Rightarrow> obj option" where
  "master_container rm_host containers =
     List.find (\<lambda>c. map_of c ''host'' = Some (JStr rm_host) \<and> \<not> has_key c ''disk'') containers"

definition find_master :: "new_containers \<Rightarrow> obj list option \<Rightarrow> (string \<times> obj) m" where
  "find_master new app_containers =
     (case master_host new of
        None \<Rightarrow> raiseM (UnboundLocalError ''rm_host'')
      | Some rm_host \<Rightarrow> bindM (some_containers app_containers) (\<lambda>cs.
          case master_container rm_host cs of
            None \<Rightarrow> raiseM (UnboundLocalError ''rm_container'')
          | Some c \<Rightarrow> returnM (rm_host, c)))"

definition nonempty_field :: "obj \<Rightarrow> string \<Rightarrow> bool" where
  "nonempty_field d k \<longleftrightarrow> has_key d k \<and> get_or d k JNull \<noteq> JStr []"

definition connect_cluster ::
  "env \<Rightarrow> string \<Rightarrow> string \<Rightarrow> obj \<Rightarrow> string list \<Rightarrow> string \<Rightarrow> string \<Rightarrow> string \<Rightarrow> obj \<Rightarrow> obj \<Rightarrow> rat m" where
  "connect_cluster E url app_name app_files host_names infos rm_host rm_container conf global_hdfs_data =
     (if global_hdfs_data = []
      then thenM (setup_hadoop_network_on_containers E host_names app_name app_files infos rm_host rm_container conf False)
             (returnM 0)
      else thenM (whenM (nonempty_field global_hdfs_data ''global_input'')
                    (change_app_state_in_db E url app_name ''hdfs_downloading''))
           (bindM (setup_hadoop_network_with_global_hdfs E host_names app_name app_files infos rm_host rm_container conf
                     global_hdfs_data) (\<lambda>download_time.
            thenM (whenM (nonempty_field global_hdfs_data ''global_input'') (change_app_state_in_db E url app_name ''running''))
                  (returnM download_time))))"

text \<open>The caller's \<open>app_files\<close> get the type of the application: the files are part of the result.\<close>

definition setup_containers_hadoop_network_task ::
  "env \<Rightarrow> obj list option \<Rightarrow> string \<Rightarrow> string \<Rightarrow> obj \<Rightarrow> obj dict \<Rightarrow> new_containers \<Rightarrow> json \<Rightarrow> obj \<Rightarrow>
   (string \<times> string \<times> rat \<times> rat \<times> obj) m" where
  "setup_containers_hadoop_network_task E app_containers url app_name app_files0 hadoop_resources new app_type global_hdfs_data =
     (let app_files = AList.update ''app_type'' app_type app_files0;
          infos = formatted (containers_json app_containers)
      in bindM (find_master new app_containers) (\<lambda>(rm_host, c).
         bindM (field c ''container_name'') (\<lambda>rm_container.
         bindM (liftR (item hadoop_resources ''regular'')) (\<lambda>conf.
         bindM (connect_cluster E url app_name app_files (keys_of new) infos rm_host rm_container conf global_hdfs_data)
           (\<lambda>download_time.
         thenM (start_app_on_container_task E (member_url url rm_container app_name) rm_host c app_name app_files global_hdfs_data)
         (thenM (wait_for_app_on_container_task E rm_host c app_name)
         (bindM (if global_hdfs_data = [] then returnM 0
                 else thenM (change_app_state_in_db E url app_name ''hdfs_uploading'')
                        (upload_local_hdfs_data_to_global E rm_host rm_container global_hdfs_data infos)) (\<lambda>upload_time.
          returnM (rm_host, rm_container, download_time, upload_time, app_files)))))))))"

text \<open>All containers leave the application; then the scaler gets what is left of its period.\<close>

definition leave_and_wait :: "env \<Rightarrow> string \<Rightarrow> string \<Rightarrow> string \<Rightarrow> obj list \<Rightarrow> rat \<Rightarrow> string list m" where
  "leave_and_wait E name_key url app_name containers scaler_polling_freq =
     bindM (ask (env_clock E)) (\<lambda>start_time.
     bindM (leave_app E name_key url app_name containers) (\<lambda>errors.
     bindM (ask (env_clock E)) (\<lambda>end_time.
     thenM (sleep (scaler_polling_freq - (end_time - start_time))) (returnM errors))))"

definition stop_cluster_container ::
  "env \<Rightarrow> string \<Rightarrow> obj \<Rightarrow> string \<Rightarrow> json \<Rightarrow> rat \<Rightarrow> rat \<Rightarrow> obj \<Rightarrow> unit m" where
  "stop_cluster_container E app_name app_files rm_container timestamp download_time upload_time c =
     bindM (field c ''container_name'') (\<lambda>container. bindM (text_or c ''disk_path'' []) (\<lambda>bind_path.
     bindM (field c ''host'') (\<lambda>host_name.
     run_later E ''stop_container_task'' (Call ''stop_app_on_container_task''
       ([JStr host_name, JStr container, JStr bind_path, JStr app_name, JObj app_files, JStr rm_container, timestamp] @
        (if container = rm_container then [JNum download_time, JNum upload_time] else []))))))"

definition start_hadoop_app_task ::
  "nat \<Rightarrow> env \<Rightarrow> string \<Rightarrow> requirements \<Rightarrow> string \<Rightarrow> string \<Rightarrow> obj \<Rightarrow> obj dict \<Rightarrow> rat \<Rightarrow> bool \<Rightarrow> json \<Rightarrow> obj \<Rightarrow>
   (string \<times> string list) option \<Rightarrow> unit m" where
  "start_hadoop_app_task fuel E task_id req url app_name app_files0 crs scaler_polling_freq virtual_cluster app_type
       global_hdfs_data dependencies =
     bindM (wait_for_app_dependency fuel E req url app_name (JObj (map (\<lambda>(k, d). (k, JObj d)) crs)) dependencies)
       (\<lambda>(new, ledger).
     bindM (config_flag E ''enable_app_callback'') (\<lambda>callback.
     if callback then raiseM (PyException ''Callback app execution not currently supported by hadoop apps'')
     else thenM (create_app_counter app_name ''1'')
       (bindM (liftR (cluster_resources E crs virtual_cluster new)) (\<lambda>hadoop_resources.
        bindM (ask (env_clock E)) (\<lambda>start_time.
        thenM (change_app_state_in_db E url app_name ''running'')
        (bindM (deploy_app_containers E url new app_name app_files0 crs ledger app_type) (\<lambda>app_containers.
         bindM (setup_containers_hadoop_network_task E app_containers url app_name app_files0 hadoop_resources new app_type
                  global_hdfs_data) (\<lambda>(rm_host, rm_container, download_time, upload_time, app_files).
         thenM (update_runtime E task_id start_time)
         (thenM (stop_hadoop_cluster E rm_host rm_container)
         (bindM (some_containers app_containers) (\<lambda>cs.
          bindM (scaling_services_disabled E
                   (leave_and_wait E ''container_name'' url app_name cs scaler_polling_freq)) (\<lambda>errors.
          bindM (output_timestamp E app_files) (\<lambda>timestamp.
          thenM (forM cs (stop_cluster_container E app_name app_files rm_container timestamp download_time upload_time))
          (thenM (change_app_state_in_db E url app_name ''stopped'') (raise_errors errors)))))))))))))))"

section \<open>Files of the global HDFS\<close>

definition create_dir_on_hdfs :: "env \<Rightarrow> string \<Rightarrow> string \<Rightarrow> string \<Rightarrow> unit m" where
  "create_dir_on_hdfs E namenode_host namenode_container dir_to_create =
     run_create_dir_on_hdfs E namenode_host namenode_container dir_to_create"

definition frontend_container :: "env \<Rightarrow> string \<Rightarrow> string m" where
  "frontend_container E namenode_container =
     bindM (config_flag E ''server_as_host'') (\<lambda>b.
     if b then returnM namenode_container else config_text (env_vars E) ''hdfs_frontend_container_name'')"

definition add_file_to_hdfs :: "env \<Rightarrow> string \<Rightarrow> string \<Rightarrow> string \<Rightarrow> string \<Rightarrow> unit m" where
  "add_file_to_hdfs E namenode_host namenode_container file_to_add dest_path =
     bindM (frontend_container E namenode_container)
       (run_add_file_to_hdfs E namenode_host namenode_container file_to_add dest_path)"

definition get_file_from_hdfs :: "env \<Rightarrow> string \<Rightarrow> string \<Rightarrow> string \<Rightarrow> string \<Rightarrow> unit m" where
  "get_file_from_hdfs E namenode_host namenode_container file_to_download dest_path =
     bindM (frontend_container E namenode_container)
       (run_get_file_from_hdfs E namenode_host namenode_container file_to_download dest_path)"

definition remove_file_from_hdfs :: "env \<Rightarrow> string \<Rightarrow> string \<Rightarrow> string \<Rightarrow> unit m" where
  "remove_file_from_hdfs E namenode_host namenode_container path_to_delete =
     run_remove_file_from_hdfs E namenode_host namenode_container path_to_delete"

section \<open>The replication monitor\<close>

definition structure_url :: "env \<Rightarrow> string \<Rightarrow> string" where
  "structure_url E n = join ''/'' [env_base_url E, ''structure'', n]"

text \<open>The application, its name node and the hosts; without a disk in the application the hosts are unbound.\<close>

definition has_disk :: "json \<Rightarrow> bool result" where
  "has_disk v = rbind (rbind (jitem v ''resources'') jobj) (\<lambda>res. Inr (has_key res ''disk''))"

definition reload_db_info :: "env \<Rightarrow> string \<Rightarrow> string \<Rightarrow> (json \<times> json \<times> host list) m" where
  "reload_db_info E global_app_url global_namenode_url =
     bindM (getDbData E global_app_url) (\<lambda>global_app.
     bindM (getDbData E global_namenode_url) (\<lambda>global_namenode.
     bindM (liftR (if jtruthy global_app then has_disk global_app else Inr False)) (\<lambda>disk.
     if disk then bindM (getDbData E (structure_url E [])) (\<lambda>data.
                  bindM (liftR (hosts_of_data data)) (\<lambda>hosts. returnM (global_app, global_namenode, hosts)))
     else raiseM (UnboundLocalError ''hosts''))))"

definition names_in :: "json \<Rightarrow> string \<Rightarrow> json list result" where
  "names_in v k = rbind (jitem v k) jarr"

text \<open>The data nodes with a disk, by host.\<close>

definition note_datanode :: "env \<Rightarrow> string \<Rightarrow> json \<Rightarrow> json list dict \<Rightarrow> json list dict m" where
  "note_datanode E global_namenode_name name nodes =
     bindM (liftR (jstr name)) (\<lambda>n.
     if n = global_namenode_name then returnM nodes
     else bindM (getDbData E (structure_url E n)) (\<lambda>container.
          bindM (liftR (has_disk container)) (\<lambda>disk.
          if disk then bindM (liftR (rbind (rbind (jitem container ''host'') jstr) (\<lambda>h. rbind (item nodes h) (\<lambda>xs.
                              Inr (AList.update h (xs @ [container]) nodes))))) returnM
          else returnM nodes)))"

definition datanodes_of :: "env \<Rightarrow> string \<Rightarrow> json \<Rightarrow> host list \<Rightarrow> json list dict m" where
  "datanodes_of E global_namenode_name global_app hosts =
     bindM (liftR (names_in global_app ''containers'')) (\<lambda>names.
     foldM (note_datanode E global_namenode_name) names (fold (\<lambda>h. AList.update (h_name h) []) hosts []))"

definition number_at :: "string list \<Rightarrow> json \<Rightarrow> rat result" where
  "number_at ks v = rbind (jpath ks v) jnum"

text \<open>Whether one direction is in use: more than the threshold of what the data node leaves, or of the whole application.\<close>

definition direction_busy :: "rat \<Rightarrow> json \<Rightarrow> json \<Rightarrow> string \<Rightarrow> rat \<Rightarrow> rat \<Rightarrow> bool result" where
  "direction_busy thresh global_app datanode res disk_max disk_free =
     rbind (number_at [''resources'', res, ''min''] datanode) (\<lambda>mn.
     orR (Inr ((disk_max - mn) * thresh < disk_max - mn - disk_free))
       (rbind (number_at [''resources'', res, ''max''] global_app) (\<lambda>amax.
        rbind (number_at [''resources'', res, ''usage''] global_app) (\<lambda>usage. Inr (amax * thresh < usage)))))"

definition datanode_busy :: "rat \<Rightarrow> json \<Rightarrow> host \<Rightarrow> json \<Rightarrow> bool result" where
  "datanode_busy thresh global_app h datanode =
     rbind (case h_disks h of Some ds \<Rightarrow> Inr ds | None \<Rightarrow> Inl (KeyError ''disks'')) (\<lambda>ds.
     rbind (rbind (jpath [''resources'', ''disk'', ''name''] datanode) jstr) (\<lambda>n.
     case map_of ds n of
       None \<Rightarrow> Inl (PyException (''Disk '' @ n @ '' not found in host '' @ h_name h))
     | Some d \<Rightarrow> orR (direction_busy thresh global_app datanode ''disk_read'' (d_max_read d) (d_free_read d))
                     (direction_busy thresh global_app datanode ''disk_write'' (d_max_write d) (d_free_write d))))"

fun any_busy :: "(json \<Rightarrow> bool result) \<Rightarrow> json list \<Rightarrow> bool result" where
  "any_busy busy [] = Inr False"
| "any_busy busy (x # xs) = orR (busy x) (any_busy busy xs)"

definition run_replication :: "rat \<Rightarrow> json \<Rightarrow> host list \<Rightarrow> json list dict \<Rightarrow> bool result" where
  "run_replication thresh global_app hosts nodes =
     foldR (\<lambda>h run. rbind (item nodes (h_name h)) (\<lambda>xs. rbind (any_busy (datanode_busy thresh global_app h) xs) (\<lambda>busy.
       Inr (run \<and> \<not> busy)))) hosts True"

definition hdfs_up :: "json \<Rightarrow> json \<Rightarrow> bool result" where
  "hdfs_up global_app global_namenode =
     (if jtruthy global_app \<and> jtruthy global_namenode
      then rbind (jitem global_namenode ''name'') (\<lambda>n. rbind (names_in global_app ''containers'') (\<lambda>ns. Inr (n \<in> set ns)))
      else Inr False)"

definition monitor_frequency :: rat where "monitor_frequency = 30"
definition monitor_threshold :: rat where "monitor_threshold = 15 / 100"

fun monitor_loop ::
  "nat \<Rightarrow> env \<Rightarrow> string \<Rightarrow> string \<Rightarrow> string \<Rightarrow> json list dict \<Rightarrow> json \<times> json \<times> host list \<Rightarrow> unit m" where
  "monitor_loop 0 E app_name namenode_host namenode_name nodes info = still_running"
| "monitor_loop (Suc fuel) E app_name namenode_host namenode_name nodes (global_app, global_namenode, hosts) =
     bindM (liftR (hdfs_up global_app global_namenode)) (\<lambda>up.
     if \<not> up then returnM ()
     else bindM (liftR (run_replication monitor_threshold global_app hosts nodes)) (\<lambda>run.
          thenM (whenM run (bindM (liftR (item (env_platform E) ''global_hdfs_replication''))
                   (set_global_hdfs_replication E namenode_host namenode_name)))
          (thenM (sleep monitor_frequency)
          (bindM (reload_db_info E (structure_url E app_name) (structure_url E namenode_name))
             (monitor_loop fuel E app_name namenode_host namenode_name nodes)))))"

definition monitor_global_hdfs_replication :: "nat \<Rightarrow> env \<Rightarrow> string \<Rightarrow> string \<Rightarrow> string \<Rightarrow> unit m" where
  "monitor_global_hdfs_replication fuel E app_name namenode_host namenode_name =
     thenM (sleep monitor_frequency)
     (bindM (reload_db_info E (structure_url E app_name) (structure_url E namenode_name)) (\<lambda>(global_app, global_namenode, hosts).
      bindM (liftR (if jtruthy global_app then has_disk global_app else Inr False)) (\<lambda>disk.
      bindM (if disk then datanodes_of E namenode_name global_app hosts else returnM []) (\<lambda>nodes.
      monitor_loop fuel E app_name namenode_host namenode_name nodes (global_app, global_namenode, hosts)))))"

section \<open>Starting and stopping the global HDFS\<close>

definition named_like :: "string \<Rightarrow> obj list \<Rightarrow> obj option result" where
  "named_like part cs =
     foldR (\<lambda>c found. case found of Some _ \<Rightarrow> Inr found
       | None \<Rightarrow> rbind (rbind (item c ''container_name'') jstr) (\<lambda>n. Inr (if contains part n then Some c else None))) cs None"

definition pair_of :: "obj \<Rightarrow> (string \<times> string) result" where
  "pair_of c = rbind (rbind (item c ''container_name'') jstr) (\<lambda>n. rbind (rbind (item c ''host'') jstr) (\<lambda>h. Inr (n, h)))"

text \<open>The name node is reached from the server: its container gets a port mapping.\<close>

definition expose_namenode :: "env \<Rightarrow> obj \<Rightarrow> obj list \<Rightarrow> obj list result" where
  "expose_namenode E namenode cs =
     rbind (flag_of E ''server_as_host'') (\<lambda>b.
     if b then rbind (item (env_platform E) ''local_namenode_port'') (\<lambda>p. rbind (item (env_platform E) ''namenode_port'') (\<lambda>q.
          let exposed = AList.update ''portmap'' (JStr (''portmap='' @ text_of py_repr p @ '':'' @ text_of py_repr q @ ''/tcp''))
                          (AList.update ''expose_ptp'' (JNum 1) namenode)
          in Inr (takeWhile (\<lambda>c. c \<noteq> namenode) cs @ exposed # tl (dropWhile (\<lambda>c. c \<noteq> namenode) cs))))
     else Inr cs)"

definition start_global_hdfs_task ::
  "env \<Rightarrow> string \<Rightarrow> string \<Rightarrow> string \<Rightarrow> obj \<Rightarrow> obj list \<Rightarrow> bool \<Rightarrow> obj \<Rightarrow> obj list \<Rightarrow> unit m" where
  "start_global_hdfs_task E task_id url app_name app_files containers0 virtual_cluster put_field_data hosts =
     bindM (liftR (named_like ''datanode'' containers0)) (\<lambda>worker.
     case worker of None \<Rightarrow> raiseM (PyException ''Worker container not found when starting global hdfs'')
     | Some worker_resources \<Rightarrow>
     bindM (liftR (platform_int E ''global_hdfs_replication'')) (\<lambda>replication.
     bindM (liftR (set_hadoop_resources worker_resources virtual_cluster (int (length containers0) - 1) replication)) (\<lambda>conf.
     bindM (ask (env_clock E)) (\<lambda>start_time.
     thenM (add_app_task E url put_field_data app_name app_files None)
     (thenM (with_lock (store (\<lambda>doc. rbind (mapR pair_of containers0) (\<lambda>ps. add_containers_to_inventory ps doc))))
     (bindM (liftR (named_like ''namenode'' containers0)) (\<lambda>namenode.
     case namenode of None \<Rightarrow> raiseM (PyException ''Namenode container not found in container list'')
     | Some nn \<Rightarrow>
     bindM (field nn ''container_name'') (\<lambda>nn_container. bindM (field nn ''host'') (\<lambda>nn_host.
     bindM (liftR (expose_namenode E nn containers0)) (\<lambda>containers.
     bindM (liftR (mapR (\<lambda>h. rbind (item h ''name'') jstr) hosts)) (\<lambda>host_list.
     let infos = formatted (jobjs containers)
     in thenM (scaling_services_disabled E (bindM (liftR (item app_files ''app_type'')) (\<lambda>app_type.
                 start_containers_with_app E host_list infos app_name app_type app_files)))
        (bindM (liftR (item (env_platform E) ''hdfs_mode'')) (\<lambda>mode.
         thenM (setup_hadoop_network_on_containers E host_list app_name app_files infos nn_host nn_container
                  (settings_json conf) (mode = JStr ''rbf''))
         (bindM (config_flag E ''server_as_host'') (\<lambda>as_host.
          thenM (whenM (\<not> as_host) (start_hdfs_frontend E host_list ''hdfs_frontend'' infos nn_host nn_container))
          (bindM (liftR (item (env_platform E) ''hdfs_replication_mode'')) (\<lambda>rmode.
           thenM (whenM (rmode = JStr ''monitor'')
                    (run_later E ''monitor_hdfs_task'' (Call ''monitor_global_hdfs_replication''
                       [JStr app_name, JStr nn_host, JStr nn_container])))
                 (update_runtime E task_id start_time))))))))))))))))))"

definition stop_hdfs_container :: "env \<Rightarrow> obj \<Rightarrow> unit m" where
  "stop_hdfs_container E c =
     bindM (liftR (disk_path_of c)) (\<lambda>bind_path. bindM (field c ''name'') (\<lambda>container. bindM (field c ''host'') (\<lambda>host_name.
     run_later E ''stop_container_task'' (Call ''stop_container''
       [JStr host_name, JStr container, JStr bind_path, JBool (\<not> contains ''namenode'' container)]))))"

definition stop_hdfs_task ::
  "env \<Rightarrow> string \<Rightarrow> string \<Rightarrow> obj \<Rightarrow> obj list \<Rightarrow> rat \<Rightarrow> string \<Rightarrow> string \<Rightarrow> unit m" where
  "stop_hdfs_task E url app_name app_files app_containers scaler_polling_freq rm_host rm_container =
     thenM (stop_hadoop_cluster E rm_host rm_container)
     (bindM (scaling_services_disabled E (leave_and_wait E ''name'' url app_name app_containers scaler_polling_freq)) (\<lambda>errors.
     bindM (web_request E (url @ ''apps/'' @ app_name) ''delete'' (''Error removing app '' @ app_name) None) (\<lambda>_.
     thenM (forM app_containers (\<lambda>c. bindM (field c ''host'') (\<lambda>host_name. bindM (field c ''name'') (clean_hdfs E host_name))))
     (bindM (config_flag E ''server_as_host'') (\<lambda>as_host.
      thenM (whenM (\<not> as_host) (bindM (config_text (env_vars E) ''hdfs_frontend_container_name'') (\<lambda>frontend.
               run_stop_container E ''platform_server'' frontend [] True)))
            (forM app_containers (stop_hdfs_container E)))))))"

section \<open>The inventory lock\<close>

lemma completes_hadoop_playbooks [completes_intro]:
  "completes (setup_hadoop_network_on_containers E hs a fs ci rh rc hc z)" "completes (stop_hadoop_cluster E rh rc)"
  "completes (setup_hadoop_network_with_global_hdfs E hs a fs ci rh rc hc gd)"
  "completes (upload_local_hdfs_data_to_global E rh rc gd ci)" "completes (start_hdfs_frontend E hs ty ci nh nc)"
  "completes (clean_hdfs E h c)" "completes (set_global_hdfs_replication E h c r)"
  "completes (run_add_file_to_hdfs E h c p q f)" "completes (run_get_file_from_hdfs E h c p q f)"
  "completes (run_create_dir_on_hdfs E h c p)" "completes (run_remove_file_from_hdfs E h c p)"
  by (auto simp: playbook_defs Let_def intro!: completes_intro)

lemma completes_hadoop [completes_intro]:
  "completes (some_containers ocs)" "completes (find_master new ocs)"
  "completes (connect_cluster E u a fs hs infos rh rc conf gd)" "completes (leave_and_wait E k u a cs f)"
  "completes (stop_cluster_container E a fs rc ts dt ut c)" "completes (frontend_container E c')"
  "completes (reload_db_info E u u')" "completes (datanodes_of E nn ga hosts)" "completes (stop_hdfs_container E c)"
  "completes (update_runtime E i x)"
  by (auto simp: some_containers_def find_master_def connect_cluster_def leave_and_wait_def stop_cluster_container_def
      frontend_container_def reload_db_info_def datanodes_of_def note_datanode_def stop_hdfs_container_def update_runtime_def
      intro!: completes_intro)

lemma completes_cluster [completes_intro]:
  "completes (setup_containers_hadoop_network_task E ocs u a fs hr new ty gd)"
  by (auto simp: setup_containers_hadoop_network_task_def Let_def intro!: completes_intro)

lemma completes_hdfs [completes_intro]:
  "completes (start_global_hdfs_task E i u a fs cs v d hs)" "completes (stop_hdfs_task E u a fs cs f rh rc)"
  by (auto simp: start_global_hdfs_task_def stop_hdfs_task_def Let_def intro!: completes_intro)

lemma keeps_wait [keeps_intro]: "keeps lock_free (wait_for_app_dependency n E req u a c deps)"
proof -
  have inspect: "completes (inspect f)" for f :: "inventory \<Rightarrow> 'z"
    by (simp add: completes_def inspect_def)
  have space: "completes (check_space_for_app E req u c a)" for c
    by (auto simp: check_space_for_app_def intro!: completes_intro inspect)
  have met: "completes (dependency_met E u d conds)" for d conds
    by (auto simp: dependency_met_def intro!: completes_intro)
  have await: "keeps lock_free (await_dependency k E u d conds)" for k d conds
    by (induction k) (auto intro!: keeps_intro completes_keeps [OF met])
  show ?thesis
    unfolding wait_for_app_dependency_def
    by (auto intro!: keeps_intro completes_keeps [OF space] completes_keeps [OF met] await)
qed

lemma keeps_monitor [keeps_intro]:
  "keeps lock_free (monitor_loop n E a nh nn nodes info)" "keeps lock_free (monitor_global_hdfs_replication n E a nh nn)"
proof -
  show loop: "keeps lock_free (monitor_loop n E a nh nn nodes info)" for n nodes info
  proof (induction n arbitrary: info)
    case 0
    then show ?case by (simp add: keeps_basic)
  next
    case (Suc n)
    obtain ga gn hs where "info = (ga, gn, hs)" by (cases info)
    then show ?case by (auto intro!: keeps_intro Suc completes_keeps [OF completes_hadoop(7)])
  qed
  show "keeps lock_free (monitor_global_hdfs_replication n E a nh nn)"
    unfolding monitor_global_hdfs_replication_def
    by (auto intro!: keeps_intro loop completes_keeps [OF completes_hadoop(7)] completes_keeps [OF completes_hadoop(8)])
qed

lemma keeps_start_hadoop [keeps_intro]:
  "keeps lock_free (start_hadoop_app_task n E i req u a fs crs f v ty gd deps)"
  unfolding start_hadoop_app_task_def
  by (rule keeps_bindM [OF keeps_wait], rule keeps_case_prod, rule completes_keeps) (auto intro!: completes_intro)

text \<open>The install playbook does not ask for the lock: what it measures is saved while the lock is free, so a task that
  holds it may be between its own reading and saving of the file.\<close>

lemma snd_liftR: "snd (liftR r w) = w"
  by (simp add: liftR_def raiseM_def returnM_def split: sum.splits)

lemma measured_without_lock:
  assumes "\<not> w_locked w" "measures_disks name tags"
    and "env_measured E (w_trace w @ [Ran (playbook_config name tags hosts extravars)]) = [m]"
    and "update_host_disks_bw_inv m (w_inventory w) = Inr doc"
  shows "happened (Measured False) (snd (run_playbook E name tags hosts extravars w)) \<and>
    w_inventory (snd (run_playbook E name tags hosts extravars w)) = doc"
  using assms by (simp add: run_playbook_def request_def measure_disks_def whenM_def thenM_def bindM_def log_event_def ask_def
      save_measured_def returnM_def happened_def snd_liftR del: measures_disks_def)

text \<open>C20: started while the inventory lock is free, every task that does not poll ends, with a value or an exception,
  and leaves the lock free; the tasks that poll leave it free however long they run.  All of them save the inventory
  only while they hold the lock.  (The scripts with which the install playbook saves what it measured of the disks are
  not among these saves: \<open>measured_without_lock\<close>.)\<close>

theorem lock_discipline:
  "completes (add_host_task E h cpu mem di en n) \<and>
   completes (add_disks_to_hosts_task E hs lv nd ed mh su th pf te) \<and>
   completes (remove_host_task E u h) \<and>
   completes (start_containers_task_v2 E nc cr ds) \<and>
   completes (remove_containers_task E u cs) \<and>
   completes (remove_app_task E u st a cs fs us) \<and>
   completes (remove_containers_from_app E u cs a fs) \<and>
   completes (stop_app_on_container_task E h c b a fs rm ts dt ut) \<and>
   completes (start_global_hdfs_task E i u a fs cs v d ns) \<and>
   completes (stop_hdfs_task E u a fs cs f rh rc) \<and>
   keeps lock_free (start_app_task fuel E i req u a fs crs ty deps) \<and>
   keeps lock_free (start_hadoop_app_task fuel E i req u a fs crs f v ty gd deps) \<and>
   keeps lock_free (monitor_global_hdfs_replication fuel E a nh nn)"
  by (intro conjI tasks_complete completes_removals completes_stop completes_hdfs keeps_start_app keeps_start_hadoop
      keeps_monitor)

section \<open>The time left for the scaler\<close>

text \<open>after the containers have left the application the task sleeps for the rest of the period of the
  scaler; when the removal took longer than the period, it raises ValueError instead.\<close>

theorem leave_and_wait_result:
  assumes "leave_app E name_key url app_name containers w = (Returned errors, v)"
  shows "leave_and_wait E name_key url app_name containers freq w =
    (let elapsed = env_clock E (w_trace v) - env_clock E (w_trace w)
     in if freq < elapsed then (Raised (ValueError ''sleep length must be non-negative''), v)
        else (Returned errors, v\<lparr>w_trace := w_trace v @ [Slept (freq - elapsed)]\<rparr>))"
  using assms by (simp add: leave_and_wait_def bindM_def thenM_def ask_def sleep_def raiseM_def returnM_def log_event_def Let_def)

section \<open>The monitor ends by an exception\<close>

text \<open>Reloading never answers with an application that is gone, so the loop of the monitor cannot end by it.\<close>

lemma reload_has_app:
  assumes "reload_db_info E u u' w = (Returned (global_app, global_namenode, hosts), w')"
  shows "jtruthy global_app \<and> has_disk global_app = Inr True"
  using assms unfolding reload_db_info_def bind_returned liftR_returned
  by (auto simp: returnM_def raiseM_def bind_returned liftR_returned split: if_splits)

section \<open>The master of a cluster\<close>

text \<open>An entry of the answer of a deployment, seen from what it was deployed for.\<close>

definition info_for :: "string \<times> kind \<times> string \<Rightarrow> obj \<Rightarrow> bool" where
  "info_for entry info \<longleftrightarrow> (case entry of (h, k, n) \<Rightarrow>
     map_of info ''host'' = Some (JStr h) \<and> map_of info ''container_name'' = Some (JStr n) \<and>
     (k = RmNnKind \<longrightarrow> \<not> has_key info ''disk''))"

lemma info_for_container: "container_info E crs entry led = Inr (info, led') \<Longrightarrow> info_for entry info"
proof -
  assume info: "container_info E crs entry led = Inr (info, led')"
  obtain h k n where e: "entry = (h, k, n)" by (cases entry)
  have "map_of info ''disk'' = None" if kind: "k = RmNnKind"
  proof -
    from info obtain res fields energy where
      f: "copy_fields res (resource_keys [''cpu'', ''mem'']) = Inr fields"
      and en: "rbind (flag_of E ''power_budgeting'') (\<lambda>p. if p then copy_fields res energy_keys else Inr []) = Inr energy"
      and out: "info = [(''container_name'', JStr n), (''host'', JStr h)] @ fields @ energy"
      unfolding e container_info_def prod.case rbind_eq_Inr by (auto simp: kind)
    have "map_of fields ''disk'' = None" "map_of energy ''disk'' = None"
      using copy_no_key [OF f no_disk_key(1)] copy_no_key [OF _ no_disk_key(2)] en by (auto simp: rbind_eq_Inr split: if_splits)
    then show ?thesis by (simp add: out)
  qed
  then show ?thesis using container_info_named [OF info [unfolded e]] by (simp add: info_for_def e has_key_def)
qed

lemma infos_for_loop:
  assumes "foldR (\<lambda>entry (infos, led). rbind (container_info E crs entry led) (\<lambda>(info, led'). Inr (infos @ [info], led')))
      ps (acc, led) = Inr (infos, led')"
  shows "\<exists>new. infos = acc @ new \<and> list_all2 info_for ps new"
  using assms
proof (induction ps arbitrary: acc led)
  case Nil
  then show ?case by simp
next
  case (Cons e ps)
  from Cons.prems obtain info led1 where info: "container_info E crs e led = Inr (info, led1)"
    "foldR (\<lambda>entry (infos, led). rbind (container_info E crs entry led) (\<lambda>(info, led'). Inr (infos @ [info], led')))
      ps (acc @ [info], led1) = Inr (infos, led')"
    by (auto simp: rbind_def split: sum.splits)
  from Cons.IH [OF info(2)] info_for_container [OF info(1)] show ?case by auto
qed

lemma infos_for:
  assumes "containers_info_of E crs ledger added = Inr infos"
  shows "list_all2 info_for (placed_containers added) infos"
proof -
  from assms obtain led where
    "foldR (\<lambda>entry (infos, led). rbind (container_info E crs entry led) (\<lambda>(info, led'). Inr (infos @ [info], led')))
      (placed_containers added) ([], ledger) = Inr (infos, led)"
    by (auto simp: containers_info_of_def rbind_def split: sum.splits)
  from infos_for_loop [OF this] show ?thesis by simp
qed

lemma placed_hosts: "e \<in> set (placed_containers added) \<Longrightarrow> fst e \<in> set (map fst added)"
  by (force simp: placed_containers_def split: option.splits)

lemma placed_append: "placed_containers (a @ b) = placed_containers a @ placed_containers b"
  by (simp add: placed_containers_def)

lemma find_skip: "list_all2 R xs ys \<Longrightarrow> (\<And>x y. x \<in> set xs \<Longrightarrow> R x y \<Longrightarrow> \<not> P y) \<Longrightarrow> List.find P (ys @ zs) = List.find P zs"
  by (induction rule: list_all2_induct) auto

text \<open>C19: the container a Hadoop cluster takes for its master is the one that was created as resource manager and
  name node on its host.\<close>

theorem master_is_rm_nn:
  assumes "containers_info_of E crs ledger added = Inr infos"
    and "distinct (map fst added)" and "map_of added h = Some t" and "map_of t RmNnKind = Some (n # ns)"
  shows "map_option (\<lambda>c. map_of c ''container_name'') (master_container h infos) = Some (Some (JStr n))"
proof -
  from assms(3) obtain a b where added: "added = a @ (h, t) # b" by (meson map_of_SomeD split_list)
  with assms(2) have no: "h \<notin> set (map fst a)" by auto
  obtain rest where "placed_containers [(h, t)] = (h, RmNnKind, n) # rest"
    using assms(4) by (simp add: placed_containers_def kinds_def)
  then have placed: "placed_containers added = placed_containers a @ (h, RmNnKind, n) # rest @ placed_containers b"
    using placed_append [of a "(h, t) # b"] placed_append [of "[(h, t)]" b] by (simp add: added)
  from infos_for [OF assms(1)] obtain pre c post where
    infos: "infos = pre @ c # post" and pre: "list_all2 info_for (placed_containers a) pre"
    and c: "info_for (h, RmNnKind, n) c"
    unfolding placed by (auto simp: list_all2_append1 list_all2_Cons1)
  have skip: "\<not> (map_of i ''host'' = Some (JStr h) \<and> \<not> has_key i ''disk'')"
    if "e \<in> set (placed_containers a)" "info_for e i" for e i
    using placed_hosts [OF that(1)] that(2) no by (cases e) (auto simp: info_for_def)
  from find_skip [OF pre skip] have "master_container h infos = Some c"
    using c by (simp add: master_container_def infos info_for_def)
  with c show ?thesis by (simp add: info_for_def)
qed

section \<open>Runs\<close>

definition cluster_env :: env where
  "cluster_env = disk_env\<lparr>env_clock := (\<lambda>tr. 7 * of_nat (length tr))\<rparr>"

theorem leave_and_wait_result_witness:
  "fst (leave_and_wait cluster_env ''name'' ''http://db/'' ''app0'' [[(''name'', JStr ''c0'')]] 5 sample_world) =
   Raised (ValueError ''sleep length must be non-negative'')"
proof -
  let ?p = "leave_app cluster_env ''name'' ''http://db/'' ''app0'' [[(''name'', JStr ''c0'')]]"
  have r: "fst (?p sample_world) = Returned []" "length (w_trace (snd (?p sample_world))) = 2"
    by code_simp+
  then have "?p sample_world = (Returned [], snd (?p sample_world))" by (metis prod.collapse)
  from leave_and_wait_result [OF this, of 5] show ?thesis
    using r by (simp add: cluster_env_def Let_def sample_world_def)
qed

theorem master_is_rm_nn_witness:
  "map_option (\<lambda>c. map_of c ''container_name'') (master_container ''h1''
     (projr (containers_info_of disk_env [(''regular'', sample_kind), (''rm-nn'', sample_kind)]
        [(''h0'', []), (''h1'', snd (hd sample_ledger))]
        [(''h0'', [(RegularKind, [''c0''])]), (''h1'', [(RegularKind, [''c1'']), (RmNnKind, [''c2''])])])))
   = Some (Some (JStr ''c2''))"
proof -
  let ?r = "containers_info_of disk_env [(''regular'', sample_kind), (''rm-nn'', sample_kind)]
        [(''h0'', []), (''h1'', snd (hd sample_ledger))]
        [(''h0'', [(RegularKind, [''c0''])]), (''h1'', [(RegularKind, [''c1'']), (RmNnKind, [''c2''])])]"
  have "\<not> isl ?r" by code_simp
  then have r: "?r = Inr (projr ?r)" by simp
  show ?thesis by (rule master_is_rm_nn [OF r, where ns = "[]" and t = "[(RegularKind, [''c1'']), (RmNnKind, [''c2''])]"]) simp_all
qed

end
