(* ===== verification/Requests.thy ===== *)
theory Requests
  imports HadoopTasks
begin

text \<open>
  How the web pages handle a submitted form: \<open>ui/views/core/operations.py\<close>, the helpers of
  \<open>ui/views/core/utils.py\<close> that are not about the choice of hosts, and the operations of the pages of services,
  rules and the global HDFS.  Django's form objects are left out; the data they are filled with are kept.

  A submitted form maps a name to its values; reading a name gives the last one.
\<close>

section \<open>Forms\<close>

type_synonym post = "string list dict"

definition post_item :: "post \<Rightarrow> string \<Rightarrow> string result" where
  "post_item p k = rbind (item p k) (\<lambda>vs. Inr (if vs = [] then [] else last vs))"

definition post_list :: "post \<Rightarrow> string \<Rightarrow> string list" where    \<comment> \<open>\<open>getlist(k, None)\<close>\<close>
  "post_list p k = get_or p k []"

definition post_get :: "post \<Rightarrow> string \<Rightarrow> string option" where
  "post_get p k = (if has_key p k then (case post_item p k of Inr v \<Rightarrow> Some v | Inl _ \<Rightarrow> None) else None)"

definition value_data :: "string \<Rightarrow> json option" where
  "value_data v = Some (JObj [(''value'', JStr v)])"

definition lower :: "string \<Rightarrow> string" where
  "lower = map to_lower"

definition add_error :: "string \<Rightarrow> string list \<Rightarrow> string list" where
  "add_error error errors = (if error \<noteq> [] then errors @ [error] else errors)"

text \<open>\<open>web_request\<close> for its error only.\<close>

definition put_error :: "env \<Rightarrow> string \<Rightarrow> string \<Rightarrow> json option \<Rightarrow> string m" where
  "put_error E url msg d = bindM (web_request E url ''put'' msg d) (\<lambda>(error, _). returnM error)"

section \<open>Resources and limits\<close>

definition processResourcesFields :: "env \<Rightarrow> string \<Rightarrow> string \<Rightarrow> string \<Rightarrow> string \<Rightarrow> string \<Rightarrow> string m" where
  "processResourcesFields E url struct_name res fd field_value =
     (let base = url @ struct_name @ ''/resources/'' @ res @ ''/'';
          msg = ''Error submitting '' @ fd @ '' for structure '' @ struct_name
      in if fd = ''guard''
         then put_error E (base @ (if field_value = ''True'' then ''guard'' else ''unguard'')) msg None
         else put_error E (base @ fd) msg (value_data (lower field_value)))"

definition resources_field_list :: "string \<Rightarrow> string list" where
  "resources_field_list structure_type =
     (if structure_type = ''host'' then [''max'']
      else if structure_type = ''user'' then [''max'', ''min''] else [''guard'', ''max'', ''min'', ''weight''])"

definition form_key :: "nat \<Rightarrow> string \<Rightarrow> string" where
  "form_key i k = ''form-'' @ str_of_nat i @ ''-'' @ k"

definition processResources :: "env \<Rightarrow> post \<Rightarrow> string list m" where
  "processResources E p =
     (if \<not> has_key p ''form-TOTAL_FORMS'' then returnM []
      else bindM (liftR (rbind (post_item p ''form-TOTAL_FORMS'') int_str)) (\<lambda>total_forms.
           if total_forms \<le> 0 then returnM []
           else bindM (liftR (post_item p ''form-0-operation'')) (\<lambda>operation.
           if operation \<noteq> ''resources'' then returnM []
           else bindM (liftR (post_item p ''form-0-name'')) (\<lambda>name.
                bindM (liftR (post_item p ''form-0-structure_type'')) (\<lambda>structure_type.
                let url = env_base_url E @ (if structure_type = ''user'' then ''/user/'' else ''/structure/'')
                in foldM (\<lambda>i errors. bindM (liftR (post_item p (form_key i ''resource''))) (\<lambda>res.
                     foldM (\<lambda>fd errors. bindM (liftR (post_item p (form_key i fd))) (\<lambda>v.
                        if v = [] then returnM errors
                        else bindM (processResourcesFields E url name res fd v) (\<lambda>error. returnM (add_error error errors))))
                       (resources_field_list structure_type) errors)) [0..<nat total_forms] [])))))"

text \<open>The error is reset for every parameter.\<close>

definition boundary_param :: "env \<Rightarrow> post \<Rightarrow> string \<Rightarrow> string \<Rightarrow> string \<Rightarrow> string \<Rightarrow> string \<Rightarrow> string m" where
  "boundary_param E p url struct_name res param previous =
     (let error = []
      in bindM (liftR (post_item p (res @ ''_'' @ param))) (\<lambda>new_value.
         if new_value \<noteq> []
         then put_error E (url @ struct_name @ ''/limits/'' @ res @ ''/'' @ param)
                (''Error updating '' @ param @ '' for structure '' @ struct_name) (value_data (lower new_value))
         else returnM error))"

definition processLimitsBoundary :: "env \<Rightarrow> post \<Rightarrow> string \<Rightarrow> string \<Rightarrow> string \<Rightarrow> string m" where
  "processLimitsBoundary E p url struct_name res =
     foldM (boundary_param E p url struct_name res) [''boundary'', ''boundary_type''] []"

definition all_resources :: "string list" where
  "all_resources = [''cpu'', ''mem'', ''disk_read'', ''disk_write'', ''net'', ''energy'']"

definition processLimits :: "env \<Rightarrow> post \<Rightarrow> string list m" where
  "processLimits E p =
     (if has_key p ''name'' \<and> \<not> has_key p ''operation''
      then bindM (liftR (post_item p ''name'')) (\<lambda>struct_name.
           foldM (\<lambda>res errors.
             if has_key p (res @ ''_boundary'') \<and> has_key p (res @ ''_boundary_type'')
             then bindM (processLimitsBoundary E p (env_base_url E @ ''/structure/'') struct_name res) (\<lambda>error.
                  returnM (add_error error errors))
             else returnM errors) all_resources [])
      else returnM [])"

text \<open>The keyword arguments of an operation, and what an operation answers.\<close>

record op_args =
  oa_structure_name :: "string option"
  oa_host_list :: "string option"
  oa_selected :: "string list"

type_synonym operation = "post \<Rightarrow> string \<Rightarrow> op_args \<Rightarrow> string option m"

definition processOperations :: "post \<Rightarrow> string \<Rightarrow> operation dict \<Rightarrow> string list m" where
  "processOperations p url operations =
     (if has_key p ''operation''
      then bindM (liftR (post_item p ''operation'')) (\<lambda>name.
           bindM ((case map_of operations name of Some f \<Rightarrow> f | None \<Rightarrow> (\<lambda>_ _ _. returnM (Some ''Operation not found''))) p url
             \<lparr>oa_structure_name = post_get p ''name'', oa_host_list = post_get p ''host_list'',
              oa_selected = post_list p ''selected_structures''\<rparr>) (\<lambda>error.
           returnM (case error of Some e \<Rightarrow> add_error e [] | None \<Rightarrow> [])))
      else returnM [])"

text \<open>A submission: the errors the page is redirected with.\<close>

definition processStructures :: "env \<Rightarrow> post \<Rightarrow> string \<Rightarrow> operation dict \<Rightarrow> string list m" where
  "processStructures E p structure_type operations =
     (let url = env_base_url E @ (if structure_type = ''users'' then ''/user/'' else ''/structure/'')
      in bindM (processResources E p) (\<lambda>e1. bindM (processLimits E p) (\<lambda>e2. bindM (processOperations p url operations) (\<lambda>e3.
         returnM (e1 @ e2 @ e3)))))"

section \<open>The redirection\<close>

text \<open>\<open>urllib.parse.quote\<close>, on the bytes of the text.\<close>

definition hex_digit :: "nat \<Rightarrow> char" where
  "hex_digit d = ''0123456789ABCDEF'' ! d"

definition unreserved :: "char \<Rightarrow> bool" where
  "unreserved c \<longleftrightarrow> is_letter c \<or> is_digit c \<or> c \<in> set ''_.-~/''"

definition quote_char :: "char \<Rightarrow> string" where
  "quote_char c = (if unreserved c then [c] else [CHR ''%'', hex_digit (of_char c div 16), hex_digit (of_char c mod 16)])"

definition url_quote :: "string \<Rightarrow> string" where
  "url_quote s = concat (map quote_char s)"

definition redirect_query :: "string list \<Rightarrow> string" where
  "redirect_query errors =
     (case errors of [] \<Rightarrow> ''?success='' @ ''Requests were successful!''
      | e # es \<Rightarrow> ''?errors='' @ url_quote e @ concat (map (\<lambda>x. ''&errors='' @ url_quote x) es))"

section \<open>The log of the sanity checker\<close>

definition checkInvalidConfig :: "string list \<Rightarrow> string list" where
  "checkInvalidConfig lines =
     rev (takeWhile (\<lambda>l. \<not> contains ''Checking for invalid configuration'' l)
       (drop 1 (dropWhile (\<lambda>l. \<not> contains ''Sanity checked'' l) (rev lines))))"

section \<open>Documents and the data of forms\<close>

definition getScalerPollFreq :: "env \<Rightarrow> json m" where
  "getScalerPollFreq E =
     bindM (fetch E (env_base_url E @ ''/service/scaler'')) (\<lambda>v.
     liftR (rbind (jobj v) (\<lambda>d. rbind (jobj (get_or d ''config'' (JObj []))) (\<lambda>c. Inr (get_or c ''POLLING_FREQUENCY'' (JNum 5))))))"

definition getLimits :: "env \<Rightarrow> string \<Rightarrow> json m" where
  "getLimits E struct_name = getDbData E (env_base_url E @ ''/structure/'' @ struct_name @ ''/limits'')"

text \<open>The labels in the order they are found; the code makes a list of a set.\<close>

definition getStructuresValuesLabels :: "obj \<Rightarrow> string \<Rightarrow> string list result" where
  "getStructuresValuesLabels x fd =
     rbind (jobj (get_or x fd (JObj []))) (\<lambda>d.
     rbind (mapR (\<lambda>(k, v). if k \<in> {''cpu_cores'', ''disks'', ''disk''} then Inr []
                 else rbind (jobj v) (\<lambda>vs. Inr (filter (\<lambda>l. l \<notin> {''cpu_cores'', ''alloc_ratio'', ''rebalanced''}) (keys_of vs)))) d)
       (\<lambda>ls. Inr (remdups (concat ls))))"

definition structure_resources_form :: "obj \<Rightarrow> (obj list \<times> nat) result" where
  "structure_resources_form x =
     rbind (rbind (item x ''resources'') jobj) (\<lambda>rs.
     rbind (item x ''subtype'') (\<lambda>subtype. rbind (item x ''name'') (\<lambda>name.
     let fds = (if subtype = JStr ''host'' then [''max''] else if subtype = JStr ''user'' then [''max'', ''min'']
                else [''guard'', ''max'', ''min'', ''weight''])
     in foldR (\<lambda>res (forms, editable). rbind (rbind (item rs res) jobj) (\<lambda>values.
          let found = filter (has_key values) fds
          in Inr (forms @ [[(''name'', name), (''structure_type'', subtype), (''resource'', JStr res)] @
                           map (\<lambda>fd. (fd, get_or values fd JNull)) found], editable + length found)))
          (filter (has_key rs) all_resources) ([], 0))))"

definition limit_setting :: "obj \<Rightarrow> string \<Rightarrow> string \<Rightarrow> json result" where
  "limit_setting x res param =
     rbind (jobj (get_or x ''limits'' (JObj []))) (\<lambda>ls. rbind (jobj (get_or ls res (JObj []))) (\<lambda>l.
     Inr (get_or l param JNull)))"

text \<open>The initial values of the form of limits, and the fields it hides.\<close>

definition limits_form :: "obj \<Rightarrow> (obj \<times> string list) result" where
  "limits_form x =
     rbind (item x ''name'') (\<lambda>name.
     foldR (\<lambda>(res, param) (initial, hidden). rbind (limit_setting x res param) (\<lambda>v.
         Inr (if v \<noteq> JNull then (initial @ [(res @ ''_'' @ param, v)], hidden) else (initial, hidden @ [res @ ''_'' @ param]))))
       (concat (map (\<lambda>res. [(res, ''boundary''), (res, ''boundary_type'')]) all_resources)) ([(''name'', name)], []))"

definition guard_switch :: "env \<Rightarrow> post \<Rightarrow> string \<Rightarrow> unit m" where
  "guard_switch E p struct_name =
     bindM (liftR (post_item p ''guard_switch'')) (\<lambda>state.
     log_event (Requested ''put'' (env_base_url E @ ''/structure/'' @ struct_name @
       (if state = ''guard_off'' then ''/unguard'' else ''/guard'')) None))"

section \<open>Services and rules\<close>

definition multiple_choice_fields :: "string list" where
  "multiple_choice_fields =
     [''guardable_resources'', ''structures_persisted'', ''resources_persisted'', ''structures_refeeded'',
      ''generated_metrics'', ''documents_persisted'', ''resources_balanced'', ''structures_balanced'']"

definition to_upper :: "string \<Rightarrow> string" where
  "to_upper = upper"

definition processServiceConfigPost :: "env \<Rightarrow> post \<Rightarrow> string \<Rightarrow> string \<Rightarrow> string \<Rightarrow> string m" where
  "processServiceConfigPost E p url service_name config_name =
     (let full_url = url @ service_name @ ''/'' @ to_upper config_name;
          msg = ''Error submiting '' @ config_name @ '' for service '' @ service_name
      in if config_name \<in> set multiple_choice_fields
         then put_error E full_url msg (Some (JObj [(''value'',
                JArr (map (\<lambda>v. JStr (strip_when (\<lambda>c. c = double_quote) (strip v))) (post_list p config_name)))]))
         else bindM (liftR (post_item p config_name)) (\<lambda>new_value.
              if new_value \<noteq> [] then put_error E full_url msg (value_data (lower new_value)) else returnM []))"

definition services_options :: "string list dict" where
  "services_options =
    [(''database_snapshoter'', [''debug'', ''documents_persisted'', ''polling_frequency'']),
     (''guardian'', [''debug'', ''event_timeout'', ''guardable_resources'', ''structure_guarded'', ''window_delay'', ''window_timelapse'']),
     (''scaler'', [''check_core_map'', ''debug'', ''polling_frequency'', ''request_timeout'']),
     (''structures_snapshoter'', [''polling_frequency'', ''debug'', ''structures_persisted'', ''resources_persisted'']),
     (''sanity_checker'', [''debug'', ''delay'']),
     (''refeeder'', [''debug'', ''structures_refeeded'', ''generated_metrics'', ''window_delay'', ''window_timelapse'']),
     (''rebalancer'', [''debug'', ''diff_percentage'', ''stolen_percentage'', ''window_delay'', ''window_timelapse'',
        ''resources_balanced'', ''structures_balanced'', ''containers_scope'', ''balancing_policy'', ''balancing_method'', ''only_running'']),
     (''energy_controller'', [''polling_frequency'', ''event_timeout'', ''window_timelapse'', ''window_delay'', ''debug'',
        ''structure_guarded'', ''control_policy'', ''power_model'']),
     (''watt_trainer'', [''window_timelapse'', ''window_delay'', ''generated_metrics'', ''models_to_train'', ''debug''])]"

definition services_post :: "env \<Rightarrow> post \<Rightarrow> string list m" where
  "services_post E p =
     (if has_key p ''name''
      then bindM (liftR (post_item p ''name'')) (\<lambda>service_name.
           foldM (\<lambda>option errors.
             bindM (processServiceConfigPost E p (env_base_url E @ ''/service/'') service_name option) (\<lambda>error.
             returnM (add_error error errors))) (get_or services_options service_name []) [])
      else returnM [])"

definition service_switch :: "env \<Rightarrow> post \<Rightarrow> string \<Rightarrow> unit m" where
  "service_switch E p service_name =
     bindM (liftR (post_item p ''service_switch'')) (\<lambda>state.
     thenM (web_request E (env_base_url E @ ''/service/'' @ service_name @ ''/ACTIVE'') ''put'' []
              (value_data (if state = ''service_off'' then ''false'' else ''true'')))
           (returnM ()))"

definition processRulesPost :: "env \<Rightarrow> post \<Rightarrow> string \<Rightarrow> string \<Rightarrow> string \<Rightarrow> string \<Rightarrow> string m" where
  "processRulesPost E p url rule_name fd field_put_url =
     bindM (liftR (post_item p fd)) (\<lambda>new_value.
     if new_value \<noteq> []
     then put_error E (url @ rule_name @ ''/'' @ field_put_url) (''Error submitting '' @ fd @ '' for rule '' @ rule_name)
            (Some (JObj ([(''value'', JStr new_value)] @
               (if field_put_url = ''events_required''
                then [(''event_type'', JStr (if fd = ''up_events_required'' then ''up'' else ''down''))] else []))))
     else returnM [])"

definition rules_fields :: "(string \<times> string) list" where
  "rules_fields = [(''amount'', ''amount''), (''rescale_policy'', ''policy''), (''up_events_required'', ''events_required''),
     (''down_events_required'', ''events_required'')]"

definition rules_post :: "env \<Rightarrow> post \<Rightarrow> string list m" where
  "rules_post E p =
     bindM (liftR (post_item p ''name'')) (\<lambda>rule_name.
     foldM (\<lambda>(fd, put_url) errors.
        if has_key p fd
        then bindM (processRulesPost E p (env_base_url E @ ''/rule/'') rule_name fd put_url) (\<lambda>error. returnM (add_error error errors))
        else returnM errors) rules_fields [])"

definition bool_operators :: "string list" where
  "bool_operators = [''and'', ''or'', ''=='', ''>='', ''<='', ''<'', ''>'', ''+'', ''-'', ''*'', ''/'']"

text \<open>A rule in words: a dictionary is an operator or a variable by its first key, anything else a literal.\<close>

definition literal_text :: "json \<Rightarrow> string" where
  "literal_text v = (case v of JStr s \<Rightarrow> s | _ \<Rightarrow> py_repr v)"

lemma size_member_le: "x \<in> set xs \<Longrightarrow> size (x :: json) \<le> size_list size xs"
  by (induction xs) auto

definition literal_human :: "string \<Rightarrow> string result" where
  "literal_human s = (if s \<in> set bool_operators \<or> s = ''var'' then Inl (TypeError ''string indices'') else Inr s)"

function (sequential) jsonBooleanToHumanReadable :: "json \<Rightarrow> string result" where
  "jsonBooleanToHumanReadable (JObj ((k, v) # d)) =
     (if k \<in> set bool_operators
      then rbind (case v of
              JArr vs \<Rightarrow> mapR jsonBooleanToHumanReadable vs
            | JStr s \<Rightarrow> mapR (\<lambda>c. literal_human [c]) s
            | JObj d \<Rightarrow> (if d = [] then Inr [] else Inl (KeyError ''0''))
            | _ \<Rightarrow> Inl (TypeError ''len''))
          (\<lambda>ss. Inr (join ('' '' @ to_upper k @ '' '') ss))
      else if k = ''var'' then jstr v else Inr k)"
| "jsonBooleanToHumanReadable (JObj []) = Inl IndexError"
| "jsonBooleanToHumanReadable v = literal_human (literal_text v)"
  by pat_completeness auto
termination
  by (relation "measure size") (auto simp: less_Suc_eq_le dest!: size_member_le)

definition getRulesResources :: "obj list \<Rightarrow> json list result" where
  "getRulesResources data = rbind (mapR (\<lambda>x. item x ''resource'') data) (\<lambda>rs. Inr (remdups rs))"

definition rule_switch :: "env \<Rightarrow> post \<Rightarrow> string \<Rightarrow> unit m" where
  "rule_switch E p rule_name =
     bindM (liftR (post_item p ''rule_switch'')) (\<lambda>state.
     log_event (Requested ''put'' (env_base_url E @ ''/rule/'' @ rule_name @
       (if state = ''rule_off'' then ''/deactivate'' else ''/activate'')) None))"

section \<open>Files of the global HDFS\<close>

definition given :: "post \<Rightarrow> string \<Rightarrow> bool" where
  "given p k \<longleftrightarrow> (case post_get p k of Some v \<Rightarrow> v \<noteq> [] | None \<Rightarrow> False)"

definition sent :: "post \<Rightarrow> string \<Rightarrow> string" where
  "sent p k = (case post_get p k of Some v \<Rightarrow> v | None \<Rightarrow> [])"

definition addDirHDFS :: "env \<Rightarrow> post \<Rightarrow> string \<Rightarrow> string \<Rightarrow> string m" where
  "addDirHDFS E p namenode_host namenode_container =
     (if given p ''dest_path''
      then thenM (run_later E ''create_dir_on_hdfs'' (Call ''create_dir_on_hdfs''
                   [JStr namenode_host, JStr namenode_container, JStr (sent p ''dest_path'')])) (returnM [])
      else returnM ''Missing or empty directory path to create'')"

definition addFileHDFS :: "env \<Rightarrow> post \<Rightarrow> string \<Rightarrow> string \<Rightarrow> string m" where
  "addFileHDFS E p namenode_host namenode_container =
     (if given p ''dest_path'' \<and> given p ''origin_path''
      then thenM (run_later E ''add_file_to_hdfs'' (Call ''add_file_to_hdfs''
                   [JStr namenode_host, JStr namenode_container, JStr (sent p ''origin_path''), JStr (sent p ''dest_path'')]))
             (returnM [])
      else returnM ''Missing or empty file path to upload or destination path on HDFS'')"

definition getFileHDFS :: "env \<Rightarrow> post \<Rightarrow> string \<Rightarrow> string \<Rightarrow> string m" where
  "getFileHDFS E p namenode_host namenode_container =
     (if given p ''origin_path''
      then thenM (run_later E ''get_file_from_hdfs'' (Call ''get_file_from_hdfs''
                   [JStr namenode_host, JStr namenode_container, JStr (sent p ''origin_path''), JStr (sent p ''dest_path'')]))
             (returnM [])
      else returnM ''Missing or empty file path to download from HDFS or destination path'')"

definition removeFileHDFS :: "env \<Rightarrow> post \<Rightarrow> string \<Rightarrow> string \<Rightarrow> string m" where
  "removeFileHDFS E p namenode_host namenode_container =
     (if given p ''dest_path''
      then thenM (run_later E ''remove_file_from_hdfs'' (Call ''remove_file_from_hdfs''
                   [JStr namenode_host, JStr namenode_container, JStr (sent p ''dest_path'')])) (returnM [])
      else returnM ''Missing or empty path to delete'')"

section \<open>The errors of a redirection\<close>

text \<open>The page reads the query again: the parameters are split at \<open>&\<close>, name and value at the first \<open>=\<close>, and
  escapes are resolved.\<close>

definition hex_value :: "char \<Rightarrow> nat" where
  "hex_value c = length (takeWhile (\<lambda>x. x \<noteq> c) ''0123456789ABCDEF'')"

fun url_unquote :: "string \<Rightarrow> string" where
  "url_unquote [] = []"
| "url_unquote [c] = [c]"
| "url_unquote [c, d] = [c, d]"
| "url_unquote (c # d # e # s) =
     (if c = CHR ''%'' then char_of (16 * hex_value d + hex_value e) # url_unquote s else c # url_unquote (d # e # s))"

definition parameter_of :: "string \<Rightarrow> string \<times> string" where
  "parameter_of s = (takeWhile (\<lambda>c. c \<noteq> CHR ''='') s, url_unquote (drop 1 (dropWhile (\<lambda>c. c \<noteq> CHR ''='') s)))"

definition query_parameters :: "string \<Rightarrow> (string \<times> string) list" where
  "query_parameters q = map parameter_of (split_on CHR ''&'' (drop 1 q))"

lemma hex_inverse: "d < 16 \<Longrightarrow> hex_value (hex_digit d) = d"
proof -
  have "\<forall>d \<in> set [0..<16]. hex_value (hex_digit d) = d" by code_simp
  moreover assume "d < 16"
  ultimately show ?thesis by simp
qed

lemma plain_digits:
  "unreserved (hex_digit d)" if "d < 16" for d
proof -
  have "\<forall>d \<in> set [0..<16]. unreserved (hex_digit d)" by code_simp
  with that show ?thesis by simp
qed

lemma plain_char: "unreserved c \<Longrightarrow> c \<noteq> CHR ''%'' \<and> c \<noteq> CHR ''&'' \<and> c \<noteq> CHR ''=''"
proof -
  have "\<not> unreserved CHR ''%''" "\<not> unreserved CHR ''&''" "\<not> unreserved CHR ''=''" by code_simp+
  then show "unreserved c \<Longrightarrow> ?thesis" by metis
qed

lemma unquote_plain: "c \<noteq> CHR ''%'' \<Longrightarrow> url_unquote (c # s) = c # url_unquote s"
  by (cases s rule: url_unquote.cases) auto

lemma high_half: "(of_char c :: nat) div 16 < 16"
  using nat_of_char_less_256 [of c] by (intro less_mult_imp_div_less) simp

lemma unquote_char: "url_unquote (quote_char c @ s) = c # url_unquote s"
proof (cases "unreserved c")
  case True
  then show ?thesis by (simp add: quote_char_def unquote_plain plain_char)
next
  case False
  have "hex_value (hex_digit (of_char c div 16)) = of_char c div 16" "hex_value (hex_digit (of_char c mod 16)) = of_char c mod 16"
    by (auto intro!: hex_inverse high_half)
  then show ?thesis using False by (simp add: quote_char_def mult.commute [of 16])
qed

lemma unquote_quote: "url_unquote (url_quote s) = s"
  by (induction s) (simp_all add: url_quote_def unquote_char)

lemma quote_no_separator: "c \<in> set (url_quote s) \<Longrightarrow> c \<noteq> CHR ''&'' \<and> c \<noteq> CHR ''=''"
proof -
  assume "c \<in> set (url_quote s)"
  then obtain x where x: "c \<in> set (quote_char x)" by (auto simp: url_quote_def)
  have "c = CHR ''%'' \<or> unreserved c"
    using x plain_digits [OF high_half [of x]] plain_digits [of "of_char x mod 16"] by (auto simp: quote_char_def split: if_splits)
  then show ?thesis using plain_char [of c] by auto
qed

lemma errors_parameter: "parameter_of (''errors='' @ url_quote e) = (''errors'', e)"
  by (simp add: parameter_of_def unquote_quote)

lemma map_errors_parameter: "map parameter_of (map (\<lambda>x. ''errors='' @ url_quote x) es) = map (Pair ''errors'') es"
  using errors_parameter by (induction es) auto

lemma redirect_joined:
  "redirect_query (e # es) = CHR ''?'' # join [CHR ''&''] (map (\<lambda>x. ''errors='' @ url_quote x) (e # es))"
proof (induction es arbitrary: e)
  case Nil
  then show ?case by (simp add: redirect_query_def)
next
  case (Cons x xs)
  then show ?case by (simp add: redirect_query_def)
qed

text \<open>the page that is redirected to reads exactly the errors that were collected, in their order.\<close>

theorem redirect_roundtrip:
  "errors \<noteq> [] \<Longrightarrow> query_parameters (redirect_query errors) = map (Pair ''errors'') errors"
proof (cases errors)
  case (Cons e es)
  let ?ws = "map (\<lambda>x. ''errors='' @ url_quote x) (e # es)"
  have "\<forall>w \<in> set ?ws. CHR ''&'' \<notin> set w" using quote_no_separator by auto
  then have "split_on CHR ''&'' (join [CHR ''&''] ?ws) = ?ws" by (intro split_on_join) simp
  then show ?thesis
    unfolding Cons query_parameters_def redirect_joined drop_Suc_Cons drop_0 One_nat_def by (simp only: map_errors_parameter)
qed simp

theorem redirect_roundtrip_witness:
  "query_parameters (redirect_query [''a & b = 100%'', []]) = [(''errors'', ''a & b = 100%''), (''errors'', [])]"
  using redirect_roundtrip [of "[''a & b = 100%'', []]"] by simp

section \<open>The last run of the sanity checker\<close>

text \<open>the lines shown are those between the last start of the configuration check and the end of that run.\<close>

theorem checkInvalidConfig_last_run:
  assumes "contains ''Sanity checked'' finish" and "list_all (\<lambda>l. \<not> contains ''Sanity checked'' l) later"
    and "contains ''Checking for invalid configuration'' start"
    and "list_all (\<lambda>l. \<not> contains ''Checking for invalid configuration'' l) found"
  shows "checkInvalidConfig (earlier @ [start] @ found @ [finish] @ later) = found"
proof -
  have "dropWhile (\<lambda>l. \<not> contains ''Sanity checked'' l) (rev (earlier @ [start] @ found @ [finish] @ later)) =
      finish # rev found @ start # rev earlier"
    using assms(1,2) by (simp add: dropWhile_append list_all_iff)
  moreover have "takeWhile (\<lambda>l. \<not> contains ''Checking for invalid configuration'' l) (rev found @ start # rev earlier) = rev found"
    using assms(3,4) by (simp add: takeWhile_append list_all_iff)
  ultimately show ?thesis by (simp add: checkInvalidConfig_def)
qed

theorem checkInvalidConfig_last_run_witness:
  "checkInvalidConfig ([''Checking for invalid configuration'', ''old'', ''Sanity checked''] @ [''Checking for invalid configuration''] @
     [''bad value''] @ [''Sanity checked''] @ [''idle'']) = [''bad value'']"
  by (rule checkInvalidConfig_last_run) code_simp+

section \<open>A lost error\<close>

text \<open>When the boundary is refused and its type accepted, no error is reported.\<close>

definition refusing_env :: env where
  "refusing_env = sample_env\<lparr>env_web := (\<lambda>tr. Inr (if length tr = 1 then Response 500 ''no'' else Response 200 []))\<rparr>"

lemma boundary_error_lost:
  "fst (processLimitsBoundary refusing_env [(''cpu_boundary'', [''5'']), (''cpu_boundary_type'', [''percentage_of_max''])]
     ''http://db/structure/'' ''c0'' ''cpu'' sample_world) = Returned [] \<and>
   fst (boundary_param refusing_env [(''cpu_boundary'', [''5''])] ''http://db/structure/'' ''c0'' ''cpu'' ''boundary'' [] sample_world) =
     Returned ''Error updating boundary for structure c0: no''"
  by code_simp

end
