(* ===== verification/AppViews.thy ===== *)
theory AppViews
  imports Requests ContainerResources
begin

text \<open>
  The operations of the pages of applications: \<open>ui/views/apps/operations.py\<close>, the helpers of
  \<open>ui/views/core/utils.py\<close> and \<open>ui/views/apps/utils.py\<close> they use, and the calls of \<open>ui/views/common/views.py\<close>
  an application makes when it ends.

  The structures are JSON documents here.  A document that gets forms attached for its page keeps only the
  data of these forms.  A set of the code is the list of its members in the order they are written.
\<close>

section \<open>Documents of applications\<close>

fun find_application_doc :: "json list \<Rightarrow> string \<Rightarrow> obj option result" where
  "find_application_doc [] app_name = Inr None"
| "find_application_doc (x # xs) app_name =
     rbind (andR (has_subtype ''application'' x) (rbind (jitem x ''name'') (\<lambda>n. Inr (n = JStr app_name)))) (\<lambda>found.
     if found then rbind (jobj x) (\<lambda>d. Inr (Some d)) else find_application_doc xs app_name)"

definition getDataAndFilterByApp :: "env \<Rightarrow> string \<Rightarrow> string \<Rightarrow> (json list \<times> obj option) m" where
  "getDataAndFilterByApp E url app_name =
     bindM (getDbData E url) (\<lambda>data.
     liftR (rbind (data_items data) (\<lambda>items. rbind (find_application_doc items app_name) (\<lambda>a. Inr (items, a)))))"

text \<open>Reading a key of \<open>None\<close> raises.\<close>

definition app_item :: "obj option \<Rightarrow> string \<Rightarrow> json result" where
  "app_item a k = (case a of None \<Rightarrow> Inl (TypeError ''NoneType'') | Some d \<Rightarrow> item d k)"

definition app_container_docs :: "json list \<Rightarrow> obj option \<Rightarrow> obj list result" where
  "app_container_docs items a =
     rbind (filterR (\<lambda>x. andR (has_subtype ''container'' x)
        (rbind (jitem x ''name'') (\<lambda>n. rbind (rbind (app_item a ''containers'') jarr) (\<lambda>cs. Inr (n \<in> set cs))))) items)
       (mapR jobj)"

definition file_keys :: "string list" where
  "file_keys = [''runtime_files'', ''output_dir'', ''install_script'', ''start_script'', ''stop_script'']"

definition app_files_doc :: "obj option \<Rightarrow> obj result" where
  "app_files_doc a =
     rbind (mapR (\<lambda>k. rbind (rbind (app_item a k) jstr) (\<lambda>p. Inr (k, JStr (basename p)))) file_keys) (\<lambda>fs.
     rbind (rbind (app_item a ''start_script'') jstr) (\<lambda>p. Inr (fs @ [(''app_dir'', JStr (dirname p))])))"

definition getAppInfo :: "json list \<Rightarrow> string \<Rightarrow> obj result" where
  "getAppInfo items app_name = rbind (find_application_doc items app_name) (\<lambda>a. Inr (case a of Some d \<Rightarrow> d | None \<Rightarrow> []))"

fun find_user_of :: "json list \<Rightarrow> string \<Rightarrow> json result" where
  "find_user_of [] app_name = Inr JNull"
| "find_user_of (x # xs) app_name =
     rbind (jobj x) (\<lambda>d. rbind (jarr (get_or d ''clusters'' (JArr []))) (\<lambda>cs.
     if JStr app_name \<in> set cs then item d ''name'' else find_user_of xs app_name))"

definition checkAppUser :: "env \<Rightarrow> string \<Rightarrow> json m" where
  "checkAppUser E app_name =
     bindM (getDbData E (env_base_url E @ ''/user/'')) (\<lambda>data.
     liftR (rbind (data_items data) (\<lambda>items. find_user_of items app_name)))"

section \<open>Removing containers\<close>

definition str_value :: "json \<Rightarrow> string" where    \<comment> \<open>\<open>str(v)\<close>\<close>
  "str_value v = (case v of JStr s \<Rightarrow> s | _ \<Rightarrow> py_repr v)"

definition app_disk_path :: "obj \<Rightarrow> json result" where
  "app_disk_path c =
     rbind (rbind (item c ''resources'') jobj) (\<lambda>res.
     if has_key res ''disk'' then rbind (item res ''disk'') (\<lambda>d. jitem d ''path'') else Inr (JStr []))"

definition container_descriptor :: "obj \<Rightarrow> string result" where
  "container_descriptor c =
     rbind (app_disk_path c) (\<lambda>disk_path. rbind (item c ''name'') (\<lambda>n. rbind (item c ''host'') (\<lambda>h.
     Inr (''('' @ str_value n @ '','' @ str_value h @ '','' @ str_value disk_path @ '')''))))"

text \<open>The value of a choice of the form is the tuple of name, host and path, which Django prints.\<close>

definition container_choice :: "obj \<Rightarrow> string result" where
  "container_choice c =
     rbind (app_disk_path c) (\<lambda>disk_path. rbind (item c ''name'') (\<lambda>n. rbind (item c ''host'') (\<lambda>h.
     Inr (''('' @ join '', '' (map py_repr [n, h, disk_path]) @ '')''))))"

definition unquoted :: "string \<Rightarrow> string" where
  "unquoted s = strip_when (\<lambda>c. c = quote) (strip s)"

definition descriptor_part :: "string list \<Rightarrow> nat \<Rightarrow> string result" where
  "descriptor_part ws i = (if i < length ws then Inr (unquoted (ws ! i)) else Inl IndexError)"

definition parse_descriptor :: "string \<Rightarrow> obj result" where
  "parse_descriptor s =
     (let ws = split_on CHR '','' (strip_when (\<lambda>c. c = CHR '')'') (strip_when (\<lambda>c. c = CHR ''('') s))
      in rbind (descriptor_part ws 0) (\<lambda>container. rbind (descriptor_part ws 1) (\<lambda>host_name. rbind (descriptor_part ws 2) (\<lambda>p.
         Inr [(''container_name'', JStr container), (''host'', JStr host_name), (''disk_path'', JStr p)]))))"

definition remove_described :: "env \<Rightarrow> string \<Rightarrow> string list \<Rightarrow> string \<Rightarrow> obj \<Rightarrow> string m" where
  "remove_described E url descriptors app_name app_files =
     bindM (liftR (mapR parse_descriptor descriptors)) (\<lambda>container_list.
     thenM (run_later E ''remove_containers_from_app''
              (Call ''remove_containers_from_app'' [JStr url, jobjs container_list, JStr app_name, JObj app_files]))
       (returnM []))"

text \<open>With a request, the containers and files are those of the form.\<close>

definition posted_files :: "post \<Rightarrow> obj result" where
  "posted_files p =
     rbind (mapR (\<lambda>k. rbind (post_item p k) (\<lambda>v. Inr (k, JStr (basename v)))) file_keys) (\<lambda>fs.
     rbind (post_item p ''start_script'') (\<lambda>v. Inr (fs @ [(''app_dir'', JStr (dirname v))])))"

definition processRemoveContainersFromApp :: "env \<Rightarrow> post \<Rightarrow> string \<Rightarrow> string m" where
  "processRemoveContainersFromApp E p url =
     bindM (liftR (post_item p ''app'')) (\<lambda>app_name. bindM (liftR (posted_files p)) (\<lambda>app_files.
     remove_described E url (post_list p ''containers_removed'') app_name app_files))"

definition processStopApp :: "env \<Rightarrow> string \<Rightarrow> string \<Rightarrow> string list m" where
  "processStopApp E url app_name =
     bindM (getDataAndFilterByApp E url app_name) (\<lambda>(items, a).
     bindM (liftR (app_container_docs items a)) (\<lambda>app_containers. bindM (liftR (app_files_doc a)) (\<lambda>app_files.
     bindM (liftR (mapR container_descriptor app_containers)) (\<lambda>container_list.
     thenM (remove_task_by_name (app_name @ ''_app_task''))
       (bindM (remove_described E url container_list app_name app_files) (\<lambda>error. returnM (add_error error [])))))))"

definition processRemoveApps :: "env \<Rightarrow> string \<Rightarrow> string list \<Rightarrow> unit m" where
  "processRemoveApps E url selected =
     forM selected (\<lambda>app_name.
       bindM (getDataAndFilterByApp E url app_name) (\<lambda>(items, a).
       bindM (liftR (app_container_docs items a)) (\<lambda>app_containers. bindM (liftR (app_files_doc a)) (\<lambda>app_files.
       bindM (checkAppUser E app_name) (\<lambda>user.
       run_later E ''remove_app_task'' (Call ''remove_app_task''
         [JStr url, JStr ''apps'', JStr app_name, jobjs app_containers, JObj app_files, user]))))))"

section \<open>Adding an application\<close>

definition default_app_values :: "string dict" where
  "default_app_values =
     [(''install_script'', ''install.sh''), (''start_script'', ''start.sh''), (''stop_script'', ''stop.sh''),
      (''install_files'', ''install_files''), (''runtime_files'', ''runtime_files''), (''output_dir'', ''output_dir'')]"

definition default_boundary :: json where "default_boundary = JNum 10"
definition default_boundary_type :: json where "default_boundary_type = JStr ''percentage_of_max''"
definition default_weight :: json where "default_weight = JNum 1"

definition supported_resources :: "string list" where
  "supported_resources = [''cpu'', ''mem'', ''disk_read'', ''disk_write'', ''net'', ''energy'']"

definition supported_frameworks :: "string list" where
  "supported_frameworks = [''hadoop'', ''spark'']"

definition sent_or_default :: "post \<Rightarrow> string \<Rightarrow> string" where
  "sent_or_default p f = (if given p f then sent p f else get_or default_app_values f [])"

definition additional_files :: "(string \<times> string) list" where
  "additional_files = [(''add_install'', ''install_script''), (''add_install_files'', ''install_files''),
     (''add_runtime_files'', ''runtime_files''), (''add_output_dir'', ''output_dir'')]"

definition app_type_of :: "post \<Rightarrow> string dict \<Rightarrow> string" where
  "app_type_of p app_files =
     (if given p ''app_type'' then sent p ''app_type''
      else if get_or app_files ''install_script'' [] \<noteq> [] then ''generic_app'' else ''base'')"

text \<open>A Hadoop application has a framework; Spark changes its type.\<close>

definition hadoop_files :: "post \<Rightarrow> string dict \<Rightarrow> string dict" where
  "hadoop_files p app_files =
     (if get_or app_files ''app_type'' [] = ''hadoop_app''
      then if given p ''add_extra_framework'' \<and> has_key p ''framework''
           then (let fs = AList.update ''framework'' (sent p ''framework'') app_files
                 in if sent p ''framework'' = ''spark'' then AList.update ''app_type'' ''spark_app'' fs else fs)
           else AList.update ''framework'' ''hadoop'' app_files
      else app_files)"

definition added_app_files :: "post \<Rightarrow> string dict result" where
  "added_app_files p =
     (if has_key p ''app_dir''
      then let fs = [(''app_dir'', sent p ''app_dir'')] @
                 map (\<lambda>f. (f, sent_or_default p f)) [''start_script'', ''stop_script''] @
                 map (\<lambda>(condition, f). (f, if given p condition then sent_or_default p f else [])) additional_files
           in Inr (hadoop_files p (fs @ [(''app_type'', app_type_of p fs)]))
      else Inl (PyException ''Missing mandatory parameter: app_dir''))"

definition in_app_dir :: "string dict \<Rightarrow> string \<Rightarrow> json" where
  "in_app_dir app_files f =
     JStr (let v = get_or app_files f [] in if v \<noteq> [] then get_or app_files ''app_dir'' [] @ ''/'' @ v else [])"

definition posted_int :: "post \<Rightarrow> string \<Rightarrow> int result" where
  "posted_int p k = rbind (post_item p k) int_str"

definition posted_resource :: "post \<Rightarrow> string \<Rightarrow> obj dict \<Rightarrow> obj dict result" where
  "posted_resource p res rs =
     (if \<not> has_key p (res @ ''_max'') then Inr rs
      else rbind (posted_int p (res @ ''_max'')) (\<lambda>resource_max. rbind (posted_int p (res @ ''_min'')) (\<lambda>resource_min.
        let entry = [(''max'', JInt resource_max), (''min'', JInt resource_min), (''guard'', JStr ''false'')]
        in if has_key p (res @ ''_weight'')
           then rbind (jfloat (if given p (res @ ''_weight'') then JStr (sent p (res @ ''_weight'')) else default_weight))
                  (\<lambda>w. Inr (rs @ [(res, entry @ [(''weight'', JNum w)])]))
           else Inr (rs @ [(res, entry)]))))"

definition posted_limit :: "post \<Rightarrow> string \<Rightarrow> obj dict \<Rightarrow> obj dict result" where
  "posted_limit p res ls =
     (if \<not> has_key p (res @ ''_boundary'') then Inr ls
      else if given p (res @ ''_boundary'')
      then rbind (post_item p (res @ ''_boundary_type'')) (\<lambda>t.
           Inr (ls @ [(res, [(''boundary'', JStr (sent p (res @ ''_boundary''))), (''boundary_type'', JStr t)])]))
      else Inr (ls @ [(res, [(''boundary'', default_boundary), (''boundary_type'', default_boundary_type)])]))"

definition nested :: "obj dict \<Rightarrow> json" where
  "nested d = JObj (map (\<lambda>(k, x). (k, JObj x)) d)"

definition app_doc :: "string \<Rightarrow> string dict \<Rightarrow> obj dict \<Rightarrow> obj" where
  "app_doc app_name app_files rs =
     [(''name'', JStr app_name), (''resources'', nested rs), (''guard'', JBool False), (''subtype'', JStr ''application''),
      (''install_script'', in_app_dir app_files ''install_script''), (''install_files'', in_app_dir app_files ''install_files''),
      (''runtime_files'', in_app_dir app_files ''runtime_files''), (''output_dir'', in_app_dir app_files ''output_dir''),
      (''start_script'', in_app_dir app_files ''start_script''), (''stop_script'', in_app_dir app_files ''stop_script''),
      (''framework'', JStr (get_or app_files ''framework'' []))]"

definition required :: "string option \<Rightarrow> string result" where
  "required v = (case v of Some s \<Rightarrow> Inr s | None \<Rightarrow> Inl (TypeError ''NoneType''))"

definition optional_json :: "string option \<Rightarrow> json" where
  "optional_json v = (case v of Some s \<Rightarrow> JStr s | None \<Rightarrow> JNull)"

definition posted_resources :: "post \<Rightarrow> (obj dict \<times> obj dict) result" where
  "posted_resources p =
     foldR (\<lambda>res (rs, ls). rbind (posted_resource p res rs) (\<lambda>rs'. rbind (posted_limit p res ls) (\<lambda>ls'. Inr (rs', ls'))))
       supported_resources ([], [])"

definition processAddApp :: "env \<Rightarrow> operation" where
  "processAddApp E p url args =
     bindM (liftR (required (oa_structure_name args))) (\<lambda>app_name.
     bindM (liftR (added_app_files p)) (\<lambda>app_files.
     bindM (liftR (posted_resources p)) (\<lambda>(rs, ls).
     let put_field_data = [(''app'', JObj (app_doc app_name app_files rs)), (''limits'', JObj [(''resources'', nested ls)])]
     in thenM (run_later E ''add_app_task'' (Call ''add_app_task''
                 [JStr (url @ ''apps/'' @ app_name), JObj put_field_data, JStr app_name,
                  JObj (map (\<lambda>(k, f). (k, JStr f)) app_files), optional_json (post_get p ''user'')]))
          (returnM (Some [])))))"

section \<open>The documents of the page\<close>

text \<open>What a page adds to a structure it shows: its limits, the editable fields of its forms and the labels of its values.\<close>

definition with_forms :: "obj \<Rightarrow> obj result" where
  "with_forms x =
     rbind (structure_resources_form x) (\<lambda>(_, editable). rbind (limits_form x) (\<lambda>(initial, _).
     Inr (dict_update x [(''resources_editable_data'', JNum (of_nat editable)),
       (''limits_editable_data'', JNum (of_nat (length initial - 1)))])))"

definition with_labels :: "obj \<Rightarrow> obj result" where
  "with_labels x =
     rbind (getStructuresValuesLabels x ''resources'') (\<lambda>rs. rbind (getStructuresValuesLabels x ''limits'') (\<lambda>ls.
     Inr (dict_update x [(''resources_values_labels'', jstrs rs), (''limits_values_labels'', jstrs ls)])))"

definition with_limits :: "env \<Rightarrow> obj \<Rightarrow> obj m" where
  "with_limits E x =
     bindM (field x ''name'') (\<lambda>n. bindM (getLimits E n) (\<lambda>l. returnM (AList.update ''limits'' l x)))"

definition shown_structure :: "env \<Rightarrow> obj \<Rightarrow> obj m" where
  "shown_structure E x = bindM (with_limits E x) (\<lambda>x. liftR (rbind (with_forms x) with_labels))"

definition name_of_doc :: "obj \<Rightarrow> string" where
  "name_of_doc d = str_value (get_or d ''name'' JNull)"

definition sort_docs :: "obj list \<Rightarrow> obj list" where
  "sort_docs = sort_by (\<lambda>a b. compareStructureNames (name_of_doc a) (name_of_doc b))"

definition removal_choices :: "obj \<Rightarrow> obj list \<Rightarrow> string list result" where
  "removal_choices a containers =
     rbind (mapR (item a) (''name'' # file_keys)) (\<lambda>_. mapR container_choice containers)"

definition shown_app :: "env \<Rightarrow> json list \<Rightarrow> obj \<Rightarrow> obj m" where
  "shown_app E items a =
     bindM (liftR (app_container_docs items (Some a))) (\<lambda>docs.
     bindM (foldM (\<lambda>c acc. bindM (shown_structure E c) (\<lambda>c'. returnM (acc @ [c']))) docs []) (\<lambda>containers.
     let a1 = AList.update ''containers_full'' (jobjs (sort_docs containers)) a
     in bindM (with_limits E a1) (\<lambda>a2. bindM (liftR (with_forms a2)) (\<lambda>a3.
        bindM (liftR (removal_choices a3 containers)) (\<lambda>choices.
        liftR (with_labels (dict_update a3 [(''started_app'', JBool (containers \<noteq> [])),
          (''remove_containers_from_app_editable_data'', JNum (of_nat (length choices)))])))))))"

definition getApps :: "env \<Rightarrow> json list \<Rightarrow> obj list m" where
  "getApps E items =
     bindM (liftR (rbind (filterR (has_subtype ''application'') items) (mapR jobj))) (\<lambda>docs.
     foldM (\<lambda>a acc. bindM (shown_app E items a) (\<lambda>a'. returnM (acc @ [a']))) docs [])"

fun retrieve_app_doc :: "obj list \<Rightarrow> string \<Rightarrow> obj option result" where
  "retrieve_app_doc [] app_name = Inr None"
| "retrieve_app_doc (a # apps) app_name =
     rbind (item a ''name'') (\<lambda>n. if n = JStr app_name then Inr (Some a) else retrieve_app_doc apps app_name)"

text \<open>The application, the last container that is a name node, and the data nodes.\<close>

definition note_hdfs_node :: "obj \<Rightarrow> obj option \<times> obj list \<Rightarrow> (obj option \<times> obj list) result" where
  "note_hdfs_node c found =
     rbind (rbind (item c ''name'') jstr) (\<lambda>n.
     Inr (case found of (namenode, datanodes) \<Rightarrow>
       if contains ''namenode'' n then (Some c, datanodes)
       else if contains ''datanode'' n then (namenode, datanodes @ [c]) else (namenode, datanodes)))"

definition retrieve_global_hdfs_app :: "env \<Rightarrow> obj list \<Rightarrow> (obj option \<times> obj option \<times> obj list) result" where
  "retrieve_global_hdfs_app E apps =
     rbind (rbind (item (env_vars E) ''global_hdfs_app_name'') jstr) (\<lambda>global_name.
     rbind (retrieve_app_doc apps global_name) (\<lambda>a.
     case a of None \<Rightarrow> Inr (None, None, [])
     | Some d \<Rightarrow> rbind (rbind (item d ''containers_full'') jarr) (\<lambda>cs. rbind (mapR jobj cs) (\<lambda>cs.
         rbind (foldR note_hdfs_node cs (None, [])) (\<lambda>(namenode, datanodes). Inr (Some d, namenode, datanodes))))))"

section \<open>Starting an application\<close>

definition disk_exclusions :: "env \<Rightarrow> string list dict dict m" where
  "disk_exclusions E =
     bindM (config_flag E ''disk_capabilities'') (\<lambda>capabilities.
     bindM (if capabilities then config_flag E ''disk_scaling'' else returnM False) (\<lambda>scaling.
     bindM (if scaling then config_flag E ''global_hdfs'' else returnM False) (\<lambda>hdfs.
     bindM (if hdfs then config_flag E ''server_as_host'' else returnM False) (\<lambda>excluded.
     if excluded
     then bindM (inspect server_name) (\<lambda>name. bindM (liftR name) (\<lambda>name.
          bindM (config_text (env_platform E) ''global_hdfs_disk_name'') (\<lambda>disk.
          returnM [(name, [(''disks'', [disk])])])))
     else returnM []))))"

definition start_files :: "obj \<Rightarrow> obj result" where
  "start_files a =
     rbind (rbind (item a ''start_script'') jstr) (\<lambda>script.
     rbind (mapR (\<lambda>f. if has_key a f then rbind (rbind (item a f) jstr) (\<lambda>v. Inr (f, JStr (basename v))) else Inr (f, JStr []))
              [''install_script'', ''runtime_files'', ''output_dir'', ''start_script'', ''stop_script'', ''framework'']) (\<lambda>fs.
     Inr ((''app_dir'', JStr (dirname script)) # fs)))"

definition limits_of_doc :: "json \<Rightarrow> limits result" where
  "limits_of_doc v =
     rbind (jobj v) (\<lambda>d. rbind (number_in v ''max'') (\<lambda>mx. rbind (jnum (get_or d ''current'' (JNum 0))) (\<lambda>cur.
     rbind (number_in v ''min'') (\<lambda>mn. rbind (jnum (get_or d ''weight'' default_weight)) (\<lambda>w.
     Inr \<lparr>r_max = mx, r_min = mn, r_current = Some cur, r_weight = Some w, r_usage = 0\<rparr>)))))"

definition resources_of_app :: "obj \<Rightarrow> limits dict result" where
  "resources_of_app a =
     rbind (rbind (item a ''resources'') jobj) (\<lambda>rs.
     mapR (\<lambda>(res, v). rbind (limits_of_doc v) (\<lambda>l. Inr (res, l))) (filter (\<lambda>(res, v). res \<noteq> ''disk'') rs))"

definition limit_entries :: "json \<Rightarrow> limit_entry dict result" where
  "limit_entries v =
     rbind (jobj v) (mapR (\<lambda>(res, x). rbind (number_in x ''boundary'') (\<lambda>b. rbind (rbind (jitem x ''boundary_type'') jstr) (\<lambda>t.
       Inr (res, \<lparr>l_boundary = b, l_boundary_type = t\<rparr>)))))"

definition start_type :: "obj \<Rightarrow> string result" where
  "start_type app_files =
     (let framework = str_value (get_or app_files ''framework'' (JStr []))
      in if framework \<noteq> []
         then if framework \<in> set supported_frameworks then Inr (framework @ ''_app'')
              else Inl (PyException (framework @ '' framework not supported''))
         else if get_or app_files ''install_script'' (JStr []) \<noteq> JStr [] then Inr ''generic_app'' else Inr ''base'')"

text \<open>The master takes its part of the resources.\<close>

definition subtract_master :: "obj dict \<Rightarrow> string \<Rightarrow> limits dict \<Rightarrow> limits dict result" where
  "subtract_master master res rs =
     rbind (item rs res) (\<lambda>l. rbind (item master res) (\<lambda>m.
     rbind (rbind (item m ''max'') jnum) (\<lambda>mx. rbind (rbind (item m ''min'') jnum) (\<lambda>mn.
     Inr (AList.update res (l\<lparr>r_max := r_max l - mx, r_min := r_min l - mn\<rparr>) rs)))))"

definition master_kinds :: "bool \<Rightarrow> string list" where
  "master_kinds budgeting = [''cpu'', ''mem''] @ (if budgeting then [''energy''] else [])"

definition default_if :: "string \<Rightarrow> json \<Rightarrow> obj \<Rightarrow> obj result" where
  "default_if k v d = rbind (item d k) (\<lambda>x. Inr (if x = JStr ''default'' then AList.update k v d else d))"

definition fill_defaults :: "obj \<Rightarrow> obj result" where
  "fill_defaults d =
     rbind (default_if ''weight'' default_weight d) (\<lambda>d. rbind (default_if ''boundary'' default_boundary d)
       (default_if ''boundary_type'' default_boundary_type))"

definition fill_master :: "obj dict \<Rightarrow> obj dict result" where
  "fill_master = mapR (\<lambda>(res, d). rbind (fill_defaults d) (\<lambda>d. Inr (res, d)))"

definition rval_json :: "rval \<Rightarrow> json" where
  "rval_json v = (case v of Num x \<Rightarrow> JNum x | Txt s \<Rightarrow> JStr s)"

definition raw_spec :: "spec \<Rightarrow> obj" where
  "raw_spec c = map (\<lambda>(k, v). (k, rval_json v)) c"

definition as_strings :: "obj \<Rightarrow> obj" where
  "as_strings d = map (\<lambda>(k, v). (k, JStr (str_value v))) d"

text \<open>The regular containers and the irregular one as strings; the irregular one also stays as it was computed.\<close>

definition container_resources_of :: "(ctype \<times> spec) list \<Rightarrow> obj dict" where
  "container_resources_of crs =
     concat (map (\<lambda>(t, c). if t = Regular then [(''regular'', as_strings (raw_spec c))]
       else if t = RmNn then [(''rm-nn'', as_strings (raw_spec c))]
       else [(ctype_name t, raw_spec c), (''irregular'', as_strings (raw_spec c))]) crs)"

definition master_spec :: "bool \<Rightarrow> obj dict \<Rightarrow> obj result" where
  "master_spec budgeting master =
     rbind (mapR (\<lambda>res. rbind (item master res) (\<lambda>d. Inr (map (\<lambda>(k, v). (res @ ''_'' @ k, v)) d))) (master_kinds budgeting))
       (\<lambda>ds. Inr (as_strings (concat ds)))"

text \<open>What the start task is told: resources and their containers, and how many containers there are.\<close>

definition start_resources ::
  "bool \<Rightarrow> obj dict \<Rightarrow> bool \<Rightarrow> limits dict \<Rightarrow> limit_entry dict \<Rightarrow> int \<Rightarrow> int \<Rightarrow> (limits dict \<times> obj dict \<times> int) result" where
  "start_resources budgeting master is_hadoop_app rs app_limits number benevolence =
     (if is_hadoop_app
      then rbind (foldR (subtract_master master) (master_kinds budgeting) rs) (\<lambda>rs.
           rbind (fill_master master) (\<lambda>master.
           rbind (getContainerResourcesForApp number rs app_limits benevolence True) (\<lambda>crs.
           rbind (master_spec budgeting master) (\<lambda>m.
           Inr (rs, AList.update ''rm-nn'' m (container_resources_of crs), number + 1)))))
      else rbind (getContainerResourcesForApp number rs app_limits benevolence False) (\<lambda>crs.
           Inr (rs, container_resources_of crs, number)))"

definition limits_json :: "limits \<Rightarrow> json" where
  "limits_json l =
     JObj ([(''max'', JNum (r_max l))] @ (case r_current l of Some x \<Rightarrow> [(''current'', JNum x)] | None \<Rightarrow> []) @
       [(''min'', JNum (r_min l))] @ (case r_weight l of Some x \<Rightarrow> [(''weight'', JNum x)] | None \<Rightarrow> []))"

definition requirements_json :: "requirements \<Rightarrow> json" where
  "requirements_json r =
     JObj [(''app_resources'', JObj (map (\<lambda>(k, l). (k, limits_json l)) (ar_resources r))),
       (''assignation_policy'', JStr (ar_policy r)), (''allow_oversubscription'', JBool (ar_oversubscription r)),
       (''number_of_containers'', JInt (ar_number r)),
       (''allocation_exclusions'', JObj (map (\<lambda>(h, d). (h, JObj (map (\<lambda>(c, ns). (c, jstrs ns)) d))) (ar_exclusions r)))]"

definition dependencies_of :: "post \<Rightarrow> (string \<times> string list) option" where
  "dependencies_of p =
     (if given p ''dependency_app''
      then Some (sent p ''dependency_app'',
             if has_key p ''dependency_condition'' then post_list p ''dependency_condition'' else [''stopped''])
      else None)"

definition dependencies_json :: "(string \<times> string list) option \<Rightarrow> json" where
  "dependencies_json d =
     (case d of None \<Rightarrow> JObj [] | Some (a, cs) \<Rightarrow> JObj [(''app'', JStr a), (''conditions'', jstrs cs)])"

definition transfer_info :: "(string \<times> string list) list" where
  "transfer_info = [(''read_from_global'', [''global_input'', ''local_output'']), (''write_to_global'', [''local_input'', ''global_output''])]"

definition transfers_of :: "post \<Rightarrow> obj" where
  "transfers_of p =
     concat (map (\<lambda>(condition, infos). if given p condition then map (\<lambda>i. (i, optional_json (post_get p i))) infos else [])
       transfer_info)"

text \<open>The global HDFS an application reads from and writes to, or why it cannot.\<close>

definition global_hdfs_data_of :: "env \<Rightarrow> post \<Rightarrow> json list \<Rightarrow> (string + obj) m" where
  "global_hdfs_data_of E p items =
     bindM (getApps E items) (\<lambda>apps. bindM (liftR (retrieve_global_hdfs_app E apps)) (\<lambda>(a, namenode, datanodes).
     case (a, namenode) of
       (None, _) \<Rightarrow> returnM (Inl ''Global HDFS requested but not found'')
     | (_, None) \<Rightarrow> returnM (Inl ''Namenode not found in global HDFS'')
     | (Some _, Some c) \<Rightarrow> bindM (liftR (item c ''name'')) (\<lambda>n. bindM (liftR (item c ''host'')) (\<lambda>h.
         returnM (Inr ([(''namenode_container_name'', n), (''namenode_host'', h),
           (''number_of_datanodes'', JNum (of_nat (length datanodes))),
           (''datanodes_info_str'', JStr (formatted (jobjs datanodes)))] @ transfers_of p))))))"

definition start_task_args ::
  "requirements \<Rightarrow> string \<Rightarrow> string \<Rightarrow> obj \<Rightarrow> obj dict \<Rightarrow> json \<Rightarrow> json list" where
  "start_task_args req url app_name app_files crs scaler_polling_freq =
     [requirements_json req, JStr url, JStr app_name, JObj app_files, nested crs, scaler_polling_freq]"

definition processStartApp :: "env \<Rightarrow> obj dict \<Rightarrow> operation" where
  "processStartApp E master p url args =
     bindM (disk_exclusions E) (\<lambda>exclusions.
     bindM (getDbData E url) (\<lambda>data.
     bindM (liftR (required (oa_structure_name args))) (\<lambda>app_name.
     bindM (liftR (rbind (data_items data) (\<lambda>items. rbind (getAppInfo items app_name) (\<lambda>a. Inr (items, a))))) (\<lambda>(items, a).
     bindM (getLimits E app_name) (\<lambda>app_limits.
     if \<not> jtruthy (get_or a ''start_script'' (JStr [])) then returnM (Some (''Error: there is no start script for app '' @ app_name))
     else bindM (liftR (start_files a)) (\<lambda>app_files.
     bindM (liftR (resources_of_app a)) (\<lambda>rs0.
     bindM (liftR (posted_int p ''number_of_containers'')) (\<lambda>number0. bindM (liftR (posted_int p ''benevolence'')) (\<lambda>benevolence.
     bindM (liftR (start_type app_files)) (\<lambda>app_type.
     let is_hadoop_app = app_type \<in> {''hadoop_app'', ''spark_app''}
     in bindM (if is_hadoop_app then config_flag E ''power_budgeting'' else returnM False) (\<lambda>budgeting.
     bindM (liftR (rbind (limit_entries app_limits) (\<lambda>ls. start_resources budgeting master is_hadoop_app rs0 ls number0 benevolence)))
       (\<lambda>(rs, crs, number).
     bindM (liftR (post_item p ''assignation_policy'')) (\<lambda>assignation_policy.
     bindM (getScalerPollFreq E) (\<lambda>scaler_polling_freq.
     bindM (config_flag E ''virtual_mode'') (\<lambda>virtual_cluster.
     let req = \<lparr>ar_resources = rs, ar_policy = assignation_policy, ar_oversubscription = given p ''allow_oversubscription'',
                 ar_number = number, ar_exclusions = exclusions\<rparr>;
         start_args = start_task_args req url app_name app_files crs scaler_polling_freq;
         dependencies = dependencies_json (dependencies_of p)
     in if \<not> is_hadoop_app
        then thenM (run_later E (app_name @ ''_app_task'') (Call ''start_app_task'' (start_args @ [JStr app_type, dependencies])))
               (returnM (Some []))
        else bindM (config_flag E ''global_hdfs'') (\<lambda>uses_global.
             bindM (if uses_global then bindM (global_hdfs_data_of E p items) (\<lambda>r.
                      returnM (case r of Inl err \<Rightarrow> Inl err | Inr d \<Rightarrow> Inr (JObj d)))
                    else returnM (Inr JNull)) (\<lambda>r.
             case r of Inl err \<Rightarrow> returnM (Some err)
             | Inr global_hdfs_data \<Rightarrow>
               thenM (run_later E (app_name @ ''_app_task'') (Call ''start_hadoop_app_task''
                        (start_args @ [JBool virtual_cluster, JStr app_type, global_hdfs_data, dependencies])))
                 (returnM (Some [])))))))))))))))))))"

section \<open>Calls from outside\<close>

text \<open>Status and body of the answer; the body of a success or the error.\<close>

datatype reply = Reply nat json

definition success :: reply where
  "success = Reply 200 (JObj [(''success'', JBool True)])"

definition refused :: "json \<Rightarrow> reply" where
  "refused err = Reply 400 (JObj [(''success'', JBool False), (''error'', err)])"

definition post_required :: reply where
  "post_required = Reply 405 (JObj [(''error'', JStr ''POST required'')])"

definition api_start_app :: "env \<Rightarrow> obj dict \<Rightarrow> string \<Rightarrow> post \<Rightarrow> reply m" where
  "api_start_app E master meth p =
     (if meth \<noteq> ''POST'' then returnM post_required
      else bindM (processStartApp E master p (env_base_url E @ ''/structure/'')
                    \<lparr>oa_structure_name = post_get p ''name'', oa_host_list = None, oa_selected = []\<rparr>) (\<lambda>error.
           returnM (case error of Some e \<Rightarrow> if e \<noteq> [] then refused (JStr e) else success | None \<Rightarrow> success)))"

text \<open>The state and result recorded for an exit code; a negative one has no state, and \<open>None.upper()\<close> raises.\<close>

definition exit_state :: "int \<Rightarrow> (string \<times> string) result" where
  "exit_state exit_code =
     (if exit_code = 0 then Inr (''SUCCESS'', ''None'')
      else if exit_code > 0 then Inr (''FAILURE'', ''Exit code: '' @ str_of_int exit_code)
      else Inl (AttributeError ''upper''))"

definition task_name_of :: "string \<Rightarrow> string option \<Rightarrow> string" where
  "task_name_of app_name sender = (case sender of Some c \<Rightarrow> app_name @ ''-'' @ c | None \<Rightarrow> app_name)"

definition record_exit :: "env \<Rightarrow> post \<Rightarrow> string option \<Rightarrow> string \<Rightarrow> unit m" where
  "record_exit E p sender app_name =
     bindM (liftR (jfloat (case post_get p ''runtime'' of Some r \<Rightarrow> JStr r | None \<Rightarrow> JNum 0))) (\<lambda>runtime.
     bindM (liftR (jint (case post_get p ''exit_code'' of Some c \<Rightarrow> JStr c | None \<Rightarrow> JNum (-1)))) (\<lambda>exit_code.
     bindM (liftR (exit_state exit_code)) (\<lambda>(status, result).
     bindM (create_artificial_task E (task_name_of app_name sender) status result) (\<lambda>task_id.
     update_task_runtime task_id (two_decimals runtime)))))"

definition count_down :: "env \<Rightarrow> string \<Rightarrow> reply m" where
  "count_down E app_name =
     bindM (get_app_counter app_name) (\<lambda>active.
     bindM (if active \<noteq> [] then liftR (int_str active) else returnM 0) (\<lambda>n.
     if n > 1 then thenM (create_app_counter app_name (str_of_int (n - 1))) (returnM success)
     else thenM (remove_app_counter app_name)
            (bindM (processStopApp E (env_base_url E @ ''/structure/'') app_name) (\<lambda>errors.
             returnM (if errors \<noteq> [] then refused (jstrs errors) else success)))))"

definition api_stop_app :: "env \<Rightarrow> string \<Rightarrow> post \<Rightarrow> string option \<Rightarrow> string \<Rightarrow> reply m" where
  "api_stop_app E meth p sender app_name =
     (if meth \<noteq> ''POST'' then returnM post_required
      else thenM (record_exit E p sender app_name) (count_down E app_name))"

section \<open>Containers as texts\<close>

text \<open>Names and paths without separators, quotes, blanks or characters that Python escapes.\<close>

definition plain :: "string \<Rightarrow> bool" where
  "plain s \<longleftrightarrow> list_all (\<lambda>c. c \<notin> {CHR '','', CHR ''('', CHR '')'', quote} \<and> 32 < (of_char c :: nat) \<and>
      (of_char c :: nat) < 127 \<and> (of_char c :: nat) \<noteq> 92) s"

lemma plain_code:
  assumes "plain s" "c \<in> set s"
  shows "c \<noteq> CHR '','' \<and> c \<noteq> CHR ''('' \<and> c \<noteq> CHR '')'' \<and> c \<noteq> quote"
    and "32 < (of_char c :: nat) \<and> (of_char c :: nat) < 127 \<and> (of_char c :: nat) \<noteq> 92"
  using assms unfolding plain_def list_all_iff by blast+

lemma plain_no_space: "plain s \<Longrightarrow> c \<in> set s \<Longrightarrow> \<not> is_space c"
proof
  assume "plain s" "c \<in> set s" "is_space c"
  from plain_code(2) [OF this(1,2)] obtain n where n: "n = (of_char c :: nat)" "32 < n" by blast
  have "n = 32 \<or> n \<in> {9, 10, 11, 12, 13}"
  proof (cases "c = CHR '' ''")
    case True
    then show ?thesis using n(1) by simp
  next
    case False
    then show ?thesis using \<open>is_space c\<close> unfolding is_space_def n(1) by blast
  qed
  with n(2) show False by auto
qed

lemma plain_not:
  "plain s \<Longrightarrow> c \<in> set s \<Longrightarrow> c \<noteq> CHR '','' \<and> c \<noteq> CHR ''('' \<and> c \<noteq> CHR '')'' \<and> c \<noteq> quote \<and> \<not> is_space c"
  using plain_code(1) plain_no_space by blast

lemma repr_plain_char:
  assumes "plain s" "c \<in> set s"
  shows "repr_char quote c = [c]"
proof -
  from plain_code [OF assms] obtain n where n: "n = (of_char c :: nat)" "32 < n" "n < 127" "n \<noteq> 92" "c \<noteq> quote" by blast
  show ?thesis unfolding repr_char_def Let_def n(1) [symmetric] using n(2-) by auto
qed

lemma repr_plain: "plain s \<Longrightarrow> repr_str s = quote # s @ [quote]"
proof -
  assume s: "plain s"
  then have "quote \<notin> set s" using plain_not by blast
  moreover have "map (repr_char quote) s = map (\<lambda>c. [c]) s" using repr_plain_char [OF s] by simp
  then have "concat (map (repr_char quote) s) = s" by (simp only: concat_map_singleton list.map_ident)
  ultimately show ?thesis by (simp add: repr_str_def)
qed

lemma strip_ends: "\<not> p (hd s) \<Longrightarrow> \<not> p (last s) \<Longrightarrow> strip_when p s = s"
proof -
  assume "\<not> p (hd s)" "\<not> p (last s)"
  then have "dropWhile p s = s" "dropWhile p (rev s) = rev s"
    by (cases "s = []"; simp add: dropWhile_eq_self_iff hd_rev)+
  then show ?thesis by (simp add: strip_when_def)
qed

lemma strip_front: "p c \<Longrightarrow> s \<noteq> [] \<Longrightarrow> \<not> p (hd s) \<Longrightarrow> \<not> p (last s) \<Longrightarrow> strip_when p (c # s) = s"
  using strip_ends [of p s] by (simp add: strip_when_def)

lemma strip_back: "p c \<Longrightarrow> s \<noteq> [] \<Longrightarrow> \<not> p (hd s) \<Longrightarrow> \<not> p (last s) \<Longrightarrow> strip_when p (s @ [c]) = s"
proof -
  assume "p c" "s \<noteq> []" "\<not> p (hd s)" "\<not> p (last s)"
  then have "dropWhile p (s @ [c]) = s @ [c]" "dropWhile p (rev s) = rev s"
    by (simp_all add: dropWhile_eq_self_iff hd_rev)
  with \<open>p c\<close> show ?thesis by (simp add: strip_when_def)
qed

text \<open>The text between the outer parentheses, when it neither begins nor ends with one.\<close>

lemma parens_stripped:
  assumes "body \<noteq> []" "hd body \<notin> set ''()''" "last body \<notin> set ''()''"
  shows "strip_when (\<lambda>c. c = CHR '')'') (strip_when (\<lambda>c. c = CHR ''('') (CHR ''('' # body @ [CHR '')''])) = body"
proof -
  have "strip_when (\<lambda>c. c = CHR ''('') (CHR ''('' # body @ [CHR '')'']) = body @ [CHR '')'']"
    using assms by (intro strip_front) auto
  then show ?thesis using assms by (simp add: strip_back)
qed

lemma unquoted_plain: "plain s \<Longrightarrow> unquoted s = s"
  using plain_not by (auto simp: unquoted_def strip_def strip_when_id)

lemma quote_no_space: "\<not> is_space quote"
  by (simp add: is_space_def quote_def)

lemma unquoted_repr:
  assumes "plain s"
  shows "unquoted (quote # s @ [quote]) = s" "unquoted (CHR '' '' # quote # s @ [quote]) = s"
proof -
  have q: "strip_when (\<lambda>c. c = quote) (quote # s @ [quote]) = s"
  proof (cases s)
    case Nil
    then show ?thesis by (simp add: strip_when_def)
  next
    case (Cons c t)
    have "hd s \<noteq> quote" "last s \<noteq> quote" using plain_not [OF assms] Cons by (auto simp: last_in_set)
    moreover have "strip_when (\<lambda>c. c = quote) (quote # s @ [quote]) = strip_when (\<lambda>c. c = quote) (s @ [quote])"
      by (simp add: strip_when_def)
    ultimately show ?thesis using Cons strip_back [of "\<lambda>c. c = quote" quote s] by (simp only: simp_thms list.distinct)
  qed
  have "strip (quote # s @ [quote]) = quote # s @ [quote]"
    unfolding strip_def by (rule strip_ends) (simp_all add: quote_no_space)
  with q show "unquoted (quote # s @ [quote]) = s" by (simp add: unquoted_def)
  have "strip (CHR '' '' # quote # s @ [quote]) = quote # s @ [quote]"
    unfolding strip_def by (rule strip_front) (simp_all add: quote_no_space, simp add: is_space_def)
  with q show "unquoted (CHR '' '' # quote # s @ [quote]) = s" by (simp add: unquoted_def)
qed

definition removal_request :: "string \<times> string \<times> string \<Rightarrow> obj" where
  "removal_request = (\<lambda>(n, h, p). [(''container_name'', JStr n), (''host'', JStr h), (''disk_path'', JStr p)])"

lemma parse_three:
  assumes "CHR '','' \<notin> set a" "CHR '','' \<notin> set b" "CHR '','' \<notin> set c"
    and "a @ '','' @ b @ '','' @ c \<noteq> []" "hd (a @ '','' @ b @ '','' @ c) \<notin> set ''()''"
    and "last (a @ '','' @ b @ '','' @ c) \<notin> set ''()''"
  shows "parse_descriptor (''('' @ a @ '','' @ b @ '','' @ c @ '')'') = Inr (removal_request (unquoted a, unquoted b, unquoted c))"
proof -
  have "split_on CHR '','' (join '','' [a, b, c]) = [a, b, c]" using assms by (intro split_on_join) auto
  moreover have "strip_when (\<lambda>c. c = CHR '')'') (strip_when (\<lambda>c. c = CHR ''('') (''('' @ a @ '','' @ b @ '','' @ c @ '')'')) =
      a @ '','' @ b @ '','' @ c"
    using parens_stripped [OF assms(4-6)] by simp
  ultimately show ?thesis by (simp add: parse_descriptor_def descriptor_part_def removal_request_def Let_def)
qed

text \<open>Both texts a container is given, by the program and by the form, name it again.\<close>

lemma parse_described:
  assumes "plain n" "plain h" "plain p"
  shows "parse_descriptor (''('' @ n @ '','' @ h @ '','' @ p @ '')'') = Inr (removal_request (n, h, p))"
proof -
  have "hd (n @ '','' @ h @ '','' @ p) \<notin> set ''()''" using plain_not [OF assms(1)] by (cases n) auto
  moreover have "last (n @ '','' @ h @ '','' @ p) \<notin> set ''()''" using plain_not [OF assms(3)] by (cases p rule: rev_cases) auto
  ultimately show ?thesis
    using parse_three [of n h p] plain_not assms by (auto simp: unquoted_plain)
qed

lemma parse_chosen:
  assumes "plain n" "plain h" "plain p"
  shows "parse_descriptor (''('' @ join '', '' (map py_repr [JStr n, JStr h, JStr p]) @ '')'') = Inr (removal_request (n, h, p))"
proof -
  have q: "quote \<notin> set ''(),''" by (simp add: quote_def)
  have "CHR '','' \<notin> set (quote # x @ [quote])" "CHR '','' \<notin> set (CHR '' '' # quote # x @ [quote])" if "plain x" for x
    using plain_not [OF that] q by auto
  then show ?thesis
    using parse_three [of "quote # n @ [quote]" "CHR '' '' # quote # h @ [quote]" "CHR '' '' # quote # p @ [quote]"] q assms
    by (simp add: repr_plain unquoted_repr)
qed

section \<open>Stopping an application\<close>

definition shown_at :: "obj \<Rightarrow> string \<times> string \<times> string \<Rightarrow> bool" where
  "shown_at c = (\<lambda>(n, h, p). item c ''name'' = Inr (JStr n) \<and> item c ''host'' = Inr (JStr h) \<and>
     app_disk_path c = Inr (JStr p) \<and> plain n \<and> plain h \<and> plain p)"

lemma described: "shown_at c t \<Longrightarrow> rbind (container_descriptor c) parse_descriptor = Inr (removal_request t)"
  by (cases t) (use parse_described in \<open>auto simp: shown_at_def container_descriptor_def str_value_def\<close>)

lemma chosen: "shown_at c t \<Longrightarrow> rbind (container_choice c) parse_descriptor = Inr (removal_request t)"
  by (cases t) (use parse_chosen in \<open>auto simp: shown_at_def container_choice_def\<close>)

lemma described_all:
  "list_all2 shown_at cs ts \<Longrightarrow> rbind (mapR container_descriptor cs) (mapR parse_descriptor) = Inr (map removal_request ts)"
proof (induction rule: list_all2_induct)
  case (Cons c cs t ts)
  obtain d ds where "container_descriptor c = Inr d" "parse_descriptor d = Inr (removal_request t)"
    "mapR container_descriptor cs = Inr ds" "mapR parse_descriptor ds = Inr (map removal_request ts)"
    using described [OF Cons.hyps(1)] Cons.IH by (auto elim!: rbindE)
  then show ?case by simp
qed simp

lemma remove_first_trace:
  "\<exists>w'. remove_first_named n ks w = (Returned (), w') \<and> w_trace w' = w_trace w \<and> w_inventory w' = w_inventory w"
  by (induction ks arbitrary: w) (auto simp: returnM_def bindM_def hget_def remove_task_def delete_key_def)

lemma remove_by_name_trace:
  obtains w' where "remove_task_by_name n w = (Returned (), w')" "w_trace w' = w_trace w" "w_inventory w' = w_inventory w"
  using remove_first_trace [of n "filter task_pattern (keys_of (w_redis w))" w]
  by (auto simp: remove_task_by_name_def bindM_def redis_keys_def)

lemma remove_described_trace:
  assumes "mapR parse_descriptor ds = Inr cs"
  shows "\<exists>w'. remove_described E url ds a fs w = (Returned [], w') \<and>
     w_trace w' = w_trace w @ [Dispatched (Call ''remove_containers_from_app'' [JStr url, jobjs cs, JStr a, JObj fs])]"
  using assms by (simp add: remove_described_def run_later_def register_task_def hset_def run_simps)

text \<open>C21: stopping an application asks for the removal of exactly its containers, each by its own name, host and disk path.\<close>

theorem stop_app_removes_its_containers:
  assumes "env_fetch E (w_trace w @ [Fetched url]) = Inr (JArr items)"
    and "find_application_doc items a = Inr (Some d)" "app_container_docs items (Some d) = Inr cs"
    and "app_files_doc (Some d) = Inr fs" "list_all2 shown_at cs ts"
  shows "fst (processStopApp E url a w) = Returned [] \<and>
    w_trace (snd (processStopApp E url a w)) = w_trace w @
      [Fetched url, Dispatched (Call ''remove_containers_from_app'' [JStr url, jobjs (map removal_request ts), JStr a, JObj fs])]"
proof -
  let ?w = "w\<lparr>w_trace := w_trace w @ [Fetched url]\<rparr>"
  obtain ds where ds: "mapR container_descriptor cs = Inr ds" "mapR parse_descriptor ds = Inr (map removal_request ts)"
    using described_all [OF assms(5)] by (rule rbindE)
  obtain v where v: "remove_task_by_name (a @ ''_app_task'') ?w = (Returned (), v)" "w_trace v = w_trace ?w"
    by (rule remove_by_name_trace)
  obtain u where u: "remove_described E url ds a fs v = (Returned [], u)"
    "w_trace u = w_trace v @ [Dispatched (Call ''remove_containers_from_app'' [JStr url, jobjs (map removal_request ts), JStr a, JObj fs])]"
    using remove_described_trace [OF ds(2), of E url a fs v] by blast
  have "processStopApp E url a w = (Returned [], u)"
    using assms(1-4) ds(1) v(1) u(1)
    by (simp add: processStopApp_def getDataAndFilterByApp_def getDbData_def data_items_def add_error_def run_simps)
  then show ?thesis using u(2) v(2) by simp
qed

definition sample_app :: obj where
  "sample_app = [(''subtype'', JStr ''application''), (''name'', JStr ''app0''), (''containers'', JArr [JStr ''c0'']),
     (''runtime_files'', JStr ''base/app0/runtime''), (''output_dir'', JStr []), (''install_script'', JStr []),
     (''start_script'', JStr ''base/app0/start.sh''), (''stop_script'', JStr ''base/app0/stop.sh'')]"

definition sample_container :: obj where
  "sample_container = [(''subtype'', JStr ''container''), (''name'', JStr ''c0''), (''host'', JStr ''h0''),
     (''resources'', JObj [(''disk'', JObj [(''path'', JStr ''/ssd'')])])]"

definition listing_env :: env where
  "listing_env = sample_env\<lparr>env_fetch := (\<lambda>_. Inr (JArr [JObj sample_container, JObj sample_app]))\<rparr>"

theorem stop_app_removes_its_containers_witness:
  "fst (processStopApp listing_env ''http://db/structure/'' ''app0'' sample_world) = Returned [] \<and>
   w_trace (snd (processStopApp listing_env ''http://db/structure/'' ''app0'' sample_world)) = w_trace sample_world @
     [Fetched ''http://db/structure/'', Dispatched (Call ''remove_containers_from_app'' [JStr ''http://db/structure/'',
        jobjs (map removal_request [(''c0'', ''h0'', ''/ssd'')]), JStr ''app0'',
        JObj [(''runtime_files'', JStr ''runtime''), (''output_dir'', JStr []), (''install_script'', JStr []),
          (''start_script'', JStr ''start.sh''), (''stop_script'', JStr ''stop.sh''), (''app_dir'', JStr ''base/app0'')]])]"
proof (rule stop_app_removes_its_containers)
  show "env_fetch listing_env (w_trace sample_world @ [Fetched ''http://db/structure/'']) = Inr (JArr [JObj sample_container, JObj sample_app])"
    by (simp add: listing_env_def)
  show "find_application_doc [JObj sample_container, JObj sample_app] ''app0'' = Inr (Some sample_app)" by code_simp
  show "app_container_docs [JObj sample_container, JObj sample_app] (Some sample_app) = Inr [sample_container]" by code_simp
  show "app_files_doc (Some sample_app) = Inr [(''runtime_files'', JStr ''runtime''), (''output_dir'', JStr []),
      (''install_script'', JStr []), (''start_script'', JStr ''start.sh''), (''stop_script'', JStr ''stop.sh''),
      (''app_dir'', JStr ''base/app0'')]" by code_simp
  have "shown_at sample_container (''c0'', ''h0'', ''/ssd'')" by code_simp
  then show "list_all2 shown_at [sample_container] [(''c0'', ''h0'', ''/ssd'')]" by simp
qed

text \<open>The form of an application sends its choices as \<open>selected_structures\<close>, a name the handler does not read:
  nothing is removed, whatever was chosen.\<close>

lemma page_removes_nothing:
  assumes "\<not> has_key p ''containers_removed''" "post_item p ''app'' = Inr a" "posted_files p = Inr fs"
  shows "w_trace (snd (processRemoveContainersFromApp E p url w)) =
     w_trace w @ [Dispatched (Call ''remove_containers_from_app'' [JStr url, JArr [], JStr a, JObj fs])]"
  using assms
  by (simp add: processRemoveContainersFromApp_def remove_described_def run_later_def register_task_def hset_def run_simps
      post_list_def get_or_def has_key_def jobjs_def)

section \<open>Counting the containers of an application down\<close>

definition counter :: "world \<Rightarrow> string \<Rightarrow> string option" where
  "counter w a = map_of (get_or (w_redis w) (app_key a) []) ''active_containers''"

definition valid_exit :: "post \<Rightarrow> bool" where
  "valid_exit p \<longleftrightarrow>
     (case (jfloat (case post_get p ''runtime'' of Some r \<Rightarrow> JStr r | None \<Rightarrow> JNum 0),
            jint (case post_get p ''exit_code'' of Some c \<Rightarrow> JStr c | None \<Rightarrow> JNum (-1))) of
        (Inr r, Inr c) \<Rightarrow> 0 \<le> c | _ \<Rightarrow> False)"

definition same_but_tasks :: "world \<Rightarrow> world \<Rightarrow> bool" where
  "same_but_tasks w w' \<longleftrightarrow> w_trace w' = w_trace w \<and> w_inventory w' = w_inventory w \<and>
     (\<forall>a. get_or (w_redis w') (app_key a) [] = get_or (w_redis w) (app_key a) [])"

lemma task_key_no_app [simp]: "task_key i \<noteq> app_key a" "app_key a \<noteq> task_key i"
  by (metis app_key_no_task task_pattern_key)+

lemma exit_recorded:
  assumes "valid_exit p"
  obtains w' where "record_exit E p sender a w = (Returned (), w')" "same_but_tasks w w'"
proof -
  obtain r c where rc: "jfloat (case post_get p ''runtime'' of Some r \<Rightarrow> JStr r | None \<Rightarrow> JNum 0) = Inr r"
    "jint (case post_get p ''exit_code'' of Some c \<Rightarrow> JStr c | None \<Rightarrow> JNum (-1)) = Inr c" "0 \<le> c"
    using assms by (auto simp: valid_exit_def split: sum.splits)
  then obtain st rs where "exit_state c = Inr (st, rs)" by (cases "c = 0") (simp_all add: exit_state_def)
  with rc have "\<exists>w'. record_exit E p sender a w = (Returned (), w') \<and> same_but_tasks w w'"
    by (simp add: record_exit_def create_artificial_task_def store_result_def register_task_def update_task_runtime_def hset_def
        run_simps same_but_tasks_def)
  then show thesis using that by blast
qed

lemma counted_down:
  assumes "counter w a = Some (str_of_int n)" "1 < n"
  obtains w' where "count_down E a w = (Returned success, w')" "counter w' a = Some (str_of_int (n - 1))" "w_trace w' = w_trace w"
proof -
  have ne: "str_of_int n \<noteq> []" by (simp add: str_of_int_def)
  have "\<exists>w'. count_down E a w = (Returned success, w') \<and> counter w' a = Some (str_of_int (n - 1)) \<and> w_trace w' = w_trace w"
    using assms ne
    by (simp add: count_down_def get_app_counter_def hget_def create_app_counter_def hset_def counter_def int_str_def run_simps)
  then show thesis using that by blast
qed

lemma callback_counts:
  assumes "counter w a = Some (str_of_int n)" "1 < n" "valid_exit p"
  obtains w' where "api_stop_app E ''POST'' p sender a w = (Returned success, w')"
    "counter w' a = Some (str_of_int (n - 1))" "w_trace w' = w_trace w"
proof -
  obtain v where v: "record_exit E p sender a w = (Returned (), v)" "same_but_tasks w v" by (rule exit_recorded [OF assms(3)])
  then have "counter v a = Some (str_of_int n)" using assms(1) by (simp add: counter_def same_but_tasks_def)
  then obtain u where "count_down E a v = (Returned success, u)" "counter u a = Some (str_of_int (n - 1))" "w_trace u = w_trace v"
    by (rule counted_down [OF _ assms(2)])
  with v that show thesis by (simp add: api_stop_app_def thenM_def bindM_def same_but_tasks_def)
qed

lemma callbacks_count:
  assumes "counter w a = Some (str_of_int n)" "int (length cs) < n" "list_all valid_exit (map fst cs)"
  shows "\<exists>w'. foldM (\<lambda>(p, sender) _. api_stop_app E ''POST'' p sender a) cs success w = (Returned success, w') \<and>
    counter w' a = Some (str_of_int (n - int (length cs))) \<and> w_trace w' = w_trace w"
  using assms
proof (induction cs arbitrary: n w)
  case Nil
  then show ?case by (simp add: returnM_def)
next
  case (Cons c cs)
  obtain p sender where c: "c = (p, sender)" by (cases c)
  obtain v where v: "api_stop_app E ''POST'' p sender a w = (Returned success, v)" "counter v a = Some (str_of_int (n - 1))"
    "w_trace v = w_trace w"
    using Cons.prems c by (auto intro: callback_counts [of w a n p E sender])
  have "\<exists>u. foldM (\<lambda>(p, sender) _. api_stop_app E ''POST'' p sender a) cs success v = (Returned success, u) \<and>
    counter u a = Some (str_of_int (n - 1 - int (length cs))) \<and> w_trace u = w_trace v"
    by (rule Cons.IH [OF v(2)]) (use Cons.prems in auto)
  then obtain u where u: "foldM (\<lambda>(p, sender) _. api_stop_app E ''POST'' p sender a) cs success v = (Returned success, u)"
    "counter u a = Some (str_of_int (n - 1 - int (length cs)))" "w_trace u = w_trace v" by blast
  moreover have "n - 1 - int (length cs) = n - int (length (c # cs))" by simp
  ultimately show ?case using v c by (intro exI [of _ u]) (simp add: bindM_def)
qed

lemma last_callback:
  assumes "counter w a = Some (str_of_int 1)" "valid_exit p"
  obtains w' where "counter w' a = None" "w_trace w' = w_trace w"
    "api_stop_app E ''POST'' p sender a w =
       bindM (processStopApp E (env_base_url E @ ''/structure/'') a)
         (\<lambda>errors. returnM (if errors \<noteq> [] then refused (jstrs errors) else success)) w'"
proof -
  obtain v where v: "record_exit E p sender a w = (Returned (), v)" "same_but_tasks w v" by (rule exit_recorded [OF assms(2)])
  then have c: "counter v a = Some (str_of_int 1)" using assms(1) by (simp add: counter_def same_but_tasks_def)
  have ne: "str_of_int 1 \<noteq> []" by (simp add: str_of_int_def)
  let ?u = "v\<lparr>w_redis := pop_key (app_key a) (w_redis v)\<rparr>"
  have "count_down E a v = bindM (processStopApp E (env_base_url E @ ''/structure/'') a)
      (\<lambda>errors. returnM (if errors \<noteq> [] then refused (jstrs errors) else success)) ?u"
    using c ne int_of_str_of_int [of 1]
    by (simp add: count_down_def get_app_counter_def hget_def remove_app_counter_def delete_key_def counter_def int_str_def run_simps
        del: int_of_str_of_int)
  moreover have "counter ?u a = None" by (simp add: counter_def get_or_def)
  ultimately show thesis
    using that [of ?u] v by (simp add: api_stop_app_def thenM_def bindM_def [of "record_exit E p sender a"] same_but_tasks_def)
qed

text \<open>C22: of the calls the containers of an application make when they end, all but the last only count down; the
  last one, and no other, stops the application.\<close>

theorem last_container_stops_app:
  assumes "counter w a = Some (str_of_int (int (length cs) + 1))" "list_all valid_exit (p # map fst cs)"
  shows "\<exists>w'. counter w' a = None \<and> w_trace w' = w_trace w \<and>
    foldM (\<lambda>(p, sender) _. api_stop_app E ''POST'' p sender a) (cs @ [(p, sender)]) success w =
      bindM (processStopApp E (env_base_url E @ ''/structure/'') a)
        (\<lambda>errors. returnM (if errors \<noteq> [] then refused (jstrs errors) else success)) w'"
proof -
  let ?call = "\<lambda>(p, sender) _. api_stop_app E ''POST'' p sender a"
  obtain v where v: "foldM ?call cs success w = (Returned success, v)" "counter v a = Some (str_of_int 1)" "w_trace v = w_trace w"
    using callbacks_count [OF assms(1), where E = E and cs = cs] assms(2) by auto
  have split: "foldM ?call (cs @ [(p, sender)]) s u = bindM (foldM ?call cs s) (\<lambda>_. api_stop_app E ''POST'' p sender a) u" for s u
  proof (induction cs arbitrary: s u)
    case Nil
    then show ?case by (simp add: bindM_def returnM_def split: prod.splits outcome.splits)
  next
    case (Cons c cs)
    then show ?case by (simp add: bindM_def split: prod.splits outcome.splits)
  qed
  obtain w' where "counter w' a = None" "w_trace w' = w_trace v" "api_stop_app E ''POST'' p sender a v =
      bindM (processStopApp E (env_base_url E @ ''/structure/'') a)
        (\<lambda>errors. returnM (if errors \<noteq> [] then refused (jstrs errors) else success)) w'"
    using assms(2) by (auto intro: last_callback [OF v(2), where E = E and p = p and sender = sender])
  with v split [of success w] show ?thesis by (auto simp: bindM_def [of "foldM ?call cs success"])
qed

theorem last_container_stops_app_witness:
  "\<exists>w'. counter w' ''app0'' = None \<and> w_trace w' = w_trace (sample_world\<lparr>w_redis := [(''app:app0'', [(''active_containers'', ''2'')])]\<rparr>) \<and>
    foldM (\<lambda>(p, sender) _. api_stop_app listing_env ''POST'' p sender ''app0'')
        ([([(''exit_code'', [''0'']), (''runtime'', [''3.5''])], Some ''c0'')] @ [([(''exit_code'', [''1''])], Some ''c1'')])
        success (sample_world\<lparr>w_redis := [(''app:app0'', [(''active_containers'', ''2'')])]\<rparr>) =
      bindM (processStopApp listing_env (env_base_url listing_env @ ''/structure/'') ''app0'')
        (\<lambda>errors. returnM (if errors \<noteq> [] then refused (jstrs errors) else success)) w'"
proof (rule last_container_stops_app)
  have "str_of_int 2 = ''2''" by code_simp
  then show "counter (sample_world\<lparr>w_redis := [(''app:app0'', [(''active_containers'', ''2'')])]\<rparr>) ''app0'' =
      Some (str_of_int (int (length [([(''exit_code'', [''0'']), (''runtime'', [''3.5''])], Some ''c0'')]) + 1))"
    by (simp add: counter_def app_key_def get_or_def)
  have "valid_exit [(''exit_code'', [''0'']), (''runtime'', [''3.5''])]" "valid_exit [(''exit_code'', [''1''])]" by code_simp+
  then show "list_all valid_exit ([(''exit_code'', [''1''])] # map fst [([(''exit_code'', [''0'']), (''runtime'', [''3.5''])], Some ''c0'')])"
    by simp
qed

text \<open>A container that ends by a signal reports a negative code: the call raises and the counter stays.\<close>

lemma negative_exit_keeps_counter:
  "api_stop_app E ''POST'' [(''exit_code'', [''-9''])] sender a w = (Raised (AttributeError ''upper''), w)"
proof -
  have "jint (JStr ''-9'') = Inr (-9)" by code_simp
  then show ?thesis
    by (simp add: api_stop_app_def record_exit_def post_get_def post_item_def has_key_def jfloat_def exit_state_def run_simps)
qed

section \<open>The files of an application\<close>

lemma basename_path: "CHR ''/'' \<notin> set f \<Longrightarrow> basename (d @ CHR ''/'' # f) = f"
proof -
  assume "CHR ''/'' \<notin> set f"
  then have "takeWhile (\<lambda>x. x \<noteq> CHR ''/'') (rev f @ CHR ''/'' # rev d) = rev f"
    by (subst takeWhile_append2) auto
  then show ?thesis by (simp add: basename_def)
qed

lemma dirname_path:
  assumes "CHR ''/'' \<notin> set f" "d \<noteq> []" "last d \<noteq> CHR ''/''"
  shows "dirname (d @ CHR ''/'' # f) = d"
proof -
  have "dropWhile (\<lambda>x. x \<noteq> CHR ''/'') (rev f @ CHR ''/'' # rev d) = CHR ''/'' # rev d"
    using assms(1) by (subst dropWhile_append2) auto
  moreover have "dropWhile (\<lambda>x. x = CHR ''/'') (CHR ''/'' # rev d) = rev d"
    using assms(2,3) by (simp add: dropWhile_eq_self_iff hd_rev)
  moreover have "dropWhile (\<lambda>x. x = CHR ''/'') (rev d) = rev d" using assms(2,3) by (simp add: dropWhile_eq_self_iff hd_rev)
  ultimately show ?thesis using assms(2,3) by (auto simp: dirname_def Let_def dest!: last_in_set)
qed

text \<open>The document an application is added with gives back the files it was added with.\<close>

lemma added_files_recovered:
  assumes "get_or fs ''app_dir'' [] = d" "d \<noteq> []" "last d \<noteq> CHR ''/''" "get_or fs ''start_script'' [] \<noteq> []"
    and "\<And>k. k \<in> set file_keys \<Longrightarrow> CHR ''/'' \<notin> set (get_or fs k [])"
  shows "app_files_doc (Some (app_doc app_name fs rs)) =
    Inr (map (\<lambda>k. (k, JStr (get_or fs k []))) file_keys @ [(''app_dir'', JStr d)])"
proof -
  let ?a = "Some (app_doc app_name fs rs)"
  have i: "app_item ?a k = Inr (in_app_dir fs k)" if "k \<in> set file_keys" for k
    using that by (auto simp: file_keys_def app_item_def app_doc_def item_def)
  have "rbind (rbind (app_item ?a k) jstr) (\<lambda>p. Inr (k, JStr (basename p))) = Inr (k, JStr (get_or fs k []))"
    if "k \<in> set file_keys" for k
    using assms(5) [OF that] basename_path [of "get_or fs k []" d] i [OF that]
    by (cases "get_or fs k []") (simp_all add: in_app_dir_def jstr_def assms(1) basename_def)
  then have "mapR (\<lambda>k. rbind (rbind (app_item ?a k) jstr) (\<lambda>p. Inr (k, JStr (basename p)))) file_keys =
      Inr (map (\<lambda>k. (k, JStr (get_or fs k []))) file_keys)"
    by (rule mapR_total)
  moreover have "dirname (d @ CHR ''/'' # get_or fs ''start_script'' []) = d"
    using assms by (intro dirname_path) (simp_all add: file_keys_def)
  moreover have "app_item ?a ''start_script'' = Inr (in_app_dir fs ''start_script'')" by (rule i) (simp add: file_keys_def)
  ultimately show ?thesis using assms(1,4) by (simp add: app_files_doc_def in_app_dir_def jstr_def Let_def)
qed

end
