(* ===== verification/JsonText.thy ===== *)
theory JsonText
  imports Json
begin

text \<open>
  \<open>json.loads\<close> on a text of bytes, a function of Python's standard library, for the list of containers of each host
  that a form sends (\<open>ui/views/containers/operations.py\<close>, line 41).
\<close>

text \<open>A value and the rest of the text; \<open>None\<close> is a decoding error.  A call consumes a character before it calls
  itself on the rest, so the length of the text is enough fuel.\<close>

definition skip_space :: "string \<Rightarrow> string" where
  "skip_space = dropWhile (\<lambda>c. c = CHR '' '' \<or> of_char c \<in> {9, 10, 13 :: nat})"

definition escaped :: "char \<Rightarrow> char option" where
  "escaped c =
     (if c = double_quote \<or> c = CHR ''/'' \<or> of_char c = (92 :: nat) then Some c
      else map_of [(CHR ''b'', CHR 8), (CHR ''f'', CHR 12), (CHR ''n'', CHR 10), (CHR ''r'', CHR 13), (CHR ''t'', CHR 9)] c)"

definition hex_code :: "string \<Rightarrow> nat option" where
  "hex_code s =
     foldl (\<lambda>a c. case a of None \<Rightarrow> None | Some n \<Rightarrow>
        if is_digit c then Some (16 * n + digit_val c)
        else if CHR ''a'' \<le> c \<and> c \<le> CHR ''f'' then Some (16 * n + (of_char c - 87))
        else if CHR ''A'' \<le> c \<and> c \<le> CHR ''F'' then Some (16 * n + (of_char c - 55)) else None) (Some 0) s"

fun load_string :: "nat \<Rightarrow> string \<Rightarrow> (string \<times> string) option" where
  "load_string 0 s = None"
| "load_string (Suc k) [] = None"
| "load_string (Suc k) (c # s) =
     (if c = double_quote then Some ([], s)
      else if of_char c = (92 :: nat)
      then (case s of [] \<Rightarrow> None
            | d # s' \<Rightarrow>
              if d = CHR ''u''
              then (case hex_code (take 4 s') of
                      Some n \<Rightarrow> if length s' < 4 \<or> 256 \<le> n then None
                                else map_option (\<lambda>(t, r). (char_of n # t, r)) (load_string k (drop 4 s'))
                    | None \<Rightarrow> None)
              else (case escaped d of None \<Rightarrow> None | Some e \<Rightarrow> map_option (\<lambda>(t, r). (e # t, r)) (load_string k s')))
      else if of_char c < (32 :: nat) then None
      else map_option (\<lambda>(t, r). (c # t, r)) (load_string k s))"

definition digits_of :: "string \<Rightarrow> string \<times> string" where
  "digits_of s = (takeWhile is_digit s, dropWhile is_digit s)"

text \<open>\<open>(-?(?:0|[1-9]\d*))(\.\d+)?([eE][-+]?\d+)?\<close>\<close>

definition integer_part :: "string \<Rightarrow> (string \<times> string) option" where
  "integer_part s =
     (let (sign, rest) = (case s of c # t \<Rightarrow> if c = CHR ''-'' then ([c], t) else ([], s) | [] \<Rightarrow> ([], s)); (ds, r) = digits_of rest
      in if ds = [] then None
         else if hd ds = CHR ''0'' then Some (sign @ ''0'', tl rest) else Some (sign @ ds, r))"

definition fraction_part :: "string \<Rightarrow> string \<times> string" where
  "fraction_part s =
     (case s of c # t \<Rightarrow> (if c = CHR ''.'' \<and> fst (digits_of t) \<noteq> [] then (c # fst (digits_of t), snd (digits_of t)) else ([], s))
      | [] \<Rightarrow> ([], s))"

definition exponent_part :: "string \<Rightarrow> string \<times> string" where
  "exponent_part s =
     (case s of
        e # t \<Rightarrow>
          (let (sign, u) = (case t of c # u \<Rightarrow> if c \<in> set ''+-'' then ([c], u) else ([], t) | [] \<Rightarrow> ([], t)); (ds, r) = digits_of u
           in if e \<in> set ''eE'' \<and> ds \<noteq> [] then (e # sign @ ds, r) else ([], s))
      | [] \<Rightarrow> ([], s))"

definition load_number :: "string \<Rightarrow> (json \<times> string) option" where
  "load_number s =
     (case integer_part s of None \<Rightarrow> None
      | Some (i, r1) \<Rightarrow>
        (let (f, r2) = fraction_part r1; (e, r3) = exponent_part r2
         in case float_of_str (i @ f @ e) of Some x \<Rightarrow> Some (JNum x, r3) | None \<Rightarrow> None))"

definition load_word :: "string \<Rightarrow> json \<Rightarrow> string \<Rightarrow> (json \<times> string) option" where
  "load_word word v s = (if starts_with word s then Some (v, drop (length word) s) else None)"

fun load_value :: "nat \<Rightarrow> string \<Rightarrow> (json \<times> string) option"
and load_members :: "nat \<Rightarrow> obj \<Rightarrow> string \<Rightarrow> (json \<times> string) option"
and load_elements :: "nat \<Rightarrow> json list \<Rightarrow> string \<Rightarrow> (json \<times> string) option" where
  "load_value 0 s = None"
| "load_value (Suc k) s =
     (case s of [] \<Rightarrow> None
      | c # t \<Rightarrow>
        if c = double_quote then map_option (\<lambda>(x, r). (JStr x, r)) (load_string (Suc (length t)) t)
        else if c = CHR ''{''
        then (case skip_space t of d # r \<Rightarrow> if d = CHR ''}'' then Some (JObj [], r) else load_members k [] (d # r) | [] \<Rightarrow> None)
        else if c = CHR ''[''
        then (case skip_space t of d # r \<Rightarrow> if d = CHR '']'' then Some (JArr [], r) else load_elements k [] (d # r) | [] \<Rightarrow> None)
        else if c = CHR ''t'' then load_word ''true'' (JBool True) s
        else if c = CHR ''f'' then load_word ''false'' (JBool False) s
        else if c = CHR ''n'' then load_word ''null'' JNull s
        else load_number s)"
| "load_members 0 d s = None"
| "load_members (Suc k) d s =
     (case s of [] \<Rightarrow> None
      | q # s1 \<Rightarrow>
        if q \<noteq> double_quote then None
        else (case load_string (Suc (length s1)) s1 of None \<Rightarrow> None
          | Some (key, r) \<Rightarrow>
            (case skip_space r of [] \<Rightarrow> None
             | c # r1 \<Rightarrow>
               if c \<noteq> CHR '':'' then None
               else (case load_value k (skip_space r1) of None \<Rightarrow> None
                 | Some (v, r2) \<Rightarrow>
                   (let d' = AList.update key v d
                    in case skip_space r2 of [] \<Rightarrow> None
                       | e # r3 \<Rightarrow>
                         if e = CHR ''}'' then Some (JObj d', r3)
                         else if e = CHR '','' then load_members k d' (skip_space r3) else None)))))"
| "load_elements 0 vs s = None"
| "load_elements (Suc k) vs s =
     (case load_value k s of None \<Rightarrow> None
      | Some (v, r) \<Rightarrow>
        (case skip_space r of [] \<Rightarrow> None
         | e # r1 \<Rightarrow>
           if e = CHR '']'' then Some (JArr (vs @ [v]), r1)
           else if e = CHR '','' then load_elements k (vs @ [v]) (skip_space r1) else None))"

definition json_loads :: "string \<Rightarrow> json result" where
  "json_loads s =
     (case load_value (Suc (length s)) (skip_space s) of
        Some (v, r) \<Rightarrow> if skip_space r = [] then Inr v else Inl (ValueError ''Extra data'')
      | None \<Rightarrow> Inl (ValueError ''JSON''))"

section \<open>The fuel is enough\<close>

lemma skip_space_length: "length (skip_space s) \<le> length s"
  by (simp add: skip_space_def length_dropWhile_le)

lemma skip_space_Cons: "skip_space s = c # t \<Longrightarrow> length t < length s"
  using skip_space_length [of s] by simp

lemma load_string_shorter: "load_string k s = Some (x, r) \<Longrightarrow> length r < length s"
proof (induction k arbitrary: s x r)
  case (Suc k)
  show ?case
  proof (cases s)
    case (Cons c t)
    have sub: "load_string k t' = Some (y, r) \<Longrightarrow> length t' \<le> length t \<Longrightarrow> length r < length s" for t' y
      using Suc.IH [of t' y r] Cons by simp
    consider "c = double_quote" | "c \<noteq> double_quote" "of_char c = (92 :: nat)" | "c \<noteq> double_quote" "of_char c \<noteq> (92 :: nat)" by blast
    then show ?thesis
    proof cases
      case 2
      then obtain d t' where t: "t = d # t'" using Suc.prems Cons by (cases t) auto
      show ?thesis
      proof (cases "d = CHR ''u''")
        case True
        with 2 Suc.prems Cons t obtain y where "load_string k (drop 4 t') = Some (y, r)"
          by (auto split: option.splits if_splits)
        then show ?thesis by (rule sub) (simp add: t)
      next
        case False
        with 2 Suc.prems Cons t obtain y where "load_string k t' = Some (y, r)" by (auto split: option.splits)
        then show ?thesis by (rule sub) (simp add: t)
      qed
    next
      case 3
      with Suc.prems Cons obtain y where "load_string k t = Some (y, r)" by (auto split: if_splits)
      then show ?thesis by (rule sub) simp
    qed (use Suc.prems Cons in simp)
  qed (use Suc.prems in simp)
qed simp

lemma integer_part_shorter: "integer_part s = Some (i, r) \<Longrightarrow> length r < length s"
proof -
  have drop: "length (dropWhile is_digit t) < length t" if "takeWhile is_digit t \<noteq> []" for t
    using that by (cases t) (auto simp: length_dropWhile_le less_Suc_eq_le split: if_splits)
  assume i: "integer_part s = Some (i, r)"
  obtain sign rest where sr: "(case s of c # t \<Rightarrow> if c = CHR ''-'' then ([c], t) else ([], s) | [] \<Rightarrow> ([], s)) = (sign, rest)"
    by fastforce
  then have rest: "length rest \<le> length s" by (auto split: list.splits if_splits)
  from i sr have "takeWhile is_digit rest \<noteq> []" "r = tl rest \<or> r = dropWhile is_digit rest"
    by (auto simp: integer_part_def digits_of_def split: if_splits)
  with rest drop [of rest] show ?thesis by (cases rest) auto
qed

lemma load_number_shorter: "load_number s = Some (v, r) \<Longrightarrow> length r < length s"
proof -
  have d: "length (snd (digits_of t)) \<le> length t" for t by (simp add: digits_of_def length_dropWhile_le)
  have f: "length (snd (fraction_part t)) \<le> length t" for t
    using d by (auto simp: fraction_part_def le_SucI split: list.splits)
  have e: "length (snd (exponent_part t)) \<le> length t" for t
    by (auto simp: exponent_part_def digits_of_def Let_def split: list.splits)
      (meson le_SucI length_dropWhile_le)+
  assume "load_number s = Some (v, r)"
  then obtain i r1 where "integer_part s = Some (i, r1)" "r = snd (exponent_part (snd (fraction_part r1)))"
    by (auto simp: load_number_def Let_def case_prod_unfold split: option.splits)
  with integer_part_shorter [of s i r1] f [of r1] e [of "snd (fraction_part r1)"] show ?thesis by simp
qed

text \<open>A call that answers at all does so with any fuel greater than what it reads.\<close>

definition fuel_enough :: "(nat \<Rightarrow> (json \<times> string) option) \<Rightarrow> string \<Rightarrow> json \<times> string \<Rightarrow> bool" where
  "fuel_enough f s a \<longleftrightarrow>
     length (snd a) < length s \<and> (\<forall>k. length s - length (snd a) < k \<longrightarrow> f k = Some a)"

lemma fuel_enoughI:
  assumes "length (snd a) < length s" "\<And>j. length s - length (snd a) \<le> j \<Longrightarrow> f (Suc j) = Some a"
  shows "fuel_enough f s a"
  unfolding fuel_enough_def
proof (intro conjI allI impI)
  fix k assume "length s - length (snd a) < k"
  then obtain j where "k = Suc j" "length s - length (snd a) \<le> j" by (cases k) auto
  with assms(2) show "f k = Some a" by simp
qed (rule assms(1))

lemma fuel_enoughD: "fuel_enough f s a \<Longrightarrow> length s - length (snd a) < k \<Longrightarrow> f k = Some a"
  by (simp add: fuel_enough_def)

definition fuel_ok :: "nat \<Rightarrow> bool" where
  "fuel_ok k \<longleftrightarrow>
     (\<forall>s a. load_value k s = Some a \<longrightarrow> fuel_enough (\<lambda>k. load_value k s) s a) \<and>
     (\<forall>d s a. load_members k d s = Some a \<longrightarrow> fuel_enough (\<lambda>k. load_members k d s) s a) \<and>
     (\<forall>vs s a. load_elements k vs s = Some a \<longrightarrow> fuel_enough (\<lambda>k. load_elements k vs s) s a)"

lemma fuel_okD:
  "fuel_ok k \<Longrightarrow> load_value k s = Some a \<Longrightarrow> fuel_enough (\<lambda>k. load_value k s) s a"
  "fuel_ok k \<Longrightarrow> load_members k d s = Some a \<Longrightarrow> fuel_enough (\<lambda>k. load_members k d s) s a"
  "fuel_ok k \<Longrightarrow> load_elements k vs s = Some a \<Longrightarrow> fuel_enough (\<lambda>k. load_elements k vs s) s a"
  unfolding fuel_ok_def by blast+

lemma fuel_enough_shorter: "fuel_enough f s a \<Longrightarrow> length (snd a) < length s"
  by (simp add: fuel_enough_def)

lemma elements_step:
  assumes ok: "fuel_ok k" and el: "load_elements (Suc k) vs s = Some a"
  shows "fuel_enough (\<lambda>k. load_elements k vs s) s a"
proof -
  from el obtain v r e r1 where v: "load_value k s = Some (v, r)" "skip_space r = e # r1"
    by (auto split: option.splits list.splits)
  note V = fuel_okD(1) [OF ok v(1)]
  have lt: "length r < length s" "length r1 < length r"
    using fuel_enough_shorter [OF V] skip_space_Cons [OF v(2)] by simp_all
  show ?thesis
  proof (cases "e = CHR '']''")
    case True
    with el v have a: "a = (JArr (vs @ [v]), r1)" by simp
    show ?thesis
    proof (rule fuel_enoughI)
      fix j assume "length s - length (snd a) \<le> j"
      then have "load_value j s = Some (v, r)" using lt a by (intro fuel_enoughD [OF V]) simp
      with v True a show "load_elements (Suc j) vs s = Some a" by simp
    qed (use a lt in simp)
  next
    case False
    with el v have e: "e = CHR '',''" and rest: "load_elements k (vs @ [v]) (skip_space r1) = Some a"
      by (auto split: if_splits)
    note R = fuel_okD(3) [OF ok rest]
    note ar = fuel_enough_shorter [OF R] and sk = skip_space_length [of r1]
    show ?thesis
    proof (rule fuel_enoughI)
      fix j assume j: "length s - length (snd a) \<le> j"
      have "load_value j s = Some (v, r)" using lt ar sk j by (intro fuel_enoughD [OF V]) simp
      moreover have "load_elements j (vs @ [v]) (skip_space r1) = Some a" using lt ar sk j by (intro fuel_enoughD [OF R]) simp
      ultimately show "load_elements (Suc j) vs s = Some a" using v e by simp
    qed (use ar sk lt in simp)
  qed
qed

lemma members_step:
  assumes ok: "fuel_ok k" and el: "load_members (Suc k) d s = Some a"
  shows "fuel_enough (\<lambda>k. load_members k d s) s a"
proof -
  from el obtain s1 key r0 r1 v r e r3 where
    m: "s = double_quote # s1" "load_string (Suc (length s1)) s1 = Some (key, r0)" "skip_space r0 = CHR '':'' # r1"
       "load_value k (skip_space r1) = Some (v, r)" "skip_space r = e # r3"
    by (auto simp: Let_def split: option.splits list.splits if_splits)
  note V = fuel_okD(1) [OF ok m(4)]
  have lt: "length r0 < length s1" "length r1 < length r0" "length r < length (skip_space r1)" "length r3 < length r"
    using load_string_shorter [OF m(2)] fuel_enough_shorter [OF V] skip_space_Cons [OF m(3)] skip_space_Cons [OF m(5)] by simp_all
  note sk1 = skip_space_length [of r1]
  show ?thesis
  proof (cases "e = CHR ''}''")
    case True
    with el m have a: "a = (JObj (AList.update key v d), r3)" by simp
    show ?thesis
    proof (rule fuel_enoughI)
      fix j assume "length s - length (snd a) \<le> j"
      then have "load_value j (skip_space r1) = Some (v, r)" using lt a m(1) sk1 by (intro fuel_enoughD [OF V]) simp
      with m True a show "load_members (Suc j) d s = Some a" by simp
    qed (use a lt m(1) sk1 in simp)
  next
    case False
    with el m have e: "e = CHR '',''" and rest: "load_members k (AList.update key v d) (skip_space r3) = Some a"
      by (auto split: if_splits)
    note R = fuel_okD(2) [OF ok rest]
    note ar = fuel_enough_shorter [OF R] and sk = skip_space_length [of r3]
    show ?thesis
    proof (rule fuel_enoughI)
      fix j assume j: "length s - length (snd a) \<le> j"
      have "load_value j (skip_space r1) = Some (v, r)" using lt ar sk sk1 j m(1) by (intro fuel_enoughD [OF V]) simp
      moreover have "load_members j (AList.update key v d) (skip_space r3) = Some a"
        using lt ar sk sk1 j m(1) by (intro fuel_enoughD [OF R]) simp
      ultimately show "load_members (Suc j) d s = Some a" using m e by simp
    qed (use ar sk sk1 lt m(1) in simp)
  qed
qed

lemma value_step:
  assumes ok: "fuel_ok k" and el: "load_value (Suc k) s = Some a"
  shows "fuel_enough (\<lambda>k. load_value k s) s a"
proof -
  obtain c t where s: "s = c # t" using el by (cases s) auto
  consider
      (brace) d r where "c = CHR ''{''" "skip_space t = d # r" "d \<noteq> CHR ''}''" "load_members k [] (d # r) = Some a"
    | (bracket) d r where "c = CHR ''[''" "skip_space t = d # r" "d \<noteq> CHR '']''" "load_elements k [] (d # r) = Some a"
    | (flat) "\<And>j. load_value (Suc j) s = load_value (Suc k) s" "length (snd a) < length s"
  proof -
    assume *: "\<And>d r. c = CHR ''{'' \<Longrightarrow> skip_space t = d # r \<Longrightarrow> d \<noteq> CHR ''}'' \<Longrightarrow> load_members k [] (d # r) = Some a \<Longrightarrow> thesis"
      "\<And>d r. c = CHR ''['' \<Longrightarrow> skip_space t = d # r \<Longrightarrow> d \<noteq> CHR '']'' \<Longrightarrow> load_elements k [] (d # r) = Some a \<Longrightarrow> thesis"
      "(\<And>j. load_value (Suc j) s = load_value (Suc k) s) \<Longrightarrow> length (snd a) < length s \<Longrightarrow> thesis"
    have number: "load_number s = Some a \<Longrightarrow> length (snd a) < length s" using load_number_shorter [of s "fst a" "snd a"] by simp
    have string: "load_string (Suc (length t)) t = Some (x, r) \<Longrightarrow> length r \<le> length t" for x r
      using load_string_shorter [of "Suc (length t)" t x r] by simp
    have word: "load_word w v s = Some a \<Longrightarrow> w \<noteq> [] \<Longrightarrow> length (snd a) < length s" for w v
      by (cases w) (auto simp: load_word_def s split: if_splits)
    have empty: "skip_space t = d # r \<Longrightarrow> length r \<le> length t" for d r using skip_space_Cons [of t d r] by simp
    consider "c = double_quote" | "c = CHR ''{''" | "c = CHR ''[''" | "c \<noteq> double_quote" "c \<noteq> CHR ''{''" "c \<noteq> CHR ''[''" by blast
    then show thesis
    proof cases
      case 1
      with el * string show ?thesis by (auto simp: s less_Suc_eq_le)
    next
      case 2
      with el * empty show ?thesis by (auto simp: s double_quote_def less_Suc_eq_le split: list.splits if_splits)
    next
      case 3
      with el * empty show ?thesis by (auto simp: s double_quote_def less_Suc_eq_le split: list.splits if_splits)
    next
      case 4
      with el *(3) number word show ?thesis by (auto simp: s split: if_splits)
    qed
  qed
  then show ?thesis
  proof cases
    case (brace d r)
    note R = fuel_okD(2) [OF ok brace(4)]
    note sk = skip_space_length [of t]
    show ?thesis
    proof (rule fuel_enoughI)
      fix j assume "length s - length (snd a) \<le> j"
      then have "load_members j [] (d # r) = Some a"
        using sk brace(2) fuel_enough_shorter [OF R] by (intro fuel_enoughD [OF R]) (simp add: s)
      with brace show "load_value (Suc j) s = Some a" by (simp add: s double_quote_def)
    qed (use fuel_enough_shorter [OF R] sk brace(2) in \<open>simp add: s\<close>)
  next
    case (bracket d r)
    note R = fuel_okD(3) [OF ok bracket(4)]
    note sk = skip_space_length [of t]
    show ?thesis
    proof (rule fuel_enoughI)
      fix j assume "length s - length (snd a) \<le> j"
      then have "load_elements j [] (d # r) = Some a"
        using sk bracket(2) fuel_enough_shorter [OF R] by (intro fuel_enoughD [OF R]) (simp add: s)
      with bracket show "load_value (Suc j) s = Some a" by (simp add: s double_quote_def)
    qed (use fuel_enough_shorter [OF R] sk bracket(2) in \<open>simp add: s\<close>)
  next
    case flat
    with el show ?thesis by (intro fuel_enoughI) simp_all
  qed
qed

lemma fuel_ok_all: "fuel_ok k"
proof (induction k)
  case (Suc k)
  then show ?case using value_step members_step elements_step unfolding fuel_ok_def by blast
qed (simp add: fuel_ok_def)

text \<open>the fuel of the parser is never what makes it fail: a text that is read with some fuel is read, with the
  same answer, with the fuel it is given, its length plus one.\<close>

theorem json_loads_complete:
  assumes "load_value k (skip_space s) = Some (v, r)" "skip_space r = []"
  shows "json_loads s = Inr v"
proof -
  note R = fuel_okD(1) [OF fuel_ok_all assms(1)]
  have "load_value (Suc (length s)) (skip_space s) = Some (v, r)"
    using skip_space_length [of s] by (intro fuel_enoughD [OF R]) simp
  with assms(2) show ?thesis by (simp add: json_loads_def)
qed

lemma sample_json: "load_value 99 (skip_space '' [[],[1]] '') = Some (JArr [JArr [], JArr [JNum 1]], '' '')"
  by code_simp

theorem json_loads_complete_witness:
  "json_loads '' [[],[1]] '' = Inr (JArr [JArr [], JArr [JNum 1]])"
  by (rule json_loads_complete [OF sample_json]) code_simp

end
