(* ===== verification/HostViews.thy ===== *)
theory HostViews
  imports AppViews JsonText "HOL-Library.Sublist"
begin

text \<open>
  The operations of the pages of hosts, containers and users: \<open>ui/views/hosts\<close>, \<open>ui/views/containers\<close> and
  \<open>ui/views/users\<close>.  \<open>eval\<close> on a field of a form is the argument \<open>evaluate\<close>.
\<close>

section \<open>Documents\<close>

definition host_docs :: "json list \<Rightarrow> obj list result" where
  "host_docs items = rbind (rbind (filterR (has_subtype ''host'') items) (mapR jobj)) (\<lambda>hs. Inr (sort_docs hs))"

definition fetch_items :: "env \<Rightarrow> string \<Rightarrow> json list m" where
  "fetch_items E url = bindM (fetch E url) (\<lambda>v. liftR (data_items v))"

definition db_items :: "env \<Rightarrow> string \<Rightarrow> json list m" where
  "db_items E url = bindM (getDbData E url) (\<lambda>v. liftR (data_items v))"

definition structures_url :: "env \<Rightarrow> string" where
  "structures_url E = env_base_url E @ ''/structure/''"

definition getContainersFromHost :: "env \<Rightarrow> string \<Rightarrow> string \<Rightarrow> json list m" where
  "getContainersFromHost E url host_name =
     bindM (db_items E url) (\<lambda>items.
     liftR (filterR (\<lambda>x. andR (has_subtype ''container'' x) (rbind (jitem x ''host'') (\<lambda>h. Inr (h = JStr host_name)))) items))"

text \<open>The containers as their page shows them; \<open>include_forms\<close> adds the data of their forms.\<close>

definition container_shown :: "env \<Rightarrow> bool \<Rightarrow> obj \<Rightarrow> obj m" where
  "container_shown E include_forms x =
     bindM (with_limits E x) (\<lambda>x. liftR (rbind (if include_forms then with_forms x else Inr x) with_labels))"

definition getContainers :: "env \<Rightarrow> bool \<Rightarrow> json list \<Rightarrow> obj list m" where
  "getContainers E include_forms items =
     bindM (liftR (rbind (filterR (has_subtype ''container'') items) (mapR jobj))) (\<lambda>docs.
     bindM (foldM (\<lambda>x acc. bindM (container_shown E include_forms x) (\<lambda>x'. returnM (acc @ [x']))) docs []) (\<lambda>cs.
     returnM (sort_docs cs)))"

definition initial_host_list :: "obj list \<Rightarrow> obj" where
  "initial_host_list hosts = map (\<lambda>h. (name_of_doc h, JNum 0)) hosts"

section \<open>Containers\<close>

definition posted_pair :: "post \<Rightarrow> string \<Rightarrow> obj" where
  "posted_pair p res =
     (if has_key p (res @ ''_max'') \<and> has_key p (res @ ''_min'')
      then if sent p (res @ ''_max'') = [] \<or> sent p (res @ ''_min'') = []
           then [(res @ ''_max'', JNum 0), (res @ ''_min'', JNum 0)]
           else [(res @ ''_max'', JStr (sent p (res @ ''_max''))), (res @ ''_min'', JStr (sent p (res @ ''_min'')))]
      else [])"

definition posted_container_resource :: "post \<Rightarrow> string \<Rightarrow> obj result" where
  "posted_container_resource p res =
     (let limits = posted_pair p res;
          weight = (if has_key p (res @ ''_weight'')
             then [(res @ ''_weight'', if given p (res @ ''_weight'') then JStr (sent p (res @ ''_weight'')) else default_weight)] else [])
      in if \<not> has_key p (res @ ''_boundary'') then Inr (limits @ weight)
         else if given p (res @ ''_boundary'')
         then rbind (post_item p (res @ ''_boundary_type'')) (\<lambda>t.
              Inr (limits @ weight @ [(res @ ''_boundary'', JStr (sent p (res @ ''_boundary''))), (res @ ''_boundary_type'', JStr t)]))
         else Inr (limits @ weight @ [(res @ ''_boundary'', default_boundary), (res @ ''_boundary_type'', default_boundary_type)]))"

definition posted_container_resources :: "post \<Rightarrow> obj result" where
  "posted_container_resources p = rbind (mapR (posted_container_resource p) supported_resources) (\<lambda>ds. Inr (concat ds))"

text \<open>What the containers of a host need at least, bandwidth apart.\<close>

definition minimum_keys :: "obj \<Rightarrow> string list" where
  "minimum_keys res = filter (\<lambda>k. contains ''min'' k \<and> k \<notin> {''disk_read_min'', ''disk_write_min''}) (keys_of res)"

definition requested_resources :: "obj \<Rightarrow> rat \<Rightarrow> spec result" where
  "requested_resources res n =
     mapR (\<lambda>k. rbind (item res k) (\<lambda>v. rbind (jint v) (\<lambda>x. Inr (k, Num (of_int x * n))))) (minimum_keys res)"

definition requested_bw :: "obj \<Rightarrow> rat \<Rightarrow> string \<Rightarrow> rat result" where
  "requested_bw res n k = rbind (item res k) (\<lambda>v. rbind (jint v) (\<lambda>x. Inr (of_int x * n)))"

definition no_resources_text :: "json \<Rightarrow> string \<Rightarrow> string" where
  "no_resources_text n hostname =
     ''No resources available for '' @ str_value n @ '' containers in host '' @ hostname"

definition no_disk_text :: "string \<Rightarrow> rat \<Rightarrow> rat \<Rightarrow> string" where
  "no_disk_text hostname r w =
     ''Error host '' @ hostname @ '' does not have a disk with enough bandwidth (requested read: '' @ show_number r @
       '', write: '' @ show_number w @ '')''"

text \<open>One host: the error, or its number of containers and its disk.\<close>

definition plan_host :: "obj \<Rightarrow> obj \<Rightarrow> host \<Rightarrow> (string + (json \<times> obj)) result" where
  "plan_host host_list res h =
     (let wanted = get_or host_list (h_name h) (JNum 0)
      in rbind (jnum wanted) (\<lambda>n. rbind (requested_resources res n) (\<lambda>req.
         rbind (if n > 0 then checkAvailableResources h req (map (\<lambda>k. take (length k - 4) k) (keys_of req)) ''min'' else Inr True)
           (\<lambda>available.
         if \<not> available then Inr (Inl (no_resources_text wanted (h_name h)))
         else rbind (requested_bw res n ''disk_read_min'') (\<lambda>r. rbind (requested_bw res n ''disk_write_min'') (\<lambda>w.
              case getFreestDisk h r w of
                None \<Rightarrow> Inr (Inl (no_disk_text (h_name h) r w))
              | Some disk \<Rightarrow>
                  (case h_disks h of
                     Some ds \<Rightarrow> rbind (item ds disk) (\<lambda>d. Inr (Inr (wanted, [(''name'', JStr disk), (''path'', JStr (d_path d))])))
                   | None \<Rightarrow> Inl (KeyError ''disks''))))))))"

fun plan_hosts :: "obj \<Rightarrow> obj \<Rightarrow> host list \<Rightarrow> (string + (obj \<times> obj dict)) result" where
  "plan_hosts host_list res [] = Inr (Inr ([], []))"
| "plan_hosts host_list res (h # hs) =
     rbind (plan_host host_list res h) (\<lambda>r. case r of
       Inl err \<Rightarrow> Inr (Inl err)
     | Inr (n, disk) \<Rightarrow> rbind (plan_hosts host_list res hs) (\<lambda>rest. case rest of
           Inl err \<Rightarrow> Inr (Inl err)
         | Inr (new, disks) \<Rightarrow> Inr (Inr ((h_name h, n) # new, (h_name h, disk) # disks))))"

definition requote :: "string \<Rightarrow> string" where    \<comment> \<open>\<open>s.replace("'", '"')\<close>\<close>
  "requote = map (\<lambda>c. if c = quote then double_quote else c)"

definition processAddContainers :: "env \<Rightarrow> operation" where
  "processAddContainers E p url args =
     bindM (liftR (case oa_host_list args of Some s \<Rightarrow> rbind (json_loads (requote s)) jobj | None \<Rightarrow> Inl (AttributeError ''replace'')))
       (\<lambda>host_list.
     bindM (liftR (posted_container_resources p)) (\<lambda>res.
     bindM (fetch E (structures_url E)) (\<lambda>data.
     bindM (liftR (rbind (hosts_of_data data) (plan_hosts host_list res))) (\<lambda>r. case r of
       Inl err \<Rightarrow> returnM (Some err)
     | Inr (new_containers, disks) \<Rightarrow>
         thenM (run_later E ''start_containers_task'' (Call ''start_containers_task_v2'' [JObj new_containers, JObj res, nested disks]))
           (returnM (Some []))))))"

text \<open>The containers of the database a request names; a name no container has is skipped.\<close>

definition parse_pair :: "string \<Rightarrow> (string \<times> string) result" where
  "parse_pair s =
     (let ws = split_on CHR '','' (strip_when (\<lambda>c. c = CHR '')'') (strip_when (\<lambda>c. c = CHR ''('') s))
      in rbind (descriptor_part ws 0) (\<lambda>n. rbind (descriptor_part ws 1) (\<lambda>h. Inr (n, h))))"

fun find_container :: "string \<times> string \<Rightarrow> obj list \<Rightarrow> obj option result" where
  "find_container key [] = Inr None"
| "find_container key (c # cs) =
     rbind (andR (rbind (item c ''name'') (\<lambda>n. Inr (n = JStr (fst key)))) (rbind (item c ''host'') (\<lambda>h. Inr (h = JStr (snd key)))))
       (\<lambda>found. if found then Inr (Some c) else find_container key cs)"

definition selected_containers :: "obj list \<Rightarrow> string list \<Rightarrow> obj list result" where
  "selected_containers db_containers selected =
     foldR (\<lambda>s acc. rbind (parse_pair s) (\<lambda>key. rbind (find_container key db_containers) (\<lambda>found.
        Inr (case found of Some c \<Rightarrow> acc @ [c] | None \<Rightarrow> acc)))) selected []"

text \<open>\<open>kwargs["selected_structures"]\<close> raises when the keyword is not given.\<close>

definition processRemoveContainers :: "env \<Rightarrow> string \<Rightarrow> string list option \<Rightarrow> unit m" where
  "processRemoveContainers E url selected_structures =
     bindM (db_items E (structures_url E)) (\<lambda>items.
     bindM (liftR (host_docs items)) (\<lambda>_.
     bindM (getContainers E False items) (\<lambda>db_containers.
     bindM (liftR (case selected_structures of Some xs \<Rightarrow> Inr xs | None \<Rightarrow> Inl (KeyError ''selected_structures''))) (\<lambda>selected.
     bindM (liftR (selected_containers db_containers selected)) (\<lambda>container_list.
     run_later E ''remove_containers_task'' (Call ''remove_containers_task'' [JStr url, jobjs container_list]))))))"

section \<open>Hosts\<close>

definition path_list :: "post \<Rightarrow> string \<Rightarrow> json" where
  "path_list p k = (if has_key p k then jstrs (split_on CHR '','' (sent p k)) else JArr [])"

definition posted_disks :: "(string \<Rightarrow> json result) \<Rightarrow> post \<Rightarrow> obj result" where
  "posted_disks evaluate p =
     rbind (posted_int p ''hdd_disks'') (\<lambda>hdd. rbind (posted_int p ''ssd_disks'') (\<lambda>ssd.
     rbind (rbind (post_item p ''create_lvm'') evaluate) (\<lambda>create_lvm.
     rbind (if jtruthy create_lvm then post_item p ''lvm_path'' else Inr []) (\<lambda>lvm_path.
     Inr [(''hdd_disks'', JInt hdd), (''ssd_disks'', JInt ssd), (''create_lvm'', create_lvm),
          (''hdd_disks_path_list'', path_list p ''hdd_disks_path_list''), (''ssd_disks_path_list'', path_list p ''ssd_disks_path_list''),
          (''lvm_path'', JStr lvm_path)]))))"

definition processAddHost :: "env \<Rightarrow> (string \<Rightarrow> json result) \<Rightarrow> operation" where
  "processAddHost E evaluate p url args =
     bindM (liftR (posted_int p ''number_of_containers'')) (\<lambda>new_containers.
     bindM (liftR (posted_int p ''cpu_max'')) (\<lambda>cpu. bindM (liftR (posted_int p ''mem_max'')) (\<lambda>mem.
     bindM (liftR (if has_key p ''energy_max'' then rbind (posted_int p ''energy_max'') (\<lambda>x. Inr (JInt x)) else Inr JNull)) (\<lambda>energy.
     bindM (config_flag E ''disk_capabilities'') (\<lambda>capabilities.
     bindM (if capabilities then config_flag E ''disk_scaling'' else returnM False) (\<lambda>scaling.
     bindM (liftR (if scaling then posted_disks evaluate p else Inr [])) (\<lambda>disks.
     thenM (run_later E ''add_host_task'' (Call ''add_host_task''
              [optional_json (oa_structure_name args), JInt cpu, JInt mem, JObj disks, energy, JInt new_containers]))
       (returnM (Some [])))))))))"

definition or_default :: "(json \<Rightarrow> json result) \<Rightarrow> post \<Rightarrow> string \<Rightarrow> rat \<Rightarrow> json result" where
  "or_default convert p k v = (if given p k then convert (JStr (sent p k)) else Inr (JNum v))"

definition as_float :: "json \<Rightarrow> json result" where "as_float v = rbind (jfloat v) (\<lambda>x. Inr (JNum x))"
definition as_int :: "json \<Rightarrow> json result" where "as_int v = rbind (jint v) (\<lambda>x. Inr (JInt x))"

definition idle_volume :: "obj list \<Rightarrow> string \<Rightarrow> json result" where
  "idle_volume hosts_info host_name =
     (case filter (\<lambda>h. get_or h ''name'' JNull = JStr host_name) hosts_info of [] \<Rightarrow> Inl IndexError
      | h # _ \<Rightarrow> rbind (jpath [''resources'', ''disks'', ''lvm'', ''load''] (JObj h)) (\<lambda>load. Inr (JBool (load = JNum 0))))"

definition no_extra_disk_text :: string where
  "no_extra_disk_text = ''Can'' @ [quote] @ ''t add disks to Logical Volume without an extra disk''"

definition processAddDisksToHosts :: "env \<Rightarrow> (string \<Rightarrow> json result) \<Rightarrow> operation" where
  "processAddDisksToHosts E evaluate p url0 args =
     (if \<not> has_key p ''host_list'' then returnM (Some ''No hosts selected'')
      else bindM (liftR (rbind (post_item p ''add_to_lv'') evaluate)) (\<lambda>add_to_lv.
           bindM (liftR (post_item p ''new_disks'')) (\<lambda>new_disks. bindM (liftR (post_item p ''extra_disk'')) (\<lambda>extra_disk.
           bindM (liftR (or_default as_float p ''threshold'' (1/5))) (\<lambda>threshold.
           bindM (liftR (or_default as_int p ''polling_frequency'' 5)) (\<lambda>polling_frequency.
           bindM (liftR (or_default as_int p ''timeout_events'' 1)) (\<lambda>timeout_events.
           if jtruthy add_to_lv \<and> extra_disk = [] then returnM (Some no_extra_disk_text)
           else let host_list = post_list p ''host_list''; url = structures_url E
             in bindM (fetch_items E url) (\<lambda>items. bindM (liftR (host_docs items)) (\<lambda>hosts_info.
                bindM (liftR (foldR (\<lambda>h d. rbind (if jtruthy add_to_lv then idle_volume hosts_info h else Inr (JBool True)) (\<lambda>b.
                         Inr (AList.update h b d))) host_list [])) (\<lambda>measure_host_list.
                thenM (run_later E ''add_disks_to_hosts_task'' (Call ''add_disks_to_hosts_task''
                         [jstrs host_list, add_to_lv, jstrs (split_on CHR '','' new_disks), JStr extra_disk, JObj measure_host_list,
                          JStr url, threshold, polling_frequency, timeout_events]))
                  (returnM (Some []))))))))))))"

text \<open>The containers of the host are handed over as the URL of the removal, and no keyword.\<close>

definition host_descriptor :: "string \<Rightarrow> json \<Rightarrow> string" where
  "host_descriptor host_name c = ''('' @ str_value c @ '','' @ host_name @ '')''"

definition remove_listed_host :: "env \<Rightarrow> string \<Rightarrow> string \<Rightarrow> unit m" where
  "remove_listed_host E url host_name =
     bindM (getContainersFromHost E url host_name) (\<lambda>cs.
     let container_list = map (host_descriptor host_name) cs
     in thenM (processRemoveContainers E (py_repr (jstrs container_list)) None)
          (run_later E ''remove_host_task'' (Call ''remove_host_task'' [JStr (url @ ''host'' @ ''/'' @ host_name), JStr host_name])))"

definition processRemoveHosts :: "env \<Rightarrow> string \<Rightarrow> string list \<Rightarrow> unit m" where
  "processRemoveHosts E url selected = forM selected (remove_listed_host E url)"

section \<open>The cores of a host\<close>

text \<open>The shares of a core that its page shows: those of containers that still exist and the free ones, the free ones
  first, the others by name, and none for a container that does not use the core.\<close>

definition present_shares :: "string list \<Rightarrow> obj \<Rightarrow> obj" where
  "present_shares names m = filter (\<lambda>(k, v). k \<in> set names \<or> k = ''free'') m"

definition fill_shares :: "string list \<Rightarrow> obj \<Rightarrow> obj" where
  "fill_shares names m = fold (\<lambda>n m. if has_key m n then m else AList.update n (JNum 0) m) names m"

definition free_first :: "obj \<Rightarrow> obj result" where
  "free_first m = rbind (item m ''free'') (\<lambda>free. Inr ((''free'', free) # filter (\<lambda>(k, v). k \<noteq> ''free'') m))"

definition sort_shares :: "obj \<Rightarrow> obj" where
  "sort_shares = sort_by (\<lambda>a b. compareStructureNames (fst a) (fst b))"

definition shown_core :: "string list \<Rightarrow> obj \<Rightarrow> obj result" where
  "shown_core names m = free_first (sort_shares (fill_shares names (present_shares names m)))"

definition core_keys :: "obj \<Rightarrow> (int \<times> json) list result" where
  "core_keys m = rbind (mapR (\<lambda>(k, v). rbind (int_str k) (\<lambda>n. Inr (n, v))) m) (\<lambda>ps. Inr (fold (\<lambda>(n, v). AList.update n v) ps []))"

definition shown_cores :: "string list \<Rightarrow> obj \<Rightarrow> (int \<times> obj) list result" where
  "shown_cores names m =
     rbind (core_keys m) (\<lambda>cores. mapR (\<lambda>(n, v). rbind (jobj v) (\<lambda>shares. rbind (shown_core names shares) (\<lambda>s. Inr (n, s))))
       (sort_key fst cores))"

definition cores_json :: "(int \<times> obj) list \<Rightarrow> json" where
  "cores_json cs = JObj (map (\<lambda>(n, d). (str_of_int n, JObj d)) cs)"

definition with_cores :: "string list \<Rightarrow> obj \<Rightarrow> obj result" where
  "with_cores names x =
     rbind (rbind (item x ''resources'') jobj) (\<lambda>rs.
     if \<not> has_key rs ''cpu'' then Inr x
     else rbind (rbind (item rs ''cpu'') jobj) (\<lambda>cpu.
          if \<not> has_key cpu ''core_usage_mapping'' then Inr x
          else rbind (rbind (item cpu ''core_usage_mapping'') jobj) (\<lambda>m. rbind (shown_cores names m) (\<lambda>cores.
               Inr (AList.update ''resources''
                 (JObj (AList.update ''cpu'' (JObj (pop_key ''core_usage_mapping'' cpu)) (AList.update ''cpu_cores'' (cores_json cores) rs))) x)))))"

definition shown_host :: "env \<Rightarrow> json list \<Rightarrow> obj \<Rightarrow> obj m" where
  "shown_host E items h =
     bindM (liftR (rbind (filterR (\<lambda>x. andR (has_subtype ''container'' x)
        (rbind (jitem x ''host'') (\<lambda>n. rbind (item h ''name'') (\<lambda>m. Inr (n = m))))) items) (mapR jobj))) (\<lambda>docs.
     bindM (foldM (\<lambda>c acc. bindM (shown_structure E c) (\<lambda>c'. returnM (acc @ [c']))) docs []) (\<lambda>containers.
     let cs = sort_docs containers
     in liftR (rbind (with_cores (map name_of_doc cs) (AList.update ''containers'' (jobjs cs) h)) (\<lambda>h.
        rbind (structure_resources_form h) (\<lambda>(_, editable). rbind (getStructuresValuesLabels h ''resources'') (\<lambda>labels.
        Inr (dict_update h [(''resources_editable_data'', JNum (of_nat editable)), (''resources_values_labels'', jstrs labels)])))))))"

definition getHosts :: "env \<Rightarrow> json list \<Rightarrow> obj list m" where
  "getHosts E items =
     bindM (liftR (rbind (filterR (has_subtype ''host'') items) (mapR jobj))) (\<lambda>docs.
     bindM (foldM (\<lambda>h acc. bindM (shown_host E items h) (\<lambda>h'. returnM (acc @ [h']))) docs []) (\<lambda>hosts.
     returnM (sort_docs hosts)))"

section \<open>Users\<close>

text \<open>The user an application is shown with is the first one that lists it.\<close>

definition owns :: "obj \<Rightarrow> json \<Rightarrow> bool result" where
  "owns app user =
     andR (has_subtype ''user'' user)
       (rbind (item app ''name'') (\<lambda>n. rbind (rbind (jitem user ''clusters'') jarr) (\<lambda>cs. Inr (n \<in> set cs))))"

fun owner_of :: "obj \<Rightarrow> json list \<Rightarrow> string option result" where
  "owner_of app [] = Inr None"
| "owner_of app (u # us) =
     rbind (owns app u) (\<lambda>b. if b then rbind (rbind (jitem u ''name'') jstr) (\<lambda>n. Inr (Some n)) else owner_of app us)"

definition note_app :: "json list \<Rightarrow> obj \<Rightarrow> obj list \<times> obj list dict \<Rightarrow> (obj list \<times> obj list dict) result" where
  "note_app users app = (\<lambda>(available, subscribed).
     rbind (owner_of app users) (\<lambda>owner. Inr (case owner of
       None \<Rightarrow> (available @ [app], subscribed)
     | Some u \<Rightarrow> (available, AList.update u (get_or subscribed u [] @ [app]) subscribed))))"

definition subscriptions :: "json list \<Rightarrow> json list \<Rightarrow> (obj list \<times> obj list dict) result" where
  "subscriptions users structures =
     (if users = [] then Inr ([], [])
      else rbind (rbind (filterR (has_subtype ''application'') structures) (mapR jobj)) (\<lambda>apps. foldR (note_app users) apps ([], [])))"

definition shown_user :: "env \<Rightarrow> obj list dict \<Rightarrow> obj \<Rightarrow> obj m" where
  "shown_user E subscribed u =
     bindM (field u ''name'') (\<lambda>n.
     bindM (foldM (\<lambda>a acc. bindM (shown_structure E a) (\<lambda>a'. returnM (acc @ [a']))) (get_or subscribed n []) []) (\<lambda>user_apps.
     let u1 = AList.update ''apps_full'' (jobjs (sort_docs user_apps)) u
     in liftR (rbind (structure_resources_form u1) (\<lambda>(_, editable). rbind (getStructuresValuesLabels u1 ''resources'') (\<lambda>labels.
        Inr (dict_update u1 [(''resources_editable_data'', JNum (of_nat editable)), (''resources_values_labels'', jstrs labels)]))))))"

definition getUsers :: "env \<Rightarrow> json list \<Rightarrow> json list \<Rightarrow> obj list m" where
  "getUsers E items structures =
     bindM (liftR (subscriptions items structures)) (\<lambda>(available, subscribed).
     bindM (liftR (rbind (filterR (has_subtype ''user'') items) (mapR jobj))) (\<lambda>docs.
     foldM (\<lambda>u acc. bindM (shown_user E subscribed u) (\<lambda>u'. returnM (acc @ [u']))) docs []))"

definition posted_user :: "post \<Rightarrow> string \<Rightarrow> obj result" where
  "posted_user p user_name =
     rbind (foldR (\<lambda>res rs. if \<not> has_key p (res @ ''_max'') then Inr rs
         else rbind (posted_int p (res @ ''_max'')) (\<lambda>mx. rbind (posted_int p (res @ ''_min'')) (\<lambda>mn.
              Inr (rs @ [(res, [(''max'', JInt mx), (''min'', JInt mn)])])))) supported_resources []) (\<lambda>rs.
     Inr ([(''name'', JStr user_name), (''resources'', nested rs), (''type'', JStr ''user''), (''subtype'', JStr ''user'')] @
       (if given p ''balancing_method'' then [(''balancing_method'', JStr (sent p ''balancing_method''))] else [])))"

definition processAddUser :: "env \<Rightarrow> operation" where
  "processAddUser E p url args =
     bindM (liftR (required (oa_structure_name args))) (\<lambda>user_name.
     bindM (liftR (posted_user p user_name)) (\<lambda>d.
     thenM (run_later E ''add_user_task'' (Call ''add_user_task''
              [JStr (url @ ''/'' @ user_name), JObj [(''user'', JObj d)], JStr user_name]))
       (returnM (Some []))))"

definition processSubscribeAppsToUser :: "env \<Rightarrow> operation" where
  "processSubscribeAppsToUser E p url args =
     thenM (run_later E ''subscribe_apps_to_user'' (Call ''subscribe_apps_to_user''
              [JStr url, optional_json (oa_structure_name args), jstrs (oa_selected args)]))
       (returnM (Some []))"

definition processDesubscribeAppsFromUser :: "env \<Rightarrow> operation" where
  "processDesubscribeAppsFromUser E p url args =
     thenM (run_later E ''desubscribe_apps_from_user'' (Call ''desubscribe_apps_from_user''
              [JStr url, optional_json (oa_structure_name args), jstrs (oa_selected args)]))
       (returnM (Some []))"

definition processRemoveUsers :: "env \<Rightarrow> operation" where
  "processRemoveUsers E p url args =
     thenM (run_later E ''remove_users_task'' (Call ''remove_users_task'' [JStr url, jstrs (oa_selected args)])) (returnM None)"

section \<open>The operations of the pages\<close>

text \<open>An operation that answers nothing answers \<open>None\<close>.\<close>

definition quiet :: "unit m \<Rightarrow> string option m" where
  "quiet p = thenM p (returnM None)"

definition no_such_call :: operation where    \<comment> \<open>\<open>"get"\<close> takes other arguments\<close>
  "no_such_call p url args = raiseM (TypeError ''arguments'')"

definition hosts_operations :: "env \<Rightarrow> (string \<Rightarrow> json result) \<Rightarrow> post \<Rightarrow> operation dict" where
  "hosts_operations E evaluate p =
     [(''add'', if post_get p ''structure_type'' = Some ''disks_to_hosts'' then processAddDisksToHosts E evaluate else processAddHost E evaluate),
      (''remove'', \<lambda>p url args. quiet (processRemoveHosts E url (oa_selected args))), (''get'', no_such_call)]"

definition containers_operations :: "env \<Rightarrow> operation dict" where
  "containers_operations E =
     [(''add'', processAddContainers E), (''remove'', \<lambda>p url args. quiet (processRemoveContainers E url (Some (oa_selected args)))), (''get'', no_such_call)]"

definition users_operations :: "env \<Rightarrow> operation dict" where
  "users_operations E =
     [(''add'', processAddUser E), (''remove'', processRemoveUsers E), (''subscribe'', processSubscribeAppsToUser E),
      (''desubscribe'', processDesubscribeAppsFromUser E), (''get'', no_such_call)]"

definition apps_operations :: "env \<Rightarrow> obj dict \<Rightarrow> operation dict" where
  "apps_operations E master =
     [(''add'', processAddApp E), (''remove'', \<lambda>p url args. quiet (processRemoveApps E url (oa_selected args))),
      (''desubscribe'', \<lambda>p url args. bindM (processRemoveContainersFromApp E p url) (\<lambda>e. returnM (Some e))),
      (''start'', processStartApp E master), (''get'', no_such_call)]"

section \<open>Every application has one place\<close>

definition placed_apps :: "obj list \<times> obj list dict \<Rightarrow> obj multiset" where
  "placed_apps = (\<lambda>(available, subscribed). mset available + mset (concat (map snd subscribed)))"

lemma mset_update_append:
  "mset (concat (map snd (AList.update u (get_or d u [] @ [a]) d))) = add_mset a (mset (concat (map snd d)))"
proof (induction d)
  case Nil
  then show ?case by (simp add: get_or_def)
next
  case (Cons x d)
  obtain k v where x: "x = (k, v)" by (cases x)
  show ?case using Cons by (auto simp: x get_or_def)
qed

lemma note_app_places: "note_app users a s = Inr s' \<Longrightarrow> placed_apps s' = add_mset a (placed_apps s)"
  by (cases s) (auto simp: note_app_def placed_apps_def mset_update_append elim!: rbindE split: option.splits)

text \<open>An application that is shown stands under one user or among the available ones, once.\<close>

lemma subscriptions_partition:
  assumes "foldR (note_app users) apps s = Inr s'"
  shows "placed_apps s' = mset apps + placed_apps s"
  using assms by (induction apps arbitrary: s) (auto elim!: rbindE dest: note_app_places)

section \<open>The shares a page shows\<close>

lemma fill_shares_keys:
  "set (keys_of (fill_shares names m)) = set (keys_of m) \<union> set names"
  "distinct (keys_of m) \<Longrightarrow> distinct (keys_of (fill_shares names m))"
proof -
  show "set (keys_of (fill_shares names m)) = set (keys_of m) \<union> set names"
    unfolding fill_shares_def
  proof (induction names arbitrary: m)
    case (Cons n names)
    have "set (keys_of (if has_key m n then m else AList.update n (JNum 0) m)) = insert n (set (keys_of m))"
      by (auto simp: keys_of_update has_key_iff)
    then show ?case by (simp only: fold_Cons comp_apply Cons) auto
  qed simp
  show "distinct (keys_of m) \<Longrightarrow> distinct (keys_of (fill_shares names m))"
    unfolding fill_shares_def by (induction names arbitrary: m) (auto simp: distinct_keys_update)
qed

lemma free_first_keys:
  "free_first m = Inr s \<Longrightarrow> keys_of s = ''free'' # filter (\<lambda>k. k \<noteq> ''free'') (keys_of m)"
  by (auto simp: free_first_def keys_of_def filter_map comp_def case_prod_beta' elim!: rbindE)

lemma mset_sort_shares: "mset (keys_of (sort_shares m)) = mset (keys_of m)"
  unfolding keys_of_def sort_shares_def mset_map by simp

lemma shown_core_keys:
  assumes "shown_core names m = Inr s" "distinct (keys_of m)" "distinct names" "''free'' \<notin> set names"
  shows "hd (keys_of s) = ''free'' \<and> mset (tl (keys_of s)) = mset names"
proof -
  let ?f = "fill_shares names (present_shares names m)"
  have d: "distinct (keys_of (present_shares names m))"
    using assms(2) by (induction m) (auto simp: present_shares_def keys_of_def)
  have s: "keys_of s = ''free'' # filter (\<lambda>k. k \<noteq> ''free'') (keys_of (sort_shares ?f))"
    using assms(1) by (auto simp: shown_core_def dest: free_first_keys)
  have "set (keys_of (present_shares names m)) \<subseteq> set names \<union> {''free''}"
    by (auto simp: present_shares_def keys_of_def)
  then have "set (filter (\<lambda>k. k \<noteq> ''free'') (keys_of ?f)) = set names"
    using assms(4) by (auto simp: fill_shares_keys(1))
  moreover have "distinct (filter (\<lambda>k. k \<noteq> ''free'') (keys_of ?f))" using d by (simp add: fill_shares_keys(2))
  ultimately have "mset (filter (\<lambda>k. k \<noteq> ''free'') (keys_of ?f)) = mset names"
    using assms(3) by (metis set_eq_iff_mset_eq_distinct)
  moreover have "mset (filter (\<lambda>k. k \<noteq> ''free'') (keys_of (sort_shares ?f))) = mset (filter (\<lambda>k. k \<noteq> ''free'') (keys_of ?f))"
    unfolding mset_filter mset_sort_shares ..
  ultimately show ?thesis by (simp add: s)
qed

section \<open>Removing a host\<close>

text \<open>The first of several hosts raises before any task is started, so no host is ever removed.\<close>

definition dispatched :: "world \<Rightarrow> call list" where
  "dispatched w = concat (map (\<lambda>ev. case ev of Dispatched c \<Rightarrow> [c] | _ \<Rightarrow> []) (w_trace w))"

lemma quiet_effects [keeps_intro]:
  "keeps (\<lambda>w. dispatched w = cs) (getDbData E u)" "keeps (\<lambda>w. dispatched w = cs) (db_items E u)"
  "keeps (\<lambda>w. dispatched w = cs) (getLimits E n)"
  by (auto simp: getLimits_def db_items_def getDbData_def intro!: keeps_intro split: sum.splits exn.splits)
    (auto simp: keeps_def getDbData_def request_def bindM_def thenM_def log_event_def ask_def returnM_def raiseM_def dispatched_def
      split: sum.splits exn.splits)

lemma quiet_listing [keeps_intro]:
  "keeps (\<lambda>w. dispatched w = cs) (getContainers E b items)" "keeps (\<lambda>w. dispatched w = cs) (getContainersFromHost E u h)"
  by (auto simp: getContainers_def container_shown_def with_limits_def config_text_def getContainersFromHost_def intro!: keeps_intro)

lemma bind_raise: "bindM (liftR (Inl e)) f = raiseM e"
  by (rule ext) (simp add: run_simps)

lemma removal_without_selection:
  "keeps (\<lambda>w. dispatched w = cs) (processRemoveContainers E u None)" "fst (processRemoveContainers E u None w) \<noteq> Returned x"
proof -
  show "keeps (\<lambda>w. dispatched w = cs) (processRemoveContainers E u None)"
    by (auto simp: processRemoveContainers_def bind_raise intro!: keeps_intro)
  show "fst (processRemoveContainers E u None w) \<noteq> Returned x"
    by (auto simp: processRemoveContainers_def bind_raise bindM_def [of "db_items E v" for v] bindM_def [of "liftR r" for r]
        bindM_def [of "getContainers E b i" for b i] raiseM_def split: prod.splits outcome.splits)
qed

lemma remove_hosts_removes_none:
  "fst (processRemoveHosts E url (h # hs) w) \<noteq> Returned () \<and> dispatched (snd (processRemoveHosts E url (h # hs) w)) = dispatched w"
proof -
  obtain r v where v: "getContainersFromHost E url h w = (r, v)" by (cases "getContainersFromHost E url h w")
  then have d: "dispatched v = dispatched w"
    using keepsD [OF quiet_listing(2) [where cs = "dispatched w"] refl] by (metis snd_conv)
  show ?thesis
  proof (cases r)
    case (Returned cs)
    define u where "u = py_repr (jstrs (map (host_descriptor h) cs))"
    obtain s x where x: "processRemoveContainers E u None v = (s, x)" by (cases "processRemoveContainers E u None v")
    then have "dispatched x = dispatched v"
      using keepsD [OF removal_without_selection(1) [where cs = "dispatched v"] refl] by (metis snd_conv)
    moreover have "s \<noteq> Returned ()" using removal_without_selection(2) x by (metis fst_conv)
    ultimately show ?thesis
      using v x d Returned
      by (cases s) (simp_all add: processRemoveHosts_def remove_listed_host_def thenM_def bindM_def Let_def flip: u_def)
  qed (use v d in \<open>simp_all add: processRemoveHosts_def remove_listed_host_def thenM_def bindM_def\<close>)
qed

section \<open>Added containers fit their hosts\<close>

lemma available_each:
  "checkAvailableResources h c rs key = Inr True \<Longrightarrow> res \<in> set rs \<Longrightarrow>
   \<exists>x y. free_quota h res = Inr x \<and> need c (lkey res key) = Inr y \<and> y \<le> x"
proof (induction rs)
  case (Cons r rs)
  then obtain b where "ltR (free_quota h r) (need c (lkey r key)) = Inr b" "\<not> b" "checkAvailableResources h c rs key = Inr True"
    by (auto elim!: rbindE split: if_splits)
  then have "\<exists>x y. free_quota h r = Inr x \<and> need c (lkey r key) = Inr y \<and> y \<le> x" using ltR_False by metis
  with Cons show ?case using \<open>checkAvailableResources h c rs key = Inr True\<close> by auto
qed simp

definition fits_host :: "obj \<Rightarrow> host \<Rightarrow> rat \<Rightarrow> string \<Rightarrow> bool" where
  "fits_host res h n r \<longleftrightarrow>
     (\<exists>v x q. item res (r @ ''_min'') = Inr v \<and> jint v = Inr x \<and> free_quota h r = Inr q \<and> of_int x * n \<le> q)"

lemma requested_list:
  "mapR (\<lambda>k. rbind (item res k) (\<lambda>v. rbind (jint v) (\<lambda>x. Inr (k, Num (of_int x * n))))) ks = Inr req \<Longrightarrow>
   keys_of req = ks \<and> (\<forall>k \<in> set ks. \<exists>v x. item res k = Inr v \<and> jint v = Inr x \<and> (k, Num (of_int x * n)) \<in> set req)"
proof (induction ks arbitrary: req)
  case Nil
  then show ?case by (simp add: keys_of_def)
next
  case (Cons k ks)
  then obtain v x req' where "item res k = Inr v" "jint v = Inr x" "req = (k, Num (of_int x * n)) # req'"
    "mapR (\<lambda>k. rbind (item res k) (\<lambda>v. rbind (jint v) (\<lambda>x. Inr (k, Num (of_int x * n))))) ks = Inr req'"
    by (auto elim!: rbindE)
  with Cons.IH [of req'] show ?case by (auto simp: keys_of_def)
qed

text \<open>The keys a form can send for a resource, in the order they are stored.\<close>

definition form_keys :: "string \<Rightarrow> string list" where
  "form_keys res = map (\<lambda>k. res @ k) [''_max'', ''_min'', ''_weight'', ''_boundary'', ''_boundary_type'']"

lemma posted_resource_keys: "posted_container_resource p r = Inr d \<Longrightarrow> subseq (keys_of d) (form_keys r)"
  by (auto simp: posted_container_resource_def posted_pair_def keys_of_def form_keys_def Let_def elim!: rbindE split: if_splits)

lemma posted_keys: "posted_container_resources p = Inr res \<Longrightarrow> subseq (keys_of res) (concat (map form_keys supported_resources))"
proof -
  assume "posted_container_resources p = Inr res"
  then obtain ds where ds: "mapR (posted_container_resource p) supported_resources = Inr ds" "res = concat ds"
    by (auto simp: posted_container_resources_def elim!: rbindE)
  have "mapR (posted_container_resource p) rs = Inr ds \<Longrightarrow> subseq (keys_of (concat ds)) (concat (map form_keys rs))" for rs ds
  proof (induction rs arbitrary: ds)
    case Nil
    then show ?case by (simp add: keys_of_def)
  next
    case (Cons r rs)
    then obtain d es where "posted_container_resource p r = Inr d" "mapR (posted_container_resource p) rs = Inr es" "ds = d # es"
      by (auto elim!: rbindE)
    with Cons.IH posted_resource_keys show ?case by (simp add: keys_of_def list_emb_append_mono)
  qed
  with ds show ?thesis by blast
qed

lemma posted_keys_shape:
  assumes "posted_container_resources p = Inr res"
  shows "distinct (keys_of res)" "k \<in> set (minimum_keys res) \<Longrightarrow> lkey (take (length k - 4) k) ''min'' = k"
proof -
  obtain N where N: "keys_of res = nths (concat (map form_keys supported_resources)) N"
    using posted_keys [OF assms] by (auto simp: subseq_conv_nths)
  have "distinct (concat (map form_keys supported_resources))" by code_simp
  then show "distinct (keys_of res)" unfolding N by (rule distinct_nthsI)
  have "list_all (\<lambda>k. contains ''min'' k \<longrightarrow> lkey (take (length k - 4) k) ''min'' = k) (concat (map form_keys supported_resources))"
    by code_simp
  moreover have "set (keys_of res) \<subseteq> set (concat (map form_keys supported_resources))"
    unfolding N by (rule set_nths_subset)
  ultimately show "k \<in> set (minimum_keys res) \<Longrightarrow> lkey (take (length k - 4) k) ''min'' = k"
    by (auto simp: minimum_keys_def list_all_iff)
qed

text \<open>What a planned host is asked for is free on it, and its disk has the bandwidth.\<close>

definition well_planned :: "obj \<Rightarrow> obj \<Rightarrow> host \<Rightarrow> string \<times> json \<Rightarrow> string \<times> obj \<Rightarrow> bool" where
  "well_planned host_list res h new disk \<longleftrightarrow>
     fst new = h_name h \<and> fst disk = h_name h \<and>
     (\<exists>n. jnum (snd new) = Inr n \<and> jnum (get_or host_list (h_name h) (JNum 0)) = Inr n \<and>
        (n > 0 \<longrightarrow> list_all (fits_host res h n) (map (\<lambda>k. take (length k - 4) k) (minimum_keys res))) \<and>
        (\<exists>ds d name r w. h_disks h = Some ds \<and> map_of ds name = Some d \<and> map_of (snd disk) ''name'' = Some (JStr name) \<and>
           requested_bw res n ''disk_read_min'' = Inr r \<and> requested_bw res n ''disk_write_min'' = Inr w \<and> disk_suits d r w))"

lemma plan_host_well:
  assumes "plan_host host_list res h = Inr (Inr (v, disk))" "posted_container_resources p = Inr res"
    and "\<And>ds. h_disks h = Some ds \<Longrightarrow> distinct (keys_of ds)"
  shows "well_planned host_list res h (h_name h, v) (h_name h, disk)"
proof -
  from assms(1) obtain n req r w name ds d where p: "jnum (get_or host_list (h_name h) (JNum 0)) = Inr n"
    "requested_resources res n = Inr req" "v = get_or host_list (h_name h) (JNum 0)"
    "n > 0 \<Longrightarrow> checkAvailableResources h req (map (\<lambda>k. take (length k - 4) k) (keys_of req)) ''min'' = Inr True"
    "requested_bw res n ''disk_read_min'' = Inr r" "requested_bw res n ''disk_write_min'' = Inr w"
    "getFreestDisk h r w = Some name" "h_disks h = Some ds" "item ds name = Inr d"
    "disk = [(''name'', JStr name), (''path'', JStr (d_path d))]"
    by (fastforce simp: plan_host_def Let_def elim!: rbindE split: if_splits option.splits)
  have keys: "keys_of req = minimum_keys res"
    "\<forall>k \<in> set (minimum_keys res). \<exists>v x. item res k = Inr v \<and> jint v = Inr x \<and> (k, Num (of_int x * n)) \<in> set req"
    using requested_list p(2) by (simp_all add: requested_resources_def)
  have d: "distinct (keys_of req)" unfolding keys(1) minimum_keys_def using posted_keys_shape(1) [OF assms(2)] by simp
  have fit: "fits_host res h n (take (length k - 4) k)" if k: "k \<in> set (minimum_keys res)" and n: "n > 0" for k
  proof -
    obtain v x where x: "item res k = Inr v" "jint v = Inr x" "(k, Num (of_int x * n)) \<in> set req" using keys(2) k by blast
    have shape: "lkey (take (length k - 4) k) ''min'' = k" by (rule posted_keys_shape(2) [OF assms(2) k])
    have "need req k = Inr (of_int x * n)" using x(3) d by (simp add: need_def item_def keys_of_def)
    moreover obtain y z where "free_quota h (take (length k - 4) k) = Inr y" "need req (lkey (take (length k - 4) k) ''min'') = Inr z" "z \<le> y"
      using available_each [OF p(4) [OF n], of "take (length k - 4) k"] k by (auto simp: keys(1))
    ultimately show ?thesis using x shape unfolding fits_host_def shape [unfolded lkey_def] by (auto simp: lkey_def)
  qed
  obtain e where "(name, e) \<in> set ds" "disk_suits e r w" using getFreestDisk_suits [OF p(7)] p(8) by auto
  moreover have "map_of ds name = Some e" using \<open>(name, e) \<in> set ds\<close> assms(3) [OF p(8)] by (simp add: keys_of_def)
  ultimately have "map_of ds name = Some d" "disk_suits d r w" using p(9) by (simp_all add: item_eq)
  then show ?thesis using p(1,3,5,6,8,10) fit unfolding well_planned_def by (auto simp: list_all_iff)
qed

text \<open>C23: containers are only started on hosts where all they need at least is free, on a disk that has the bandwidth
  they ask for.\<close>

theorem plan_hosts_well:
  assumes "plan_hosts host_list res hs = Inr (Inr (new, disks))" "posted_container_resources p = Inr res"
    and "\<And>h ds. h \<in> set hs \<Longrightarrow> h_disks h = Some ds \<Longrightarrow> distinct (keys_of ds)"
  shows "length new = length hs \<and> length disks = length hs \<and>
    list_all (\<lambda>(h, n, d). well_planned host_list res h n d) (zip hs (zip new disks))"
  using assms
proof (induction hs arbitrary: new disks)
  case (Cons h hs)
  then obtain v d new' disks' where p: "plan_host host_list res h = Inr (Inr (v, d))" "plan_hosts host_list res hs = Inr (Inr (new', disks'))"
    "new = (h_name h, v) # new'" "disks = (h_name h, d) # disks'"
    by (fastforce elim!: rbindE split: sum.splits prod.splits)
  have "well_planned host_list res h (h_name h, v) (h_name h, d)"
    by (rule plan_host_well [OF p(1) Cons.prems(2)]) (use Cons.prems(3) in auto)
  with Cons.IH [OF p(2) Cons.prems(2)] Cons.prems(3) p(3,4) show ?case by auto
qed simp

definition sample_plan_post :: post where
  "sample_plan_post = [(''cpu_max'', [''200'']), (''cpu_min'', [''50'']), (''disk_read_max'', [''40'']), (''disk_read_min'', [''10'']),
     (''disk_write_max'', [''40'']), (''disk_write_min'', [''10''])]"

definition sample_plan_host :: host where
  "sample_plan_host = \<lparr>h_name = ''h0'', h_quota = [(''cpu'', \<lparr>q_max = 400, q_free = 120\<rparr>)],
     h_disks = Some [(''ssd'', \<lparr>d_path = ''/ssd'', d_max_read = 100, d_free_read = 60, d_max_write = 100, d_free_write = 80, d_load = 1\<rparr>)]\<rparr>"

definition sample_plan_resources :: obj where
  "sample_plan_resources = [(''cpu_max'', JStr ''200''), (''cpu_min'', JStr ''50''), (''disk_read_max'', JStr ''40''),
     (''disk_read_min'', JStr ''10''), (''disk_write_max'', JStr ''40''), (''disk_write_min'', JStr ''10'')]"

theorem plan_hosts_well_witness:
  "length [(''h0'', JNum 2)] = length [sample_plan_host] \<and>
   length [(''h0'', [(''name'', JStr ''ssd''), (''path'', JStr ''/ssd'')])] = length [sample_plan_host] \<and>
   list_all (\<lambda>(h, n, d). well_planned [(''h0'', JNum 2)] sample_plan_resources h n d)
     (zip [sample_plan_host] (zip [(''h0'', JNum 2)] [(''h0'', [(''name'', JStr ''ssd''), (''path'', JStr ''/ssd'')])]))"
proof (rule plan_hosts_well)
  show "plan_hosts [(''h0'', JNum 2)] sample_plan_resources [sample_plan_host] =
      Inr (Inr ([(''h0'', JNum 2)], [(''h0'', [(''name'', JStr ''ssd''), (''path'', JStr ''/ssd'')])]))" by code_simp
  show "posted_container_resources sample_plan_post = Inr sample_plan_resources" by code_simp
  show "distinct (keys_of ds)" if "h \<in> set [sample_plan_host]" "h_disks h = Some ds" for h ds
    using that by (auto simp: sample_plan_host_def keys_of_def)
qed

end
