(* ===== verification/ConfigSync.thy ===== *)
theory ConfigSync
  imports Json
begin

text \<open>
  The update of a user's configuration from the template of a new version of the platform,
  \<open>scripts/config/sync_yaml_config.py\<close>.  A YAML document is a \<open>json\<close> value; the keys of a mapping are strings.
\<close>

section \<open>Merging the defaults of a template\<close>

text \<open>What a merge reports: the paths of the keys it added, and the keys it put the comment above.\<close>

record sync_report =
  added_keys :: "string list"
  comment_keys :: "string list"

definition child_path :: "string \<Rightarrow> string \<Rightarrow> string" where
  "child_path path key = (if path = [] then key else path @ ''.'' @ key)"

definition root_path :: "string \<Rightarrow> string" where
  "root_path path = (if path = [] then ''<root>'' else path)"

definition note_added :: "string \<Rightarrow> sync_report \<Rightarrow> sync_report" where
  "note_added path r = r\<lparr>added_keys := added_keys r @ [path]\<rparr>"

definition note_comment :: "string \<Rightarrow> sync_report \<Rightarrow> sync_report" where
  "note_comment path r = r\<lparr>comment_keys := comment_keys r @ [path]\<rparr>"

text \<open>The loop over the members of a mapping carries whether this level already has its comment.\<close>

function deep_merge_defaults :: "json \<Rightarrow> json \<Rightarrow> sync_report \<Rightarrow> string \<Rightarrow> json \<times> sync_report"
  and merge_members :: "obj \<Rightarrow> obj \<Rightarrow> bool \<Rightarrow> sync_report \<Rightarrow> string \<Rightarrow> obj \<times> sync_report" where
  "deep_merge_defaults template user r path =
     (case user of
        JNull \<Rightarrow> (template, note_added (root_path path) r)
      | JObj ud \<Rightarrow> (case template of
          JObj td \<Rightarrow> (let (ud', r') = merge_members td ud False r path in (JObj ud', r'))
        | _ \<Rightarrow> (user, r))
      | _ \<Rightarrow> (user, r))"
| "merge_members [] ud commented r path = (ud, r)"
| "merge_members ((key, tv) # td) ud commented r path =
     (let p = child_path path key
      in case map_of ud key of
           None \<Rightarrow> merge_members td (AList.update key tv ud) True
             ((if commented then id else note_comment p) (note_added p r)) path
         | Some uv \<Rightarrow> (let (v, r') = deep_merge_defaults tv uv r p
             in merge_members td (AList.update key v ud) commented r' path))"
  by pat_completeness auto

termination
  by (relation "measure (case_sum (\<lambda>(t, _). size t) (\<lambda>(td, _). size_list (size_prod (\<lambda>_. 0) size) td))")
    auto

text \<open>The keys the user has and the template has not.\<close>

function find_extra_keys :: "json \<Rightarrow> json \<Rightarrow> string list \<Rightarrow> string \<Rightarrow> string list"
  and extra_members :: "obj \<Rightarrow> obj \<Rightarrow> string list \<Rightarrow> string \<Rightarrow> string list" where
  "find_extra_keys template user extra path =
     (case (template, user) of (JObj td, JObj ud) \<Rightarrow> extra_members td ud extra path | _ \<Rightarrow> extra)"
| "extra_members td [] extra path = extra"
| "extra_members td ((key, uv) # ud) extra path =
     (let p = child_path path key
      in extra_members td ud
           (case map_of td key of None \<Rightarrow> extra @ [p] | Some tv \<Rightarrow> find_extra_keys tv uv extra p) path)"
  by pat_completeness auto

termination
  by (relation "measure (case_sum (\<lambda>(_, u, _). size u) (\<lambda>(_, ud, _). size_list (size_prod (\<lambda>_. 0) size) ud))")
    auto

section \<open>Files\<close>

text \<open>The files a run reads, as loaded documents; \<open>None\<close> is a missing file and an empty file loads as null.\<close>

definition load_yaml :: "json option \<Rightarrow> json" where
  "load_yaml file = (case file of None \<Rightarrow> JObj [] | Some JNull \<Rightarrow> JObj [] | Some v \<Rightarrow> v)"

text \<open>The configuration file and its backup after a run.\<close>

record config_files =
  config_file :: "json option"
  backup_file :: "json option"

definition sync_file :: "bool \<Rightarrow> bool \<Rightarrow> json option \<Rightarrow> config_files \<Rightarrow> config_files \<times> sync_report \<times> string list" where
  "sync_file backup report_extra template fs =
     (let td = load_yaml template; ud = load_yaml (config_file fs);
          (u, r) = deep_merge_defaults td ud \<lparr>added_keys = [], comment_keys = []\<rparr> [];
          extra = (if report_extra then find_extra_keys td u [] [] else [])
      in (if added_keys r = [] then fs
          else \<lparr>config_file = Some u,
                backup_file = (if backup \<and> config_file fs \<noteq> None then config_file fs else backup_file fs)\<rparr>,
          r, extra))"

text \<open>A blank line before every comment of new parameters, unless there is one.\<close>

definition blank_step :: "string \<Rightarrow> string \<Rightarrow> string list \<Rightarrow> string list" where
  "blank_step marker line out =
     (if strip line = marker \<and> out \<noteq> [] \<and> strip (last out) \<noteq> [] then out @ [[]] else out) @ [line]"

definition ensure_blank_line :: "string \<Rightarrow> string list \<Rightarrow> string" where
  "ensure_blank_line comment lines =
     join [CHR 10] (fold (blank_step (''# '' @ comment)) lines []) @ [CHR 10]"

text \<open>The report of \<open>main\<close>, by lines.\<close>

definition sync_output :: "bool \<Rightarrow> bool \<Rightarrow> string \<Rightarrow> sync_report \<Rightarrow> string list \<Rightarrow> string list" where
  "sync_output quiet no_backup config r extra =
     (if quiet \<or> added_keys r = [] \<and> extra = [] then []
      else [''Config: '' @ config] @
        (if added_keys r = [] then []
         else [''Added keys from template:''] @ map ((@) ''  + '') (added_keys r) @
           (if no_backup then [] else [''Backup of original user config stored in '' @ config @ ''.bak''])) @
        (if extra = [] then [] else [''Keys in user config not present on template:''] @ map ((@) ''  ? '') extra) @ [[]])"

section \<open>A reference definition of the merge\<close>

text \<open>No mapping of a loaded document has a key twice: the loader refuses such a text.\<close>

fun well_keyed :: "json \<Rightarrow> bool" where
  "well_keyed (JObj d) \<longleftrightarrow> distinct (map fst d) \<and> list_all (\<lambda>p. well_keyed (snd p)) d"
| "well_keyed v \<longleftrightarrow> True"

text \<open>The members of the user in their order, merged, and then the missing ones in the order of the template.\<close>

fun merge_spec :: "json \<Rightarrow> json \<Rightarrow> json" where
  "merge_spec template JNull = template"
| "merge_spec (JObj td) (JObj ud) =
     JObj (map (\<lambda>p. (fst p, case map_of td (fst p) of None \<Rightarrow> snd p | Some tv \<Rightarrow> merge_spec tv (snd p))) ud @
           filter (\<lambda>p. fst p \<notin> set (map fst ud)) td)"
| "merge_spec template user = user"

definition spec_members :: "obj \<Rightarrow> obj \<Rightarrow> obj" where
  "spec_members td ud =
     map (\<lambda>p. (fst p, case map_of td (fst p) of None \<Rightarrow> snd p | Some tv \<Rightarrow> merge_spec tv (snd p))) ud @
     filter (\<lambda>p. fst p \<notin> set (map fst ud)) td"

lemma merge_spec_objects: "merge_spec (JObj td) (JObj ud) = JObj (spec_members td ud)"
  by (simp add: spec_members_def)

lemma merge_spec_other: "u \<noteq> JNull \<Longrightarrow> \<not> (\<exists>td ud. t = JObj td \<and> u = JObj ud) \<Longrightarrow> merge_spec t u = u"
  by (cases t; cases u) auto

lemma well_keyed_lookup: "list_all (\<lambda>p. well_keyed (snd p)) d \<Longrightarrow> map_of d k = Some v \<Longrightarrow> well_keyed v"
  by (auto dest!: map_of_SomeD simp: list_all_iff)

lemma well_keyed_merge: "well_keyed t \<Longrightarrow> well_keyed u \<Longrightarrow> well_keyed (merge_spec t u)"
proof (induction t u rule: merge_spec.induct)
  case (2 td ud)
  have "well_keyed (case map_of td (fst p) of None \<Rightarrow> snd p | Some tv \<Rightarrow> merge_spec tv (snd p))"
    if "p \<in> set ud" for p
    using 2 that by (cases p) (auto simp: list_all_iff split: option.splits dest!: map_of_SomeD)
  with 2(2,3) show ?case
    by (force simp: list_all_iff comp_def distinct_map_filter)
qed auto

lemma update_new: "key \<notin> set (map fst d) \<Longrightarrow> AList.update key v d = d @ [(key, v)]"
  by (induction d) auto

lemma update_old:
  "distinct (map fst d) \<Longrightarrow> key \<in> set (map fst d) \<Longrightarrow>
   AList.update key v d = map (\<lambda>p. if fst p = key then (key, v) else p) d"
  by (induction d) (force intro!: map_idI [symmetric])+

lemma update_same: "map_of d key = Some v \<Longrightarrow> AList.update key v d = d"
  by (induction d) (auto split: if_splits)

lemma spec_members_new:
  assumes "key \<notin> fst ` set ud" "key \<notin> fst ` set td"
  shows "spec_members ((key, tv) # td) ud = spec_members td (AList.update key tv ud)"
proof -
  have "map_of td key = None" using assms(2) by (auto simp: map_of_eq_None_iff)
  moreover have "filter (\<lambda>p. fst p \<notin> fst ` set ud) td = filter (\<lambda>p. fst p \<notin> insert key (fst ` set ud)) td"
    using assms(2) by (intro filter_cong) auto
  ultimately show ?thesis using assms
    by (auto simp: spec_members_def update_new intro!: map_cong)
qed

lemma spec_members_old:
  assumes "map_of ud key = Some uv" "distinct (map fst ud)" "key \<notin> fst ` set td"
  shows "spec_members ((key, tv) # td) ud = spec_members td (AList.update key (merge_spec tv uv) ud)"
proof -
  have "key \<in> fst ` set ud" using assms(1) by (force dest: map_of_SomeD)
  moreover have "map_of td key = None" using assms(3) by (auto simp: map_of_eq_None_iff)
  moreover have "p \<in> set ud \<Longrightarrow> fst p = key \<Longrightarrow> snd p = uv" for p
    using assms(1,2) by (cases p) (auto dest!: map_of_SomeD intro: eq_key_imp_eq_value)
  moreover have "(\<lambda>p. fst (if fst p = key then (key, merge_spec tv uv) else p)) ` set ud = fst ` set ud"
    by (rule image_cong) auto
  ultimately show ?thesis using assms(2)
    by (auto simp: spec_members_def update_old image_image)
qed

theorem deep_merge_spec_both:
  "well_keyed t \<Longrightarrow> well_keyed u \<Longrightarrow> fst (deep_merge_defaults t u r path) = merge_spec t u"
  "well_keyed (JObj td) \<Longrightarrow> well_keyed (JObj ud) \<Longrightarrow>
   fst (merge_members td ud c r path) = spec_members td ud"
proof (induction t u r path and td ud c r path rule: deep_merge_defaults_merge_members.induct)
  case (1 template user r path)
  then show ?case
    by (cases user; cases template)
      (simp_all add: merge_spec_objects case_prod_unfold Let_def del: merge_spec.simps(2))
next
  case (2 ud c r path)
  then show ?case by (simp add: spec_members_def map_idI)
next
  case (3 key tv td ud c r path)
  show ?case
  proof (cases "map_of ud key")
    case None
    then have "key \<notin> fst ` set ud" by (simp add: map_of_eq_None_iff)
    with None 3 show ?thesis
      by (simp add: Let_def spec_members_new update_new)
  next
    case (Some uv)
    obtain v r' where d: "deep_merge_defaults tv uv r (child_path path key) = (v, r')" by fastforce
    have key: "key \<in> fst ` set ud" using Some by (force dest: map_of_SomeD)
    have uv: "well_keyed uv" using Some 3(5) by (auto intro: well_keyed_lookup)
    with 3 Some d have v: "v = merge_spec tv uv" by force
    have "well_keyed (JObj (AList.update key v ud))"
      using 3(4,5) uv key distinct_update [of ud key v]
      by (auto simp: v update_old list_all_iff well_keyed_merge)
    with 3 Some d v show ?thesis
      by (simp add: spec_members_old)
  qed
qed

section \<open>What a merge keeps, adds and reports\<close>

text \<open>The value at a path of keys.\<close>

fun value_at :: "json \<Rightarrow> string list \<Rightarrow> json option" where
  "value_at v [] = Some v"
| "value_at (JObj d) (k # ks) = (case map_of d k of None \<Rightarrow> None | Some v \<Rightarrow> value_at v ks)"
| "value_at v (k # ks) = None"

fun is_mapping :: "json \<Rightarrow> bool" where
  "is_mapping (JObj d) = True"
| "is_mapping v = False"

lemma map_of_spec_members:
  assumes "distinct (map fst td)"
  shows "map_of (spec_members td ud) k =
    (case map_of ud k of
       None \<Rightarrow> map_of td k
     | Some uv \<Rightarrow> Some (case map_of td k of None \<Rightarrow> uv | Some tv \<Rightarrow> merge_spec tv uv))"
proof -
  have "map_of (map (\<lambda>p. (fst p, f (fst p) (snd p))) d) k = map_option (f k) (map_of d k)"
    for d :: obj and f :: "string \<Rightarrow> json \<Rightarrow> json"
    by (induction d) auto
  note 1 = this [of "\<lambda>key uv. case map_of td key of None \<Rightarrow> uv | Some tv \<Rightarrow> merge_spec tv uv" ud]
  have 2: "map_of ud k = None \<Longrightarrow> map_of (filter (\<lambda>p. fst p \<notin> set (map fst ud)) d) k = map_of d k" for d :: obj
    by (induction d) (auto simp: map_of_eq_None_iff)
  show ?thesis
    by (cases "map_of ud k") (use 2 [of td] in \<open>auto simp: spec_members_def map_add_def 1 split: option.splits\<close>)
qed

lemma merge_spec_keeps:
  "value_at u ks = Some v \<Longrightarrow> v \<noteq> JNull \<Longrightarrow> \<not> is_mapping v \<Longrightarrow> well_keyed t \<Longrightarrow>
   value_at (merge_spec t u) ks = Some v"
proof (induction ks arbitrary: t u)
  case Nil
  then show ?case by (cases t; cases u) auto
next
  case (Cons k ks)
  obtain ud uv where u: "u = JObj ud" "map_of ud k = Some uv" "value_at uv ks = Some v"
    using Cons.prems(1) by (cases u) (auto split: option.splits)
  show ?case
  proof (cases "\<exists>td. t = JObj td")
    case True
    then obtain td where t: "t = JObj td" by blast
    show ?thesis
      using Cons.prems u Cons.IH [OF u(3)] well_keyed_lookup [of td k]
      by (simp add: t merge_spec_objects map_of_spec_members del: merge_spec.simps(2) split: option.splits)
  next
    case False
    then show ?thesis using Cons.prems(1) u(1) merge_spec_other [of u t] by auto
  qed
qed

text \<open>A template all of whose parameters have a value, and a document that has all of its parameters.\<close>

fun no_null :: "json \<Rightarrow> bool" where
  "no_null JNull \<longleftrightarrow> False"
| "no_null (JObj d) \<longleftrightarrow> list_all (\<lambda>p. no_null (snd p)) d"
| "no_null v \<longleftrightarrow> True"

fun has_parameters :: "json \<Rightarrow> json \<Rightarrow> bool" where
  "has_parameters t JNull \<longleftrightarrow> False"
| "has_parameters (JObj td) (JObj ud) \<longleftrightarrow>
     list_all (\<lambda>p. case map_of ud (fst p) of None \<Rightarrow> False | Some uv \<Rightarrow> has_parameters (snd p) uv) td"
| "has_parameters t u \<longleftrightarrow> True"

lemma has_parameters_refl: "well_keyed t \<Longrightarrow> no_null t \<Longrightarrow> has_parameters t t"
proof (induction t)
  case (JObj td)
  then have "has_parameters tv tv" if "(k, tv) \<in> set td" for k tv
    using that by (fastforce simp: list_all_iff)
  with JObj.prems show ?case by (auto simp: list_all_iff)
qed auto

lemma has_parameters_merge_spec: "well_keyed t \<Longrightarrow> no_null t \<Longrightarrow> has_parameters t (merge_spec t u)"
proof (induction t arbitrary: u)
  case (JObj td)
  show ?case
  proof (cases "u = JNull \<or> \<not> is_mapping u")
    case True
    with JObj.prems has_parameters_refl [of "JObj td"] show ?thesis by (cases u) auto
  next
    case False
    then obtain ud where u: "u = JObj ud" by (cases u) auto
    have "has_parameters tv uv'"
      if "(k, tv) \<in> set td" "map_of (spec_members td ud) k = Some uv'" for k tv uv'
    proof -
      have k: "map_of td k = Some tv" "well_keyed tv" "no_null tv"
        using that(1) JObj.prems by (auto simp: list_all_iff)
      with that JObj.prems JObj.IH [OF that(1)] has_parameters_refl [of tv] show ?thesis
        by (auto simp: map_of_spec_members split: option.splits)
    qed
    moreover have "map_of (spec_members td ud) k \<noteq> None" if "(k, tv) \<in> set td" for k tv
      using that JObj.prems by (auto simp: map_of_spec_members split: option.splits)
    ultimately show ?thesis
      by (fastforce simp: u merge_spec_objects list_all_iff simp del: merge_spec.simps(2) split: option.splits)
  qed
qed (case_tac u; simp)+

lemma merge_covered:
  "has_parameters t u \<Longrightarrow> deep_merge_defaults t u r path = (u, r)"
  "has_parameters (JObj td) (JObj ud) \<Longrightarrow> merge_members td ud c r path = (ud, r)"
proof (induction t u r path and td ud c r path rule: deep_merge_defaults_merge_members.induct)
  case (1 template user r path)
  then show ?case by (cases user; cases template) simp_all
next
  case (3 key tv td ud c r path)
  then obtain uv where uv: "map_of ud key = Some uv" "has_parameters tv uv" "has_parameters (JObj td) (JObj ud)"
    by (auto split: option.splits)
  from uv(1) have same: "AList.update key uv ud = ud" by (rule update_same)
  have d: "deep_merge_defaults tv uv r (child_path path key) = (uv, r)"
    using 3(2) uv by blast
  have "merge_members td ud c r path = (ud, r)"
    using 3(3) [of "child_path path key" uv "(uv, r)" uv r] uv d by (simp add: same del: deep_merge_defaults.simps has_parameters.simps)
  with uv(1) d show ?case by (simp add: same Let_def del: deep_merge_defaults.simps)
qed simp

text \<open>The report only grows, and a merge that reports nothing changes nothing.\<close>

lemma merge_report:
  "\<exists>xs. added_keys (snd (deep_merge_defaults t u r path)) = added_keys r @ xs \<and>
        (xs = [] \<longrightarrow> fst (deep_merge_defaults t u r path) = u)"
  "\<exists>xs. added_keys (snd (merge_members td ud c r path)) = added_keys r @ xs \<and>
        (xs = [] \<longrightarrow> fst (merge_members td ud c r path) = ud)"
proof (induction t u r path and td ud c r path rule: deep_merge_defaults_merge_members.induct)
  case (1 template user r path)
  then show ?case
    by (cases user; cases template) (simp_all add: note_added_def case_prod_unfold Let_def)
next
  case (2 ud c r path)
  then show ?case by simp
next
  case (3 key tv td ud c r path)
  let ?p = "child_path path key"
  show ?case
  proof (cases "map_of ud key")
    case None
    then show ?thesis using 3(1) [OF refl None]
      by (auto simp: Let_def note_added_def note_comment_def simp del: deep_merge_defaults.simps)
  next
    case (Some uv)
    obtain v r' where d: "deep_merge_defaults tv uv r ?p = (v, r')" by fastforce
    from 3(2) [OF refl Some] obtain xs where
      xs: "added_keys r' = added_keys r @ xs" "xs = [] \<longrightarrow> v = uv" by (auto simp: d simp del: deep_merge_defaults.simps)
    from 3(3) [OF refl Some d [symmetric] refl] obtain ys where
      ys: "added_keys (snd (merge_members td (AList.update key v ud) c r' path)) = added_keys r' @ ys"
        "ys = [] \<longrightarrow> fst (merge_members td (AList.update key v ud) c r' path) = AList.update key v ud" by auto
    show ?thesis
      by (rule exI [of _ "xs @ ys"])
        (use xs ys Some in \<open>auto simp: Let_def d update_same simp del: deep_merge_defaults.simps\<close>)
  qed
qed

lemma merge_quiet:
  assumes "deep_merge_defaults t u r path = (u', r')" "added_keys r' = added_keys r"
  shows "u' = u"
  using merge_report(1) [of t u r path] assms by auto

section \<open>Extra keys\<close>

lemma extra_members_none:
  "(\<And>p. p \<in> set ud \<Longrightarrow> \<exists>tv. map_of td (fst p) = Some tv \<and>
      (\<forall>ex path. find_extra_keys tv (snd p) ex path = ex)) \<Longrightarrow>
   extra_members td ud ex path = ex"
  by (induction ud arbitrary: ex) (force simp del: find_extra_keys.simps)+

lemma extra_members_append: "extra_members td (xs @ ys) ex path = extra_members td ys (extra_members td xs ex path) path"
  by (induction xs arbitrary: ex) (auto simp: Let_def)

lemma extra_self: "well_keyed t \<Longrightarrow> find_extra_keys t t ex path = ex"
proof (induction t arbitrary: ex path)
  case (JObj td)
  have "find_extra_keys tv tv ex path = ex" if "(k, tv) \<in> set td" for k tv ex path
    using that JObj by (fastforce simp: list_all_iff simp del: find_extra_keys.simps)
  with JObj.prems have "extra_members td td ex path = ex"
    by (intro extra_members_none) (auto simp del: find_extra_keys.simps)
  then show ?case by simp
qed auto

lemma extra_members_map:
  assumes "\<And>p ex path. p \<in> set ud \<Longrightarrow> map_of td (fst p) \<noteq> None \<Longrightarrow>
      find_extra_keys (the (map_of td (fst p))) (f p) ex path =
      find_extra_keys (the (map_of td (fst p))) (snd p) ex path"
  shows "extra_members td (map (\<lambda>p. (fst p, f p)) ud) ex path = extra_members td ud ex path"
  using assms
proof (induction ud arbitrary: ex)
  case (Cons p ud)
  have "find_extra_keys tv (f p) ex path = find_extra_keys tv (snd p) ex path"
    if "map_of td (fst p) = Some tv" for tv ex path
    using Cons.prems [of p] that by (simp del: find_extra_keys.simps)
  with Cons show ?case
    by (cases p) (auto simp: Let_def simp del: find_extra_keys.simps split: option.splits)
qed simp

lemma extra_merge_spec:
  "well_keyed t \<Longrightarrow> well_keyed u \<Longrightarrow> find_extra_keys t (merge_spec t u) ex path = find_extra_keys t u ex path"
proof (induction t u arbitrary: ex path rule: merge_spec.induct)
  case (1 t)
  then show ?case by (simp add: extra_self del: find_extra_keys.simps) (cases t; simp)
next
  case (2 td ud)
  let ?f = "\<lambda>p. case map_of td (fst p) of None \<Rightarrow> snd p | Some tv \<Rightarrow> merge_spec tv (snd p)"
  have a: "extra_members td (map (\<lambda>p. (fst p, ?f p)) ud) ex path = extra_members td ud ex path" for ex path
  proof (rule extra_members_map)
    fix p ex path assume p: "p \<in> set ud" "map_of td (fst p) \<noteq> None"
    then obtain tv where tv: "map_of td (fst p) = Some tv" by blast
    have "well_keyed tv" "well_keyed (snd p)"
      using 2(2,3) p(1) tv by (auto simp: list_all_iff dest!: map_of_SomeD)
    with 2(1) [OF p(1) tv] tv
    show "find_extra_keys (the (map_of td (fst p))) (?f p) ex path =
          find_extra_keys (the (map_of td (fst p))) (snd p) ex path"
      by (simp del: find_extra_keys.simps)
  qed
  have b: "extra_members td (filter (\<lambda>p. fst p \<notin> set (map fst ud)) td) ex path = ex" for ex path
  proof (rule extra_members_none)
    fix p assume "p \<in> set (filter (\<lambda>p. fst p \<notin> set (map fst ud)) td)"
    then have p: "p \<in> set td" by simp
    with 2(2) have "map_of td (fst p) = Some (snd p)" "well_keyed (snd p)"
      by (auto simp: list_all_iff)
    then show "\<exists>tv. map_of td (fst p) = Some tv \<and> (\<forall>ex path. find_extra_keys tv (snd p) ex path = ex)"
      by (simp add: extra_self del: find_extra_keys.simps)
  qed
  show ?case
    by (simp only: merge_spec_objects spec_members_def find_extra_keys.simps prod.case json.case extra_members_append a b)
qed simp_all

text \<open>The file a run leaves is the merge of the template into what the file held.\<close>

lemma load_yaml_not_null: "load_yaml f \<noteq> JNull"
  by (simp add: load_yaml_def split: option.splits json.splits)

lemma load_yaml_document: "v \<noteq> JNull \<Longrightarrow> load_yaml (Some v) = v"
  by (cases v) (simp_all add: load_yaml_def)

lemma merge_spec_not_null: "u \<noteq> JNull \<Longrightarrow> merge_spec t u \<noteq> JNull"
  by (cases t; cases u) simp_all

lemma sync_file_result:
  assumes "sync_file backup report_extra template fs = (fs', r, extra)"
    and "well_keyed (load_yaml template)" "well_keyed (load_yaml (config_file fs))"
  shows "load_yaml (config_file fs') = merge_spec (load_yaml template) (load_yaml (config_file fs))"
proof -
  let ?t = "load_yaml template" and ?u = "load_yaml (config_file fs)" and ?r = "\<lparr>added_keys = [], comment_keys = []\<rparr>"
  obtain u' r' where m: "deep_merge_defaults ?t ?u ?r [] = (u', r')" by fastforce
  with deep_merge_spec_both(1) [OF assms(2,3), of ?r "[]"] have u': "u' = merge_spec ?t ?u" by simp
  show ?thesis
  proof (cases "added_keys r' = []")
    case True
    with merge_quiet [OF m] assms(1) m u' show ?thesis
      by (simp add: sync_file_def del: deep_merge_defaults.simps)
  next
    case False
    have "load_yaml (Some u') = u'"
      unfolding u' by (intro load_yaml_document merge_spec_not_null load_yaml_not_null)
    with False assms(1) m u' show ?thesis
      by (auto simp: sync_file_def Let_def simp del: deep_merge_defaults.simps)
  qed
qed

section \<open>Properties\<close>

text \<open>the merge of a template into a configuration is its reference definition: the user's members in
  their order, each merged with the template's, followed by the members only the template has.\<close>

theorem config_merge_reference:
  assumes "well_keyed template" "well_keyed user"
  shows "fst (deep_merge_defaults template user r path) = merge_spec template user"
  using assms by (rule deep_merge_spec_both)

definition sample_template :: json where
  "sample_template = JObj [(''hosts'', JNum 3), (''hdfs'', JObj [(''disk'', JStr ''hdd_0''), (''port'', JNum 9)]), (''slurm'', JBool False)]"

definition sample_config :: json where
  "sample_config = JObj [(''old'', JNum 1), (''hdfs'', JObj [(''port'', JNum 7)]), (''hosts'', JNum 5)]"

lemmas sample_defs = sample_template_def sample_config_def

theorem config_merge_reference_witness:
  "fst (deep_merge_defaults sample_template sample_config \<lparr>added_keys = [], comment_keys = []\<rparr> []) =
   JObj [(''old'', JNum 1), (''hdfs'', JObj [(''port'', JNum 7), (''disk'', JStr ''hdd_0'')]), (''hosts'', JNum 5),
         (''slurm'', JBool False)]"
  by (subst config_merge_reference) (simp_all add: sample_defs)

text \<open>C27: whatever value a user gave to a parameter, a synchronisation keeps it at its path; only a parameter
  whose value is null is replaced.\<close>

theorem sync_keeps_values:
  assumes "well_keyed (load_yaml template)" "well_keyed (load_yaml (config_file fs))"
    and "value_at (load_yaml (config_file fs)) ks = Some v" "v \<noteq> JNull" "\<not> is_mapping v"
    and "sync_file backup report_extra template fs = (fs', r, extra)"
  shows "value_at (load_yaml (config_file fs')) ks = Some v"
  using merge_spec_keeps [OF assms(3-5,1)] sync_file_result [OF assms(6,1,2)] by simp

definition sample_config_files :: config_files where
  "sample_config_files = \<lparr>config_file = Some sample_config, backup_file = None\<rparr>"

theorem sync_keeps_values_witness:
  "value_at (load_yaml (config_file (fst (sync_file True True (Some sample_template) sample_config_files)))) [''hdfs'', ''port''] =
   Some (JNum 7)"
proof -
  obtain fs' r x where s: "sync_file True True (Some sample_template) sample_config_files = (fs', r, x)"
    by (metis prod_cases3)
  then show ?thesis
    using sync_keeps_values [of "Some sample_template" sample_config_files "[''hdfs'', ''port'']" "JNum 7" True True fs' r x]
    by (simp add: sample_config_files_def load_yaml_def sample_defs)
qed

text \<open>once a configuration has been synchronised with a template whose parameters all have a value,
  synchronising again adds nothing and leaves both the file and its backup alone.\<close>

theorem second_sync_changes_nothing:
  assumes "well_keyed (load_yaml template)" "well_keyed (load_yaml (config_file fs))"
    and "no_null (load_yaml template)"
    and "sync_file backup report_extra template fs = (fs', r, extra)"
  shows "sync_file backup' report_extra' template fs' =
           (fs', \<lparr>added_keys = [], comment_keys = []\<rparr>, if report_extra' then find_extra_keys (load_yaml template) (load_yaml (config_file fs)) [] [] else [])"
proof -
  let ?t = "load_yaml template" and ?u = "load_yaml (config_file fs)" and ?r = "\<lparr>added_keys = [], comment_keys = []\<rparr>"
  have load: "load_yaml (config_file fs') = merge_spec ?t ?u"
    by (rule sync_file_result [OF assms(4,1,2)])
  have "deep_merge_defaults ?t (merge_spec ?t ?u) ?r [] = (merge_spec ?t ?u, ?r)"
    by (intro merge_covered(1) has_parameters_merge_spec assms)
  with assms(1,2) load show ?thesis
    by (simp add: sync_file_def extra_merge_spec del: deep_merge_defaults.simps find_extra_keys.simps)
qed

theorem second_sync_changes_nothing_witness:
  "sync_file True False (Some sample_template) (fst (sync_file True True (Some sample_template) sample_config_files)) =
   (fst (sync_file True True (Some sample_template) sample_config_files), \<lparr>added_keys = [], comment_keys = []\<rparr>, [])"
proof -
  obtain fs' r x where s: "sync_file True True (Some sample_template) sample_config_files = (fs', r, x)"
    by (metis prod_cases3)
  then show ?thesis
    using second_sync_changes_nothing [of "Some sample_template" sample_config_files True True fs' r x True False]
    by (simp add: sample_config_files_def load_yaml_def sample_defs)
qed

text \<open>A parameter whose default is null is added anew by every synchronisation, and the backup is overwritten.\<close>

lemma null_default_added_again:
  "sync_file True False (Some (JObj [(''k'', JNull)])) \<lparr>config_file = Some (JObj [(''k'', JNull)]), backup_file = b\<rparr> =
   (\<lparr>config_file = Some (JObj [(''k'', JNull)]), backup_file = Some (JObj [(''k'', JNull)])\<rparr>,
    \<lparr>added_keys = [''k''], comment_keys = []\<rparr>, [])"
  by (simp add: sync_file_def load_yaml_def note_added_def root_path_def child_path_def Let_def)

end
