(* ===== verification/PipPlugin.thy ===== *)
theory PipPlugin
  imports SharedFs JsonText Requests DiskAtop
begin

text \<open>
  The action plugin that runs \<open>pip\<close> once per shared file system,
  \<open>smart_sharedfs/plugins/action/pip.py\<close>: the options of its command line, the decision whether pip
  would install below the home directory, and the paths it writes.  What a remote command answers and the facts of
  the host are parameters.
\<close>

section \<open>\<open>shlex.split\<close>\<close>

text \<open>The state of the lexer: between words, in a word, in quotes, after a backslash (in a word or in double quotes).\<close>

datatype lexer_state = Between | In_Word | In_Quotes char | After_Escape "char option"

definition backslash :: char where "backslash = CHR 92"

definition lex_space :: "char \<Rightarrow> bool" where
  "lex_space c \<longleftrightarrow> c = CHR '' '' \<or> of_char c \<in> {9, 10, 13 :: nat}"

definition lex_quote :: "char \<Rightarrow> bool" where
  "lex_quote c \<longleftrightarrow> c = quote \<or> c = double_quote"

definition emit_token :: "string \<Rightarrow> bool \<Rightarrow> string list \<Rightarrow> string list" where
  "emit_token token quoted rest = (if token \<noteq> [] \<or> quoted then token # rest else rest)"

text \<open>\<open>quoted\<close> tells an empty quoted word from no word.\<close>

fun shlex_loop :: "lexer_state \<Rightarrow> string \<Rightarrow> bool \<Rightarrow> string \<Rightarrow> string list result" where
  "shlex_loop Between token quoted [] = Inr []"
| "shlex_loop Between token quoted (c # s) =
     (if lex_space c then shlex_loop Between [] False s
      else if c = backslash then shlex_loop (After_Escape None) [] False s
      else if lex_quote c then shlex_loop (In_Quotes c) [] False s
      else shlex_loop In_Word [c] False s)"
| "shlex_loop In_Word token quoted [] = Inr (emit_token token quoted [])"
| "shlex_loop In_Word token quoted (c # s) =
     (if lex_space c then rbind (shlex_loop Between [] False s) (\<lambda>ws. Inr (emit_token token quoted ws))
      else if lex_quote c then shlex_loop (In_Quotes c) token quoted s
      else if c = backslash then shlex_loop (After_Escape None) token quoted s
      else shlex_loop In_Word (token @ [c]) quoted s)"
| "shlex_loop (In_Quotes q) token quoted [] = Inl (ValueError ''No closing quotation'')"
| "shlex_loop (In_Quotes q) token quoted (c # s) =
     (if c = q then shlex_loop In_Word token True s
      else if c = backslash \<and> q = double_quote then shlex_loop (After_Escape (Some q)) token True s
      else shlex_loop (In_Quotes q) (token @ [c]) True s)"
| "shlex_loop (After_Escape e) token quoted [] = Inl (ValueError ''No escaped character'')"
| "shlex_loop (After_Escape e) token quoted (c # s) =
     (case e of
        None \<Rightarrow> shlex_loop In_Word (token @ [c]) quoted s
      | Some q \<Rightarrow> shlex_loop (In_Quotes q)
          (token @ (if c \<noteq> backslash \<and> c \<noteq> q then [backslash, c] else [c])) quoted s)"

definition shlex_split :: "string \<Rightarrow> string list result" where
  "shlex_split s = shlex_loop Between [] False s"

section \<open>Options\<close>

definition normalize_opt :: "string \<Rightarrow> string" where
  "normalize_opt option = (if starts_with ''-'' option then option else ''--'' @ option)"

definition after_equals :: "string \<Rightarrow> string" where   \<comment> \<open>\<open>tok.split('=', 1)[1]\<close>\<close>
  "after_equals tok = tl (dropWhile (\<lambda>c. c \<noteq> CHR ''='') tok)"

text \<open>The values of an option, in order; a flag without a value counts as the empty string.\<close>

fun option_values :: "string \<Rightarrow> string list \<Rightarrow> string list" where
  "option_values opt [] = []"
| "option_values opt (tok # toks) =
     (if tok = ''--'' then []
      else if starts_with (opt @ ''='') tok then after_equals tok # option_values opt toks
      else if tok = opt
      then (case toks of
              t # ts \<Rightarrow> if \<not> starts_with ''-'' t then t # option_values opt ts else [] # option_values opt toks
            | [] \<Rightarrow> [] # option_values opt toks)
      else option_values opt toks)"

definition all_option_values :: "string \<Rightarrow> string \<Rightarrow> string list result" where
  "all_option_values extra_args option =
     rbind (shlex_split extra_args) (\<lambda>tokens. Inr (option_values (normalize_opt option) tokens))"

definition extract_option_value :: "string \<Rightarrow> string \<Rightarrow> string option result" where
  "extract_option_value extra_args option =
     rbind (all_option_values extra_args option) (\<lambda>values. Inr (if values = [] then None else Some (last values)))"

section \<open>Would pip install below the home directory\<close>

text \<open>The arguments of the task, the facts of the host, and what a remote command answers.\<close>

record pip_args =
  pip_extra_args :: "string option"
  pip_virtualenv :: "string option"
  pip_environment :: "json option"       \<comment> \<open>\<open>_environment\<close>\<close>

record host_facts =
  hf_interpreter :: "string option"       \<comment> \<open>\<open>ansible_python_interpreter\<close>\<close>
  hf_executable :: "string option"        \<comment> \<open>\<open>ansible_facts.python.executable\<close>\<close>
  hf_environment :: "json option"         \<comment> \<open>\<open>environment\<close> of the play\<close>
  hf_home :: "string option"              \<comment> \<open>\<open>HOME\<close> of \<open>ansible_env\<close>\<close>

record answer =
  rc :: "int option"
  stdout :: "string option"

definition nonempty :: "string option \<Rightarrow> bool" where
  "nonempty s \<longleftrightarrow> s \<noteq> None \<and> s \<noteq> Some []"

definition or_empty :: "string option \<Rightarrow> string" where
  "or_empty s = (case s of None \<Rightarrow> [] | Some t \<Rightarrow> t)"

definition answer_rc :: "answer \<Rightarrow> int" where
  "answer_rc a = (case rc a of None \<Rightarrow> 0 | Some n \<Rightarrow> n)"

definition str_of :: "json \<Rightarrow> string" where   \<comment> \<open>\<open>str(x)\<close>\<close>
  "str_of v = (case v of JStr s \<Rightarrow> s | _ \<Rightarrow> py_repr v)"

definition env_flag :: "obj \<Rightarrow> string \<Rightarrow> bool" where   \<comment> \<open>\<open>d.get(key, False)\<close> as a condition\<close>
  "env_flag d k = jtruthy (get_or d k (JBool False))"

text \<open>The parsed output of the probe need not be an object.\<close>

definition probe_flag :: "json \<Rightarrow> string \<Rightarrow> bool result" where
  "probe_flag probe k = (case probe of JObj d \<Rightarrow> Inr (env_flag d k) | _ \<Rightarrow> Inl (AttributeError ''get''))"

text \<open>The first of several options that is given makes the answer False; they are read one after the other.\<close>

fun any_option :: "string \<Rightarrow> string list \<Rightarrow> bool result" where
  "any_option extra_args [] = Inr False"
| "any_option extra_args (opt # opts) =
     rbind (extract_option_value extra_args opt) (\<lambda>v. if v \<noteq> None then Inr True else any_option extra_args opts)"

definition env_forces_user :: "obj \<Rightarrow> bool" where
  "env_forces_user environ \<longleftrightarrow>
     strip (str_of (get_or environ ''PIP_USER'' (JStr []))) \<in> {''1'', ''true'', ''True''} \<or>
     env_flag environ ''__pip_cfg_install_user_true__'' \<or> env_flag environ ''__pip_cfg_global_user_true__''"

definition global_refused :: "json \<Rightarrow> bool result" where
  "global_refused probe =
     rbind (probe_flag probe ''is_venv'') (\<lambda>is_venv.
     if is_venv then Inr False
     else rbind (probe_flag probe ''pep668_externally_managed'') (\<lambda>managed.
       if managed then Inr True
       else rbind (probe_flag probe ''global_writable'') (\<lambda>writable. Inr (\<not> writable))))"

definition will_pip_install_to_user :: "string \<Rightarrow> string option \<Rightarrow> json \<Rightarrow> obj \<Rightarrow> bool result" where
  "will_pip_install_to_user extra_args virtualenv probe environ =
     rbind (any_option extra_args [''--target'', ''--prefix'', ''--root'']) (\<lambda>explicit.
     if explicit \<or> nonempty virtualenv then Inr False
     else rbind (extract_option_value extra_args ''--user'') (\<lambda>user.
       if user \<noteq> None \<or> env_forces_user environ then Inr True else global_refused probe))"

section \<open>The paths pip writes\<close>

definition pick_remote_python :: "host_facts \<Rightarrow> string" where
  "pick_remote_python hf =
     (if nonempty (hf_interpreter hf) then or_empty (hf_interpreter hf)
      else if nonempty (hf_executable hf) then or_empty (hf_executable hf) else ''python3'')"

text \<open>\<open>probe\<close> and \<open>command\<close> stand for the remote execution of the probe by an interpreter and of a command.\<close>

definition run_remote_python_probe :: "(string \<Rightarrow> answer) \<Rightarrow> string \<Rightarrow> json result" where
  "run_remote_python_probe probe py_exe =
     (let res = probe py_exe
      in if answer_rc res \<noteq> 0 then Inl (PyException ''Python probe failed'')
         else (case json_loads (if nonempty (stdout res) then or_empty (stdout res) else ''{}'') of
             Inr v \<Rightarrow> Inr v
           | Inl _ \<Rightarrow> Inl (PyException ''Failed to parse probe JSON'')))"

definition pip_config_argv :: "string \<Rightarrow> string \<Rightarrow> string option \<Rightarrow> string list" where
  "pip_config_argv py_exe key scope_flag =
     [py_exe, ''-m'', ''pip'', ''config''] @
     (case scope_flag of Some s \<Rightarrow> if s \<in> {''--user'', ''--global'', ''--site''} then [s] else [] | None \<Rightarrow> []) @ [''get'', key]"

definition pip_config_get :: "(string list \<Rightarrow> answer) \<Rightarrow> string \<Rightarrow> string \<Rightarrow> string option \<Rightarrow> string option" where
  "pip_config_get command py_exe key scope_flag =
     (let res = command (pip_config_argv py_exe key scope_flag); out = strip (or_empty (stdout res))
      in if answer_rc res \<noteq> 0 \<or> out = [] then None else Some (lower out))"

definition collect_pip_user_default_flags :: "(string list \<Rightarrow> answer) \<Rightarrow> string \<Rightarrow> obj" where
  "collect_pip_user_default_flags command py_exe =
     [(''__pip_cfg_install_user_true__'', JBool (pip_config_get command py_exe ''install.user'' None = Some ''true'')),
      (''__pip_cfg_global_user_true__'', JBool (pip_config_get command py_exe ''global.user'' None = Some ''true''))]"

definition build_env :: "pip_args \<Rightarrow> host_facts \<Rightarrow> obj \<Rightarrow> obj" where
  "build_env args hf extra =
     (let given = (case pip_environment args of
          Some v \<Rightarrow> if jtruthy v then v else (case hf_environment hf of Some w \<Rightarrow> w | None \<Rightarrow> JObj [])
        | None \<Rightarrow> (case hf_environment hf of Some w \<Rightarrow> w | None \<Rightarrow> JObj []));
          base = (case given of JObj d \<Rightarrow> d | _ \<Rightarrow> [])
      in dict_update base extra)"

text \<open>\<open>os.path.join(home, part)\<close> for a relative part.\<close>

definition under_home :: "string \<Rightarrow> string \<Rightarrow> string" where
  "under_home home part =
     (if home = [] \<or> last home = CHR ''/'' then home @ part else home @ ''/'' @ part)"

record pip_paths =
  path_venv :: "string option"
  path_target :: "string option"
  path_prefix :: "string option"
  path_root_dir :: "string option"
  path_user_site :: "string option"
  path_cache :: "string option"

definition user_site_of :: "string option \<Rightarrow> bool \<Rightarrow> bool result \<Rightarrow> string option result" where
  "user_site_of home user will =
     rbind (if user \<and> nonempty home then Inr True else will) (\<lambda>site.
     if \<not> site then Inr None
     else (case home of Some h \<Rightarrow> Inr (Some (under_home h ''.local'')) | None \<Rightarrow> Inl (TypeError ''os.path.join'')))"

definition infer_pip_paths ::
  "(string \<Rightarrow> answer) \<Rightarrow> (string list \<Rightarrow> answer) \<Rightarrow> pip_args \<Rightarrow> host_facts \<Rightarrow> pip_paths result" where
  "infer_pip_paths probe command args hf =
     (let extra = strip (or_empty (pip_extra_args args)); py_exe = pick_remote_python hf; home = hf_home hf
      in rbind (run_remote_python_probe probe py_exe) (\<lambda>info.
         let environ = build_env args hf (collect_pip_user_default_flags command py_exe)
         in rbind (extract_option_value extra ''--target'') (\<lambda>target.
            rbind (extract_option_value extra ''--prefix'') (\<lambda>prefix.
            rbind (extract_option_value extra ''--root'') (\<lambda>root_dir.
            rbind (user_site_of home (''--user'' \<in> set (py_split extra))
                     (will_pip_install_to_user extra (pip_virtualenv args) info environ)) (\<lambda>user_site.
            rbind (extract_option_value extra ''--cache-dir'') (\<lambda>cache.
            Inr \<lparr>path_venv = pip_virtualenv args, path_target = target, path_prefix = prefix, path_root_dir = root_dir,
                 path_user_site = user_site,
                 path_cache = (if nonempty cache then cache
                   else if nonempty home then Some (under_home (under_home (or_empty home) ''.cache'') ''pip'')
                   else None)\<rparr>)))))))"

section \<open>Running pip\<close>

definition install_targets :: "pip_paths \<Rightarrow> string list" where
  "install_targets paths =
     map or_empty (filter nonempty
       [path_venv paths, path_target paths, path_prefix paths, path_root_dir paths, path_user_site paths])"

definition pip_decision :: "task_vars \<Rightarrow> string list \<Rightarrow> decision" where
  "pip_decision tv targets =
     (if \<exists>p\<in>set targets. fst (is_shared_path tv (tv_host tv) p)
      then (case elect_leader tv (tv_play_hosts tv) (hd targets) of
              Some (sid, leader) \<Rightarrow>
                if leader \<noteq> Some (tv_host tv) then Skip sid (case leader of Some l \<Rightarrow> l | None \<Rightarrow> ''None'') else Execute
            | None \<Rightarrow> Execute)
      else Execute)"

definition pip_run ::
  "task_vars \<Rightarrow> (string \<Rightarrow> answer) \<Rightarrow> (string list \<Rightarrow> answer) \<Rightarrow> pip_args \<Rightarrow> host_facts \<Rightarrow> decision result" where
  "pip_run tv probe command args hf =
     (if \<not> tv_enabled tv then Inr Execute
      else rbind (infer_pip_paths probe command args hf) (\<lambda>paths. Inr (pip_decision tv (install_targets paths))))"

section \<open>The command line\<close>

definition lex_plain :: "string \<Rightarrow> bool" where
  "lex_plain w \<longleftrightarrow> w \<noteq> [] \<and> list_all (\<lambda>c. \<not> lex_space c \<and> c \<noteq> backslash \<and> \<not> lex_quote c) w"

lemma shlex_in_word:
  assumes "list_all (\<lambda>c. \<not> lex_space c \<and> c \<noteq> backslash \<and> \<not> lex_quote c) w"
  shows "shlex_loop In_Word token quoted (w @ s) = shlex_loop In_Word (token @ w) quoted s"
  using assms by (induction w arbitrary: token) auto

lemma shlex_word:
  assumes "lex_plain w"
  shows "shlex_loop Between token quoted (w @ s) = shlex_loop In_Word w False s"
  using assms by (cases w) (auto simp: lex_plain_def shlex_in_word)

text \<open>Plain words separated by blanks are read back as they are.\<close>

lemma shlex_split_join:
  "list_all lex_plain ws \<Longrightarrow> shlex_split (join '' '' ws) = Inr ws"
proof -
  have "list_all lex_plain ws \<Longrightarrow> shlex_loop Between token quoted (join '' '' ws) = Inr ws" for token quoted
  proof (induction ws arbitrary: token quoted)
    case (Cons w ws)
    show ?case
    proof (cases ws)
      case Nil
      with Cons show ?thesis using shlex_word [of w token quoted "[]"] by (simp add: emit_token_def lex_plain_def)
    next
      case (Cons v vs)
      with Cons.prems Cons.IH show ?thesis
        using shlex_word [of w token quoted "'' '' @ join '' '' ws"]
        by (simp add: emit_token_def lex_plain_def lex_space_def)
    qed
  qed simp
  then show "list_all lex_plain ws \<Longrightarrow> shlex_split (join '' '' ws) = Inr ws" by (simp add: shlex_split_def)
qed

lemma not_longer_start: "\<not> starts_with (opt @ ''='') opt"
  by (simp add: starts_with_def)

lemma option_values_step:
  "tok \<noteq> ''--'' \<Longrightarrow> starts_with (opt @ ''='') tok \<Longrightarrow>
   option_values opt (tok # toks) = after_equals tok # option_values opt toks"
  "opt \<noteq> ''--'' \<Longrightarrow> toks = [] \<or> starts_with ''-'' (hd toks) \<Longrightarrow>
   option_values opt (opt # toks) = [] # option_values opt toks"
  "opt \<noteq> ''--'' \<Longrightarrow> \<not> starts_with ''-'' t \<Longrightarrow> option_values opt (opt # t # ts) = t # option_values opt ts"
  "tok \<noteq> ''--'' \<Longrightarrow> \<not> starts_with (opt @ ''='') tok \<Longrightarrow> tok \<noteq> opt \<Longrightarrow>
   option_values opt (tok # toks) = option_values opt toks"
  by (simp_all add: not_longer_start) (cases toks; simp add: not_longer_start)

lemma option_values_append:
  assumes "''--'' \<notin> set toks" "starts_with ''-'' t"
  shows "option_values opt (toks @ [t]) = option_values opt toks @ option_values opt [t]"
  using assms(1)
proof (induction toks rule: length_induct)
  case (1 toks)
  show ?case
  proof (cases toks)
    case (Cons tok ts)
    have IH: "option_values opt (ts @ [t]) = option_values opt ts @ option_values opt [t]"
      using 1 Cons by simp
    have ne: "tok \<noteq> ''--''" "''--'' \<notin> set ts" using 1(2) Cons by auto
    consider "starts_with (opt @ ''='') tok" | "tok = opt" "ts = [] \<or> starts_with ''-'' (hd ts)"
      | v vs where "tok = opt" "ts = v # vs" "\<not> starts_with ''-'' v"
      | "\<not> starts_with (opt @ ''='') tok" "tok \<noteq> opt" by (cases ts) auto
    then show ?thesis
    proof cases
      case 2
      then have "ts @ [t] = [] \<or> starts_with ''-'' (hd (ts @ [t]))" using assms(2) by (cases ts) auto
      with 2 ne IH option_values_step(2) [of opt ts] option_values_step(2) [of opt "ts @ [t]"]
      show ?thesis by (simp add: Cons del: option_values.simps)
    next
      case (3 v vs)
      have "option_values opt (vs @ [t]) = option_values opt vs @ option_values opt [t]"
        using 1 Cons 3 ne by simp
      with 3 ne option_values_step(3) [of opt v] show ?thesis by (simp add: Cons del: option_values.simps)
    qed (use ne IH in \<open>simp_all add: Cons option_values_step(1,4) del: option_values.simps\<close>)
  qed simp
qed

lemma after_equals_option: "CHR ''='' \<notin> set opt \<Longrightarrow> after_equals (opt @ ''='' @ v) = v"
  by (simp add: after_equals_def dropWhile_append)

section \<open>Properties\<close>

text \<open>of a command line of plain words, an option given last with a value is the one that is used, whatever
  the words before it.\<close>

theorem last_option_used:
  assumes "list_all lex_plain words" "''--'' \<notin> set words" "lex_plain (normalize_opt option)" "CHR ''='' \<notin> set option"
    and "normalize_opt option \<noteq> ''--''" "lex_plain (CHR ''='' # v)"
  shows "extract_option_value (join '' '' (words @ [normalize_opt option @ ''='' @ v])) option = Inr (Some v)"
proof -
  let ?opt = "normalize_opt option"
  have dash: "starts_with ''-'' (?opt @ ''='' @ v)"
    by (cases option) (auto simp: normalize_opt_def starts_with_def)
  have eq: "CHR ''='' \<notin> set ?opt" using assms(4) by (auto simp: normalize_opt_def)
  have "CHR ''='' \<in> set (?opt @ ''='' @ v)" "CHR ''='' \<notin> set ''--''" by simp_all
  then have "?opt @ ''='' @ v \<noteq> ''--''" by metis
  moreover have "starts_with (?opt @ ''='') (?opt @ ''='' @ v)" by (simp add: starts_with_def)
  ultimately have "option_values ?opt [?opt @ ''='' @ v] = [v]"
    using after_equals_option [OF eq, of v] by (simp add: option_values_step(1) del: append_Cons)
  moreover have "lex_plain (?opt @ ''='' @ v)" using assms(3,6) by (auto simp: lex_plain_def)
  then have "shlex_split (join '' '' (words @ [?opt @ ''='' @ v])) = Inr (words @ [?opt @ ''='' @ v])"
    using assms(1) by (intro shlex_split_join) simp
  ultimately show ?thesis
    using option_values_append [OF assms(2) dash, of ?opt]
    by (simp add: extract_option_value_def all_option_values_def)
qed

theorem last_option_used_witness:
  "extract_option_value ''-q --target /a --target=/b'' ''target'' = Inr (Some ''/b'')"
  using last_option_used [of "[''-q'', ''--target'', ''/a'']" "''target''" "''/b''"]
  by (simp add: normalize_opt_def starts_with_def lex_plain_def lex_space_def lex_quote_def backslash_def quote_def double_quote_def)

lemma share_of_host [simp]: "share_of (tv\<lparr>tv_host := g\<rparr>) dest x = share_of tv dest x"
  by (simp add: share_of_def is_shared_path_def shared_types_def cong: option.case_cong list.case_cong)

text \<open>The election is over the first target, whether or not it is the shared one.\<close>

lemma pip_decision_first:
  assumes "targets \<noteq> []" "tv_host tv \<in> set (tv_play_hosts tv)"
  shows "pip_decision tv targets = Execute \<longleftrightarrow>
    (\<forall>sid. share_of tv (hd targets) (tv_host tv) = Some sid \<longrightarrow>
       tv_host tv = Min {x \<in> set (tv_play_hosts tv). share_of tv (hd targets) x = Some sid})"
proof (cases "share_of tv (hd targets) (tv_host tv)")
  case None
  with assms show ?thesis by (simp add: pip_decision_def elect_leader_spec)
next
  case (Some sid)
  then have "fst (is_shared_path tv (tv_host tv) (hd targets))"
    by (auto simp: share_of_def split: prod.splits bool.splits)
  with assms(1) have "\<exists>p\<in>set targets. fst (is_shared_path tv (tv_host tv) p)" by (meson hd_in_set)
  with Some assms show ?thesis by (auto simp: pip_decision_def elect_leader_spec)
qed

text \<open>when every host of the play installs into the same first target, the module runs on exactly one of the
  hosts of each share of that target, and on every host for which it is local.\<close>

theorem pip_one_leader_per_share:
  assumes "tv_enabled tv" "h \<in> set (tv_play_hosts tv)"
    and "\<And>g. g \<in> set (tv_play_hosts tv) \<Longrightarrow>
      \<exists>paths rest. infer_pip_paths (probe g) (command g) args (facts g) = Inr paths \<and> install_targets paths = dest # rest"
  shows "case share_of tv dest h of
      None \<Rightarrow> pip_run (tv\<lparr>tv_host := h\<rparr>) (probe h) (command h) args (facts h) = Inr Execute
    | Some sid \<Rightarrow> \<exists>!g. g \<in> set (tv_play_hosts tv) \<and> share_of tv dest g = Some sid \<and>
        pip_run (tv\<lparr>tv_host := g\<rparr>) (probe g) (command g) args (facts g) = Inr Execute"
proof -
  have run: "pip_run (tv\<lparr>tv_host := g\<rparr>) (probe g) (command g) args (facts g) = Inr Execute \<longleftrightarrow>
      (\<forall>sid. share_of tv dest g = Some sid \<longrightarrow>
        g = Min {x \<in> set (tv_play_hosts tv). share_of tv dest x = Some sid})"
    if g: "g \<in> set (tv_play_hosts tv)" for g
  proof -
    from assms(3) [OF g] obtain paths rest where
      p: "infer_pip_paths (probe g) (command g) args (facts g) = Inr paths" "install_targets paths = dest # rest" by blast
    with assms(1) g pip_decision_first [of "dest # rest" "tv\<lparr>tv_host := g\<rparr>"] show ?thesis
      by (simp add: pip_run_def)
  qed
  show ?thesis
  proof (cases "share_of tv dest h")
    case None
    then show ?thesis using run [OF assms(2)] by simp
  next
    case (Some sid)
    let ?S = "{x \<in> set (tv_play_hosts tv). share_of tv dest x = Some sid}"
    have "Min ?S \<in> ?S" using Some assms(2) by (intro Min_in) auto
    then have "\<exists>!g. g \<in> set (tv_play_hosts tv) \<and> share_of tv dest g = Some sid \<and>
        pip_run (tv\<lparr>tv_host := g\<rparr>) (probe g) (command g) args (facts g) = Inr Execute"
      using run by (intro ex1I [of _ "Min ?S"]) auto
    with Some show ?thesis by simp
  qed
qed

definition sample_pip :: pip_args where
  "sample_pip = \<lparr>pip_extra_args = None, pip_virtualenv = Some ''/home/venv'', pip_environment = None\<rparr>"

definition sample_facts :: host_facts where
  "sample_facts = \<lparr>hf_interpreter = None, hf_executable = None, hf_environment = None, hf_home = Some ''/home/u''\<rparr>"

definition silent_answer :: answer where
  "silent_answer = \<lparr>rc = None, stdout = None\<rparr>"

lemma sample_pip_paths:
  "\<exists>paths. infer_pip_paths (\<lambda>_. silent_answer) (\<lambda>_. silent_answer) sample_pip sample_facts = Inr paths \<and>
     install_targets paths = [''/home/venv'']"
  by (simp add: infer_pip_paths_def sample_pip_def sample_facts_def silent_answer_def run_remote_python_probe_def
      answer_rc_def nonempty_def or_empty_def json_loads_def skip_space_def strip_def strip_when_def extract_option_value_def
      all_option_values_def shlex_split_def user_site_of_def py_split_def will_pip_install_to_user_def under_home_def
      install_targets_def Let_def double_quote_def)

theorem pip_one_leader_per_share_witness:
  "case share_of (sample_vars ''c1'') ''/home/venv'' ''c2'' of
      None \<Rightarrow> pip_run ((sample_vars ''c1'')\<lparr>tv_host := ''c2''\<rparr>) (\<lambda>_. silent_answer) (\<lambda>_. silent_answer) sample_pip sample_facts = Inr Execute
    | Some sid \<Rightarrow> \<exists>!g. g \<in> set (tv_play_hosts (sample_vars ''c1'')) \<and> share_of (sample_vars ''c1'') ''/home/venv'' g = Some sid \<and>
        pip_run ((sample_vars ''c1'')\<lparr>tv_host := g\<rparr>) (\<lambda>_. silent_answer) (\<lambda>_. silent_answer) sample_pip sample_facts = Inr Execute"
proof (rule pip_one_leader_per_share [where probe = "\<lambda>_ _. silent_answer" and command = "\<lambda>_ _. silent_answer"
      and facts = "\<lambda>_. sample_facts"])
  fix g assume "g \<in> set (tv_play_hosts (sample_vars ''c1''))"
  show "\<exists>paths rest. infer_pip_paths (\<lambda>_. silent_answer) (\<lambda>_. silent_answer) sample_pip sample_facts = Inr paths \<and>
      install_targets paths = ''/home/venv'' # rest"
    using sample_pip_paths by blast
qed (simp_all add: sample_vars_def)

text \<open>With a virtual environment on a local disk and an explicit target on a share, every host writes the share.\<close>

lemma shared_second_target_runs_everywhere:
  assumes "share_of tv d (tv_host tv) = None" "tv_host tv \<in> set (tv_play_hosts tv)"
  shows "pip_decision tv (d # rest) = Execute"
  using pip_decision_first [of "d # rest" tv] assms by simp

text \<open>Without \<open>HOME\<close> among the facts, an installation pip would make below the home directory stops the task.\<close>

lemma no_home_raises:
  "user_site_of None user (Inr True) = Inl (TypeError ''os.path.join'')"
  by (simp add: user_site_of_def nonempty_def)

end
