(* ===== verification/HdfsViews.thy ===== *)
theory HdfsViews
  imports HostViews HadoopTasks DiskAtop
begin

text \<open>
  The page of the global HDFS and the operations that start and stop it (\<open>ui/views/hdfs\<close>), and the views of the
  page of applications that start the monitor of its replication (\<open>ui/views/apps/views.py\<close>).  The browser that
  reads the page of the name node is not modelled; whether it is closing is a parameter.
\<close>

section \<open>Containers of the global HDFS\<close>

text \<open>The resources of the two kinds of node, by node and by resource, with the defaults filled in.\<close>

type_synonym node_config = "obj dict dict"

definition fill_node_config :: "node_config \<Rightarrow> node_config result" where
  "fill_node_config = mapR (\<lambda>(node_type, res). rbind (fill_master res) (\<lambda>res'. Inr (node_type, res')))"

definition platform_flag :: "env \<Rightarrow> string \<Rightarrow> bool result" where
  "platform_flag E key = rbind (item (env_platform E) key) (\<lambda>v. Inr (jtruthy v))"

definition platform_text :: "env \<Rightarrow> string \<Rightarrow> string result" where
  "platform_text E key = rbind (item (env_platform E) key) jstr"

definition node_resource :: "node_config \<Rightarrow> string \<Rightarrow> string \<Rightarrow> obj result" where
  "node_resource conf node_type res = rbind (item conf node_type) (\<lambda>d. item d res)"

text \<open>\<open>container[f"{res}_{key}"] = ...[res][key]\<close> for several keys.\<close>

definition copy_keys :: "string \<Rightarrow> obj \<Rightarrow> string list \<Rightarrow> obj \<Rightarrow> obj result" where
  "copy_keys res d =
     foldR (\<lambda>key c. rbind (item d key) (\<lambda>v. Inr (AList.update (res @ ''_'' @ key) v c)))"

definition core_fields :: "node_config \<Rightarrow> string \<Rightarrow> obj \<Rightarrow> obj result" where
  "core_fields conf node_type =
     foldR (\<lambda>res c. rbind (node_resource conf node_type res) (\<lambda>d.
       copy_keys res d [''max'', ''min'', ''weight'', ''boundary'', ''boundary_type''] c)) [''cpu'', ''mem'']"

definition hdfs_disk_fields :: "node_config \<Rightarrow> string \<Rightarrow> obj \<Rightarrow> obj \<Rightarrow> obj result" where
  "hdfs_disk_fields conf node_type disk_doc =
     foldR (\<lambda>res c. rbind (node_resource conf node_type res) (\<lambda>d.
       rbind (if has_key d ''max'' then item d ''max'' else item disk_doc (''max_'' @ drop 5 res)) (\<lambda>v.
       copy_keys res d [''min'', ''weight'', ''boundary'', ''boundary_type''] (AList.update (res @ ''_max'') v c))))
       [''disk_read'', ''disk_write'']"

definition host_resources :: "obj \<Rightarrow> obj result" where
  "host_resources h = rbind (item h ''resources'') jobj"

definition host_disks :: "obj \<Rightarrow> obj result" where
  "host_disks h = rbind (host_resources h) (\<lambda>r. rbind (item r ''disks'') jobj)"

definition uses_disks :: "env \<Rightarrow> obj \<Rightarrow> bool result" where
  "uses_disks E h =
     andR (platform_flag E ''disk_capabilities'') (andR (platform_flag E ''disk_scaling'')
       (rbind (host_resources h) (\<lambda>r. if has_key r ''disks'' then rbind (host_disks h) (\<lambda>d. Inr (d \<noteq> [])) else Inr False)))"

definition host_name_of :: "obj \<Rightarrow> string result" where
  "host_name_of h = rbind (item h ''name'') jstr"

definition node_base :: "string \<Rightarrow> node_config \<Rightarrow> string \<Rightarrow> obj \<Rightarrow> obj result" where
  "node_base name_prefix conf node_type h =
     rbind (host_name_of h) (\<lambda>n.
     core_fields conf node_type [(''container_name'', JStr (name_prefix @ [HOST_CONTAINER_SEPARATOR] @ n)), (''host'', JStr n)])"

definition namenode_spec :: "env \<Rightarrow> node_config \<Rightarrow> string \<Rightarrow> obj \<Rightarrow> obj result" where
  "namenode_spec E conf name_prefix h =
     rbind (node_base name_prefix conf ''namenode'' h) (\<lambda>c. rbind (uses_disks E h) (\<lambda>disks.
     if \<not> disks then Inr c
     else rbind (platform_text E ''global_hdfs_disk_name'') (\<lambda>disk. rbind (host_disks h) (\<lambda>ds.
       case map_of ds disk of
         None \<Rightarrow> Inr c
       | Some v \<Rightarrow> rbind (jobj v) (\<lambda>disk_doc. rbind (item disk_doc ''path'') (\<lambda>p.
           hdfs_disk_fields conf ''namenode'' disk_doc
             (AList.update ''disk_path'' p (AList.update ''disk'' (JStr disk) c))))))))"

text \<open>A data node takes the first disk that is not the name node's.\<close>

definition datanode_spec :: "env \<Rightarrow> node_config \<Rightarrow> string \<Rightarrow> obj \<Rightarrow> obj result" where
  "datanode_spec E conf name_prefix h =
     rbind (node_base name_prefix conf ''datanode'' h) (\<lambda>c. rbind (uses_disks E h) (\<lambda>disks.
     if \<not> disks then Inr c
     else rbind (platform_text E ''global_hdfs_disk_name'') (\<lambda>hdfs_disk. rbind (host_disks h) (\<lambda>ds.
       case List.find (\<lambda>p. fst p \<noteq> hdfs_disk) ds of
         None \<Rightarrow> Inl (KeyError ''None'')
       | Some (disk, v) \<Rightarrow> rbind (jobj v) (\<lambda>disk_doc. rbind (rbind (item disk_doc ''path'') jstr) (\<lambda>p.
           rbind (rbind (item (env_vars E) ''bind_dir_name'') jstr) (\<lambda>bind_dir.
           rbind (rbind (item c ''container_name'') jstr) (\<lambda>n.
           hdfs_disk_fields conf ''datanode'' disk_doc
             (AList.update ''disk_path'' (JStr (join ''/'' [p, bind_dir, n])) (AList.update ''disk'' (JStr disk) c))))))))))"

text \<open>The host of the name node: the server when it is a host, and the first host otherwise.\<close>

fun find_host :: "string \<Rightarrow> obj list \<Rightarrow> obj result" where
  "find_host n [] = Inl (UnboundLocalError ''host'')"
| "find_host n (h # hs) = rbind (item h ''name'') (\<lambda>v. if v = JStr n then Inr h else find_host n hs)"

text \<open>The server has no data node when it is \<open>reserved\<close> for master containers.\<close>

definition add_datanode :: "env \<Rightarrow> node_config \<Rightarrow> string option \<Rightarrow> string \<Rightarrow> obj \<Rightarrow> obj list \<Rightarrow> obj list result" where
  "add_datanode E conf reserved name_prefix h containers =
     rbind (case reserved of None \<Rightarrow> Inr False | Some n \<Rightarrow> rbind (item h ''name'') (\<lambda>v. Inr (v = JStr n))) (\<lambda>skip.
     if skip then Inr containers
     else rbind (datanode_spec E conf name_prefix h) (\<lambda>c. Inr (containers @ [c])))"

definition hdfs_containers ::
  "env \<Rightarrow> node_config \<Rightarrow> string result \<Rightarrow> string \<Rightarrow> string \<Rightarrow> obj list \<Rightarrow> obj list result" where
  "hdfs_containers E conf server nn_prefix dn_prefix hosts =
     (if hosts = [] then Inr []
      else rbind (platform_flag E ''server_as_host'') (\<lambda>as_host.
        rbind (if as_host then rbind server (\<lambda>n. Inr (Some n)) else Inr None) (\<lambda>server_name.
        rbind (case server_name of Some n \<Rightarrow> find_host n hosts | None \<Rightarrow> Inr (hd hosts)) (\<lambda>nn_host.
        rbind (namenode_spec E conf nn_prefix nn_host) (\<lambda>namenode.
        rbind (if as_host then platform_flag E ''reserve_server_for_master'' else Inr False) (\<lambda>reserve.
        foldR (add_datanode E conf (if reserve then server_name else None) dn_prefix) hosts [namenode])))))) "

section \<open>Starting and stopping\<close>

definition hdfs_app_files :: "string \<Rightarrow> obj" where
  "hdfs_app_files app_name =
     [(''app_dir'', JStr (''base/'' @ app_name)), (''app_type'', JStr ''hadoop_app''), (''runtime_files'', JStr ''runtime_files'')] @
     map (\<lambda>k. (k, JStr [])) [''start_script'', ''stop_script'', ''install_script'', ''install_files'', ''output_dir'']"

text \<open>The sum of a bound over the containers that have both.\<close>

definition add_bounds :: "string \<Rightarrow> obj \<Rightarrow> rat \<times> rat \<Rightarrow> (rat \<times> rat) result" where
  "add_bounds res c s =
     (case (map_of c (res @ ''_max''), map_of c (res @ ''_min'')) of
        (Some a, Some b) \<Rightarrow> rbind (jnum a) (\<lambda>x. rbind (jnum b) (\<lambda>y. Inr (fst s + x, snd s + y)))
      | _ \<Rightarrow> Inr s)"

definition hdfs_app_resource :: "obj list \<Rightarrow> string \<Rightarrow> (string \<times> json) result" where
  "hdfs_app_resource containers res =
     rbind (foldR (add_bounds res) containers (0, 0)) (\<lambda>(hi, lo).
     Inr (res, JObj [(''max'', JNum hi), (''min'', JNum lo), (''guard'', JStr ''false''), (''weight'', default_weight)]))"

definition hdfs_put_data :: "string \<Rightarrow> string list \<Rightarrow> obj list \<Rightarrow> obj result" where
  "hdfs_put_data app_name resources containers =
     rbind (mapR (hdfs_app_resource containers) resources) (\<lambda>rs.
     Inr [(''app'', JObj ([(''name'', JStr app_name), (''resources'', JObj rs), (''guard'', JBool False),
            (''subtype'', JStr ''application''), (''install_script'', JStr []), (''start_script'', JStr []), (''stop_script'', JStr []),
            (''install_files'', JStr []), (''runtime_files'', JStr ''runtime_files''), (''output_dir'', JStr []),
            (''framework'', JStr ''hadoop'')])),
          (''limits'', JObj [(''resources'', JObj (map (\<lambda>r. (r, JObj [(''boundary'', default_boundary),
            (''boundary_type'', default_boundary_type)])) resources))])])"

text \<open>The name of the application that is passed is replaced by the configured one.  \<open>conf0\<close> is the file
  \<open>apps/base/global_hdfs/resource_config.yml\<close>.\<close>

definition start_global_hdfs ::
  "env \<Rightarrow> node_config \<Rightarrow> string \<Rightarrow> string list \<Rightarrow> string \<Rightarrow> string \<Rightarrow> string m" where
  "start_global_hdfs E conf0 url resources nn_prefix dn_prefix =
     bindM (bindM (getDbData E url) (\<lambda>v. liftR (data_items v))) (\<lambda>items.
     bindM (liftR (host_docs items)) (\<lambda>hosts.
     bindM (liftR (fill_node_config conf0)) (\<lambda>conf.
     bindM (inspect server_name) (\<lambda>server.
     bindM (liftR (hdfs_containers E conf server nn_prefix dn_prefix hosts)) (\<lambda>containers.
     if containers = [] then raiseM (PyException ''Cannot create any containers for HDFS cluster'')
     else bindM (config_flag E ''virtual_mode'') (\<lambda>virtual_cluster.
       bindM (config_text (env_vars E) ''global_hdfs_app_name'') (\<lambda>app_name.
       bindM (liftR (hdfs_put_data app_name resources containers)) (\<lambda>put_field_data.
       thenM (run_later E (app_name @ ''_app_task'') (Call ''start_global_hdfs_task''
                [JStr (url @ ''apps/'' @ app_name), JStr app_name, JObj (hdfs_app_files app_name), jobjs containers,
                 JBool virtual_cluster, JObj put_field_data, jobjs hosts]))
         (returnM []))))))))) "

text \<open>The first container that is named like a name node.\<close>

fun find_namenode :: "string \<Rightarrow> obj list \<Rightarrow> (json \<times> json) option result" where
  "find_namenode nn_prefix [] = Inr None"
| "find_namenode nn_prefix (c # cs) =
     rbind (rbind (item c ''name'') jstr) (\<lambda>n.
     if contains nn_prefix n then rbind (item c ''host'') (\<lambda>h. Inr (Some (h, JStr n))) else find_namenode nn_prefix cs)"

definition stop_global_hdfs :: "env \<Rightarrow> string \<Rightarrow> string \<Rightarrow> string \<Rightarrow> string m" where
  "stop_global_hdfs E app_name url nn_prefix =
     bindM (getDataAndFilterByApp E url app_name) (\<lambda>(items, a).
     bindM (liftR (app_container_docs items a)) (\<lambda>container_list.
     bindM (liftR (app_files_doc a)) (\<lambda>app_files.
     bindM (getScalerPollFreq E) (\<lambda>scaler_polling_freq.
     bindM (liftR (find_namenode nn_prefix container_list)) (\<lambda>namenode.
     case namenode of
       None \<Rightarrow> thenM (run_later E ''remove_app_task'' (Call ''remove_app_task''
                  [JStr url, JStr ''apps'', JStr app_name, jobjs container_list, JObj app_files]))
                (returnM ''Missing namenode container on hdfs app'')
     | Some (rm_host, rm_container) \<Rightarrow>
         thenM (run_later E ''stop_hdfs_task'' (Call ''stop_hdfs_task''
                  [JStr url, JStr app_name, JObj app_files, jobjs container_list, scaler_polling_freq, rm_host, rm_container]))
           (returnM []))))))"

section \<open>The page of the HDFS\<close>

text \<open>The host and container of the name node when the HDFS can be used; \<open>closing\<close> tells that the browser is being closed.\<close>

definition ready_namenode :: "env \<Rightarrow> bool \<Rightarrow> (string \<times> string) option m" where
  "ready_namenode E closing =
     bindM (bindM (getDbData E (env_base_url E @ ''/structure/'')) (\<lambda>v. liftR (data_items v))) (\<lambda>items.
     bindM (getApps E items) (\<lambda>apps.
     liftR (rbind (retrieve_global_hdfs_app E apps) (\<lambda>(a, namenode, _).
       case namenode of
         None \<Rightarrow> Inr None
       | Some c \<Rightarrow> if c = [] then Inr None
           else rbind (rbind (item c ''name'') jstr) (\<lambda>n. rbind (rbind (item c ''host'') jstr) (\<lambda>h.
             Inr (if a \<noteq> None \<and> a \<noteq> Some [] \<and> h \<noteq> [] \<and> \<not> closing then Some (h, n) else None)))))))"

text \<open>The error of a request; \<open>None\<close> without a known operation.\<close>

definition hdfs_operation :: "env \<Rightarrow> post \<Rightarrow> string \<Rightarrow> string \<Rightarrow> string option m" where
  "hdfs_operation E p namenode_host namenode_container =
     (case post_get p ''operation'' of
        None \<Rightarrow> returnM None
      | Some op \<Rightarrow>
          if op = ''add_dir'' then bindM (addDirHDFS E p namenode_host namenode_container) (\<lambda>e. returnM (Some e))
          else if op = ''add_file'' then bindM (addFileHDFS E p namenode_host namenode_container) (\<lambda>e. returnM (Some e))
          else if op = ''get_file'' then bindM (getFileHDFS E p namenode_host namenode_container) (\<lambda>e. returnM (Some e))
          else if op = ''del_file'' then bindM (removeFileHDFS E p namenode_host namenode_container) (\<lambda>e. returnM (Some e))
          else returnM None)"

text \<open>\<open>redirect_with_errors('hdfs', error)\<close>: the text is passed where a list of texts is expected, so each of its
  characters is an error.\<close>

definition redirect_with_text :: "string option \<Rightarrow> string result" where
  "redirect_with_text error =
     (case error of None \<Rightarrow> Inl (TypeError ''len'') | Some s \<Rightarrow> Inr (redirect_query (map (\<lambda>c. [c]) s)))"

definition hdfs_post :: "env \<Rightarrow> post \<Rightarrow> string \<Rightarrow> string \<Rightarrow> string m" where
  "hdfs_post E p namenode_host namenode_container =
     bindM (hdfs_operation E p namenode_host namenode_container) (\<lambda>error. liftR (redirect_with_text error))"

definition manage_global_hdfs :: "env \<Rightarrow> node_config \<Rightarrow> post \<Rightarrow> string m" where
  "manage_global_hdfs E conf p =
     bindM (liftR (andR (platform_flag E ''disk_capabilities'') (platform_flag E ''disk_scaling''))) (\<lambda>disks.
     bindM (config_text (env_vars E) ''global_hdfs_app_name'') (\<lambda>app_name.
     bindM (liftR (post_item p ''manage_global_hdfs'')) (\<lambda>state.
     let url = env_base_url E @ ''/structure/''
     in thenM (bindM (if state = ''hdfs_on''
                 then start_global_hdfs E conf url ([''cpu'', ''mem''] @ (if disks then [''disk_read'', ''disk_write''] else []))
                        ''namenode'' ''datanode''
                 else stop_global_hdfs E app_name url ''namenode'') (\<lambda>_. returnM ()))
          (returnM ''hdfs''))))"

section \<open>The output of \<open>hdfs dfs -ls -R\<close>\<close>

record hdfs_entry =
  e_permissions :: string
  e_replication :: string
  e_owner :: string
  e_group :: string
  e_size :: string
  e_last_update :: string
  e_full_path :: string
  e_parent_dir :: string
  e_name :: string

text \<open>A line has eight fields, or nine when the size has a unit.\<close>

definition parse_entry :: "string \<Rightarrow> hdfs_entry result" where
  "parse_entry output =
     (let ws = py_split output; k = (if length ws < 9 then 0 else 1)
      in if length ws < 8 then Inl IndexError
         else Inr \<lparr>e_permissions = ws ! 0, e_replication = ws ! 1, e_owner = ws ! 2, e_group = ws ! 3,
                e_size = (if k = 0 then ws ! 4 else ws ! 4 @ ws ! 5),
                e_last_update = ws ! (5 + k) @ '' - '' @ ws ! (6 + k), e_full_path = ws ! (7 + k),
                e_parent_dir = [], e_name = []\<rparr>)"

definition in_tmp :: "string \<Rightarrow> bool" where
  "in_tmp p \<longleftrightarrow> (let ws = split_on CHR ''/'' p in 1 < length ws \<and> ws ! 1 = ''tmp'')"

definition parent_for :: "string \<Rightarrow> string \<Rightarrow> hdfs_entry list \<Rightarrow> string" where
  "parent_for parent_dir p filesystem =
     (if contains parent_dir p then parent_dir
      else (case List.find (\<lambda>e. contains (e_parent_dir e) p) (rev filesystem) of
              None \<Rightarrow> parent_dir | Some e \<Rightarrow> e_parent_dir e))"

definition add_hdfs_entry :: "string \<Rightarrow> string \<times> hdfs_entry list \<Rightarrow> (string \<times> hdfs_entry list) result" where
  "add_hdfs_entry output s =
     (case s of (parent_dir, filesystem) \<Rightarrow>
      rbind (parse_entry output) (\<lambda>e.
      if in_tmp (e_full_path e) then Inr s
      else let d = parent_for parent_dir (e_full_path e) filesystem
           in Inr (if starts_with ''d'' (e_permissions e) then e_full_path e @ ''/'' else d,
                   filesystem @ [e\<lparr>e_parent_dir := d, e_name := replace_all d [] (e_full_path e)\<rparr>])))"

definition entries_via_ansible :: "string option \<Rightarrow> hdfs_entry list result" where
  "entries_via_ansible output_lines =
     (if \<not> (\<exists>s. output_lines = Some s \<and> s \<noteq> []) then Inr []
      else rbind (foldR add_hdfs_entry (split_on (CHR 10) (the output_lines)) (''/'', [])) (\<lambda>(_, filesystem). Inr filesystem))"

section \<open>Views of the applications\<close>

text \<open>The metrics of the link to OpenTSDB.\<close>

definition metric_query :: "string list \<Rightarrow> string \<Rightarrow> string \<Rightarrow> string" where
  "metric_query app_list res reading =
     ''&m=sum:structure.'' @ res @ ''.'' @ reading @ ''%7B'' @ concat (map (\<lambda>a. ''structure='' @ a @ '','') (butlast app_list)) @
     ''structure='' @ last app_list @ ''%7D&o=''"

definition metrics_query :: "bool \<Rightarrow> string list \<Rightarrow> string" where
  "metrics_query disks app_list =
     (if app_list = [] then []
      else concat (map (\<lambda>res. concat (map (metric_query app_list res) [''current'', ''usage'']))
             ([''cpu''] @ (if disks then [''disk_read'', ''disk_write''] else []))))"

definition opentsdb_link :: "env \<Rightarrow> string \<Rightarrow> string list \<Rightarrow> string result" where
  "opentsdb_link E now app_list =
     rbind (andR (platform_flag E ''disk_capabilities'') (platform_flag E ''disk_scaling'')) (\<lambda>disks.
     rbind (platform_flag E ''virtual_mode'') (\<lambda>virtual.
     rbind (if virtual then rbind (item (env_platform E) ''opentsdb_url'') (\<lambda>v. Inr (str_value v)) else Inr ''127.0.0.1'') (\<lambda>url.
     rbind (item (env_platform E) ''opentsdb_port'') (\<lambda>port.
     Inr (''http://'' @ url @ '':'' @ str_value port @ ''/#start='' @ now @ metrics_query disks app_list @
          ''&yrange=%5B0:%5D&wxh=1600x724&style=linespoint&autoreload=5'')))))"

definition apps_stop_switch :: "env \<Rightarrow> string \<Rightarrow> string m" where
  "apps_stop_switch E app_name =
     thenM (bindM (processStopApp E (env_base_url E @ ''/structure/'') app_name) (\<lambda>_. returnM ())) (returnM ''apps'')"

text \<open>The name node among the containers of the application, which are documents here.\<close>

fun monitor_namenode :: "json list \<Rightarrow> (json \<times> json) option result" where
  "monitor_namenode [] = Inr None"
| "monitor_namenode (c # cs) =
     rbind (rbind (jitem c ''container_name'') jstr) (\<lambda>n.
     if contains ''namenode'' n then rbind (jitem c ''host'') (\<lambda>h. Inr (Some (h, JStr n))) else monitor_namenode cs)"

text \<open>The page redirected to; \<open>None\<close> is a view that answers nothing.  Without a name node the redirection is
  built but not returned.\<close>

definition enable_monitor :: "env \<Rightarrow> string option m" where
  "enable_monitor E =
     bindM (liftR (item (env_platform E) ''hdfs_replication_mode'')) (\<lambda>mode.
     if mode \<noteq> JStr ''monitor'' then returnM None
     else bindM (config_text (env_vars E) ''global_hdfs_app_name'') (\<lambda>global_app_name.
       bindM (getDbData E (join ''/'' [env_base_url E, ''structure'', global_app_name])) (\<lambda>global_app.
       bindM (liftR (if jtruthy global_app then rbind (rbind (jitem global_app ''containers'') jarr) monitor_namenode
                     else Inr None)) (\<lambda>namenode.
       let (nn_host, nn_container) = (case namenode of None \<Rightarrow> (JNull, JNull) | Some p \<Rightarrow> p)
       in thenM (run_later E ''monitor_hdfs_task''
                   (Call ''monitor_global_hdfs_replication'' [JStr global_app_name, nn_host, nn_container]))
            (returnM (Some ''apps''))))))"

section \<open>The containers of the cluster\<close>

lemma copy_keys_other:
  assumes "copy_keys res d ks c = Inr c'" "\<forall>k\<in>set ks. res @ ''_'' @ k \<noteq> x"
  shows "map_of c' x = map_of c x"
  using assms unfolding copy_keys_def
  by (rule_tac foldR_invariant [of _ ks c c' "\<lambda>c'. map_of c' x = map_of c x"]) (force simp: rbind_eq_Inr)+

lemma core_fields_other:
  assumes "core_fields conf node_type c = Inr c'" "x \<in> {''container_name'', ''host'', ''disk''}"
  shows "map_of c' x = map_of c x"
  using assms(1) unfolding core_fields_def
  by (rule foldR_invariant [where I = "\<lambda>c'. map_of c' x = map_of c x"])
    (use assms(2) in \<open>auto simp: rbind_eq_Inr dest!: copy_keys_other [where x = x]\<close>)

lemma hdfs_disk_fields_other:
  assumes "hdfs_disk_fields conf node_type d c = Inr c'" "x \<in> {''container_name'', ''host'', ''disk''}"
  shows "map_of c' x = map_of c x"
  using assms(1) unfolding hdfs_disk_fields_def
  by (rule foldR_invariant [where I = "\<lambda>c'. map_of c' x = map_of c x"])
    (use assms(2) in \<open>auto simp: rbind_eq_Inr dest!: copy_keys_other [where x = x]\<close>)

text \<open>What names a container: its name, its host, and a disk that is not the name node's.\<close>

definition is_datanode :: "env \<Rightarrow> string \<Rightarrow> obj \<Rightarrow> obj \<Rightarrow> bool" where
  "is_datanode E dn_prefix h c \<longleftrightarrow>
     (\<exists>n. host_name_of h = Inr n \<and> map_of c ''host'' = Some (JStr n) \<and>
       map_of c ''container_name'' = Some (JStr (dn_prefix @ [HOST_CONTAINER_SEPARATOR] @ n))) \<and>
     (\<forall>disk. map_of c ''disk'' = Some (JStr disk) \<longrightarrow> platform_text E ''global_hdfs_disk_name'' \<noteq> Inr disk \<and>
       (\<exists>ds. host_disks h = Inr ds \<and> has_key ds disk))"

lemma node_base_names:
  assumes "node_base name_prefix conf node_type h = Inr c"
  shows "\<exists>n. host_name_of h = Inr n \<and> map_of c ''host'' = Some (JStr n) \<and>
    map_of c ''container_name'' = Some (JStr (name_prefix @ [HOST_CONTAINER_SEPARATOR] @ n)) \<and> map_of c ''disk'' = None"
proof -
  obtain n where n: "host_name_of h = Inr n" "core_fields conf node_type
      [(''container_name'', JStr (name_prefix @ [HOST_CONTAINER_SEPARATOR] @ n)), (''host'', JStr n)] = Inr c"
    using assms by (auto simp: node_base_def rbind_eq_Inr)
  note core_fields_other [OF n(2)]
  from this [of "''container_name''"] this [of "''host''"] this [of "''disk''"] n(1) show ?thesis by simp
qed

lemma datanode_spec_names:
  assumes "datanode_spec E conf dn_prefix h = Inr c"
  shows "is_datanode E dn_prefix h c"
proof -
  obtain c0 b where c0: "node_base dn_prefix conf ''datanode'' h = Inr c0" and b: "uses_disks E h = Inr b"
    using assms by (auto simp: datanode_spec_def rbind_eq_Inr)
  note names = node_base_names [OF c0]
  show ?thesis
  proof (cases b)
    case False
    with assms b c0 have "c = c0" by (simp add: datanode_spec_def)
    with names show ?thesis unfolding is_datanode_def by force
  next
    case True
    with assms b c0 obtain hd ds disk v doc p d where
      f: "platform_text E ''global_hdfs_disk_name'' = Inr hd" "host_disks h = Inr ds" "List.find (\<lambda>p. fst p \<noteq> hd) ds = Some (disk, v)"
         "hdfs_disk_fields conf ''datanode'' doc (AList.update ''disk_path'' p (AList.update ''disk'' (JStr disk) c0)) = Inr c"
      by (auto simp: datanode_spec_def rbind_eq_Inr split: option.splits)
    have "disk \<noteq> hd \<and> (disk, v) \<in> set ds"
      using f(3) by (induction ds) (auto split: if_splits)
    then have "disk \<noteq> hd" "(disk, v) \<in> set ds" by simp_all
    moreover have "has_key ds disk" using \<open>(disk, v) \<in> set ds\<close> by (force simp: has_key_def map_of_eq_None_iff)
    moreover note hdfs_disk_fields_other [OF f(4)]
    ultimately show ?thesis using names f(1,2) by (auto simp: is_datanode_def)
  qed
qed

lemma add_datanodes:
  assumes "foldR (add_datanode E conf reserved dn_prefix) hosts cs = Inr cs'"
  shows "\<exists>dns. cs' = cs @ dns \<and>
    list_all2 (is_datanode E dn_prefix) (filter (\<lambda>h. \<forall>n. reserved = Some n \<longrightarrow> item h ''name'' \<noteq> Inr (JStr n)) hosts) dns"
  using assms
proof (induction hosts arbitrary: cs)
  case (Cons h hosts)
  then obtain cs1 where cs1: "add_datanode E conf reserved dn_prefix h cs = Inr cs1"
    "foldR (add_datanode E conf reserved dn_prefix) hosts cs1 = Inr cs'" by (auto elim!: rbindE)
  from Cons.IH [OF cs1(2)] obtain dns where dns: "cs' = cs1 @ dns"
    "list_all2 (is_datanode E dn_prefix) (filter (\<lambda>h. \<forall>n. reserved = Some n \<longrightarrow> item h ''name'' \<noteq> Inr (JStr n)) hosts) dns"
    by blast
  from cs1(1) consider
      n where "reserved = Some n" "item h ''name'' = Inr (JStr n)" "cs1 = cs"
    | c where "\<forall>n. reserved = Some n \<longrightarrow> item h ''name'' \<noteq> Inr (JStr n)" "datanode_spec E conf dn_prefix h = Inr c" "cs1 = cs @ [c]"
    by (auto simp: add_datanode_def rbind_eq_Inr split: option.splits if_splits)
  then show ?case
    by cases (use dns datanode_spec_names in \<open>auto intro!: exI [of _ "_ # dns"]\<close>)
qed simp

lemma find_host_found: "find_host n hs = Inr h \<Longrightarrow> h \<in> set hs \<and> item h ''name'' = Inr (JStr n)"
  by (induction hs) (auto simp: rbind_eq_Inr split: if_splits)

lemma namenode_spec_names:
  assumes "namenode_spec E conf nn_prefix h = Inr c"
  shows "\<exists>n. host_name_of h = Inr n \<and> map_of c ''host'' = Some (JStr n) \<and>
    map_of c ''container_name'' = Some (JStr (nn_prefix @ [HOST_CONTAINER_SEPARATOR] @ n))"
proof -
  obtain c0 where c0: "node_base nn_prefix conf ''namenode'' h = Inr c0"
    using assms by (auto simp: namenode_spec_def elim!: rbindE)
  have "map_of c ''host'' = map_of c0 ''host'' \<and> map_of c ''container_name'' = map_of c0 ''container_name''"
  proof (cases "c = c0")
    case False
    then obtain doc p disk where
      f: "hdfs_disk_fields conf ''namenode'' doc (AList.update ''disk_path'' p (AList.update ''disk'' (JStr disk) c0)) = Inr c"
      using assms c0 by (auto simp: namenode_spec_def rbind_eq_Inr split: if_splits option.splits)
    note hdfs_disk_fields_other [OF f]
    from this [of "''container_name''"] this [of "''host''"] show ?thesis by simp
  qed simp
  with node_base_names [OF c0] show ?thesis by auto
qed

text \<open>C24: the cluster that is started has one name node, on the server when the server is a host and on the first
  host otherwise, and one data node on every host (but on the server when it is reserved), each named after its host
  and on a disk of its host other than the one of the name node.\<close>

theorem hdfs_cluster_layout:
  assumes "hdfs_containers E conf server nn_prefix dn_prefix (h # hs) = Inr cs"
    and "platform_flag E ''server_as_host'' = Inr as_host" "platform_flag E ''reserve_server_for_master'' = Inr reserve"
  shows "\<exists>namenode datanodes nn_host.
    cs = namenode # datanodes \<and>
    (if as_host then \<exists>n. server = Inr n \<and> nn_host \<in> set (h # hs) \<and> host_name_of nn_host = Inr n else nn_host = h) \<and>
    (\<exists>n. host_name_of nn_host = Inr n \<and> map_of namenode ''host'' = Some (JStr n) \<and>
       map_of namenode ''container_name'' = Some (JStr (nn_prefix @ [HOST_CONTAINER_SEPARATOR] @ n))) \<and>
    list_all2 (is_datanode E dn_prefix)
      (filter (\<lambda>h. \<not> (as_host \<and> reserve \<and> (\<exists>n. server = Inr n \<and> item h ''name'' = Inr (JStr n)))) (h # hs)) datanodes"
proof -
  let ?server = "if as_host then rbind server (\<lambda>n. Inr (Some n)) else Inr None"
  obtain sn where sn: "?server = Inr sn" using assms(1,2) by (auto simp: hdfs_containers_def elim!: rbindE)
  obtain nn_host namenode where nn: "(case sn of Some n \<Rightarrow> find_host n (h # hs) | None \<Rightarrow> Inr h) = Inr nn_host"
      "namenode_spec E conf nn_prefix nn_host = Inr namenode"
    and f: "foldR (add_datanode E conf (if as_host \<and> reserve then sn else None) dn_prefix) (h # hs) [namenode] = Inr cs"
    using assms sn by (auto simp: hdfs_containers_def rbind_eq_Inr split: if_splits)
  from add_datanodes [OF f] obtain datanodes where dn: "cs = namenode # datanodes"
    "list_all2 (is_datanode E dn_prefix) (filter (\<lambda>h. \<forall>n. (if as_host \<and> reserve then sn else None) = Some n \<longrightarrow>
       item h ''name'' \<noteq> Inr (JStr n)) (h # hs)) datanodes" by auto
  have same: "(\<lambda>h. \<forall>n. (if as_host \<and> reserve then sn else None) = Some n \<longrightarrow> item h ''name'' \<noteq> Inr (JStr n)) =
      (\<lambda>h. \<not> (as_host \<and> reserve \<and> (\<exists>n. server = Inr n \<and> item h ''name'' = Inr (JStr n))))"
    using sn by (auto simp: fun_eq_iff rbind_eq_Inr)
  have nn_at: "if as_host then \<exists>n. server = Inr n \<and> nn_host \<in> set (h # hs) \<and> host_name_of nn_host = Inr n else nn_host = h"
  proof (cases as_host)
    case True
    with sn obtain n where n: "server = Inr n" "sn = Some n" by (auto simp: rbind_eq_Inr)
    with nn(1) have "find_host n (h # hs) = Inr nn_host" by simp
    from find_host_found [OF this] n True show ?thesis by (auto simp: host_name_of_def jstr_def)
  qed (use sn nn(1) in auto)
  show ?thesis
    by (intro exI [of _ namenode] exI [of _ datanodes] exI [of _ nn_host] conjI dn(1) dn(2) [unfolded same] nn_at
        namenode_spec_names [OF nn(2)])
qed

definition sample_node_config :: node_config where
  "sample_node_config =
     (let r = [(''max'', JNum 100), (''min'', JNum 100), (''weight'', JNum 1), (''boundary'', JNum 5),
               (''boundary_type'', JStr ''percentage_of_max'')]
      in [(''namenode'', [(''cpu'', r), (''mem'', r), (''disk_read'', r), (''disk_write'', r)]),
          (''datanode'', [(''cpu'', r), (''mem'', r), (''disk_read'', tl r), (''disk_write'', tl r)])])"

definition hdfs_env :: env where
  "hdfs_env = sample_env\<lparr>
     env_platform := [(''server_as_host'', JBool True), (''reserve_server_for_master'', JBool True), (''disk_capabilities'', JBool True),
       (''disk_scaling'', JBool True), (''global_hdfs_disk_name'', JStr ''nn_disk'')],
     env_vars := [(''bind_dir_name'', JStr ''bind'')]\<rparr>"

definition hdfs_host :: "string \<Rightarrow> obj" where
  "hdfs_host n =
     (let d = JObj [(''path'', JStr ''/mnt/d''), (''max_read'', JNum 200), (''max_write'', JNum 150)]
      in [(''name'', JStr n), (''resources'', JObj [(''disks'', JObj [(''nn_disk'', d), (''hdd_0'', d)])])])"

lemmas hdfs_sample_defs = sample_node_config_def hdfs_env_def hdfs_host_def

lemma hdfs_sample_containers:
  "\<exists>cs. hdfs_containers hdfs_env sample_node_config (Inr ''h0'') ''namenode'' ''datanode'' [hdfs_host ''h0'', hdfs_host ''h1''] = Inr cs \<and>
     map (\<lambda>c. (map_of c ''container_name'', map_of c ''disk'', map_of c ''disk_read_max'')) cs =
     [(Some (JStr ''namenode-h0''), Some (JStr ''nn_disk''), Some (JNum 100)),
      (Some (JStr ''datanode-h1''), Some (JStr ''hdd_0''), Some (JNum 200))]"
  by (simp add: hdfs_containers_def hdfs_sample_defs platform_flag_def platform_text_def item_def namenode_spec_def node_base_def
      host_name_of_def jstr_def core_fields_def node_resource_def copy_keys_def uses_disks_def host_resources_def host_disks_def
      jobj_def has_key_def hdfs_disk_fields_def add_datanode_def datanode_spec_def HOST_CONTAINER_SEPARATOR_def Let_def)

theorem hdfs_cluster_layout_witness:
  "\<exists>cs namenode datanodes nn_host.
    hdfs_containers hdfs_env sample_node_config (Inr ''h0'') ''namenode'' ''datanode'' [hdfs_host ''h0'', hdfs_host ''h1''] = Inr cs \<and>
    cs = namenode # datanodes \<and> host_name_of nn_host = Inr ''h0'' \<and>
    list_all2 (is_datanode hdfs_env ''datanode'') [hdfs_host ''h1''] datanodes"
proof -
  from hdfs_sample_containers obtain cs where
    cs: "hdfs_containers hdfs_env sample_node_config (Inr ''h0'') ''namenode'' ''datanode'' [hdfs_host ''h0'', hdfs_host ''h1''] = Inr cs"
    by blast
  have flags: "platform_flag hdfs_env ''server_as_host'' = Inr True" "platform_flag hdfs_env ''reserve_server_for_master'' = Inr True"
    by (simp_all add: platform_flag_def hdfs_env_def item_def)
  have names: "item (hdfs_host n) ''name'' = Inr (JStr n)" for n by (simp add: hdfs_host_def item_def Let_def)
  from hdfs_cluster_layout [OF cs flags] cs show ?thesis by (auto simp: names)
qed

section \<open>Errors of the views\<close>

text \<open>A request without a path is answered with one error per character of its text.\<close>

lemma error_text_is_split:
  "fst (hdfs_post E [(''operation'', [''add_dir''])] h c w) =
   Returned (redirect_query (map (\<lambda>x. [x]) ''Missing or empty directory path to create''))"
  by (simp add: hdfs_post_def hdfs_operation_def post_get_def post_item_def has_key_def item_def addDirHDFS_def given_def
      redirect_with_text_def bindM_def returnM_def liftR_def)

text \<open>Any other request is an error of the server.\<close>

lemma no_operation_raises: "fst (hdfs_post E [] h c w) = Raised (TypeError ''len'')"
  by (simp add: hdfs_post_def hdfs_operation_def post_get_def has_key_def redirect_with_text_def bindM_def returnM_def
      liftR_def raiseM_def)

text \<open>The documents of the database list the containers of an application by name, so as soon as the HDFS has one
  the monitor cannot be enabled.\<close>

lemma monitor_needs_documents:
  "monitor_namenode (JStr n # cs) = Inl (TypeError ''container_name'')"
  by (simp add: jitem_def)

text \<open>When there is no HDFS the monitor is started all the same, on no host and no container.\<close>

lemma monitor_of_nothing:
  assumes "item (env_platform E) ''hdfs_replication_mode'' = Inr (JStr ''monitor'')"
    and "item (env_vars E) ''global_hdfs_app_name'' = Inr (JStr a)" "env_fetch E = (\<lambda>_. Inr (JObj []))"
  shows "enable_monitor E =
    thenM (bindM (getDbData E (join ''/'' [env_base_url E, ''structure'', a])) (\<lambda>_. returnM ()))
      (thenM (run_later E ''monitor_hdfs_task'' (Call ''monitor_global_hdfs_replication'' [JStr a, JNull, JNull])) (returnM (Some ''apps'')))"
  using assms
  by (simp add: enable_monitor_def getDbData_def request_def thenM_def bindM_def returnM_def liftR_def raiseM_def config_text_def
      jstr_def fun_eq_iff log_event_def ask_def split: outcome.splits)

end
