(* ===== verification/InventoryLoad.thy ===== *)
theory InventoryLoad
  imports InventoryLaws
begin

text \<open>
  The first inventory of a platform, \<open>scripts/config/load_inventory_from_conf.py\<close>, and the types of the variables of
  every inventory the platform can reach.  The configuration is a record of the values the script reads;
  a host name of \<open>None\<close> is the empty string, which the inventory treats alike.
\<close>

section \<open>Building the inventory\<close>

record load_settings =
  lc_hostnames :: "string option"
  lc_server_ip :: string
  lc_number_of_hosts :: int
  lc_server_as_host :: bool
  lc_number_of_containers_per_node :: nat
  lc_cpus_per_host :: ival
  lc_memory_per_host :: ival
  lc_energy_per_host :: ival
  lc_power_budgeting :: bool
  lc_disk_capabilities :: bool
  lc_hdd_disks_per_host :: nat
  lc_hdd_disks_path_list :: string
  lc_ssd_disks_per_host :: nat
  lc_ssd_disks_path_list :: string
  lc_create_lvm :: bool
  lc_lvm_path :: string
  lc_cpus_server_node :: ival
  lc_memory_server_node :: ival
  lc_global_hdfs :: bool
  lc_global_hdfs_disk_name :: string
  lc_global_hdfs_data_dir :: string

text \<open>The dictionary of resources; its disks are kept apart from the other values.\<close>

record resource_dict =
  rd_cpu :: ival
  rd_mem :: ival
  rd_energy :: ival
  rd_disks :: "attr dict dict"

definition resource_vars :: "resource_dict \<Rightarrow> ival dict" where
  "resource_vars r =
     [(''cpu'', rd_cpu r), (''mem'', rd_mem r), (''energy'', rd_energy r), (''disks'', VDisks (rd_disks r)), (''containers'', VList [])]"

definition create_resource_dict :: "(string \<Rightarrow> string) \<Rightarrow> load_settings \<Rightarrow> resource_dict result" where
  "create_resource_dict expandvars cf =
     rbind (if lc_disk_capabilities cf
            then get_disks_dict expandvars (lc_hdd_disks_per_host cf) (split_on CHR '','' (lc_hdd_disks_path_list cf))
                   (lc_ssd_disks_per_host cf) (split_on CHR '','' (lc_ssd_disks_path_list cf)) (lc_create_lvm cf) (lc_lvm_path cf)
            else Inr []) (\<lambda>disks.
     Inr \<lparr>rd_cpu = lc_cpus_per_host cf, rd_mem = lc_memory_per_host cf,
          rd_energy = (if lc_power_budgeting cf then lc_energy_per_host cf else VNull), rd_disks = disks\<rparr>)"

text \<open>The bandwidths that were measured for a disk of the same name.\<close>

definition keep_bandwidth :: "attr dict \<Rightarrow> string \<Rightarrow> attr dict \<Rightarrow> attr dict" where
  "keep_bandwidth old res d = (case map_of old res of None \<Rightarrow> d | Some v \<Rightarrow> AList.update res v d)"

definition keep_bandwidths :: "attr dict dict \<Rightarrow> string \<times> attr dict \<Rightarrow> string \<times> attr dict" where
  "keep_bandwidths previous_disks p =
     (case map_of previous_disks (fst p) of
        None \<Rightarrow> p
      | Some old \<Rightarrow> (fst p, fold (keep_bandwidth old) [''read_bw'', ''write_bw''] (snd p)))"

definition update_disks_bandwidths :: "inventory \<Rightarrow> string \<Rightarrow> resource_dict \<Rightarrow> resource_dict result" where
  "update_disks_bandwidths previous_inventory hostname r =
     rbind (listed_disks hostname previous_inventory) (\<lambda>previous_disks.
     Inr (r\<lparr>rd_disks := map (keep_bandwidths previous_disks) (rd_disks r)\<rparr>))"

definition with_old_bandwidths :: "bool \<Rightarrow> inventory \<Rightarrow> string \<Rightarrow> resource_dict \<Rightarrow> resource_dict result" where
  "with_old_bandwidths reset_disks previous hostname r =
     (if reset_disks then Inr r else update_disks_bandwidths previous hostname r)"

text \<open>The server as a host, with the disk of the name node of the global HDFS.\<close>

definition server_resources :: "(string \<Rightarrow> string) \<Rightarrow> load_settings \<Rightarrow> resource_dict result" where
  "server_resources expandvars cf =
     rbind (create_resource_dict expandvars cf) (\<lambda>r.
     Inr (r\<lparr>rd_cpu := lc_cpus_server_node cf, rd_mem := lc_memory_server_node cf,
       rd_disks := (if lc_global_hdfs cf \<and> lc_disk_capabilities cf
         then AList.update (lc_global_hdfs_disk_name cf)
                [(''path'', AStr (resolve_disk_path expandvars (lc_global_hdfs_data_dir cf)))] (rd_disks r)
         else rd_disks r)\<rparr>))"

definition load_node ::
  "bool \<Rightarrow> inventory \<Rightarrow> nat \<Rightarrow> string \<Rightarrow> resource_dict result \<Rightarrow> inventory \<Rightarrow> inventory result" where
  "load_node reset_disks previous containers hostname res doc =
     rbind res (\<lambda>r. rbind (with_old_bandwidths reset_disks previous hostname r) (\<lambda>r.
     add_node hostname (resource_vars r) (create_container_list hostname containers 0) doc))"

definition load_regular_host ::
  "(string \<Rightarrow> string) \<Rightarrow> load_settings \<Rightarrow> bool \<Rightarrow> inventory \<Rightarrow> string list \<Rightarrow> nat \<Rightarrow> inventory \<Rightarrow> inventory result" where
  "load_regular_host expandvars cf reset_disks previous hostnames i doc =
     (if length hostnames \<le> i then Inl IndexError
      else load_node reset_disks previous (lc_number_of_containers_per_node cf) (hostnames ! i)
             (create_resource_dict expandvars cf) doc)"

definition load_inventory ::
  "(string \<Rightarrow> string) \<Rightarrow> load_settings \<Rightarrow> bool \<Rightarrow> inventory \<Rightarrow> inventory result" where
  "load_inventory expandvars cf reset_disks previous =
     (case lc_hostnames cf of
        None \<Rightarrow> Inl (PyException ''Error in configuration'')
      | Some [] \<Rightarrow> Inl (PyException ''Error in configuration'')
      | Some names \<Rightarrow>
          (case split_on CHR '','' names of
             [] \<Rightarrow> Inl IndexError
           | server_name # hostnames \<Rightarrow>
               rbind (add_server (lc_server_ip cf) server_name (clean_inventory previous)) (\<lambda>doc1.
               rbind (create_resource_dict expandvars cf) (\<lambda>r. rbind (with_old_bandwidths reset_disks previous [] r) (\<lambda>r.
               let doc2 = add_node_group (resource_vars r) doc1
               in rbind (if lc_server_as_host cf
                         then load_node reset_disks previous (lc_number_of_containers_per_node cf) server_name
                                (server_resources expandvars cf) doc2
                         else Inr doc2) (\<lambda>doc3.
                  foldR (load_regular_host expandvars cf reset_disks previous hostnames)
                    [0..<nat (lc_number_of_hosts cf - (if lc_server_as_host cf then 1 else 0))] doc3))))))"

section \<open>The hosts of the inventory\<close>

lemma set_host_var_names:
  assumes "node_ok doc h" "set_host_var HOST_GROUP_NAME key v h doc = Inr doc'"
  shows "get_node_hostnames doc' = get_node_hostnames doc"
proof -
  from assms(1) obtain g hs vs ds where n: "h \<noteq> []" "map_of doc HOST_GROUP_NAME = Some g" "g_hosts g = Some hs"
    "map_of hs h = Some vs" "g_vars g = Some ds" by (rule node_okE)
  then have "h \<in> set (map fst hs)" by (force dest: map_of_SomeD)
  with set_host_var_node [OF n(1-4), of key v] assms(2) n show ?thesis
    by (auto simp: get_node_hostnames_def keys_of_def update_keys)
qed

text \<open>What setting variables of a host leaves as it is.\<close>

definition same_nodes :: "string \<Rightarrow> inventory \<Rightarrow> inventory \<Rightarrow> bool" where
  "same_nodes h doc doc' \<longleftrightarrow>
     (\<forall>g. node_ok doc' g \<longleftrightarrow> node_ok doc g) \<and> get_node_hostnames doc' = get_node_hostnames doc \<and>
     (\<forall>g res. g \<noteq> h \<longrightarrow> g \<noteq> [] \<longrightarrow> get_node_resource res g doc' = get_node_resource res g doc)"

lemma same_nodes_refl: "same_nodes h doc doc"
  by (simp add: same_nodes_def)

lemma same_nodes_trans: "same_nodes h doc doc1 \<Longrightarrow> same_nodes h doc1 doc2 \<Longrightarrow> same_nodes h doc doc2"
  by (simp add: same_nodes_def)

lemma set_host_var_same:
  assumes "node_ok doc h" "set_host_var HOST_GROUP_NAME key v h doc = Inr doc'"
  shows "same_nodes h doc doc'"
  using set_host_var_names [OF assms] node_ok_set_host_var [OF assms] get_other_node [OF assms]
  by (simp add: same_nodes_def)

lemma set_host_vars_same:
  assumes "foldR (\<lambda>(var, v). set_host_var HOST_GROUP_NAME var v h) vars doc = Inr doc'" "node_ok doc h"
  shows "same_nodes h doc doc'"
proof (rule foldR_invariant [OF assms(1), where I = "same_nodes h doc"])
  fix p s s'
  assume "same_nodes h doc s" "(case p of (var, v) \<Rightarrow> set_host_var HOST_GROUP_NAME var v h) s = Inr s'"
  moreover from this assms(2) have "node_ok s h" by (simp add: same_nodes_def)
  ultimately show "same_nodes h doc s'"
    by (auto split: prod.splits intro: same_nodes_trans set_host_var_same)
qed (rule same_nodes_refl)

text \<open>Variables of a host set one after the other, the containers last.\<close>

lemma foldR_append: "foldR f (xs @ ys) s = rbind (foldR f xs s) (foldR f ys)"
  by (induction xs arbitrary: s) (simp_all add: rbind_def split: sum.splits)

lemma add_node_effect:
  assumes "add_node h (resource_vars r) cs doc = Inr doc'" "h \<noteq> []" "h \<notin> set (get_node_hostnames doc)"
    and "map_of doc HOST_GROUP_NAME = Some g" "g_hosts g = Some hs" "g_vars g = Some ds"
  shows "get_node_hostnames doc' = get_node_hostnames doc @ [h] \<and> listed_containers h doc' = Inr cs \<and>
    (\<forall>k res. k \<noteq> h \<longrightarrow> k \<noteq> [] \<longrightarrow> get_node_resource res k doc' = get_node_resource res k doc) \<and> node_ok doc' h"
proof -
  have new: "\<not> has_key hs h" using assms(3-5) by (auto simp: get_node_hostnames_def keys_of_def has_key_def map_of_eq_None_iff)
  let ?doc1 = "AList.update HOST_GROUP_NAME g doc"
  let ?doc2 = "AList.update HOST_GROUP_NAME (g\<lparr>g_hosts := Some (AList.update h [] hs)\<rparr>) ?doc1"
  let ?vars = "[(''cpu'', rd_cpu r), (''mem'', rd_mem r), (''energy'', rd_energy r), (''disks'', VDisks (rd_disks r))]"
  have "AList.update ''containers'' (VList cs) (resource_vars r) = ?vars @ [(''containers'', VList cs)]"
    by (simp add: resource_vars_def)
  moreover have "add_group HOST_GROUP_NAME [] doc = ?doc1"
    using assms(4,5) by (simp add: add_group_def add_group_vars_def)
  ultimately have "foldR (\<lambda>(var, v). set_host_var HOST_GROUP_NAME var v h) (?vars @ [(''containers'', VList cs)]) ?doc2 = Inr doc'"
    using assms(1,4,5) new
    by (simp add: add_node_def add_host_to_group_def Let_def group_of_def hosts_of_def item_def del: foldR.simps)
  then obtain doc3 where doc3: "foldR (\<lambda>(var, v). set_host_var HOST_GROUP_NAME var v h) ?vars ?doc2 = Inr doc3"
      "store_containers cs h doc3 = Inr doc'"
    unfolding foldR_append rbind_eq_Inr by (auto simp: store_containers_def rbind_eq_Inr)
  have ok2: "node_ok ?doc2 h" using assms(2,6) by (simp add: node_ok_def has_key_def)
  note same = set_host_vars_same [OF doc3(1) ok2]
  with ok2 have ok3: "node_ok doc3 h" by (simp add: same_nodes_def)
  have same': "same_nodes h ?doc2 doc'"
    using same_nodes_trans [OF same set_host_var_same [OF ok3 doc3(2) [unfolded store_containers_def]]] .
  have "get_node_hostnames ?doc2 = get_node_hostnames doc @ [h]"
    using assms(4,5) new by (simp add: get_node_hostnames_def keys_of_def update_keys has_key_def map_of_eq_None_iff)
  moreover have "get_node_resource res k ?doc2 = get_node_resource res k doc" if "k \<noteq> h" "k \<noteq> []" for k res
  proof -
    have "get_or (AList.update h [] hs) k [] = get_or hs k []" using that by simp
    moreover have "map_of ?doc2 HOST_GROUP_NAME = Some (g\<lparr>g_hosts := Some (AList.update h [] hs)\<rparr>)" by simp
    note get_host_var_node [OF this _ _ that(2)]
    ultimately show ?thesis using get_host_var_node [OF assms(4-6) that(2), of res] assms(6)
      by (simp add: get_node_resource_def del: update.simps map_of_update)
  qed
  moreover have "listed_containers h doc' = Inr cs" using node_containers.fetch_store [OF ok3 doc3(2)] by simp
  ultimately show ?thesis using same' ok2 by (simp add: same_nodes_def)
qed

lemma set_host_var_group:
  "set_host_var G key v h doc = Inr doc' \<Longrightarrow> G' \<noteq> G \<Longrightarrow> map_of doc' G' = map_of doc G'"
  by (auto simp: set_host_var_def Let_def rbind_eq_Inr split: if_splits)

lemma add_server_nodes:
  assumes "add_server ip name doc = Inr doc'"
  shows "map_of doc' HOST_GROUP_NAME = map_of doc HOST_GROUP_NAME"
proof -
  have G: "HOST_GROUP_NAME \<noteq> SERVER_GROUP_NAME" by (simp add: HOST_GROUP_NAME_def SERVER_GROUP_NAME_def)
  let ?doc1 = "add_group SERVER_GROUP_NAME [] doc"
  obtain d where f: "foldR (\<lambda>(var, v). set_host_var SERVER_GROUP_NAME var v SERVER_INVENTORY_NAME)
      [(''host_ip'', VStr ip), (''ansible_host'', VStr name)] (AList.update SERVER_GROUP_NAME d ?doc1) = Inr doc'"
    using assms by (auto simp: add_server_def add_host_to_group_def Let_def rbind_eq_Inr simp del: foldR.simps)
  have "map_of doc' HOST_GROUP_NAME = map_of (AList.update SERVER_GROUP_NAME d ?doc1) HOST_GROUP_NAME"
    by (rule foldR_invariant [OF f, where I = "\<lambda>s. map_of s HOST_GROUP_NAME = map_of (AList.update SERVER_GROUP_NAME d ?doc1) HOST_GROUP_NAME"])
      (auto split: prod.splits simp: set_host_var_group [OF _ G] simp del: map_of_update)
  then show ?thesis using G by (simp add: add_group_def Let_def)
qed

text \<open>The hosts that are loaded so far, each with its containers.\<close>

definition loaded :: "nat \<Rightarrow> string list \<Rightarrow> inventory \<Rightarrow> bool" where
  "loaded n names doc \<longleftrightarrow>
     (\<exists>g hs ds. map_of doc HOST_GROUP_NAME = Some g \<and> g_hosts g = Some hs \<and> g_vars g = Some ds) \<and>
     get_node_hostnames doc = names \<and> [] \<notin> set names \<and>
     (\<forall>h \<in> set names. listed_containers h doc = Inr (create_container_list h n 0))"

lemma load_node_loaded:
  assumes "load_node reset_disks previous n h res doc = Inr doc'" "loaded n names doc" "h \<notin> set names" "h \<noteq> []"
  shows "loaded n (names @ [h]) doc'"
proof -
  from assms(2) obtain g hs ds where g: "map_of doc HOST_GROUP_NAME = Some g" "g_hosts g = Some hs" "g_vars g = Some ds"
    and names: "get_node_hostnames doc = names" by (auto simp: loaded_def)
  from assms(1) obtain r where r: "add_node h (resource_vars r) (create_container_list h n 0) doc = Inr doc'"
    by (auto simp: load_node_def rbind_eq_Inr)
  note e = add_node_effect [OF r assms(4) assms(3) [folded names] g]
  have "listed_containers k doc' = Inr (create_container_list k n 0)" if "k \<in> set names" for k
    using e that assms(2,3) unfolding loaded_def listed_containers_eq by (metis (no_types, lifting))
  with e assms(2,4) names show ?thesis
    by (auto simp: loaded_def node_ok_def)
qed

lemma add_node_group_loaded:
  assumes "map_of doc HOST_GROUP_NAME = None"
  shows "loaded n [] (add_node_group (resource_vars r) doc)"
proof -
  let ?g = "add_group_vars (resource_vars r) \<lparr>g_hosts = Some [], g_vars = None\<rparr>"
  have hosts: "g_hosts (set_group_var k v g) = g_hosts g" "g_vars (set_group_var k v g) \<noteq> None" for k v g
    by (simp_all add: set_group_var_def)
  have "g_hosts ?g = Some [] \<and> g_vars ?g \<noteq> None"
    by (auto simp: add_group_vars_def resource_vars_def hosts EMPTIABLE_VARS_def)
  moreover have "add_node_group (resource_vars r) doc = AList.update HOST_GROUP_NAME ?g doc"
    using assms by (simp add: add_node_group_def add_group_def)
  ultimately show ?thesis by (auto simp: loaded_def get_node_hostnames_def keys_of_def)
qed

lemma load_regular_hosts_loaded:
  assumes "foldR (load_regular_host ev cf rd prev hostnames) [i..<i + k] doc = Inr doc'"
    and "loaded (lc_number_of_containers_per_node cf) names doc"
    and "distinct (names @ drop i hostnames)" "[] \<notin> set hostnames"
  shows "loaded (lc_number_of_containers_per_node cf) (names @ take k (drop i hostnames)) doc' \<and> (k = 0 \<or> i + k \<le> length hostnames)"
  using assms
proof (induction k arbitrary: i names doc)
  case (Suc k)
  have "[i..<i + Suc k] = i # [Suc i..<Suc i + k]" by (simp add: upt_conv_Cons)
  with Suc.prems(1) obtain doc1 where d: "load_regular_host ev cf rd prev hostnames i doc = Inr doc1"
    "foldR (load_regular_host ev cf rd prev hostnames) [Suc i..<Suc i + k] doc1 = Inr doc'" by (auto elim!: rbindE)
  then have i: "i < length hostnames" by (auto simp: load_regular_host_def split: if_splits)
  then have drop: "drop i hostnames = hostnames ! i # drop (Suc i) hostnames" by (simp add: Cons_nth_drop_Suc)
  have "loaded (lc_number_of_containers_per_node cf) (names @ [hostnames ! i]) doc1"
  proof (rule load_node_loaded)
    show "load_node rd prev (lc_number_of_containers_per_node cf) (hostnames ! i) (create_resource_dict ev cf) doc = Inr doc1"
      using d(1) i by (simp add: load_regular_host_def)
  qed (use Suc.prems(2-4) drop nth_mem [OF i] in auto)
  from Suc.IH [OF d(2) this] Suc.prems(3,4) drop i show ?case by auto
qed simp

section \<open>The loaded hosts\<close>

lemma load_inventory_nodes:
  assumes "load_inventory expandvars cf reset_disks previous = Inr doc"
    and "lc_hostnames cf = Some names" "split_on CHR '','' names = server # hostnames"
    and "distinct (server # hostnames)" "[] \<notin> set (server # hostnames)"
  shows "get_node_hostnames doc =
      (if lc_server_as_host cf then [server] else []) @
      take (nat (lc_number_of_hosts cf - (if lc_server_as_host cf then 1 else 0))) hostnames \<and>
    nat (lc_number_of_hosts cf - (if lc_server_as_host cf then 1 else 0)) \<le> length hostnames \<and>
    (\<forall>h \<in> set (get_node_hostnames doc). listed_containers h doc = Inr (create_container_list h (lc_number_of_containers_per_node cf) 0))"
proof -
  let ?n = "lc_number_of_containers_per_node cf" and ?first = "if lc_server_as_host cf then [server] else []"
  let ?k = "nat (lc_number_of_hosts cf - (if lc_server_as_host cf then 1 else 0))"
  have names: "names \<noteq> []" using assms(3,5) by auto
  then obtain c cs where c: "names = c # cs" by (cases names) auto
  obtain doc1 r doc3 where
    l: "add_server (lc_server_ip cf) server (clean_inventory previous) = Inr doc1"
      "(if lc_server_as_host cf then load_node reset_disks previous ?n server (server_resources expandvars cf)
          (add_node_group (resource_vars r) doc1) else Inr (add_node_group (resource_vars r) doc1)) = Inr doc3"
      "foldR (load_regular_host expandvars cf reset_disks previous hostnames) [0..<?k] doc3 = Inr doc"
    using assms(1-3) by (auto simp: load_inventory_def c Let_def rbind_eq_Inr split: if_splits)
  have "map_of doc1 HOST_GROUP_NAME = None" using add_server_nodes [OF l(1)] by (simp add: clean_inventory_def)
  from add_node_group_loaded [OF this] have base: "loaded ?n [] (add_node_group (resource_vars r) doc1)" .
  have "loaded ?n ?first doc3"
  proof (cases "lc_server_as_host cf")
    case True
    with l(2) load_node_loaded [OF _ base] assms(5) show ?thesis by auto
  qed (use l(2) base in simp)
  from load_regular_hosts_loaded [of expandvars cf reset_disks previous hostnames 0 ?k, simplified, OF l(3) this] assms(4,5)
  have "loaded ?n (?first @ take ?k hostnames) doc \<and> ?k \<le> length hostnames" by (auto split: if_splits)
  then show ?thesis by (simp add: loaded_def)
qed

section \<open>Properties\<close>

text \<open>C25: the inventory that is loaded has the server first, when it is a host, and then as many of the other hosts
  as configured, each with the configured number of containers.\<close>

theorem load_inventory_hosts:
  assumes "load_inventory expandvars cf reset_disks previous = Inr doc"
    and "lc_hostnames cf = Some names" "split_on CHR '','' names = server # hostnames"
    and "distinct (server # hostnames)" "[] \<notin> set (server # hostnames)"
  shows "get_node_hostnames doc =
      (if lc_server_as_host cf then [server] else []) @
      take (nat (lc_number_of_hosts cf - (if lc_server_as_host cf then 1 else 0))) hostnames \<and>
    nat (lc_number_of_hosts cf - (if lc_server_as_host cf then 1 else 0)) \<le> length hostnames \<and>
    (\<forall>h \<in> set (get_node_hostnames doc). listed_containers h doc = Inr (create_container_list h (lc_number_of_containers_per_node cf) 0))"
  using assms by (rule load_inventory_nodes)

definition sample_load :: load_settings where
  "sample_load = \<lparr>lc_hostnames = Some ''srv,h1,h2'', lc_server_ip = ''10.0.0.1'', lc_number_of_hosts = 2, lc_server_as_host = True,
     lc_number_of_containers_per_node = 2, lc_cpus_per_host = VNum 8, lc_memory_per_host = VNum 4096, lc_energy_per_host = VNum 100,
     lc_power_budgeting = False, lc_disk_capabilities = True, lc_hdd_disks_per_host = 1, lc_hdd_disks_path_list = ''/hdd'',
     lc_ssd_disks_per_host = 0, lc_ssd_disks_path_list = [], lc_create_lvm = False, lc_lvm_path = [], lc_cpus_server_node = VNum 4,
     lc_memory_server_node = VNum 2048, lc_global_hdfs = False, lc_global_hdfs_disk_name = ''nn'', lc_global_hdfs_data_dir = ''/nn''\<rparr>"

lemma sample_load_result: "case load_inventory id sample_load True [] of Inr doc \<Rightarrow> True | Inl e \<Rightarrow> False"
  by code_simp

theorem load_inventory_hosts_witness:
  "\<exists>doc. load_inventory id sample_load True [] = Inr doc \<and> get_node_hostnames doc = [''srv'', ''h1''] \<and>
     listed_containers ''h1'' doc = Inr [''h1-cont0'', ''h1-cont1'']"
proof -
  from sample_load_result obtain doc where doc: "load_inventory id sample_load True [] = Inr doc"
    by (auto split: sum.splits)
  have c: "create_container_list ''h1'' 2 0 = [''h1-cont0'', ''h1-cont1'']" by code_simp
  have "get_node_hostnames doc = [''srv'', ''h1''] \<and> listed_containers ''h1'' doc = Inr (create_container_list ''h1'' 2 0)"
    using load_inventory_hosts [OF doc, of "''srv,h1,h2''" "''srv''" "[''h1'', ''h2'']"] by (simp add: sample_load_def)
  with doc c show ?thesis by simp
qed

end
