(* ===== verification/InventoryTypes.thy ===== *)
theory InventoryTypes
  imports InventoryLoad
begin

text \<open>
  The types of the variables in every inventory the platform can reach: containers are a list and disks a
  dictionary, of a host and of the defaults alike.  The steps are the operations that save the file.
\<close>

section \<open>Typed inventories\<close>

definition typed_entry :: "string \<Rightarrow> ival \<Rightarrow> bool" where
  "typed_entry key v \<longleftrightarrow>
     (key = ''containers'' \<longrightarrow> (case v of VNull \<Rightarrow> True | VList _ \<Rightarrow> True | _ \<Rightarrow> False)) \<and>
     (key = ''disks'' \<longrightarrow> (case v of VNull \<Rightarrow> True | VDisks _ \<Rightarrow> True | _ \<Rightarrow> False))"

definition typed_vars :: "ival dict \<Rightarrow> bool" where
  "typed_vars vs \<longleftrightarrow> list_all (\<lambda>(key, v). typed_entry key v) vs"

definition typed_group :: "group \<Rightarrow> bool" where
  "typed_group g \<longleftrightarrow>
     (case g_hosts g of None \<Rightarrow> True | Some hs \<Rightarrow> list_all (\<lambda>(h, vs). typed_vars vs) hs) \<and>
     (case g_vars g of None \<Rightarrow> True | Some vs \<Rightarrow> typed_vars vs)"

definition typed :: "inventory \<Rightarrow> bool" where
  "typed doc \<longleftrightarrow> list_all (\<lambda>(n, g). typed_group g) doc"

named_theorems typing \<open>operations that keep an inventory typed\<close>

section \<open>Dictionaries\<close>

text \<open>A predicate on the members of a dictionary is kept by the operations on dictionaries.\<close>

lemma list_all_update: "list_all P d \<Longrightarrow> P (k, v) \<Longrightarrow> list_all P (AList.update k v d)"
  by (induction d) auto

lemma list_all_pop: "list_all P d \<Longrightarrow> list_all P (pop_key k d)"
  by (auto simp: list_all_iff pop_key_def)

lemma list_all_map_of: "list_all P d \<Longrightarrow> map_of d k = Some v \<Longrightarrow> P (k, v)"
  by (auto simp: list_all_iff dest!: map_of_SomeD)

lemma typed_vars_update [typing]: "typed_vars vs \<Longrightarrow> typed_entry key v \<Longrightarrow> typed_vars (AList.update key v vs)"
  unfolding typed_vars_def by (rule list_all_update) simp_all

lemma typed_vars_pop [typing]: "typed_vars vs \<Longrightarrow> typed_vars (pop_key key vs)"
  unfolding typed_vars_def by (rule list_all_pop)

lemma typed_vars_lookup: "typed_vars vs \<Longrightarrow> map_of vs key = Some v \<Longrightarrow> typed_entry key v"
  unfolding typed_vars_def by (drule (1) list_all_map_of) simp

lemma typed_vars_Nil [typing]: "typed_vars []"
  by (simp add: typed_vars_def)

lemma typed_vars_Cons [simp]: "typed_vars ((key, v) # vs) \<longleftrightarrow> typed_entry key v \<and> typed_vars vs"
  by (simp add: typed_vars_def)

lemma typed_Nil [typing]: "typed []"
  by (simp add: typed_def)

lemma typed_update [typing]: "typed doc \<Longrightarrow> typed_group g \<Longrightarrow> typed (AList.update n g doc)"
  unfolding typed_def by (rule list_all_update) simp_all

lemma typed_lookup: "typed doc \<Longrightarrow> map_of doc n = Some g \<Longrightarrow> typed_group g"
  unfolding typed_def by (drule (1) list_all_map_of) simp

lemma typed_group_hosts: "typed_group g \<Longrightarrow> g_hosts g = Some hs \<Longrightarrow> map_of hs h = Some vs \<Longrightarrow> typed_vars vs"
  unfolding typed_group_def by (auto dest: list_all_map_of)

lemma typed_group_vars: "typed_group g \<Longrightarrow> g_vars g = Some vs \<Longrightarrow> typed_vars vs"
  by (simp add: typed_group_def)

lemma typed_group_set_hosts [typing]:
  "typed_group g \<Longrightarrow> g_hosts g = Some hs \<Longrightarrow> typed_vars vs \<Longrightarrow>
   typed_group (g\<lparr>g_hosts := Some (AList.update h vs hs)\<rparr>)"
  by (auto simp: typed_group_def intro: list_all_update)

section \<open>The operations keep the types\<close>

lemma typed_set_group_var [typing]: "typed_group g \<Longrightarrow> typed_entry key v \<Longrightarrow> typed_group (set_group_var key v g)"
  by (auto simp: typed_group_def set_group_var_def typed_vars_Nil intro!: typing split: option.splits)

lemma typed_add_group_vars [typing]: "typed_group g \<Longrightarrow> typed_vars vs \<Longrightarrow> typed_group (add_group_vars vs g)"
  unfolding add_group_vars_def by (induction vs arbitrary: g) (auto simp: typed_set_group_var)

lemma typed_add_group [typing]: "typed doc \<Longrightarrow> typed_vars vs \<Longrightarrow> typed (add_group n vs doc)"
  by (auto simp: add_group_def Let_def typed_group_def intro!: typing split: option.splits dest: typed_lookup)

lemma typed_set_host_var:
  assumes "set_host_var G key v h doc = Inr doc'" "typed doc" "typed_entry key v"
  shows "typed doc'"
proof -
  obtain g where g: "map_of doc G = Some g" using assms(1) by (auto simp: set_host_var_def group_of_def rbind_eq_Inr item_eq)
  with assms(2) have tg: "typed_group g" by (rule_tac typed_lookup)
  show ?thesis
  proof (cases "h = []")
    case True
    with assms g tg show ?thesis by (auto simp: set_host_var_def group_of_def item_def intro!: typing)
  next
    case False
    with assms(1) g obtain hs vs where hs: "g_hosts g = Some hs" "map_of hs h = Some vs"
      by (auto simp: set_host_var_def group_of_def hosts_of_def rbind_eq_Inr item_eq split: option.splits)
    with tg have "typed_vars vs" by (rule_tac typed_group_hosts)
    with assms False g hs tg show ?thesis
      by (auto simp: set_host_var_def group_of_def hosts_of_def item_def Let_def intro!: typing)
  qed
qed

lemma typed_set_host_vars:
  assumes "foldR (\<lambda>(var, v). set_host_var G var v h) vars doc = Inr doc'" "typed doc" "typed_vars vars"
  shows "typed doc'"
  using assms(1,2)
proof (rule foldR_invariant)
  fix p s s'
  assume "p \<in> set vars" "typed s" "(case p of (var, v) \<Rightarrow> set_host_var G var v h) s = Inr s'"
  with assms(3) show "typed s'"
    by (auto simp: typed_vars_def list_all_iff split: prod.splits intro: typed_set_host_var)
qed

lemma typed_add_host_to_group:
  assumes "add_host_to_group G h vars doc = Inr doc'" "typed doc" "typed_vars vars"
  shows "typed doc'"
proof -
  have t: "typed (add_group G [] doc)" using assms(2) by (intro typing)
  obtain g hs where g: "map_of (add_group G [] doc) G = Some g" "g_hosts g = Some hs"
    using assms(1) by (auto simp: add_host_to_group_def Let_def group_of_def hosts_of_def rbind_eq_Inr item_eq split: option.splits)
  let ?hs = "if has_key hs h then hs else AList.update h [] hs"
  have "typed_group (g\<lparr>g_hosts := Some ?hs\<rparr>)"
    using typed_lookup [OF t g(1)] g(2) typed_group_set_hosts [of g hs "[]" h]
    by (auto simp: typed_group_def typed_vars_Nil)
  with t have "typed (AList.update G (g\<lparr>g_hosts := Some ?hs\<rparr>) (add_group G [] doc))" by (rule typed_update)
  with assms(1,3) g show ?thesis
    by (auto simp: add_host_to_group_def Let_def group_of_def hosts_of_def item_def intro: typed_set_host_vars)
qed

lemma typed_entry_containers [simp]: "typed_entry ''containers'' (VList xs)" "typed_entry ''containers'' VNull"
  by (simp_all add: typed_entry_def)

lemma typed_entry_disks [simp]: "typed_entry ''disks'' (VDisks d)" "typed_entry ''disks'' VNull"
  by (simp_all add: typed_entry_def)

lemma typed_entry_other [simp]: "key \<noteq> ''containers'' \<Longrightarrow> key \<noteq> ''disks'' \<Longrightarrow> typed_entry key v"
  by (simp add: typed_entry_def)

text \<open>A variable that is read has the type of its key.\<close>

lemma typed_get_var: "typed_vars vs \<Longrightarrow> get_var vs key = Some v \<Longrightarrow> typed_entry key v \<and> v \<noteq> VNull"
  by (auto simp: get_var_def split: option.splits ival.splits dest: typed_vars_lookup)

lemma typed_get_host_var:
  assumes "typed doc" "get_host_var G key h doc = Inr (Some v)"
  shows "typed_entry key v \<and> v \<noteq> VNull"
proof -
  obtain g where g: "map_of doc G = Some g"
    using assms(2) by (auto simp: get_host_var_def group_of_def Let_def rbind_eq_Inr item_eq split: if_splits)
  with assms(1) have tg: "typed_group g" by (rule_tac typed_lookup)
  have vars: "typed_entry key v \<and> v \<noteq> VNull" if "rbind (vars_of g) (\<lambda>vs. Inr (get_var vs key)) = Inr (Some v)"
    using that typed_get_var [OF typed_group_vars [OF tg]]
    by (auto simp: vars_of_def rbind_eq_Inr split: option.splits)
  show ?thesis
  proof (cases "h = []")
    case True
    with assms(2) g vars show ?thesis by (simp add: get_host_var_def group_of_def item_def)
  next
    case False
    with assms(2) g obtain hs where hs: "g_hosts g = Some hs"
      "(case get_var (get_or hs h []) key of None \<Rightarrow> rbind (vars_of g) (\<lambda>vs. Inr (get_var vs key)) | Some v \<Rightarrow> Inr (Some v)) = Inr (Some v)"
      by (auto simp: get_host_var_def group_of_def hosts_of_def item_def Let_def rbind_eq_Inr split: option.splits)
    show ?thesis
    proof (cases "get_var (get_or hs h []) key")
      case (Some w)
      then obtain vs where "map_of hs h = Some vs" "get_var vs key = Some w"
        by (auto simp: get_or_def get_var_def split: option.splits)
      with hs Some typed_get_var [OF typed_group_hosts [OF tg hs(1)]] show ?thesis by auto
    qed (use hs vars in simp)
  qed
qed

lemma get_host_var_error: "get_host_var G key h doc = Inl e \<Longrightarrow> \<exists>k. e = KeyError k"
  by (auto simp: get_host_var_def group_of_def hosts_of_def vars_of_def item_def Let_def rbind_eq_Inl split: option.splits if_splits)

lemma get_node_resource_cases:
  assumes "typed doc"
  obtains msg where "get_node_resource res h doc = Inl (PyException msg)"
  | "get_node_resource res h doc = Inr None"
  | v where "get_node_resource res h doc = Inr (Some v)" "typed_entry res v" "v \<noteq> VNull"
proof (cases "get_host_var HOST_GROUP_NAME res h doc")
  case (Inl e)
  with get_host_var_error [OF Inl] that(1) show ?thesis by (auto simp: get_node_resource_def rename_key_error_def)
next
  case (Inr v)
  with that(2,3) typed_get_host_var [OF assms, of HOST_GROUP_NAME res h] show ?thesis
    by (cases v) (auto simp: get_node_resource_def)
qed

lemma typed_containers: "typed doc \<Longrightarrow> listed_containers h doc = Inl e \<Longrightarrow> \<exists>msg. e = PyException msg"
  by (erule get_node_resource_cases [of doc "''containers''" h])
    (auto simp: listed_containers_eq as_list_def typed_entry_def split: ival.splits)

lemma typed_disks: "typed doc \<Longrightarrow> listed_disks h doc = Inl e \<Longrightarrow> \<exists>msg. e = PyException msg"
  by (erule get_node_resource_cases [of doc "''disks''" h])
    (auto simp: listed_disks_eq as_disks_def typed_entry_def split: ival.splits)

lemma typed_add_containers: "add_containers h cs doc = Inr doc' \<Longrightarrow> typed doc \<Longrightarrow> typed doc'"
  by (auto simp: add_containers_def rbind_eq_Inr intro: typed_set_host_var)

lemma typed_add_disks: "add_disks h ds doc = Inr doc' \<Longrightarrow> typed doc \<Longrightarrow> typed doc'"
  by (auto simp: add_disks_def rbind_eq_Inr intro: typed_set_host_var)

lemma typed_update_disk: "update_disk h d info doc = Inr doc' \<Longrightarrow> typed doc \<Longrightarrow> typed doc'"
  by (auto simp: update_disk_def rbind_eq_Inr intro: typed_set_host_var)

lemma typed_remove_container:
  assumes "remove_container h c doc = Inr doc'" "typed doc"
  shows "typed doc'"
proof -
  obtain current where cur: "get_node_resource ''containers'' h doc = Inr current"
    "set_host_var HOST_GROUP_NAME ''containers''
       (case current of None \<Rightarrow> VNull | Some (VList xs) \<Rightarrow> VList (remove1 c xs) | Some v \<Rightarrow> v) h doc = Inr doc'"
    using assms(1) by (auto simp: remove_container_def rbind_eq_Inr)
  have "typed_entry ''containers'' (case current of None \<Rightarrow> VNull | Some (VList xs) \<Rightarrow> VList (remove1 c xs) | Some v \<Rightarrow> v)"
    by (rule get_node_resource_cases [OF assms(2), of "''containers''" h])
      (use cur(1) in \<open>auto simp: typed_entry_def split: ival.splits option.splits\<close>)
  with cur(2) assms(2) show ?thesis by (rule typed_set_host_var)
qed

lemma typed_remove_host_of: "typed doc \<Longrightarrow> typed (remove_host_of G h doc)"
  by (auto simp: remove_host_of_def typed_group_def intro!: typed_update split: option.splits dest: typed_lookup)

lemma typed_add_server: "add_server ip n doc = Inr doc' \<Longrightarrow> typed doc \<Longrightarrow> typed doc'"
  unfolding add_server_def by (erule typed_add_host_to_group) (simp_all add: typed_vars_Nil)

lemma typed_add_node: "add_node h vars cs doc = Inr doc' \<Longrightarrow> typed doc \<Longrightarrow> typed_vars vars \<Longrightarrow> typed doc'"
  unfolding add_node_def by (erule typed_add_host_to_group) (auto intro: typing)

text \<open>The operations over several containers or hosts.\<close>

lemma typed_add_containers_to_inventory: "add_containers_to_inventory cs doc = Inr doc' \<Longrightarrow> typed doc \<Longrightarrow> typed doc'"
  unfolding add_containers_to_inventory_def
  by (rule foldR_invariant [where I = typed]) (auto simp: add_container_def split: prod.splits dest: typed_add_containers)

lemma typed_add_containers_to_hosts: "add_containers_to_hosts new doc = Inr (doc', added) \<Longrightarrow> typed doc \<Longrightarrow> typed doc'"
  unfolding add_containers_to_hosts_def
  by (drule foldR_invariant [where I = "\<lambda>s. typed (fst s)"])
    (auto simp: add_containers_to_host_def Let_def rbind_eq_Inr split: prod.splits dest: typed_add_containers)

lemma typed_add_disks_to_hosts: "add_disks_to_hosts hosts new doc = Inr (doc', added) \<Longrightarrow> typed doc \<Longrightarrow> typed doc'"
  unfolding add_disks_to_hosts_def
  by (drule foldR_invariant [where I = "\<lambda>s. typed (fst s)"])
    (auto simp: add_disks_to_host_def Let_def rbind_eq_Inr split: prod.splits dest: typed_add_disks)

lemma typed_add_host: "add_host ev h cpu mem di energy n doc = Inr doc' \<Longrightarrow> typed doc \<Longrightarrow> typed doc'"
  by (auto simp: add_host_def Let_def rbind_eq_Inr typing elim!: typed_add_node)

lemma typed_resource_vars: "typed_vars (resource_vars r)"
  by (simp add: resource_vars_def typed_vars_Nil)

lemma typed_load_node: "load_node rd prev n h res doc = Inr doc' \<Longrightarrow> typed doc \<Longrightarrow> typed doc'"
  by (auto simp: load_node_def rbind_eq_Inr intro: typed_add_node typed_resource_vars)

lemma typed_load_regular_hosts: "foldR (load_regular_host ev cf rd prev hs) is doc = Inr doc' \<Longrightarrow> typed doc \<Longrightarrow> typed doc'"
  by (erule foldR_invariant) (auto simp: load_regular_host_def split: if_splits intro: typed_load_node)

lemma typed_load_inventory:
  assumes "load_inventory ev cf rd prev = Inr doc"
  shows "typed doc"
proof -
  obtain c cs server hostnames where n: "lc_hostnames cf = Some (c # cs)" "split_on CHR '','' (c # cs) = server # hostnames"
    using assms by (auto simp: load_inventory_def simp del: split_on.simps split: option.splits list.splits)
  obtain doc1 r doc3 where
    l: "add_server (lc_server_ip cf) server (clean_inventory prev) = Inr doc1"
      "(if lc_server_as_host cf then load_node rd prev (lc_number_of_containers_per_node cf) server (server_resources ev cf)
          (add_node_group (resource_vars r) doc1) else Inr (add_node_group (resource_vars r) doc1)) = Inr doc3"
      "foldR (load_regular_host ev cf rd prev hostnames)
          [0..<nat (lc_number_of_hosts cf - (if lc_server_as_host cf then 1 else 0))] doc3 = Inr doc"
    using assms n by (auto simp: load_inventory_def Let_def rbind_eq_Inr simp del: split_on.simps split: if_splits)
  have "typed doc1" using typed_add_server [OF l(1)] by (simp add: clean_inventory_def typed_Nil)
  then have "typed (add_node_group (resource_vars r) doc1)"
    unfolding add_node_group_def by (intro typed_add_group typed_resource_vars)
  with l(2) have "typed doc3" by (auto split: if_splits dest: typed_load_node)
  with l(3) show ?thesis by (rule typed_load_regular_hosts)
qed

section \<open>The group of the nodes\<close>

text \<open>Reading a variable needs the group of the nodes to have both of its mappings.\<close>

definition nodes_complete :: "inventory \<Rightarrow> bool" where
  "nodes_complete doc \<longleftrightarrow> (case map_of doc HOST_GROUP_NAME of None \<Rightarrow> False | Some g \<Rightarrow> g_hosts g \<noteq> None \<and> g_vars g \<noteq> None)"

named_theorems nodes_kept \<open>operations that keep the mappings of the nodes\<close>

lemma nodes_complete_update:
  "nodes_complete doc \<Longrightarrow> (n = HOST_GROUP_NAME \<Longrightarrow> g_hosts g \<noteq> None \<and> g_vars g \<noteq> None) \<Longrightarrow>
   nodes_complete (AList.update n g doc)"
  by (auto simp: nodes_complete_def)

lemma nodes_complete_lookup:
  "nodes_complete doc \<Longrightarrow> map_of doc HOST_GROUP_NAME = Some g \<Longrightarrow> g_hosts g \<noteq> None \<and> g_vars g \<noteq> None"
  by (simp add: nodes_complete_def)

lemma set_group_var_maps [simp]:
  "g_hosts (set_group_var k v g) = g_hosts g" "\<exists>vs. g_vars (set_group_var k v g) = Some vs"
  by (simp_all add: set_group_var_def)

lemma add_group_vars_maps: "g_hosts (add_group_vars vs g) = g_hosts g \<and> (g_vars g \<noteq> None \<longrightarrow> g_vars (add_group_vars vs g) \<noteq> None)"
  unfolding add_group_vars_def by (induction vs arbitrary: g) auto

lemma nodes_add_group [nodes_kept]: "nodes_complete doc \<Longrightarrow> nodes_complete (add_group n vs doc)"
  using add_group_vars_maps unfolding add_group_def Let_def
  by (intro nodes_complete_update) (auto dest: nodes_complete_lookup simp: nodes_complete_def split: option.splits)

lemma nodes_set_host_var [nodes_kept]:
  "set_host_var G key v h doc = Inr doc' \<Longrightarrow> nodes_complete doc \<Longrightarrow> nodes_complete doc'"
  by (auto simp: set_host_var_def group_of_def hosts_of_def rbind_eq_Inr item_eq Let_def split: if_splits
      intro!: nodes_complete_update dest: nodes_complete_lookup)

lemma nodes_add_host_to_group [nodes_kept]:
  assumes "add_host_to_group G h vars doc = Inr doc'" "nodes_complete doc"
  shows "nodes_complete doc'"
proof -
  have c: "nodes_complete (add_group G [] doc)" using assms(2) by (rule nodes_add_group)
  obtain g hs where g: "map_of (add_group G [] doc) G = Some g" "g_hosts g = Some hs"
    and f: "foldR (\<lambda>(var, v). set_host_var G var v h) vars
      (AList.update G (g\<lparr>g_hosts := Some (if has_key hs h then hs else AList.update h [] hs)\<rparr>) (add_group G [] doc)) = Inr doc'"
    using assms(1) by (auto simp: add_host_to_group_def Let_def group_of_def hosts_of_def rbind_eq_Inr item_eq split: option.splits)
  have "nodes_complete (AList.update G (g\<lparr>g_hosts := Some (if has_key hs h then hs else AList.update h [] hs)\<rparr>) (add_group G [] doc))"
    using c g by (intro nodes_complete_update) (auto dest: nodes_complete_lookup)
  with f show ?thesis
    by (rule foldR_invariant) (auto split: prod.splits intro: nodes_set_host_var)
qed

lemma nodes_containers_disks [nodes_kept]:
  "add_containers h cs doc = Inr doc' \<Longrightarrow> nodes_complete doc \<Longrightarrow> nodes_complete doc'"
  "add_disks h ds doc = Inr doc' \<Longrightarrow> nodes_complete doc \<Longrightarrow> nodes_complete doc'"
  "update_disk h d info doc = Inr doc' \<Longrightarrow> nodes_complete doc \<Longrightarrow> nodes_complete doc'"
  "remove_container h c doc = Inr doc' \<Longrightarrow> nodes_complete doc \<Longrightarrow> nodes_complete doc'"
  by (auto simp: add_containers_def add_disks_def update_disk_def remove_container_def rbind_eq_Inr intro: nodes_set_host_var)

lemma nodes_folds [nodes_kept]:
  "add_containers_to_inventory pairs doc = Inr doc' \<Longrightarrow> nodes_complete doc \<Longrightarrow> nodes_complete doc'"
  "add_containers_to_hosts new doc = Inr (doc', added) \<Longrightarrow> nodes_complete doc \<Longrightarrow> nodes_complete doc'"
  "add_disks_to_hosts hosts disks doc = Inr (doc', added_disks) \<Longrightarrow> nodes_complete doc \<Longrightarrow> nodes_complete doc'"
  unfolding add_containers_to_inventory_def add_containers_to_hosts_def add_disks_to_hosts_def
  by ((drule foldR_invariant [where I = nodes_complete] foldR_invariant [where I = "\<lambda>s. nodes_complete (fst s)"]),
      auto simp: add_container_def add_containers_to_host_def add_disks_to_host_def Let_def rbind_eq_Inr
        split: prod.splits dest: nodes_containers_disks)+

lemma nodes_add_host [nodes_kept]:
  "add_host ev h cpu mem di energy n doc = Inr doc' \<Longrightarrow> nodes_complete doc \<Longrightarrow> nodes_complete doc'"
  by (auto simp: add_host_def Let_def rbind_eq_Inr add_node_def elim!: nodes_add_host_to_group)

lemma nodes_load_node: "load_node rd prev n h res doc = Inr doc' \<Longrightarrow> nodes_complete doc \<Longrightarrow> nodes_complete doc'"
  by (auto simp: load_node_def rbind_eq_Inr add_node_def elim: nodes_add_host_to_group)

lemma nodes_load_regular_hosts:
  "foldR (load_regular_host ev cf rd prev hs) is doc = Inr doc' \<Longrightarrow> nodes_complete doc \<Longrightarrow> nodes_complete doc'"
  by (erule foldR_invariant) (auto simp: load_regular_host_def split: if_splits intro: nodes_load_node)

lemma nodes_add_node_group: "nodes_complete (add_node_group (resource_vars r) doc)"
proof -
  have "g_vars (add_group_vars (resource_vars r) g) \<noteq> None" for g
    by (auto simp: add_group_vars_def resource_vars_def EMPTIABLE_VARS_def)
  then show ?thesis
    using add_group_vars_maps [of "resource_vars r"]
    by (auto simp: nodes_complete_def add_node_group_def add_group_def Let_def split: option.splits)
qed

lemma nodes_load_inventory [nodes_kept]:
  assumes "load_inventory ev cf rd prev = Inr doc"
  shows "nodes_complete doc"
proof -
  obtain c cs server hostnames where n: "lc_hostnames cf = Some (c # cs)" "split_on CHR '','' (c # cs) = server # hostnames"
    using assms by (auto simp: load_inventory_def simp del: split_on.simps split: option.splits list.splits)
  obtain doc1 r doc3 where
    l: "(if lc_server_as_host cf then load_node rd prev (lc_number_of_containers_per_node cf) server (server_resources ev cf)
          (add_node_group (resource_vars r) doc1) else Inr (add_node_group (resource_vars r) doc1)) = Inr doc3"
      "foldR (load_regular_host ev cf rd prev hostnames)
          [0..<nat (lc_number_of_hosts cf - (if lc_server_as_host cf then 1 else 0))] doc3 = Inr doc"
    using assms n by (auto simp: load_inventory_def Let_def rbind_eq_Inr simp del: split_on.simps split: if_splits)
  have "nodes_complete doc3"
    using l(1) nodes_add_node_group [of r doc1] by (auto split: if_splits dest: nodes_load_node)
  with l(2) show ?thesis by (rule nodes_load_regular_hosts)
qed

lemma nodes_remove_host [nodes_kept]:
  "h \<notin> {''hosts'', ''vars''} \<Longrightarrow> nodes_complete doc \<Longrightarrow> nodes_complete (remove_host h doc)"
  by (auto simp: remove_host_def remove_node_def remove_host_of_def split: option.splits
      intro!: nodes_complete_update dest: nodes_complete_lookup)

text \<open>With a complete group a variable of a host, known or not, can be read.\<close>

lemma nodes_get_resource: "nodes_complete doc \<Longrightarrow> \<exists>v. get_node_resource res h doc = Inr v"
  by (auto simp: nodes_complete_def get_node_resource_def get_host_var_def group_of_def hosts_of_def vars_of_def item_def
      Let_def rename_key_error_def split: option.splits)

text \<open>Removing a host named \<open>hosts\<close> takes the mapping away: no variable of any node can be read afterwards.\<close>

lemma remove_hosts_key:
  assumes "nodes_complete doc" "h \<noteq> []"
  shows "\<exists>msg. get_containers h (remove_host ''hosts'' doc) = Inl (PyException msg)"
  using assms by (auto simp: nodes_complete_def remove_host_def remove_node_def remove_host_of_def get_containers_def
      get_node_resource_def get_host_var_def group_of_def hosts_of_def item_def Let_def rename_key_error_def split: option.splits)

section \<open>Reachable inventories\<close>

text \<open>
  A step saves the file that one operation makes of it.  An operation that raises saves nothing.  Hosts may have
  any names but \<open>hosts\<close> and \<open>vars\<close> when they are removed: \<open>_remove_host\<close> takes the key from the group itself
  (see \<open>remove_hosts_key\<close>).
\<close>

inductive inventory_step :: "inventory \<Rightarrow> inventory \<Rightarrow> bool" where
  load: "load_inventory expandvars cf reset_disks doc = Inr doc' \<Longrightarrow> inventory_step doc doc'"
| host: "add_host expandvars h cpu mem di energy n doc = Inr doc' \<Longrightarrow> inventory_step doc doc'"
| containers: "add_containers_to_inventory cs doc = Inr doc' \<Longrightarrow> inventory_step doc doc'"
| new_containers: "add_containers_to_hosts new doc = Inr (doc', added) \<Longrightarrow> inventory_step doc doc'"
| new_disks: "add_disks_to_hosts hosts disks doc = Inr (doc', added_disks) \<Longrightarrow> inventory_step doc doc'"
| no_host: "h \<notin> {''hosts'', ''vars''} \<Longrightarrow> inventory_step doc (remove_host h doc)"
| no_container: "remove_container_from_host c h doc = Inr doc' \<Longrightarrow> inventory_step doc doc'"
| bandwidths: "update_inventory_disk h d rd wr doc = Inr doc' \<Longrightarrow> inventory_step doc doc'"

inductive reachable_inventory :: "inventory \<Rightarrow> bool" where
  initial: "load_inventory expandvars cf reset_disks previous = Inr doc \<Longrightarrow> reachable_inventory doc"
| step: "reachable_inventory doc \<Longrightarrow> inventory_step doc doc' \<Longrightarrow> reachable_inventory doc'"

lemma typed_step: "inventory_step doc doc' \<Longrightarrow> typed doc \<Longrightarrow> typed doc'"
  by (induction rule: inventory_step.induct)
    (auto simp: remove_host_def remove_node_def remove_container_from_host_def update_inventory_disk_def
      dest: typed_load_inventory typed_add_host typed_add_containers_to_inventory typed_add_containers_to_hosts
        typed_add_disks_to_hosts typed_remove_container typed_update_disk intro: typed_remove_host_of)

lemma typed_reachable: "reachable_inventory doc \<Longrightarrow> typed doc"
  by (induction rule: reachable_inventory.induct) (auto dest: typed_load_inventory typed_step)

lemma nodes_step: "inventory_step doc doc' \<Longrightarrow> nodes_complete doc \<Longrightarrow> nodes_complete doc'"
  by (induction rule: inventory_step.induct)
    (auto simp: remove_container_from_host_def update_inventory_disk_def intro: nodes_kept)

lemma nodes_reachable: "reachable_inventory doc \<Longrightarrow> nodes_complete doc"
  by (induction rule: reachable_inventory.induct) (auto intro: nodes_load_inventory nodes_step)

lemma typed_get_node_resource:
  "typed doc \<Longrightarrow> get_node_resource res h doc = Inr (Some v) \<Longrightarrow> typed_entry res v \<and> v \<noteq> VNull"
  by (erule get_node_resource_cases [of doc res h]) auto

lemma typed_values:
  assumes "typed doc" "nodes_complete doc"
  shows "\<exists>cs. get_containers h doc = Inr (VList cs)" "\<exists>ds. get_disks h doc = Inr (VDisks ds)"
proof -
  obtain c d where "get_node_resource ''containers'' h doc = Inr c" "get_node_resource ''disks'' h doc = Inr d"
    using nodes_get_resource [OF assms(2)] by blast
  then show "\<exists>cs. get_containers h doc = Inr (VList cs)" "\<exists>ds. get_disks h doc = Inr (VDisks ds)"
    using typed_get_node_resource [OF assms(1), of "''containers''" h] typed_get_node_resource [OF assms(1), of "''disks''" h]
    by (cases c; cases d; force simp: get_containers_def get_disks_def typed_entry_def split: ival.splits)+
qed

section \<open>Properties\<close>

text \<open>C26: in every inventory the platform can reach, by loading it and by any sequence of the operations that
  change it, the variables called containers are lists and those called disks dictionaries, and reading the
  containers or the disks of a host always returns a list and a dictionary: it neither raises nor returns a value of
  another type, whatever the host.  (No host called \<open>hosts\<close> or \<open>vars\<close> is removed on the way.)\<close>

theorem reachable_inventory_typed:
  assumes "reachable_inventory doc"
  shows "typed doc \<and> (\<forall>h. (\<exists>cs. get_containers h doc = Inr (VList cs)) \<and> (\<exists>ds. get_disks h doc = Inr (VDisks ds)))"
  using typed_reachable [OF assms] typed_values [OF typed_reachable [OF assms] nodes_reachable [OF assms]] by blast


lemma sample_steps:
  "case load_inventory id sample_load True [] of Inl e \<Rightarrow> False | Inr doc \<Rightarrow>
     (case add_containers_to_hosts [(''h1'', 1)] doc of Inl e \<Rightarrow> False | Inr (doc', added) \<Rightarrow>
        listed_containers ''h1'' doc' = Inr [''h1-cont0'', ''h1-cont1'', ''h1-cont2''])"
  by code_simp

theorem reachable_inventory_typed_witness:
  "\<exists>doc. reachable_inventory doc \<and> listed_containers ''h1'' doc = Inr [''h1-cont0'', ''h1-cont1'', ''h1-cont2''] \<and>
     (\<exists>ds. get_disks ''h1'' doc = Inr (VDisks ds))"
proof -
  from sample_steps obtain doc doc' added where d: "load_inventory id sample_load True [] = Inr doc"
    "add_containers_to_hosts [(''h1'', 1)] doc = Inr (doc', added)"
    "listed_containers ''h1'' doc' = Inr [''h1-cont0'', ''h1-cont1'', ''h1-cont2'']"
    by (auto split: sum.splits prod.splits)
  then have "reachable_inventory doc'"
    by (intro reachable_inventory.step [OF reachable_inventory.initial] inventory_step.new_containers)
  with d(3) reachable_inventory_typed [of doc'] show ?thesis by blast
qed

end
