(* ===== verification/SetupScripts.thy ===== *)
theory SetupScripts
  imports AppViews InventoryLoad
begin

text \<open>
  The scripts that set up a platform: \<open>scripts/config/load_config_from_slurm.py\<close>, which reads the nodes of a SLURM
  job into the configuration, and \<open>scripts/load_apps_from_config.py\<close>, which adds the configured applications.
  Environment variables, system files, the output of \<open>scontrol\<close> and the files of the applications are parameters.
\<close>

section \<open>The nodes of a SLURM job\<close>

text \<open>\<open>re.sub("[\(\[].*?[\)\]]", "", s)\<close>: from an opening bracket to the next closing one on the same line.\<close>

definition opening_bracket :: "char \<Rightarrow> bool" where "opening_bracket c \<longleftrightarrow> c \<in> set ''([''"
definition closing_bracket :: "char \<Rightarrow> bool" where "closing_bracket c \<longleftrightarrow> c \<in> set '')]''"

definition after_closing :: "string \<Rightarrow> string option" where
  "after_closing s =
     (case dropWhile (\<lambda>c. \<not> closing_bracket c) s of
        [] \<Rightarrow> None
      | c # rest \<Rightarrow> if CHR 10 \<in> set (takeWhile (\<lambda>c. \<not> closing_bracket c) s) then None else Some rest)"

lemma after_closing_shorter: "after_closing s = Some r \<Longrightarrow> length r < length s"
  using length_dropWhile_le [of "\<lambda>c. \<not> closing_bracket c" s]
  by (auto simp: after_closing_def split: list.splits if_splits)

function remove_brackets :: "string \<Rightarrow> string" where
  "remove_brackets [] = []"
| "remove_brackets (c # s) =
     (if opening_bracket c then (case after_closing s of Some r \<Rightarrow> remove_brackets r | None \<Rightarrow> c # remove_brackets s)
      else c # remove_brackets s)"
  by pat_completeness auto
termination
  by (relation "measure length") (auto dest: after_closing_shorter)

text \<open>\<open>smt\<close> is the text of \<open>/sys/devices/system/cpu/smt/active\<close>, if it can be read.\<close>

definition smt_active :: "string option \<Rightarrow> bool" where
  "smt_active smt = (case smt of None \<Rightarrow> False | Some t \<Rightarrow> (case int_of_str (strip t) of Some n \<Rightarrow> 0 < n | None \<Rightarrow> False))"

definition getNodesCpus :: "string option \<Rightarrow> string option \<Rightarrow> bool \<Rightarrow> int result" where
  "getNodesCpus cpus_per_node_string smt disable_smt =
     (case cpus_per_node_string of
        None \<Rightarrow> Inl (TypeError ''int'')
      | Some [] \<Rightarrow> Inl (PyException ''Can't get node CPUs'')
      | Some s \<Rightarrow>
          rbind (case int_of_str s of Some n \<Rightarrow> Inr n | None \<Rightarrow> int_str (remove_brackets s)) (\<lambda>n.
          Inr (if \<not> disable_smt \<and> smt_active smt then n * 2 else n)))"

text \<open>The last item of the answer of \<open>scontrol\<close> that speaks of the allocated memory.\<close>

definition note_memory :: "string \<Rightarrow> int option \<Rightarrow> int option result" where
  "note_memory item_text found =
     (if contains ''AllocMem'' item_text
      then (case split_on CHR ''='' item_text of
              _ # v # _ \<Rightarrow> rbind (int_str v) (\<lambda>n. Inr (Some n)) | _ \<Rightarrow> Inl IndexError)
      else Inr found)"

definition getNodesMemory :: "string \<Rightarrow> rat \<Rightarrow> int result" where
  "getNodesMemory output memory_factor =
     rbind (foldR note_memory (split_on CHR '' '' output) None) (\<lambda>found.
     case found of None \<Rightarrow> Inl (PyException ''Can't get node Memory'') | Some m \<Rightarrow> Inr (py_int (of_int m * memory_factor)))"

text \<open>Assigning a field of a mapping never raises \<open>KeyError\<close>: a missing one is added.\<close>

definition update_module :: "nat \<Rightarrow> obj \<Rightarrow> obj list \<Rightarrow> obj list result" where
  "update_module i new_config modules =
     (if i < length modules then Inr (modules[i := dict_update (modules ! i) new_config]) else Inl IndexError)"

definition slurm_host_fields :: "string \<Rightarrow> string list \<Rightarrow> int \<Rightarrow> int \<Rightarrow> bool \<Rightarrow> obj" where
  "slurm_host_fields server_ip hosts cpus_per_node memory_per_node server_as_host =
     [(''server_ip'', JStr server_ip), (''cpus_server_node'', JInt cpus_per_node), (''memory_server_node'', JInt memory_per_node),
      (''number_of_hosts'', JInt (if server_as_host then int (length hosts) else int (length hosts) - 1)),
      (''cpus_per_host'', JInt cpus_per_node), (''memory_per_host'', JInt memory_per_node),
      (''hostnames'', JStr (join '','' hosts))]"

definition update_config_file ::
  "string \<Rightarrow> string list \<Rightarrow> int \<Rightarrow> int \<Rightarrow> bool \<Rightarrow> obj list \<Rightarrow> obj list result" where
  "update_config_file server_ip hosts cpus_per_node memory_per_node server_as_host modules =
     rbind (update_module 0 [(''virtual_mode'', JStr ''no''), (''container_engine'', JStr ''apptainer''),
                             (''cgroups_version'', JStr ''v1'')] modules) (\<lambda>modules.
     rbind (update_module 1 (slurm_host_fields server_ip hosts cpus_per_node memory_per_node server_as_host) modules)
       (update_module 6 [(''number_of_containers_per_node'', JInt 0)]))"

text \<open>What a job tells: the host names, the address of the first, the variables and files that are read.\<close>

record slurm_job =
  job_hosts :: "string list"
  job_address :: "string \<Rightarrow> string result"
  job_cpus :: "string option"
  job_smt :: "string option"
  job_node :: "string \<Rightarrow> string"            \<comment> \<open>\<open>scontrol -o show nodes\<close>\<close>

definition load_config_from_slurm :: "slurm_job \<Rightarrow> obj list \<Rightarrow> obj list result" where
  "load_config_from_slurm job modules =
     (if length modules \<le> 1 then Inl IndexError
      else rbind (item (modules ! 1) ''server_as_host'') (\<lambda>server_as_host.
       rbind (item (modules ! 1) ''disable_smt'') (\<lambda>disable_smt.
       rbind (item (modules ! 1) ''memory_factor'') (\<lambda>memory_factor.
       case job_hosts job of
         [] \<Rightarrow> Inl IndexError
       | server # _ \<Rightarrow>
         rbind (job_address job server) (\<lambda>server_ip.
         rbind (getNodesCpus (job_cpus job) (job_smt job) (jtruthy disable_smt)) (\<lambda>cpus.
         rbind (jnum memory_factor) (\<lambda>factor. rbind (getNodesMemory (job_node job server) factor) (\<lambda>memory.
         update_config_file server_ip (job_hosts job) cpus memory (jtruthy server_as_host) modules))))))))"

section \<open>Configured applications\<close>

text \<open>A key of an optional kind: given, with a default, or empty.\<close>

definition app_file_key :: "string \<Rightarrow> obj \<Rightarrow> string \<Rightarrow> string \<times> json" where
  "app_file_key app_dir config key =
     (key, JStr (case map_of config key of
        Some v \<Rightarrow> app_dir @ ''/'' @ str_value v
      | None \<Rightarrow> if key \<in> {''start_script'', ''stop_script''} then get_or default_app_values key [] else []))"

definition set_in :: "obj \<Rightarrow> string \<Rightarrow> bool" where   \<comment> \<open>\<open>key in config and config[key] != ""\<close>\<close>
  "set_in config key \<longleftrightarrow> has_key config key \<and> get_or config key JNull \<noteq> JStr []"

definition configured_names :: "obj \<Rightarrow> string list result" where
  "configured_names config =
     (if set_in config ''name'' then rbind (rbind (item config ''name'') jstr) (\<lambda>s. Inr (split_on CHR '','' s))
      else if set_in config ''names'' then rbind (rbind (item config ''names'') jstr) (\<lambda>s. Inr (split_on CHR '','' s))
      else Inl (PyException ''Missing mandatory parameter name or names''))"

definition supported_app_types :: "json list" where
  "supported_app_types = map JStr [''base'', ''generic_app'', ''hadoop_app'', ''spark_app'']"

definition configured_type :: "obj \<Rightarrow> obj \<Rightarrow> json result" where
  "configured_type config app =
     (if set_in config ''app_type''
      then rbind (item config ''app_type'') (\<lambda>t.
        if t \<notin> set supported_app_types then Inl (PyException ''Not a supported app type'') else Inr t)
      else Inr (JStr (if get_or app ''install_script'' (JStr []) \<noteq> JStr [] then ''generic_app'' else ''base'')))"

text \<open>The framework and the type it makes of the application.\<close>

definition configured_framework :: "obj \<Rightarrow> json \<Rightarrow> (json \<times> json) result" where
  "configured_framework config app_type =
     (if set_in config ''framework''
      then rbind (item config ''framework'') (\<lambda>f.
        if f \<noteq> JStr ''spark'' then Inl (PyException ''Not a supported extra framework'') else Inr (f, JStr ''spark_app''))
      else Inr (JStr (if app_type = JStr ''hadoop_app'' then ''hadoop'' else []), app_type))"

definition resource_key :: "obj \<Rightarrow> string \<Rightarrow> string \<Rightarrow> (string \<times> json) result" where
  "resource_key config res key =
     (case map_of config (res @ ''_'' @ key) of
        Some v \<Rightarrow> Inr (key, v)
      | None \<Rightarrow> if key = ''weight'' then Inr (key, default_weight)
                else Inl (PyException (''Missing mandatory parameter '' @ res @ ''_'' @ key)))"

definition configured_resource :: "obj \<Rightarrow> string \<Rightarrow> (string \<times> json) result" where
  "configured_resource config res =
     rbind (mapR (resource_key config res) [''max'', ''min'', ''weight'']) (\<lambda>fields.
     Inr (res, JObj ((''guard'', JBool False) # fields)))"

definition configured_limit :: "obj \<Rightarrow> string \<Rightarrow> string \<times> json" where
  "configured_limit config res =
     (res, JObj [(''boundary'', get_or config (res @ ''_boundary'') default_boundary),
                 (''boundary_type'', get_or config (res @ ''_boundary_type'') default_boundary_type)])"

definition used_resource :: "obj \<Rightarrow> string \<Rightarrow> bool result" where
  "used_resource general_config res =
     (let flag = (\<lambda>k. rbind (item general_config k) (\<lambda>v. Inr (jtruthy v)))
      in if res \<in> {''disk_read'', ''disk_write''} then andR (flag ''disk_capabilities'') (flag ''disk_scaling'')
         else if res = ''energy'' then flag ''power_budgeting'' else Inr True)"

definition add_configured :: "obj \<Rightarrow> obj \<Rightarrow> string \<Rightarrow> obj \<times> obj \<Rightarrow> (obj \<times> obj) result" where
  "add_configured general_config config res s =
     rbind (used_resource general_config res) (\<lambda>used.
     if \<not> used then Inr s
     else rbind (configured_resource config res) (\<lambda>r. Inr (fst s @ [r], snd s @ [configured_limit config res])))"

text \<open>The document of an application without its name, its limits and its type.\<close>

definition configured_app :: "obj \<Rightarrow> string \<Rightarrow> obj \<Rightarrow> (obj \<times> obj \<times> json) result" where
  "configured_app general_config app_dir config =
     (let app = [(''guard'', JBool False), (''subtype'', JStr ''application'')] @
            map (app_file_key app_dir config) [''start_script'', ''stop_script'', ''install_script'', ''install_files'', ''runtime_files'', ''output_dir'']
      in rbind (configured_type config app) (\<lambda>t. rbind (configured_framework config t) (\<lambda>(framework, app_type).
         rbind (foldR (add_configured general_config config) [''cpu'', ''mem'', ''disk_read'', ''disk_write'', ''energy''] ([], [])) (\<lambda>(rs, ls).
         Inr (app @ [(''framework'', framework), (''resources'', JObj rs)], [(''resources'', JObj ls)], app_type)))))"

definition image_files :: "string \<Rightarrow> obj \<Rightarrow> json \<Rightarrow> obj" where
  "image_files app_dir app app_type =
     (let file = (\<lambda>k. (k, case get_or app k (JStr []) of JStr p \<Rightarrow> JStr (basename p) | v \<Rightarrow> v))
      in [(''app_dir'', JStr app_dir), (''app_type'', app_type), file ''install_script'', file ''install_files''])"

definition state_url :: "obj \<Rightarrow> string \<Rightarrow> string result" where
  "state_url general_config path =
     rbind (item general_config ''server_ip'') (\<lambda>ip. rbind (item general_config ''orchestrator_port'') (\<lambda>port.
     Inr (''http://'' @ str_value ip @ '':'' @ str_value port @ path)))"

text \<open>An application that exists already is left alone, its subscription included.\<close>

definition load_named_app :: "env \<Rightarrow> obj \<Rightarrow> obj \<Rightarrow> string \<Rightarrow> obj \<times> obj \<times> json \<Rightarrow> string \<Rightarrow> unit m" where
  "load_named_app E general_config config app_dir doc app_name =
     (case doc of (app, limits, app_type) \<Rightarrow>
      bindM (liftR (state_url general_config (''/structure/apps/'' @ app_name))) (\<lambda>full_url.
      bindM (web_request E full_url ''put'' (''Error adding app '' @ app_name)
               (Some (JObj [(''app'', JObj (app @ [(''name'', JStr app_name)])), (''limits'', JObj limits)]))) (\<lambda>(error, _).
      if error \<noteq> [] \<and> contains ''already exists'' error then returnM ()
      else if error \<noteq> [] then raiseM (PyException error)
      else thenM (create_app E (image_files app_dir app app_type))
        (if get_or config ''user'' (JStr []) \<noteq> JStr []
         then bindM (liftR (state_url general_config
                       (''/user/clusters/'' @ str_value (get_or config ''user'' JNull) @ ''/'' @ app_name))) (\<lambda>user_url.
              bindM (web_request E user_url ''put'' (''Error adding app '' @ app_name @ '' to user '' @
                       str_value (get_or config ''user'' JNull)) None) (\<lambda>_. returnM ()))
         else returnM ()))))"

definition load_app :: "env \<Rightarrow> obj \<Rightarrow> string \<Rightarrow> obj \<Rightarrow> unit m" where
  "load_app E general_config app_dir config =
     bindM (liftR (configured_names config)) (\<lambda>app_names.
     bindM (liftR (configured_app general_config app_dir config)) (\<lambda>doc.
     forM app_names (load_named_app E general_config config app_dir doc)))"

text \<open>The first application without a configuration file ends the loop.\<close>

fun load_apps :: "env \<Rightarrow> obj \<Rightarrow> (string \<Rightarrow> json option) \<Rightarrow> string list \<Rightarrow> unit m" where
  "load_apps E general_config app_config_file [] = returnM ()"
| "load_apps E general_config app_config_file (app_dir # app_dirs) =
     (case app_config_file app_dir of
        None \<Rightarrow> returnM ()
      | Some v \<Rightarrow> bindM (liftR (jobj v)) (\<lambda>config.
          thenM (load_app E general_config app_dir config) (load_apps E general_config app_config_file app_dirs)))"

definition load_apps_from_config :: "env \<Rightarrow> obj \<Rightarrow> (string \<Rightarrow> json option) \<Rightarrow> unit m" where
  "load_apps_from_config E general_config app_config_file =
     bindM (liftR (state_url general_config ''/structure/apps'')) (\<lambda>_.
     if \<not> jtruthy (get_or general_config ''apps'' JNull) then returnM ()
     else bindM (liftR (rbind (item general_config ''apps'') jstr)) (\<lambda>apps.
       load_apps E general_config app_config_file (split_on CHR '','' apps)))"

section \<open>The inventory of a job\<close>

lemma module_fields:
  assumes "update_config_file ip hosts cpus mem as_host modules = Inr modules'" "(k, v) \<in> set (slurm_host_fields ip hosts cpus mem as_host)"
  shows "map_of (modules' ! 1) k = Some v"
proof -
  have d: "distinct (map fst (slurm_host_fields ip hosts cpus mem as_host))" by (simp add: slurm_host_fields_def)
  with assms(2) have v: "map_of (slurm_host_fields ip hosts cpus mem as_host) k = Some v" by (rule_tac map_of_is_SomeI)
  obtain ms0 where "length ms0 = length modules" "1 < length ms0"
      "modules' ! 1 = dict_update (ms0 ! 1) (slurm_host_fields ip hosts cpus mem as_host)"
    using assms(1) by (auto simp: update_config_file_def update_module_def split: if_splits)
  with d v show ?thesis by (simp add: map_of_dict_update)
qed

text \<open>C29: every node of a SLURM job becomes a host of the platform: when the inventory is loaded from the
  configuration the job was read into, its hosts are the nodes of the job in their order, with or without the first
  one, which is the server, and none of them has a container yet.\<close>

theorem slurm_inventory_complete:
  assumes "load_config_from_slurm job modules = Inr modules'"
    and "item (modules' ! 1) ''hostnames'' = Inr (JStr names)" "item (modules' ! 1) ''number_of_hosts'' = Inr (JInt n)"
    and "item (modules ! 1) ''server_as_host'' = Inr (JBool as_host)"
    and "item (modules' ! 6) ''number_of_containers_per_node'' = Inr (JInt (int k))"
    and "load_inventory expandvars cf reset_disks previous = Inr doc"
    and "lc_hostnames cf = Some names" "lc_number_of_hosts cf = n" "lc_server_as_host cf = as_host"
    and "lc_number_of_containers_per_node cf = k"
    and "distinct (job_hosts job)" "[] \<notin> set (job_hosts job)" "\<forall>h\<in>set (job_hosts job). CHR '','' \<notin> set h"
  shows "get_node_hostnames doc = (if as_host then job_hosts job else tl (job_hosts job)) \<and>
    (\<forall>h \<in> set (get_node_hostnames doc). listed_containers h doc = Inr [])"
proof -
  obtain server rest ip cpus mem where j: "job_hosts job = server # rest"
      and u: "update_config_file ip (job_hosts job) cpus mem as_host modules = Inr modules'"
    using assms(1,4) by (cases "job_hosts job") (auto simp: load_config_from_slurm_def rbind_eq_Inr split: if_splits)
  have names: "names = join '','' (server # rest)"
    using module_fields [OF u, of "''hostnames''"] assms(2) j by (auto simp: slurm_host_fields_def item_eq)
  have n: "n = (if as_host then int (length (job_hosts job)) else int (length (job_hosts job)) - 1)"
    using module_fields [OF u, of "''number_of_hosts''"] assms(3) by (auto simp: slurm_host_fields_def item_eq JInt_def)
  have k: "k = 0" using u assms(5) by (auto simp: update_config_file_def update_module_def rbind_eq_Inr item_eq JInt_def
        map_of_dict_update split: if_splits)
  have "split_on CHR '','' names = server # rest"
    unfolding names by (rule split_on_join) (use assms(13) j in auto)
  from load_inventory_nodes [OF assms(6,7) this] assms(8-12) j n k show ?thesis
    by (auto simp: create_container_list_def)
qed

definition sample_job :: slurm_job where
  "sample_job = \<lparr>job_hosts = [''n0'', ''n1''], job_address = (\<lambda>_. Inr ''10.0.0.1''), job_cpus = Some ''16(x2)'', job_smt = Some ''1'',
     job_node = (\<lambda>_. ''NodeName=n0 AllocMem=4096 State=UP'')\<rparr>"

definition sample_modules :: "obj list" where
  "sample_modules = [[], [(''server_as_host'', JBool True), (''disable_smt'', JBool False), (''memory_factor'', JNum (1/2))],
     [], [], [], [], [], [], []]"

definition slurm_load :: load_settings where
  "slurm_load = sample_load\<lparr>lc_hostnames := Some ''n0,n1'', lc_number_of_hosts := 2, lc_number_of_containers_per_node := 0\<rparr>"

lemma sample_job_loaded:
  "case load_config_from_slurm sample_job sample_modules of Inl e \<Rightarrow> False | Inr modules' \<Rightarrow>
     map (map_of (modules' ! 1)) [''hostnames'', ''number_of_hosts'', ''cpus_per_host'', ''memory_per_host''] =
       [Some (JStr ''n0,n1''), Some (JInt 2), Some (JInt 32), Some (JInt 2048)] \<and>
     map_of (modules' ! 6) ''number_of_containers_per_node'' = Some (JInt (int 0))"
  by code_simp

lemma sample_job_inventory: "case load_inventory id slurm_load True [] of Inl e \<Rightarrow> False | Inr doc \<Rightarrow> True"
  by code_simp

theorem slurm_inventory_complete_witness:
  "\<exists>doc. load_inventory id slurm_load True [] = Inr doc \<and> get_node_hostnames doc = [''n0'', ''n1''] \<and> listed_containers ''n1'' doc = Inr []"
proof -
  from sample_job_loaded obtain ms where ms: "load_config_from_slurm sample_job sample_modules = Inr ms"
    "item (ms ! 1) ''hostnames'' = Inr (JStr ''n0,n1'')" "item (ms ! 1) ''number_of_hosts'' = Inr (JInt 2)"
    "item (ms ! 6) ''number_of_containers_per_node'' = Inr (JInt (int 0))"
    by (auto simp: item_eq split: sum.splits)
  from sample_job_inventory obtain doc where doc: "load_inventory id slurm_load True [] = Inr doc" by (auto split: sum.splits)
  have s: "item (sample_modules ! 1) ''server_as_host'' = Inr (JBool True)" by (simp add: sample_modules_def item_def)
  from slurm_inventory_complete [OF ms(1-3) s ms(4) doc] doc show ?thesis
    by (auto simp: slurm_load_def sample_load_def sample_job_def)
qed

section \<open>Errors of the scripts\<close>

text \<open>Outside a SLURM job the variable is unset, and the conversion of \<open>None\<close> raises before the exception that would say so.\<close>

lemma unset_cpus_type_error: "getNodesCpus None smt disable_smt = Inl (TypeError ''int'')"
  by (simp add: getNodesCpus_def)

text \<open>A job with two kinds of nodes cannot be read.\<close>

lemma two_kinds_of_nodes: "case getNodesCpus (Some ''16(x2),8'') smt disable_smt of Inl (ValueError s) \<Rightarrow> s = ''16,8'' | _ \<Rightarrow> False"
proof -
  have a: "int_of_str ''16(x2),8'' = None" "remove_brackets ''16(x2),8'' = ''16,8''" "int_of_str ''16,8'' = None" by code_simp+
  then show ?thesis by (simp add: getNodesCpus_def int_str_def)
qed

text \<open>Updating a module of the configuration never fails because of a missing field.\<close>

lemma update_module_no_key_error: "update_module i new_config modules \<noteq> Inl (KeyError k)"
  by (simp add: update_module_def)

text \<open>No application after one without a configuration file is loaded.\<close>

lemma missing_app_ends_loop: "app_config_file d = None \<Longrightarrow> load_apps E gc app_config_file (d # ds) = returnM ()"
  by simp

end
