(* ===== verification/ShippedRules.thy ===== *)
theory ShippedRules
  imports Requests
begin

text \<open>
  The rules and services a platform starts with, \<open>templates/sc_config/rules.py\<close> and \<open>services.py\<close> (the conditions
  of the template are parameters), and the pages that show them, \<open>ui/views/rules/views.py\<close> and
  \<open>ui/views/services/views.py\<close>.  The rules are evaluated by the JsonLogic library, which is a parameter.
\<close>

section \<open>Rules\<close>

definition variable :: "string \<Rightarrow> json" where
  "variable p = JObj [(''var'', JStr p)]"

definition compare :: "string \<Rightarrow> json \<Rightarrow> json \<Rightarrow> json" where
  "compare operator a b = JObj [(operator, JArr [a, b])]"

definition all_of :: "json list \<Rightarrow> json" where
  "all_of xs = JObj [(''and'', JArr xs)]"

definition structure_var :: "string \<Rightarrow> string \<Rightarrow> json" where
  "structure_var res fd = variable (res @ ''.structure.'' @ res @ ''.'' @ fd)"

definition limit_var :: "string \<Rightarrow> string \<Rightarrow> json" where
  "limit_var res fd = variable (res @ ''.limits.'' @ res @ ''.'' @ fd)"

definition rule_header :: "string \<Rightarrow> string \<Rightarrow> json \<Rightarrow> obj" where
  "rule_header n res condition =
     [(''_id'', JStr n), (''type'', JStr ''rule''), (''resource'', JStr res), (''name'', JStr n), (''rule'', condition)]"

definition scale_event :: "string \<Rightarrow> obj" where
  "scale_event direction =
     [(''generates'', JStr ''events''), (''action'', JObj [(''events'', JObj [(''scale'', JObj [(direction, JNum 1)])])]),
      (''active'', JBool True)]"

definition exceeded_upper :: "string \<Rightarrow> obj" where
  "exceeded_upper res =
     rule_header (res @ ''_exceeded_upper'') res
       (all_of [compare ''>'' (structure_var res ''usage'') (limit_var res ''upper''),
                compare ''<'' (limit_var res ''upper'') (structure_var res ''max''),
                compare ''<'' (structure_var res ''current'') (structure_var res ''max'')]) @
     scale_event ''up''"

text \<open>The comparison of the usage with zero is strict except for disks.\<close>

definition dropped_lower :: "string \<Rightarrow> string \<Rightarrow> obj" where
  "dropped_lower res comparison =
     rule_header (res @ ''_dropped_lower'') res
       (all_of [compare comparison (structure_var res ''usage'') (JNum 0),
                compare ''<'' (structure_var res ''usage'') (limit_var res ''lower''),
                compare ''>'' (limit_var res ''lower'') (structure_var res ''min'')]) @
     scale_event ''down''"

text \<open>At least \<open>enough\<close> events in one direction and at most \<open>few\<close> in the other.\<close>

definition events_var :: "string \<Rightarrow> json" where
  "events_var direction = variable (''events.scale.'' @ direction)"

definition rescale_condition :: "string \<Rightarrow> rat \<Rightarrow> string \<Rightarrow> rat \<Rightarrow> json" where
  "rescale_condition direction enough other few =
     all_of [compare ''>='' (events_var direction) (JNum enough), compare ''<='' (events_var other) (JNum few)]"

definition request_of :: "string \<Rightarrow> obj" where
  "request_of n = [(''generates'', JStr ''requests''), (''action'', JObj [(''requests'', JArr [JStr n])])]"

definition rescale_up :: "string \<Rightarrow> string \<Rightarrow> rat \<Rightarrow> rat \<Rightarrow> obj \<Rightarrow> obj" where
  "rescale_up n res enough few policy =
     rule_header n res (rescale_condition ''up'' enough ''down'' few) @ [(''events_to_remove'', JNum enough)] @ request_of n @
     policy @ [(''rescale_type'', JStr ''up''), (''active'', JBool True)]"

definition rescale_down :: "string \<Rightarrow> string \<Rightarrow> obj" where
  "rescale_down n res =
     rule_header n res (rescale_condition ''down'' 6 ''up'' 0) @ [(''events_to_remove'', JNum 6)] @ request_of n @
     [(''rescale_policy'', JStr ''fit_to_usage''), (''rescale_type'', JStr ''down''), (''active'', JBool True)]"

definition by_amount :: "rat \<Rightarrow> obj" where
  "by_amount x = [(''amount'', JNum x), (''rescale_policy'', JStr ''amount'')]"

definition fit_to_usage :: obj where
  "fit_to_usage = [(''rescale_policy'', JStr ''fit_to_usage'')]"

definition cpu_exceeded_upper :: obj where "cpu_exceeded_upper = exceeded_upper ''cpu''"
definition cpu_dropped_lower :: obj where "cpu_dropped_lower = dropped_lower ''cpu'' ''>''"
definition CpuRescaleUp :: obj where "CpuRescaleUp = rescale_up ''CpuRescaleUp'' ''cpu'' 2 2 (by_amount 75)"
definition CpuRescaleDown :: obj where "CpuRescaleDown = rescale_down ''CpuRescaleDown'' ''cpu''"

text \<open>Two rules for the rebalancer, which are not active.\<close>

definition cpu_usage_rule :: "string \<Rightarrow> json \<Rightarrow> json \<Rightarrow> string \<Rightarrow> rat \<Rightarrow> obj" where
  "cpu_usage_rule n a b comparison ratio =
     rule_header n ''cpu''
       (all_of [compare ''>='' (compare ''-'' a b) (JNum 25),
                compare comparison (compare ''/'' (structure_var ''cpu'' ''usage'') (structure_var ''cpu'' ''current'')) (JNum ratio)]) @
     [(''active'', JBool False), (''generates'', JStr [])]"

definition cpu_usage_low :: obj where
  "cpu_usage_low = cpu_usage_rule ''cpu_usage_low'' (structure_var ''cpu'' ''current'') (structure_var ''cpu'' ''min'') ''<'' (2/5)"

definition cpu_usage_high :: obj where
  "cpu_usage_high = cpu_usage_rule ''cpu_usage_high'' (structure_var ''cpu'' ''max'') (structure_var ''cpu'' ''current'') ''>'' (7/10)"

definition mem_exceeded_upper :: obj where "mem_exceeded_upper = exceeded_upper ''mem''"
definition mem_dropped_lower :: obj where "mem_dropped_lower = dropped_lower ''mem'' ''>''"
definition MemRescaleUp :: obj where "MemRescaleUp = rescale_up ''MemRescaleUp'' ''mem'' 2 6 (by_amount 256)"
definition MemRescaleDown :: obj where "MemRescaleDown = rescale_down ''MemRescaleDown'' ''mem''"

definition disk_read_exceeded_upper :: obj where "disk_read_exceeded_upper = exceeded_upper ''disk_read''"
definition disk_read_dropped_lower :: obj where "disk_read_dropped_lower = dropped_lower ''disk_read'' ''>=''"
definition Disk_readRescaleUp :: obj where "Disk_readRescaleUp = rescale_up ''Disk_readRescaleUp'' ''disk_read'' 1 6 (by_amount 450)"
definition Disk_readRescaleDown :: obj where "Disk_readRescaleDown = rescale_down ''Disk_readRescaleDown'' ''disk_read''"

definition disk_write_exceeded_upper :: obj where "disk_write_exceeded_upper = exceeded_upper ''disk_write''"
definition disk_write_dropped_lower :: obj where "disk_write_dropped_lower = dropped_lower ''disk_write'' ''>=''"
definition Disk_writeRescaleUp :: obj where "Disk_writeRescaleUp = rescale_up ''Disk_writeRescaleUp'' ''disk_write'' 1 6 (by_amount 450)"
definition Disk_writeRescaleDown :: obj where "Disk_writeRescaleDown = rescale_down ''Disk_writeRescaleDown'' ''disk_write''"

definition energy_exceeded_upper :: obj where "energy_exceeded_upper = exceeded_upper ''energy''"
definition energy_dropped_lower :: obj where "energy_dropped_lower = dropped_lower ''energy'' ''>''"
definition EnergyRescaleUp :: obj where "EnergyRescaleUp = rescale_up ''EnergyRescaleUp'' ''energy'' 1 2 fit_to_usage"
definition EnergyRescaleDown :: obj where "EnergyRescaleDown = rescale_down ''EnergyRescaleDown'' ''energy''"

text \<open>The rules that are added, in order; \<open>disks\<close> tells that disks are used and scaled.\<close>

definition initial_rules :: "bool \<Rightarrow> bool \<Rightarrow> obj list" where
  "initial_rules budgeting disks =
     (if budgeting then [energy_exceeded_upper, EnergyRescaleDown, energy_dropped_lower, EnergyRescaleUp]
      else [cpu_exceeded_upper, cpu_dropped_lower, CpuRescaleUp, CpuRescaleDown, cpu_usage_high, cpu_usage_low,
            mem_exceeded_upper, mem_dropped_lower, MemRescaleUp, MemRescaleDown] @
           (if disks
            then [disk_read_exceeded_upper, disk_read_dropped_lower, Disk_readRescaleUp, Disk_readRescaleDown,
                  disk_write_exceeded_upper, disk_write_dropped_lower, Disk_writeRescaleUp, Disk_writeRescaleDown]
            else []))"

section \<open>Services\<close>

definition service_doc :: "string \<Rightarrow> obj \<Rightarrow> obj" where
  "service_doc n config =
     [(''name'', JStr n), (''type'', JStr ''service''), (''heartbeat'', JStr []), (''config'', JObj config)]"

definition number_fields :: "(string \<times> rat) list \<Rightarrow> obj" where
  "number_fields = map (\<lambda>(k, x). (k, JNum x))"

definition off_and_debug :: obj where
  "off_and_debug = [(''ACTIVE'', JBool False), (''DEBUG'', JBool True)]"

definition resource_list :: "string list \<Rightarrow> bool \<Rightarrow> bool \<Rightarrow> json" where
  "resource_list basic disks energy =
     JArr (map JStr (basic @ (if disks then [''disk_read'', ''disk_write''] else []) @ (if energy then [''energy''] else [])))"

definition guardian :: "bool \<Rightarrow> bool \<Rightarrow> obj" where
  "guardian budgeting disks = service_doc ''guardian'' (off_and_debug @
     number_fields [(''EVENT_TIMEOUT'', 60), (''WINDOW_DELAY'', 20), (''WINDOW_TIMELAPSE'', 10)] @
     [(''GUARDABLE_RESOURCES'', resource_list [''cpu''] disks budgeting)])"

definition scaler :: obj where
  "scaler = service_doc ''scaler'' (off_and_debug @ number_fields [(''REQUEST_TIMEOUT'', 60), (''POLLING_FREQUENCY'', 5)])"

definition database_snapshoter :: obj where
  "database_snapshoter = service_doc ''database_snapshoter'' off_and_debug"

definition structures_snapshoter :: "bool \<Rightarrow> bool \<Rightarrow> obj" where
  "structures_snapshoter budgeting disks = service_doc ''structures_snapshoter'' (number_fields [(''POLLING_FREQUENCY'', 5)] @
     off_and_debug @ [(''STRUCTURES_PERSISTED'', JArr [JStr ''application'']),
       (''RESOURCES_PERSISTED'', resource_list [''cpu'', ''mem''] disks budgeting)])"

definition refeeder :: "bool \<Rightarrow> bool \<Rightarrow> obj" where
  "refeeder budgeting disks = service_doc ''refeeder'' (off_and_debug @
     number_fields [(''WINDOW_DELAY'', 20), (''WINDOW_TIMELAPSE'', 10)] @
     [(''STRUCTURES_REFEEDED'', JArr [JStr ''application'']), (''GENERATED_METRICS'', resource_list [''cpu'', ''mem''] disks budgeting)])"

definition sanity_checker :: obj where
  "sanity_checker = service_doc ''sanity_checker'' (off_and_debug @ number_fields [(''DELAY'', 30)])"

definition rebalancer :: "bool \<Rightarrow> obj" where
  "rebalancer disks = service_doc ''rebalancer'' (off_and_debug @
     number_fields [(''DIFF_PERCENTAGE'', 2/5), (''STOLEN_PERCENTAGE'', 2/5)] @
     [(''RESOURCES_BALANCED'', resource_list [''cpu''] disks False), (''STRUCTURES_BALANCED'', JArr [JStr ''container'']),
      (''BALANCING_METHOD'', JStr ''pair_swapping''), (''CONTAINERS_SCOPE'', JStr ''application''),
      (''BALANCING_POLICY'', JStr ''rules''), (''ONLY_RUNNING'', JBool False)] @
     number_fields [(''WINDOW_DELAY'', 10), (''WINDOW_TIMELAPSE'', 35)])"

definition energy_controller :: "bool \<Rightarrow> obj" where
  "energy_controller modelling = service_doc ''energy_controller'' (number_fields [(''EVENT_TIMEOUT'', 20)] @
     [(''CONTROL_POLICY'', JStr (if modelling then ''model-boosted'' else ''ppe-proportional''))] @
     number_fields [(''WINDOW_TIMELAPSE'', 10), (''WINDOW_DELAY'', 0), (''POLLING_FREQUENCY'', 5)] @ off_and_debug)"

definition watt_trainer :: "int \<Rightarrow> obj" where
  "watt_trainer sampling_frequency =
     service_doc ''watt_trainer'' (off_and_debug @ [(''WINDOW_TIMELAPSE'', JInt sampling_frequency)])"

text \<open>The services that are added, and the error that ends the script, if any.  The name \<open>watt_trainer\<close> is only bound
  when power is modelled, but used whenever the models are learned online.\<close>

definition initial_services :: "bool \<Rightarrow> bool \<Rightarrow> bool \<Rightarrow> bool \<Rightarrow> int \<Rightarrow> obj list \<times> exn option" where
  "initial_services budgeting disks modelling online_learning sampling_frequency =
     (let base = [scaler, guardian budgeting disks, database_snapshoter, structures_snapshoter budgeting disks,
                  refeeder budgeting disks, sanity_checker, rebalancer disks]
      in if \<not> budgeting then (base, None)
         else if \<not> online_learning then (base @ [energy_controller modelling], None)
         else if modelling then (base @ [energy_controller modelling, watt_trainer sampling_frequency], None)
         else (base @ [energy_controller modelling], Some (UnboundLocalError ''watt_trainer'')))"

section \<open>The pages\<close>

definition index_of :: "string \<Rightarrow> string list \<Rightarrow> nat option" where
  "index_of w ws = (if w \<in> set ws then Some (length (takeWhile (\<lambda>x. x \<noteq> w) ws)) else None)"

text \<open>The number two words after the name of the events, in the text of the rule.\<close>

definition events_required :: "string \<Rightarrow> string list \<Rightarrow> string option result" where
  "events_required direction words =
     (case index_of (''events.scale.'' @ direction) words of
        None \<Rightarrow> Inr None
      | Some i \<Rightarrow> if i + 2 < length words then Inr (Some (words ! (i + 2))) else Inl IndexError)"

record rule_form =
  rf_text :: string
  rf_initial :: obj
  rf_editable :: nat

definition form_field :: "string \<Rightarrow> json option \<Rightarrow> obj" where
  "form_field k v = (case v of None \<Rightarrow> [] | Some x \<Rightarrow> [(k, x)])"

definition shown_rule :: "obj \<Rightarrow> rule_form result" where
  "shown_rule r =
     rbind (rbind (item r ''rule'') jsonBooleanToHumanReadable) (\<lambda>readable.
     rbind (item r ''name'') (\<lambda>n.
     let words = split_on CHR '' '' readable;
         amount = map_of r ''amount'';
         policy = (if get_or r ''rescale_type'' (JStr []) = JStr ''up'' then map_of r ''rescale_policy'' else None)
     in rbind (events_required ''down'' words) (\<lambda>down. rbind (events_required ''up'' words) (\<lambda>up.
        let fs = form_field ''amount'' amount @ form_field ''rescale_policy'' policy @
                 form_field ''down_events_required'' (map_option JStr down) @ form_field ''up_events_required'' (map_option JStr up)
        in Inr \<lparr>rf_text = readable, rf_initial = (''name'', n) # fs, rf_editable = length fs\<rparr>))))"

definition rules_page :: "obj list \<Rightarrow> (rule_form list \<times> string list) result" where
  "rules_page data =
     rbind (mapR shown_rule data) (\<lambda>forms.
     rbind (rbind (getRulesResources data) (mapR jstr)) (\<lambda>rs. Inr (forms, sort rs)))"

text \<open>Services of an unknown name are not shown; one whose heartbeat is no number is not alive.\<close>

record service_form =
  sf_initial :: obj
  sf_alive :: bool

definition service_alive :: "rat \<Rightarrow> obj \<Rightarrow> bool" where
  "service_alive now s = (case map_of s ''heartbeat'' of
     Some (JNum t) \<Rightarrow> now - t < 60 | Some (JBool b) \<Rightarrow> now - (if b then 1 else 0) < 60 | _ \<Rightarrow> False)"

definition option_fields :: "obj \<Rightarrow> string list \<Rightarrow> obj" where
  "option_fields config opts =
     concat (map (\<lambda>opt. form_field opt (map_of config (to_upper opt))) opts)"

definition add_shown_service :: "rat \<Rightarrow> obj \<Rightarrow> (string \<times> service_form) list \<Rightarrow> (string \<times> service_form) list result" where
  "add_shown_service now s shown =
     rbind (rbind (item s ''name'') jstr) (\<lambda>n.
     case map_of services_options n of
       None \<Rightarrow> Inr shown
     | Some opts \<Rightarrow> rbind (rbind (item s ''config'') jobj) (\<lambda>config.
         Inr (shown @ [(n, \<lparr>sf_initial = (''name'', JStr n) # option_fields config opts, sf_alive = service_alive now s\<rparr>)])))"

definition services_page :: "rat \<Rightarrow> obj list \<Rightarrow> (string \<times> service_form) list result" where
  "services_page now data = foldR (add_shown_service now) data []"

section \<open>When rules fire\<close>

text \<open>The documented behaviour of JsonLogic the rules rely on: a conjunction holds when its parts do, comparisons of
  numbers, literals, and a path of keys that leads through objects to a number has this number as value.  (Nothing is
  assumed of other paths: the empty one, those into arrays, those that lead nowhere.)\<close>

fun path_value :: "string list \<Rightarrow> json \<Rightarrow> json" where
  "path_value [] v = v"
| "path_value (k # ks) v = (case v of JObj d \<Rightarrow> path_value ks (get_or d k JNull) | _ \<Rightarrow> JNull)"

definition at_path :: "string \<Rightarrow> json \<Rightarrow> json" where
  "at_path p data = path_value (split_on CHR ''.'' p) data"

definition comparison :: "string \<Rightarrow> rat \<Rightarrow> rat \<Rightarrow> bool" where
  "comparison operator x y =
     (if operator = ''<'' then x < y else if operator = ''>'' then y < x else if operator = ''<='' then x \<le> y else y \<le> x)"

definition comparisons :: "string list" where
  "comparisons = [''<'', ''>'', ''<='', ''>='']"

definition follows_json_logic :: "(json \<Rightarrow> json \<Rightarrow> json) \<Rightarrow> bool" where
  "follows_json_logic logic \<longleftrightarrow>
     (\<forall>xs data. xs \<noteq> [] \<longrightarrow> (jtruthy (logic (all_of xs) data) \<longleftrightarrow> (\<forall>x \<in> set xs. jtruthy (logic x data)))) \<and>
     (\<forall>a b data x y operator. operator \<in> set comparisons \<longrightarrow> logic a data = JNum x \<longrightarrow> logic b data = JNum y \<longrightarrow>
        logic (compare operator a b) data = JBool (comparison operator x y)) \<and>
     (\<forall>x data. logic (JNum x) data = JNum x) \<and>
     (\<forall>p data x. p \<noteq> [] \<longrightarrow> at_path p data = JNum x \<longrightarrow> logic (variable p) data = JNum x)"

definition fires :: "(json \<Rightarrow> json \<Rightarrow> json) \<Rightarrow> obj \<Rightarrow> json \<Rightarrow> bool" where
  "fires logic r data \<longleftrightarrow> jtruthy (logic (get_or r ''rule'' JNull) data)"

text \<open>An evaluator with this behaviour.\<close>

function sample_logic :: "json \<Rightarrow> json \<Rightarrow> json" where
  "sample_logic v data =
     (case v of
        JObj [(k, JArr xs)] \<Rightarrow>
          if k = ''and'' then JBool (list_all (\<lambda>x. jtruthy (sample_logic x data)) xs)
          else (case xs of
                  [a, b] \<Rightarrow> (case (sample_logic a data, sample_logic b data) of
                     (JNum x, JNum y) \<Rightarrow> JBool (comparison k x y) | _ \<Rightarrow> JNull)
                | _ \<Rightarrow> JNull)
      | JObj [(k, JStr p)] \<Rightarrow> at_path p data
      | JNum x \<Rightarrow> JNum x
      | _ \<Rightarrow> JNull)"
  by pat_completeness auto
termination
  by (relation "measure (\<lambda>(v, _). size v)") (auto simp: less_Suc_eq_le dest!: size_member_le)

declare sample_logic.simps [simp del]

lemma sample_logic_follows: "follows_json_logic sample_logic"
proof -
  have "jtruthy (sample_logic (all_of xs) data) \<longleftrightarrow> (\<forall>x \<in> set xs. jtruthy (sample_logic x data))" for xs data
    by (subst sample_logic.simps) (simp add: all_of_def list_all_iff)
  moreover have "sample_logic (compare operator a b) data = JBool (comparison operator x y)"
    if "operator \<in> set comparisons" "sample_logic a data = JNum x" "sample_logic b data = JNum y" for a b data x y operator
    using that by (subst sample_logic.simps) (auto simp: compare_def comparisons_def)
  moreover have "sample_logic (JNum x) data = JNum x" for x data by (subst sample_logic.simps) simp
  moreover have "sample_logic (variable p) data = at_path p data" for p data
    by (subst sample_logic.simps) (simp add: variable_def)
  ultimately show ?thesis unfolding follows_json_logic_def by simp
qed

text \<open>What a firing rule tells about the data.\<close>

lemma logic_all: "follows_json_logic logic \<Longrightarrow> xs \<noteq> [] \<Longrightarrow>
    jtruthy (logic (all_of xs) data) \<longleftrightarrow> (\<forall>x \<in> set xs. jtruthy (logic x data))"
  by (simp add: follows_json_logic_def)

lemma logic_compare: "follows_json_logic logic \<Longrightarrow> operator \<in> set comparisons \<Longrightarrow> logic a data = JNum x \<Longrightarrow>
    logic b data = JNum y \<Longrightarrow> jtruthy (logic (compare operator a b) data) \<longleftrightarrow> comparison operator x y"
  unfolding follows_json_logic_def by (metis jtruthy.simps(2))

lemma logic_number: "follows_json_logic logic \<Longrightarrow> logic (JNum x) data = JNum x"
  by (simp add: follows_json_logic_def)

lemma logic_variable: "follows_json_logic logic \<Longrightarrow> p \<noteq> [] \<Longrightarrow> \<exists>x. at_path p data = JNum x \<Longrightarrow> logic (variable p) data = at_path p data"
  by (auto simp: follows_json_logic_def)

lemma comparison_simps [simp]:
  "comparison ''<'' x y \<longleftrightarrow> x < y" "comparison ''>'' x y \<longleftrightarrow> y < x" "comparison ''<='' x y \<longleftrightarrow> x \<le> y" "comparison ''>='' x y \<longleftrightarrow> y \<le> x"
  by (simp_all add: comparison_def)

lemma comparison_members [simp]:
  "''<'' \<in> set comparisons" "''>'' \<in> set comparisons" "''<='' \<in> set comparisons" "''>='' \<in> set comparisons"
  by (simp_all add: comparisons_def)

lemma header_rule: "get_or (rule_header n res condition @ rest) ''rule'' JNull = condition"
  by (simp add: get_or_def rule_header_def)

lemma rescale_condition_fires:
  assumes "follows_json_logic logic" "at_path (''events.scale.'' @ direction) data = JNum x" "at_path (''events.scale.'' @ other) data = JNum y"
  shows "jtruthy (logic (rescale_condition direction enough other few) data) \<longleftrightarrow> enough \<le> x \<and> y \<le> few"
  using assms
  by (simp add: rescale_condition_def logic_all events_var_def
      logic_compare [where x = x and y = enough] logic_compare [where x = y and y = few] logic_variable logic_number)

lemma rescale_up_fires:
  assumes "follows_json_logic logic" "at_path ''events.scale.up'' data = JNum up" "at_path ''events.scale.down'' data = JNum down"
  shows "fires logic (rescale_up n res enough few policy) data \<longleftrightarrow> enough \<le> up \<and> down \<le> few"
  using rescale_condition_fires [OF assms(1), of "''up''" data up "''down''" down enough few] assms(2,3)
  by (simp add: fires_def rescale_up_def header_rule)

lemma rescale_down_fires:
  assumes "follows_json_logic logic" "at_path ''events.scale.up'' data = JNum up" "at_path ''events.scale.down'' data = JNum down"
  shows "fires logic (rescale_down n res) data \<longleftrightarrow> 6 \<le> down \<and> up \<le> 0"
  using rescale_condition_fires [OF assms(1), of "''down''" data down "''up''" up 6 0] assms(2,3)
  by (simp add: fires_def rescale_down_def header_rule)

lemma exceeded_upper_fires:
  assumes "follows_json_logic logic" "at_path (res @ ''.structure.'' @ res @ ''.usage'') data = JNum usage"
    and "at_path (res @ ''.limits.'' @ res @ ''.upper'') data = JNum hi_limit" "at_path (res @ ''.structure.'' @ res @ ''.max'') data = JNum hi"
    and "at_path (res @ ''.structure.'' @ res @ ''.current'') data = JNum cur"
  shows "fires logic (exceeded_upper res) data \<longleftrightarrow> hi_limit < usage \<and> hi_limit < hi \<and> cur < hi"
  using assms
  by (simp add: fires_def exceeded_upper_def header_rule logic_all structure_var_def limit_var_def logic_variable
      logic_compare [where x = usage and y = hi_limit] logic_compare [where x = hi_limit and y = hi] logic_compare [where x = cur and y = hi])

lemma dropped_lower_fires:
  assumes "follows_json_logic logic" "at_path (res @ ''.structure.'' @ res @ ''.usage'') data = JNum usage"
    and "at_path (res @ ''.limits.'' @ res @ ''.lower'') data = JNum lo_limit" "at_path (res @ ''.structure.'' @ res @ ''.min'') data = JNum lo"
    and "cmp \<in> set comparisons"
  shows "fires logic (dropped_lower res cmp) data \<longleftrightarrow> comparison cmp usage 0 \<and> usage < lo_limit \<and> lo < lo_limit"
  using assms
  by (simp add: fires_def dropped_lower_def header_rule logic_all structure_var_def limit_var_def logic_variable logic_number
      logic_compare [where x = usage and y = 0] logic_compare [where x = usage and y = lo_limit] logic_compare [where x = lo_limit and y = lo])

lemma removed_up: "get_or (rescale_up n res enough few policy) ''events_to_remove'' d = JNum enough"
  by (simp add: rescale_up_def rule_header_def get_or_def)

lemma removed_down: "get_or (rescale_down n res) ''events_to_remove'' d = JNum 6"
  by (simp add: rescale_down_def rule_header_def get_or_def)

text \<open>A rule that asks for more and its opposite, of which one at most fires, and never for more events than it removes.\<close>

definition opposite :: "(json \<Rightarrow> json \<Rightarrow> json) \<Rightarrow> json \<Rightarrow> rat \<Rightarrow> rat \<Rightarrow> obj \<Rightarrow> obj \<Rightarrow> bool" where
  "opposite logic data up down raising lowering \<longleftrightarrow>
     \<not> (fires logic raising data \<and> fires logic lowering data) \<and>
     (fires logic raising data \<longrightarrow> (\<exists>x. get_or raising ''events_to_remove'' JNull = JNum x \<and> x \<le> up)) \<and>
     (fires logic lowering data \<longrightarrow> (\<exists>x. get_or lowering ''events_to_remove'' JNull = JNum x \<and> x \<le> down))"

lemma rescale_opposite:
  assumes "follows_json_logic logic" "at_path ''events.scale.up'' data = JNum up" "at_path ''events.scale.down'' data = JNum down"
    and "0 < enough"
  shows "opposite logic data up down (rescale_up n res enough few policy) (rescale_down n' res')"
  using assms(4) by (auto simp: opposite_def removed_up removed_down rescale_up_fires [OF assms(1-3)] rescale_down_fires [OF assms(1-3)])

lemmas rescale_rules = CpuRescaleUp_def CpuRescaleDown_def MemRescaleUp_def MemRescaleDown_def Disk_readRescaleUp_def
  Disk_readRescaleDown_def Disk_writeRescaleUp_def Disk_writeRescaleDown_def EnergyRescaleUp_def EnergyRescaleDown_def

text \<open>C30: The two rescale rules a platform is shipped with for a resource never fire for the same counts of events, and a
  rule that fires has counted at least the events its request removes.\<close>

theorem rescale_rules_opposite:
  assumes "follows_json_logic logic" "at_path ''events.scale.up'' data = JNum up" "at_path ''events.scale.down'' data = JNum down"
  shows "opposite logic data up down CpuRescaleUp CpuRescaleDown \<and> opposite logic data up down MemRescaleUp MemRescaleDown \<and>
    opposite logic data up down Disk_readRescaleUp Disk_readRescaleDown \<and>
    opposite logic data up down Disk_writeRescaleUp Disk_writeRescaleDown \<and>
    opposite logic data up down EnergyRescaleUp EnergyRescaleDown"
  by (simp add: rescale_rules rescale_opposite [OF assms])

definition six_idle_windows :: json where
  "six_idle_windows = JObj [(''events'', JObj [(''scale'', JObj [(''up'', JNum 0), (''down'', JNum 6)])])]"

theorem rescale_rules_opposite_witness:
  "fires sample_logic CpuRescaleDown six_idle_windows \<and> \<not> fires sample_logic CpuRescaleUp six_idle_windows"
proof -
  have up: "at_path ''events.scale.up'' six_idle_windows = JNum 0" and down: "at_path ''events.scale.down'' six_idle_windows = JNum 6"
    by code_simp+
  have "fires sample_logic CpuRescaleDown six_idle_windows"
    by (simp add: CpuRescaleDown_def rescale_down_fires [OF sample_logic_follows up down])
  with rescale_rules_opposite [OF sample_logic_follows up down] show ?thesis
    unfolding opposite_def by blast
qed

text \<open>The events of a resource: a usage above the upper limit is never below the lower one.\<close>

theorem events_exclusive:
  assumes "follows_json_logic logic" "at_path (res @ ''.structure.'' @ res @ ''.usage'') data = JNum usage"
    and "at_path (res @ ''.limits.'' @ res @ ''.upper'') data = JNum hi_limit" "at_path (res @ ''.limits.'' @ res @ ''.lower'') data = JNum lo_limit"
    and "at_path (res @ ''.structure.'' @ res @ ''.max'') data = JNum hi" "at_path (res @ ''.structure.'' @ res @ ''.current'') data = JNum cur"
    and "at_path (res @ ''.structure.'' @ res @ ''.min'') data = JNum lo" "lo_limit \<le> hi_limit" "cmp \<in> set comparisons"
  shows "\<not> (fires logic (exceeded_upper res) data \<and> fires logic (dropped_lower res cmp) data)"
  using assms(8) exceeded_upper_fires [OF assms(1,2,3,5,6)] dropped_lower_fires [OF assms(1,2,4,7,9)] by auto

text \<open>The page finds the thresholds in the text of the rules.\<close>

lemma shown_rescale_up:
  "shown_rule CpuRescaleUp = Inr \<lparr>rf_text = ''events.scale.up >= 2 AND events.scale.down <= 2'',
     rf_initial = [(''name'', JStr ''CpuRescaleUp''), (''amount'', JNum 75), (''rescale_policy'', JStr ''amount''),
                   (''down_events_required'', JStr ''2''), (''up_events_required'', JStr ''2'')], rf_editable = 4\<rparr>"
  by code_simp

lemma shown_rescale_down:
  "shown_rule CpuRescaleDown = Inr \<lparr>rf_text = ''events.scale.down >= 6 AND events.scale.up <= 0'',
     rf_initial = [(''name'', JStr ''CpuRescaleDown''), (''down_events_required'', JStr ''6''), (''up_events_required'', JStr ''0'')],
     rf_editable = 2\<rparr>"
  by code_simp

text \<open>A rule shown under its name, with the threshold of its direction when it is a rescale rule.\<close>

definition shows_rule :: "rule_form \<Rightarrow> obj \<Rightarrow> bool" where
  "shows_rule f r \<longleftrightarrow> map_of (rf_initial f) ''name'' = map_of r ''name'' \<and>
     (case (map_of r ''rescale_type'', map_of r ''events_to_remove'') of
        (Some (JStr direction), Some n) \<Rightarrow> map_of (rf_initial f) (direction @ ''_events_required'') = Some (JStr (formatted n))
      | _ \<Rightarrow> True)"

definition page_shows :: "obj list \<Rightarrow> string list \<Rightarrow> bool" where
  "page_shows rs resources =
     (case rules_page rs of Inl _ \<Rightarrow> False | Inr (forms, res) \<Rightarrow> list_all2 shows_rule forms rs \<and> res = resources)"

definition rule_resources :: "bool \<Rightarrow> bool \<Rightarrow> string list" where
  "rule_resources budgeting disks =
     (if budgeting then [''energy''] else [''cpu''] @ (if disks then [''disk_read'', ''disk_write''] else []) @ [''mem''])"

text \<open>On every platform the page shows each of the rules it was shipped with, a rescale rule with the number of events it
  removes.\<close>

theorem shipped_rules_shown: "page_shows (initial_rules budgeting disks) (rule_resources budgeting disks)"
proof -
  have "page_shows (initial_rules True True) (rule_resources True True)" by code_simp
  moreover have "page_shows (initial_rules True False) (rule_resources True False)" by code_simp
  moreover have "page_shows (initial_rules False True) (rule_resources False True)" by code_simp
  moreover have "page_shows (initial_rules False False) (rule_resources False False)" by code_simp
  ultimately show ?thesis by (cases budgeting; cases disks) simp_all
qed

section \<open>The thresholds on the page\<close>

definition rescale_words :: "string \<Rightarrow> nat \<Rightarrow> string \<Rightarrow> nat \<Rightarrow> string list" where
  "rescale_words direction enough other few =
     [''events.scale.'' @ direction, ''>='', str_of_nat enough, ''AND'', ''events.scale.'' @ other, ''<='', str_of_nat few]"

lemma str_of_nat_is_digit: "\<forall>c \<in> set (str_of_nat n). is_digit c"
  by (auto dest!: str_of_nat_digits simp: digit_char_props)

lemma digits_no_operator: "str_of_nat n \<notin> set bool_operators \<and> str_of_nat n \<noteq> ''var''"
proof -
  have "is_digit (hd (str_of_nat n))" using str_of_nat_is_digit [of n] by simp
  then show ?thesis by (auto simp: bool_operators_def is_digit_def)
qed

lemma number_human: "literal_human (literal_text (JNum (of_nat n))) = Inr (str_of_nat n)"
proof -
  have "show_number (of_nat n) = str_of_nat n" by (simp add: show_number_def py_int_def str_of_int_def Let_def)
  then show ?thesis using digits_no_operator [of n] by (simp add: literal_human_def literal_text_def)
qed

lemma rescale_human:
  "jsonBooleanToHumanReadable (rescale_condition direction (of_nat enough) other (of_nat few)) =
     Inr (join '' '' (rescale_words direction enough other few))"
proof -
  have "to_upper ''>='' = ''>=''" "to_upper ''<='' = ''<=''" "to_upper ''and'' = ''AND''" by code_simp+
  then show ?thesis
    by (simp add: rescale_condition_def all_of_def compare_def events_var_def variable_def rescale_words_def number_human
        bool_operators_def jstr_def)
qed

lemma rescale_words_split:
  assumes "CHR '' '' \<notin> set direction" "CHR '' '' \<notin> set other"
  shows "split_on CHR '' '' (join '' '' (rescale_words direction enough other few)) = rescale_words direction enough other few"
proof -
  have "CHR '' '' \<notin> set (str_of_nat n)" for n using str_of_nat_is_digit [of n] by (auto simp: is_digit_def)
  then have "\<forall>w \<in> set (rescale_words direction enough other few). CHR '' '' \<notin> set w"
    using assms by (simp add: rescale_words_def)
  then show ?thesis by (intro split_on_join) (simp_all add: rescale_words_def)
qed

lemma digits_no_event: "str_of_nat n \<noteq> CHR ''e'' # w"
  using str_of_nat_is_digit [of n] by (auto simp: is_digit_def)

lemma words_required:
  assumes "(direction, other) \<in> {(''up'', ''down''), (''down'', ''up'')}"
  shows "events_required direction (rescale_words direction enough other few) = Inr (Some (str_of_nat enough))"
    "events_required other (rescale_words direction enough other few) = Inr (Some (str_of_nat few))"
  using assms digits_no_event [of enough] by (auto simp: events_required_def index_of_def rescale_words_def)

text \<open>C31: the page of the rules shows of every rescale rule, whatever its thresholds, the numbers it fires at: the one
  shown for its own direction is the least number of events it needs, the one of the other direction the greatest number
  of opposite events it tolerates.\<close>

theorem rescale_thresholds_shown:
  assumes "follows_json_logic logic"
    and "at_path (''events.scale.'' @ direction) data = JNum own" "at_path (''events.scale.'' @ other) data = JNum opposing"
    and "(direction, other) \<in> {(''up'', ''down''), (''down'', ''up'')}"
    and "has_key r ''name''" "map_of r ''rule'' = Some (rescale_condition direction (of_nat enough) other (of_nat few))"
  shows "\<exists>f. shown_rule r = Inr f \<and>
    map_of (rf_initial f) (direction @ ''_events_required'') = Some (JStr (str_of_nat enough)) \<and>
    map_of (rf_initial f) (other @ ''_events_required'') = Some (JStr (str_of_nat few)) \<and>
    (fires logic r data \<longleftrightarrow> of_nat enough \<le> own \<and> opposing \<le> of_nat few)"
proof -
  let ?ws = "rescale_words direction enough other few"
  obtain n where n: "item r ''name'' = Inr n" using assms(5) by (auto simp: has_key_def item_def)
  have "CHR '' '' \<notin> set direction" "CHR '' '' \<notin> set other" using assms(4) by auto
  note split = rescale_words_split [OF this, of enough few]
  have rule: "rbind (item r ''rule'') jsonBooleanToHumanReadable = Inr (join '' '' ?ws)"
    using assms(6) by (simp add: item_def rescale_human)
  have "fires logic r data \<longleftrightarrow> of_nat enough \<le> own \<and> opposing \<le> of_nat few"
    using rescale_condition_fires [OF assms(1-3)] assms(6) by (simp add: fires_def get_or_def)
  moreover have "\<exists>f. shown_rule r = Inr f \<and>
    map_of (rf_initial f) (direction @ ''_events_required'') = Some (JStr (str_of_nat enough)) \<and>
    map_of (rf_initial f) (other @ ''_events_required'') = Some (JStr (str_of_nat few))"
    using assms(4) words_required [OF assms(4), of enough few]
    by (auto simp: shown_rule_def rule n split Let_def form_field_def split: option.splits)
  ultimately show ?thesis by blast
qed

theorem rescale_thresholds_shown_witness:
  "\<exists>f. shown_rule CpuRescaleDown = Inr f \<and>
    map_of (rf_initial f) (''down'' @ ''_events_required'') = Some (JStr (str_of_nat 6)) \<and>
    map_of (rf_initial f) (''up'' @ ''_events_required'') = Some (JStr (str_of_nat 0)) \<and>
    (fires sample_logic CpuRescaleDown six_idle_windows \<longleftrightarrow> of_nat 6 \<le> (6 :: rat) \<and> (0 :: rat) \<le> of_nat 0)"
proof (rule rescale_thresholds_shown [OF sample_logic_follows])
  show "at_path (''events.scale.'' @ ''down'') six_idle_windows = JNum 6" "at_path (''events.scale.'' @ ''up'') six_idle_windows = JNum 0"
    by code_simp+
  show "map_of CpuRescaleDown ''rule'' = Some (rescale_condition ''down'' (of_nat 6) ''up'' (of_nat 0))"
    by (simp add: CpuRescaleDown_def rescale_down_def rule_header_def)
qed (simp_all add: CpuRescaleDown_def rescale_down_def rule_header_def has_key_def)

text \<open>The page of the services, none of which is alive before it has written its heartbeat.\<close>

definition services_shown :: "rat \<Rightarrow> obj list \<Rightarrow> bool" where
  "services_shown now ss = (case services_page now ss of Inl _ \<Rightarrow> False
     | Inr shown \<Rightarrow> list_all2 (\<lambda>s (n, f). map_of s ''name'' = Some (JStr n) \<and> \<not> sf_alive f) ss shown)"

lemma service_dead: "\<not> service_alive now (service_doc n config)"
  by (simp add: service_alive_def service_doc_def)

lemma add_shown_doc:
  "n \<in> fst ` set services_options \<Longrightarrow>
   \<exists>f. add_shown_service now (service_doc n config) shown = Inr (shown @ [(n, f)]) \<and> \<not> sf_alive f"
  using service_dead [of now n config]
  by (cases "map_of services_options n") (auto simp: add_shown_service_def service_doc_def item_def rbind_def jstr_def jobj_def map_of_eq_None_iff)

definition known_service :: "obj \<Rightarrow> bool" where
  "known_service s \<longleftrightarrow> (\<exists>n config. s = service_doc n config \<and> n \<in> fst ` set services_options)"

lemma known_doc: "n \<in> fst ` set services_options \<Longrightarrow> known_service (service_doc n config)"
  unfolding known_service_def by blast

lemma show_docs:
  assumes "\<forall>s \<in> set ss. known_service s"
  shows "\<exists>fs. foldR (add_shown_service now) ss shown = Inr (shown @ fs) \<and>
     list_all2 (\<lambda>s (n, f). map_of s ''name'' = Some (JStr n) \<and> \<not> sf_alive f) ss fs"
  using assms
proof (induction ss arbitrary: shown)
  case (Cons s ss)
  then obtain n config where s: "s = service_doc n config" "n \<in> fst ` set services_options" by (auto simp: known_service_def)
  then obtain f where f: "add_shown_service now s shown = Inr (shown @ [(n, f)])" "\<not> sf_alive f"
    using add_shown_doc by blast
  from Cons obtain fs where "foldR (add_shown_service now) ss (shown @ [(n, f)]) = Inr ((shown @ [(n, f)]) @ fs)"
    "list_all2 (\<lambda>s (n, f). map_of s ''name'' = Some (JStr n) \<and> \<not> sf_alive f) ss fs" by (metis list.set_intros(2))
  with f s have "foldR (add_shown_service now) (s # ss) shown = Inr (shown @ (n, f) # fs)"
    "list_all2 (\<lambda>s (n, f). map_of s ''name'' = Some (JStr n) \<and> \<not> sf_alive f) (s # ss) ((n, f) # fs)"
    by (simp_all add: rbind_def service_doc_def)
  then show ?case by blast
qed simp

theorem shipped_services_shown:
  "services_shown now (fst (initial_services budgeting disks modelling online f))"
proof -
  have known: "known_service scaler" "known_service database_snapshoter" "known_service sanity_checker"
    "\<And>b d. known_service (guardian b d)" "\<And>b d. known_service (structures_snapshoter b d)"
    "\<And>b d. known_service (refeeder b d)" "\<And>d. known_service (rebalancer d)" "\<And>m. known_service (energy_controller m)"
    "\<And>f. known_service (watt_trainer f)"
    unfolding scaler_def guardian_def database_snapshoter_def structures_snapshoter_def
        refeeder_def sanity_checker_def rebalancer_def energy_controller_def watt_trainer_def
    by (rule known_doc; simp add: services_options_def)+
  have "\<forall>s \<in> set (fst (initial_services budgeting disks modelling online f)). known_service s"
    by (simp add: initial_services_def Let_def known)
  from show_docs [OF this, of now "[]"] show ?thesis by (auto simp: services_shown_def services_page_def)
qed

text \<open>The learning of power models is only set up with them, but its service is added without: the script ends with the
  \<open>NameError\<close> of a name that is not bound.\<close>

lemma online_learning_needs_models:
  "snd (initial_services True disks False True f) = Some (UnboundLocalError ''watt_trainer'')"
  "\<not> (budgeting \<and> online \<and> \<not> modelling) \<Longrightarrow> snd (initial_services budgeting disks modelling online f) = None"
  by (auto simp: initial_services_def Let_def)

end
