(* ===== verification/Forms.thy ===== *)
theory Forms
  imports ShippedRules "HOL-Library.Sublist"
begin

text \<open>
  The forms of the web interface, \<open>ui/forms.py\<close>: the fields each class declares, and which of them its layout shows for
  a configuration.  A form is data here; the texts of labels and the styles are left out.  What a browser submits for a
  form is stated as a predicate, and the handlers of the pages are shown to find in it what they read.
\<close>

section \<open>Fields\<close>

text \<open>The values of a choice with their labels.\<close>

datatype field_kind =
    Chars | Integer | Floating | Decimal | Flag
  | Choice "(string \<times> string) list"
  | Choices "(string \<times> string) list"      \<comment> \<open>check boxes\<close>
  | JsonEditor

record field_def =
  fd_kind :: field_kind
  fd_required :: bool
  fd_min :: "rat option"
  fd_max :: "rat option"
  fd_initial :: "json option"

definition a_field :: "field_kind \<Rightarrow> bool \<Rightarrow> field_def" where
  "a_field k r = \<lparr>fd_kind = k, fd_required = r, fd_min = None, fd_max = None, fd_initial = None\<rparr>"

definition at_least :: "rat \<Rightarrow> field_def \<Rightarrow> field_def" where
  "at_least x f = f\<lparr>fd_min := Some x\<rparr>"

definition at_most :: "rat \<Rightarrow> field_def \<Rightarrow> field_def" where
  "at_most x f = f\<lparr>fd_max := Some x\<rparr>"

definition starting :: "json \<Rightarrow> field_def \<Rightarrow> field_def" where
  "starting v f = f\<lparr>fd_initial := Some v\<rparr>"

definition positive_integer :: "bool \<Rightarrow> field_def" where
  "positive_integer r = at_least 1 (a_field Integer r)"

definition weight_field :: field_def where
  "weight_field = at_most 100 (at_least (1/10) (a_field Floating False))"

definition boundary_field :: field_def where
  "boundary_field = at_most 100 (positive_integer False)"

definition boundary_types :: "(string \<times> string) list" where
  "boundary_types = [(''percentage_of_max'', ''Percentage of max''), (''percentage_of_current'', ''Percentage of current'')]"

definition true_or_false :: "(string \<times> string) list" where
  "true_or_false = [(''True'', ''True''), (''False'', ''False'')]"

definition DEFAULT_COMMON_FIELDS :: "field_def dict" where
  "DEFAULT_COMMON_FIELDS =
    [(''operation'', a_field Chars True), (''structure_type'', a_field Chars True), (''name'', a_field Chars True),
     (''cpu_max'', positive_integer True), (''cpu_min'', positive_integer True), (''cpu_weight'', weight_field),
     (''mem_max'', positive_integer True), (''mem_min'', positive_integer True), (''mem_weight'', weight_field),
     (''disk_read_max'', positive_integer True), (''disk_read_min'', positive_integer True), (''disk_read_weight'', weight_field),
     (''disk_write_max'', positive_integer True), (''disk_write_min'', positive_integer True), (''disk_write_weight'', weight_field),
     (''energy_max'', positive_integer False), (''energy_min'', positive_integer False), (''energy_weight'', weight_field),
     (''cpu_boundary'', boundary_field), (''mem_boundary'', boundary_field), (''disk_read_boundary'', boundary_field),
     (''disk_write_boundary'', boundary_field), (''energy_boundary'', boundary_field),
     (''cpu_boundary_type'', a_field (Choice boundary_types) False), (''mem_boundary_type'', a_field (Choice boundary_types) False),
     (''disk_read_boundary_type'', a_field (Choice boundary_types) False),
     (''disk_write_boundary_type'', a_field (Choice boundary_types) False),
     (''energy_boundary_type'', a_field (Choice boundary_types) False),
     (''add_install'', a_field Flag False), (''install_script'', a_field Chars False),
     (''add_install_files'', a_field Flag False), (''install_files'', a_field Chars False),
     (''add_runtime_files'', a_field Flag False), (''runtime_files'', a_field Chars False),
     (''add_output_dir'', a_field Flag False), (''output_dir'', a_field Chars False),
     (''start_script'', a_field Chars False), (''stop_script'', a_field Chars False),
     (''debug'', a_field (Choice true_or_false) True), (''polling_frequency'', positive_integer True),
     (''window_delay'', positive_integer True), (''window_timelapse'', positive_integer True)]"

definition common :: "string list \<Rightarrow> field_def dict" where
  "common ns = map (\<lambda>n. (n, get_or DEFAULT_COMMON_FIELDS n (a_field Chars True))) ns"

definition change_field :: "string \<Rightarrow> (field_def \<Rightarrow> field_def) \<Rightarrow> field_def dict \<Rightarrow> field_def dict" where
  "change_field n g fs = map (\<lambda>(k, f). (k, if k = n then g f else f)) fs"

definition set_initial :: "string \<Rightarrow> string \<Rightarrow> field_def dict \<Rightarrow> field_def dict" where
  "set_initial n v = change_field n (starting (JStr v))"

definition make_required :: "field_def dict \<Rightarrow> field_def dict" where
  "make_required = map (\<lambda>(k, f). (k, f\<lparr>fd_required := True\<rparr>))"

section \<open>Layouts\<close>

record layout_entry =
  le_name :: string
  le_hidden :: bool
  le_readonly :: bool

definition shown :: "string list \<Rightarrow> layout_entry list" where
  "shown ns = map (\<lambda>n. \<lparr>le_name = n, le_hidden = False, le_readonly = False\<rparr>) ns"

definition hidden :: "string list \<Rightarrow> layout_entry list" where     \<comment> \<open>\<open>type="hidden", readonly=True\<close>\<close>
  "hidden ns = map (\<lambda>n. \<lparr>le_name = n, le_hidden = True, le_readonly = True\<rparr>) ns"

definition readonly :: "string list \<Rightarrow> layout_entry list" where
  "readonly ns = map (\<lambda>n. \<lparr>le_name = n, le_hidden = False, le_readonly = True\<rparr>) ns"

record form_class =
  fc_id :: string
  fc_action :: "string option"
  fc_fields :: "field_def dict"
  fc_layout :: "layout_entry list"
  fc_submit :: string

text \<open>What the forms read of the configuration of the platform.\<close>

record form_config =
  fg_disk_capabilities :: bool
  fg_disk_scaling :: bool
  fg_power_budgeting :: bool
  fg_global_hdfs :: bool
  fg_hdfs_mode :: string

definition disks_scaled :: "form_config \<Rightarrow> bool" where
  "disks_scaled c \<longleftrightarrow> fg_disk_capabilities c \<and> fg_disk_scaling c"

definition isolated_hdfs :: "form_config \<Rightarrow> bool" where
  "isolated_hdfs c \<longleftrightarrow> fg_global_hdfs c \<and> fg_hdfs_mode c = ''isolated''"

definition on_condition :: "bool \<Rightarrow> string list \<Rightarrow> layout_entry list" where
  "on_condition b ns = (if b then shown ns else [])"

section \<open>Resources and limits of a structure\<close>

text \<open>The three tables of resources are sets of forms, whose layout is given by a helper.\<close>

definition structure_types :: "(string \<times> string) list" where
  "structure_types = [(''application'', ''Application''), (''container'', ''Container''), (''host'', ''Host''), (''user'', ''User'')]"

definition HostResourcesForm :: "field_def dict" where
  "HostResourcesForm =
     set_initial ''operation'' ''resources'' (common [''operation'', ''name'']) @
     [(''structure_type'', starting (JStr ''host'') (a_field (Choice structure_types) True)),
      (''resource'', a_field Chars True), (''max'', a_field Integer True)]"

definition HostResourcesFormSetHelper :: form_class where
  "HostResourcesFormSetHelper =
     \<lparr>fc_id = ''id-hostresourcesForm'', fc_action = None, fc_fields = HostResourcesForm,
      fc_layout = hidden [''operation'', ''name'', ''structure_type''] @ readonly [''resource''] @ shown [''max''],
      fc_submit = ''save-resources-''\<rparr>"

definition StructureResourcesForm :: "field_def dict" where
  "StructureResourcesForm =
     set_initial ''operation'' ''resources'' (common [''operation'', ''name'']) @
     [(''resource'', a_field Chars True), (''structure_type'', a_field (Choice structure_types) True),
      (''guard'', a_field (Choice true_or_false) True), (''max'', a_field Integer True), (''min'', a_field Integer True),
      (''weight'', a_field Floating False)]"

definition StructureResourcesFormSetHelper :: form_class where
  "StructureResourcesFormSetHelper =
     \<lparr>fc_id = ''id-structureresourcesForm'', fc_action = None, fc_fields = StructureResourcesForm,
      fc_layout = hidden [''operation'', ''name'', ''structure_type''] @ readonly [''resource''] @
        shown [''guard'', ''max'', ''min'', ''weight''],
      fc_submit = ''save-resources-''\<rparr>"

definition UserResourcesForm :: "field_def dict" where
  "UserResourcesForm =
     set_initial ''operation'' ''resources'' (common [''operation'', ''name'']) @
     [(''resource'', a_field Chars True), (''structure_type'', starting (JStr ''user'') (a_field (Choice structure_types) True)),
      (''max'', a_field Integer True), (''min'', a_field Integer True)]"

definition UserResourcesFormSetHelper :: form_class where
  "UserResourcesFormSetHelper =
     \<lparr>fc_id = ''id-userresourcesForm'', fc_action = None, fc_fields = UserResourcesForm,
      fc_layout = hidden [''operation'', ''name'', ''structure_type''] @ readonly [''resource''] @ shown [''max'', ''min''],
      fc_submit = ''save-resources-''\<rparr>"

definition LimitsForm :: form_class where
  "LimitsForm =
     \<lparr>fc_id = ''id-limitsForm'', fc_action = None,
      fc_fields = common [''name''] @
        make_required (common [''cpu_boundary'', ''mem_boundary'', ''disk_read_boundary'', ''disk_write_boundary'', ''energy_boundary'',
          ''cpu_boundary_type'', ''mem_boundary_type'', ''disk_read_boundary_type'', ''disk_write_boundary_type'',
          ''energy_boundary_type'']) @
        [(''net_boundary'', a_field Integer True), (''net_boundary_type'', a_field (Choice boundary_types) False)],
      fc_layout = hidden [''name''] @ shown [''cpu_boundary'', ''cpu_boundary_type'', ''mem_boundary'', ''mem_boundary_type'',
        ''disk_read_boundary'', ''disk_read_boundary_type'', ''disk_write_boundary'', ''disk_write_boundary_type'',
        ''net_boundary'', ''net_boundary_type'', ''energy_boundary'', ''energy_boundary_type''],
      fc_submit = ''save''\<rparr>"

definition RemoveStructureForm :: form_class where
  "RemoveStructureForm =
     \<lparr>fc_id = ''id-removestructureform'', fc_action = None,
      fc_fields = set_initial ''operation'' ''remove'' (common [''operation'']) @ [(''selected_structures'', a_field (Choices []) False)],
      fc_layout = hidden [''operation''] @ shown [''selected_structures''], fc_submit = ''save''\<rparr>"

section \<open>Hosts, containers and users\<close>

definition AddHostForm :: "form_config \<Rightarrow> form_class" where
  "AddHostForm c =
     \<lparr>fc_id = ''id-addhostform'', fc_action = Some ''hosts'',
      fc_fields =
        set_initial ''operation'' ''add'' (set_initial ''structure_type'' ''hosts'' (common [''operation'', ''structure_type'', ''name''])) @
        common [''cpu_max'', ''mem_max'', ''energy_max''] @
        [(''hdd_disks'', starting (JNum 0) (a_field Integer True)), (''hdd_disks_path_list'', a_field Chars False),
         (''ssd_disks'', starting (JNum 0) (a_field Integer True)), (''ssd_disks_path_list'', a_field Chars False),
         (''create_lvm'', starting (JStr ''False'') (a_field (Choice true_or_false) True)), (''lvm_path'', a_field Chars False),
         (''number_of_containers'', starting (JNum 0) (a_field Integer True))],
      fc_layout = hidden [''operation'', ''structure_type''] @ shown [''name'', ''cpu_max'', ''mem_max''] @
        on_condition (fg_power_budgeting c) [''energy_max''] @
        on_condition (disks_scaled c) [''hdd_disks'', ''hdd_disks_path_list'', ''ssd_disks'', ''ssd_disks_path_list'', ''create_lvm'', ''lvm_path''] @
        shown [''number_of_containers''],
      fc_submit = ''save''\<rparr>"

definition AddDisksToHostsForm :: form_class where
  "AddDisksToHostsForm =
     \<lparr>fc_id = ''id-adddiskstohostsform'', fc_action = Some ''hosts'',
      fc_fields =
        set_initial ''operation'' ''add'' (set_initial ''structure_type'' ''disks_to_hosts'' (common [''operation'', ''structure_type''])) @
        [(''host_list'', a_field (Choices []) True), (''add_to_lv'', starting (JStr ''False'') (a_field (Choice true_or_false) True)),
         (''new_disks'', a_field Chars True), (''extra_disk'', a_field Chars False), (''threshold'', a_field Decimal False),
         (''polling_frequency'', a_field Integer False), (''timeout_events'', a_field Integer False)],
      fc_layout = hidden [''operation'', ''structure_type''] @
        shown [''host_list'', ''add_to_lv'', ''new_disks'', ''extra_disk'', ''threshold'', ''polling_frequency'', ''timeout_events''],
      fc_submit = ''save''\<rparr>"

text \<open>The fields of resources and boundaries shared by the forms of containers and applications.\<close>

definition weighted_resources :: "field_def dict" where
  "weighted_resources = common [''cpu_max'', ''cpu_min'', ''cpu_weight'', ''mem_max'', ''mem_min'', ''mem_weight'',
     ''disk_read_max'', ''disk_read_min'', ''disk_read_weight'', ''disk_write_max'', ''disk_write_min'', ''disk_write_weight'',
     ''energy_max'', ''energy_min'', ''energy_weight'']"

definition boundaries :: "field_def dict" where
  "boundaries = common [''cpu_boundary'', ''mem_boundary'', ''disk_read_boundary'', ''disk_write_boundary'', ''energy_boundary'',
     ''cpu_boundary_type'', ''mem_boundary_type'', ''disk_read_boundary_type'', ''disk_write_boundary_type'', ''energy_boundary_type'']"

definition resources_layout :: "form_config \<Rightarrow> layout_entry list" where
  "resources_layout c =
     shown [''cpu_max'', ''cpu_min'', ''cpu_weight'', ''mem_max'', ''mem_min'', ''mem_weight''] @
     on_condition (disks_scaled c) [''disk_read_max'', ''disk_read_min'', ''disk_read_weight'',
       ''disk_write_max'', ''disk_write_min'', ''disk_write_weight''] @
     on_condition (fg_power_budgeting c) [''energy_max'', ''energy_min'', ''energy_weight'']"

definition boundaries_layout :: "form_config \<Rightarrow> layout_entry list" where
  "boundaries_layout c =
     shown [''cpu_boundary'', ''cpu_boundary_type'', ''mem_boundary'', ''mem_boundary_type''] @
     on_condition (disks_scaled c) [''disk_read_boundary'', ''disk_read_boundary_type'',
       ''disk_write_boundary'', ''disk_write_boundary_type''] @
     on_condition (fg_power_budgeting c) [''energy_boundary'', ''energy_boundary_type'']"

definition AddContainersForm :: "form_config \<Rightarrow> form_class" where
  "AddContainersForm c =
     \<lparr>fc_id = ''id-addcontainerform'', fc_action = Some ''containers'',
      fc_fields =
        set_initial ''operation'' ''add'' (set_initial ''structure_type'' ''containers'' (common [''operation'', ''structure_type'', ''name''])) @
        weighted_resources @ boundaries @ [(''host_list'', a_field JsonEditor True)],
      fc_layout = hidden [''operation'', ''structure_type''] @ shown [''host_list''] @ resources_layout c @ boundaries_layout c,
      fc_submit = ''save''\<rparr>"

definition AddNContainersForm :: "field_def dict" where
  "AddNContainersForm =
     set_initial ''operation'' ''add'' (set_initial ''structure_type'' ''Ncontainers'' (common [''operation'', ''structure_type''])) @
     [(''host'', a_field Chars True), (''containers_added'', starting (JNum 0) (a_field Integer True))]"

definition AddNContainersFormSetHelper :: form_class where
  "AddNContainersFormSetHelper =
     \<lparr>fc_id = ''id-addncontainersform'', fc_action = None, fc_fields = AddNContainersForm,
      fc_layout = hidden [''operation'', ''structure_type''] @ readonly [''host''] @ shown [''containers_added''],
      fc_submit = ''save-containers''\<rparr>"

definition AddUserForm :: "form_config \<Rightarrow> form_class" where
  "AddUserForm c =
     \<lparr>fc_id = ''id-adduserform'', fc_action = Some ''users'',
      fc_fields =
        set_initial ''operation'' ''add'' (set_initial ''structure_type'' ''users'' (common [''operation'', ''structure_type'', ''name''])) @
        common [''cpu_max'', ''cpu_min'', ''mem_max'', ''mem_min'', ''disk_read_max'', ''disk_read_min'', ''disk_write_max'',
          ''disk_write_min'', ''energy_max'', ''energy_min''] @
        [(''balancing_method'', a_field (Choice [(''pair_swapping'', ''Pair swapping''),
            (''pair_swapping'', ''Weights (not supported)'')]) False)],
      fc_layout = hidden [''operation'', ''structure_type''] @
        shown [''name'', ''balancing_method'', ''cpu_max'', ''cpu_min'', ''mem_max'', ''mem_min''] @
        on_condition (disks_scaled c) [''disk_read_max'', ''disk_read_min'', ''disk_write_max'', ''disk_write_min''] @
        on_condition (fg_power_budgeting c) [''energy_max'', ''energy_min''],
      fc_submit = ''save''\<rparr>"

definition subscription_form :: "string \<Rightarrow> string \<Rightarrow> form_class" where
  "subscription_form form_id operation =
     \<lparr>fc_id = form_id, fc_action = Some ''users'',
      fc_fields = set_initial ''operation'' operation (common [''name'', ''operation'']) @ [(''selected_structures'', a_field (Choices []) False)],
      fc_layout = hidden [''operation''] @ shown [''name'', ''selected_structures''], fc_submit = ''save''\<rparr>"

definition SubscribeAppForm :: form_class where
  "SubscribeAppForm = subscription_form ''id-subscribeappform'' ''subscribe''"

definition DesubscribeAppForm :: form_class where
  "DesubscribeAppForm = subscription_form ''id-desubscribeappform'' ''desubscribe''"

section \<open>Applications\<close>

definition app_fields :: "field_def dict" where
  "app_fields =
     set_initial ''operation'' ''add'' (set_initial ''structure_type'' ''apps'' (common [''operation'', ''structure_type'', ''name''])) @
     [(''user'', a_field Chars False)] @ weighted_resources @ boundaries @
     common [''add_install'', ''install_script'', ''add_install_files'', ''install_files'', ''add_runtime_files'', ''runtime_files'',
       ''add_output_dir'', ''output_dir'', ''start_script'', ''stop_script''] @
     [(''app_dir'', a_field Chars True)]"

definition app_files_layout :: "layout_entry list" where
  "app_files_layout = shown [''app_dir'', ''start_script'', ''stop_script'', ''add_install'', ''install_script'', ''add_install_files'',
     ''install_files'', ''add_runtime_files'', ''runtime_files'', ''add_output_dir'', ''output_dir'']"

definition AddAppForm :: "form_config \<Rightarrow> form_class" where
  "AddAppForm c =
     \<lparr>fc_id = ''id-addappform'', fc_action = Some ''apps'', fc_fields = app_fields,
      fc_layout = hidden [''operation'', ''structure_type''] @ shown [''name'', ''user''] @ resources_layout c @ boundaries_layout c @
        app_files_layout,
      fc_submit = ''save''\<rparr>"

definition AddHadoopAppForm :: "form_config \<Rightarrow> form_class" where
  "AddHadoopAppForm c =
     \<lparr>fc_id = ''id-addhadoopappform'', fc_action = Some ''apps'',
      fc_fields = app_fields @
        [(''app_type'', starting (JStr ''hadoop_app'') (a_field Chars True)), (''add_extra_framework'', a_field Flag False),
         (''framework'', a_field (Choice [(''spark'', ''Spark'')]) False)],
      fc_layout = hidden [''operation'', ''structure_type'', ''app_type''] @ shown [''name''] @ resources_layout c @ boundaries_layout c @
        app_files_layout @ shown [''add_extra_framework'', ''framework''],
      fc_submit = ''save''\<rparr>"

definition StartAppForm :: "form_config \<Rightarrow> form_class" where
  "StartAppForm c =
     \<lparr>fc_id = ''id-startappform'', fc_action = None,
      fc_fields =
        set_initial ''operation'' ''start'' (set_initial ''structure_type'' ''containers_to_app'' (common [''operation'', ''structure_type'', ''name''])) @
        [(''number_of_containers'', a_field Integer True),
         (''assignation_policy'', a_field (Choice [(''Best-effort'', ''Best effort''), (''Fill-up'', ''Fill up''), (''Cyclic'', ''Cyclic'')]) False),
         (''benevolence'', starting (JNum 3) (a_field (Choice [(''-1'', ''Manual''), (''1'', ''Lax''), (''2'', ''Medium''), (''3'', ''Strict'')]) True)),
         (''dependency_app'', a_field Chars False),
         (''dependency_condition'', starting (JStr ''stopped'') (a_field (Choices ([(''running'', ''Running''), (''stopped'', ''Stopped'')] @
            (if isolated_hdfs c then [(''hdfs_downloading'', ''[HDFS] Downloading''), (''hdfs_uploading'', ''[HDFS] Uploading'')] else []))) False)),
         (''allow_oversubscription'', starting (JBool False) (a_field Flag False)),
         (''read_from_global'', a_field Flag False), (''write_to_global'', a_field Flag False),
         (''global_input'', a_field Chars False), (''local_output'', a_field Chars False), (''local_input'', a_field Chars False),
         (''global_output'', a_field Chars False)],
      fc_layout = hidden [''operation'', ''structure_type''] @ readonly [''name''] @
        shown [''number_of_containers'', ''assignation_policy'', ''benevolence'', ''dependency_app'', ''dependency_condition'',
          ''allow_oversubscription''] @
        (if isolated_hdfs c
         then [\<lparr>le_name = ''read_from_global'', le_hidden = True, le_readonly = False\<rparr>] @ shown [''global_input'', ''local_output''] @
              [\<lparr>le_name = ''write_to_global'', le_hidden = True, le_readonly = False\<rparr>] @ shown [''local_input'', ''global_output'']
         else []),
      fc_submit = ''save''\<rparr>"

definition shown_scripts :: "string list" where
  "shown_scripts = [''runtime_files'', ''output_dir'', ''install_script'', ''start_script'', ''stop_script'']"

definition AddContainersToAppForm :: form_class where
  "AddContainersToAppForm =
     \<lparr>fc_id = ''id-addcontainerstoappform'', fc_action = None,
      fc_fields =
        set_initial ''operation'' ''add'' (set_initial ''structure_type'' ''containers_to_app'' (common [''operation'', ''structure_type'', ''name''])) @
        [(''containers_to_add'', a_field (Choices []) False), (''fill_with_new_containers'', a_field Flag False)] @ common shown_scripts,
      fc_layout = hidden [''operation'', ''structure_type''] @ readonly [''name''] @
        shown [''containers_to_add'', ''fill_with_new_containers''] @ hidden shown_scripts,
      fc_submit = ''save''\<rparr>"

definition RemoveContainersFromAppForm :: form_class where
  "RemoveContainersFromAppForm =
     \<lparr>fc_id = ''id-removecontainersfromapp'', fc_action = None,
      fc_fields = set_initial ''operation'' ''desubscribe'' (common [''operation'']) @
        [(''app'', a_field Chars True), (''selected_structures'', a_field (Choices []) False)] @ common shown_scripts,
      fc_layout = hidden [''operation'', ''app''] @ shown [''selected_structures''] @ hidden shown_scripts,
      fc_submit = ''save''\<rparr>"

section \<open>Services\<close>

text \<open>All forms of services are submitted to the page of the services, whatever they show.\<close>

definition service_form_class :: "string \<Rightarrow> field_def dict \<Rightarrow> string list \<Rightarrow> form_class" where
  "service_form_class form_id fs ns =
     \<lparr>fc_id = form_id, fc_action = Some ''services'', fc_fields = fs, fc_layout = hidden [''name''] @ shown ns, fc_submit = ''save''\<rparr>"

definition resource_choices :: "(string \<times> string) list" where
  "resource_choices = [(''cpu'', ''CPU''), (''mem'', ''Memory''), (''disk_read'', ''Disk Read''), (''disk_write'', ''Disk Write''),
     (''net'', ''Network''), (''energy'', ''Energy'')]"

definition guarded_choices :: "(string \<times> string) list" where
  "guarded_choices = [(''application'', ''Application''), (''container'', ''Container'')]"

definition DBSnapshoterForm :: form_class where
  "DBSnapshoterForm = service_form_class ''id-dbsnapshoterForm''
     (common [''name'', ''debug'', ''polling_frequency''] @
      [(''documents_persisted'', a_field (Choices [(''structures'', ''Structures''), (''limits'', ''Limits''), (''services'', ''Services''),
          (''rules'', ''Rules''), (''requests'', ''Requests''), (''events'', ''Events''), (''users'', ''Users''), (''configs'', ''Configs'')]) False)])
     [''debug'', ''documents_persisted'', ''polling_frequency'']"

definition GuardianForm :: form_class where
  "GuardianForm = service_form_class ''id-guardianForm''
     (common [''name'', ''debug'', ''window_delay'', ''window_timelapse''] @
      [(''event_timeout'', a_field Integer True), (''guardable_resources'', a_field (Choices resource_choices) True),
       (''structure_guarded'', starting (JStr ''container'') (a_field (Choice guarded_choices) True))])
     [''debug'', ''event_timeout'', ''guardable_resources'', ''structure_guarded'', ''window_delay'', ''window_timelapse'']"

definition ScalerForm :: form_class where
  "ScalerForm = service_form_class ''id-scalerForm''
     (common [''name'', ''debug'', ''polling_frequency''] @
      [(''check_core_map'', a_field (Choice true_or_false) False), (''request_timeout'', a_field Integer True)])
     [''check_core_map'', ''debug'', ''polling_frequency'', ''request_timeout'']"

definition persisted_structures :: field_def where
  "persisted_structures = starting (JArr [JStr ''application''])
     (a_field (Choices [(''application'', ''Applications''), (''user'', ''Users'')]) False)"

definition StructuresSnapshoterForm :: form_class where
  "StructuresSnapshoterForm = service_form_class ''id-structuressnapshoterForm''
     (common [''name'', ''debug'', ''polling_frequency''] @
      [(''resources_persisted'', a_field (Choices resource_choices) False), (''structures_persisted'', persisted_structures)])
     [''debug'', ''polling_frequency'', ''resources_persisted'', ''structures_persisted'']"

definition SanityCheckerForm :: form_class where
  "SanityCheckerForm = service_form_class ''id-sanitycheckerForm''
     (common [''name'', ''debug''] @ [(''delay'', a_field Integer True)]) [''debug'', ''delay'']"

definition RefeederForm :: form_class where
  "RefeederForm = service_form_class ''id-refeederForm''
     (common [''name'', ''debug'', ''window_delay'', ''window_timelapse''] @
      [(''structures_refeeded'', persisted_structures),
       (''generated_metrics'', a_field (Choices (filter (\<lambda>(v, _). v \<noteq> ''net'') resource_choices)) False)])
     [''debug'', ''structures_refeeded'', ''generated_metrics'', ''window_delay'', ''window_timelapse'']"

definition fraction :: field_def where
  "fraction = at_most 1 (at_least 0 (a_field Decimal False))"

definition ReBalancerForm :: form_class where
  "ReBalancerForm = service_form_class ''id-rebalancerForm''
     (common [''name'', ''debug'', ''window_delay'', ''window_timelapse''] @
      [(''diff_percentage'', fraction), (''stolen_percentage'', fraction),
       (''resources_balanced'', a_field (Choices (filter (\<lambda>(v, _). v \<notin> {''mem'', ''net''}) resource_choices)) False),
       (''structures_balanced'', starting (JArr [JStr ''container''])
          (a_field (Choices [(''container'', ''Containers''), (''application'', ''Applications''), (''user'', ''Users'')]) False)),
       (''containers_scope'', a_field (Choice [(''application'', ''Applications''), (''host'', ''Hosts'')]) False),
       (''balancing_policy'', a_field (Choice [(''rules'', ''Rules''), (''thresholds'', ''Thresholds'')]) False),
       (''balancing_method'', a_field (Choice [(''pair_swapping'', ''Pair swapping''), (''weights'', ''Weights'')]) False),
       (''only_running'', starting (JBool False) (a_field (Choice true_or_false) False))])
     [''debug'', ''diff_percentage'', ''stolen_percentage'', ''resources_balanced'', ''structures_balanced'', ''containers_scope'',
      ''balancing_policy'', ''balancing_method'', ''only_running'', ''window_delay'', ''window_timelapse'']"

definition WattTrainerForm :: form_class where
  "WattTrainerForm =
     \<lparr>fc_id = ''id-wattTrainerForm'', fc_action = Some ''services'',
      fc_fields = common [''name'', ''debug'', ''window_delay'', ''window_timelapse''] @
        [(''models_to_train'', a_field (Choices [(''sgdregessor_General'', ''SGDRegressor - General''),
            (''sgdregressor_General'', ''SGDRegressor - General''), (''sgdregressor_Group_P'', ''SGDRegressor - Group_P''),
            (''sgdregressor_Spread_P'', ''SGDRegressor - Spread_P''), (''sgdregressor_Group_P_and_L'', ''SGDRegressor - Group_P&L''),
            (''sgdregressor_Spread_P_and_L'', ''SGDRegressor - Spread_P&L''), (''sgdregressor_Group_1P_2_L'', ''SGDRegressor - Group_1P_2L''),
            (''sgdregressor_Group_PP_LL'', ''SGDRegressor - Group_PP_LL'')]) True)],
      fc_layout = hidden [''name''] @ readonly [''debug''] @ shown [''models_to_train'', ''window_delay'', ''window_timelapse''],
      fc_submit = ''save''\<rparr>"

definition EnergyControllerForm :: form_class where
  "EnergyControllerForm = service_form_class ''id-energyControllerForm''
     (common [''name'', ''debug'', ''polling_frequency''] @ [(''window_delay'', at_least 0 (a_field Integer True))] @
      common [''window_timelapse''] @
      [(''event_timeout'', a_field Integer True),
       (''structure_guarded'', starting (JStr ''container'') (a_field (Choice guarded_choices) True)),
       (''control_policy'', starting (JStr ''ppe-proportional'') (a_field (Choice [(''ppe-proportional'', ''PPE-Proportional''),
          (''model-boosted'', ''PPE boosted by power models'')]) True)),
       (''power_model'', a_field Chars False)])
     [''debug'', ''polling_frequency'', ''event_timeout'', ''structure_guarded'', ''window_delay'', ''window_timelapse'',
      ''control_policy'', ''power_model'']"

definition SERVICES_FORMS :: "form_class dict" where
  "SERVICES_FORMS =
    [(''database_snapshoter'', DBSnapshoterForm), (''guardian'', GuardianForm), (''scaler'', ScalerForm),
     (''structures_snapshoter'', StructuresSnapshoterForm), (''sanity_checker'', SanityCheckerForm), (''refeeder'', RefeederForm),
     (''rebalancer'', ReBalancerForm), (''energy_controller'', EnergyControllerForm), (''watt_trainer'', WattTrainerForm)]"

section \<open>Rules and the global HDFS\<close>

definition RuleForm :: form_class where
  "RuleForm =
     \<lparr>fc_id = ''id-ruleForm'', fc_action = Some ''rules'',
      fc_fields = common [''name''] @
        [(''amount'', a_field Integer False), (''up_events_required'', at_least 0 (a_field Integer True)),
         (''down_events_required'', at_least 0 (a_field Integer True)),
         (''rescale_policy'', a_field (Choice [(''proportional'', ''Proportional''), (''amount'', ''Amount'')]) True)],
      fc_layout = hidden [''name''] @ shown [''amount'', ''up_events_required'', ''down_events_required'', ''rescale_policy''],
      fc_submit = ''save''\<rparr>"

definition hdfs_form :: "string \<Rightarrow> string \<Rightarrow> field_def dict \<Rightarrow> layout_entry list \<Rightarrow> form_class" where
  "hdfs_form form_id operation fs ls =
     \<lparr>fc_id = form_id, fc_action = Some ''hdfs'', fc_fields = set_initial ''operation'' operation (common [''operation'']) @ fs,
      fc_layout = hidden [''operation''] @ ls, fc_submit = ''save''\<rparr>"

definition AddHdfsFileForm :: form_class where
  "AddHdfsFileForm = hdfs_form ''id-addhdfsfileform'' ''add_file''
     [(''origin_path'', a_field Chars True), (''dest_path'', a_field Chars True)] (shown [''origin_path'', ''dest_path''])"

definition GetHdfsFileForm :: form_class where
  "GetHdfsFileForm = hdfs_form ''id-gethdfsfileform'' ''get_file''
     [(''origin_path'', a_field Chars True), (''dest_path'', a_field Chars False)] (readonly [''origin_path''] @ shown [''dest_path''])"

definition AddHdfsDirForm :: form_class where
  "AddHdfsDirForm = hdfs_form ''id-addhdfsdirform'' ''add_dir'' [(''dest_path'', a_field Chars True)] (shown [''dest_path''])"

definition DeleteHdfsFileForm :: form_class where
  "DeleteHdfsFileForm = hdfs_form ''id-deletehdfsfileform'' ''del_file'' [(''dest_path'', a_field Chars True)] (readonly [''dest_path''])"

definition fixed_forms :: "form_class list" where
  "fixed_forms =
    [HostResourcesFormSetHelper, StructureResourcesFormSetHelper, UserResourcesFormSetHelper, LimitsForm, RemoveStructureForm,
     AddDisksToHostsForm, AddNContainersFormSetHelper, SubscribeAppForm, DesubscribeAppForm, AddContainersToAppForm,
     RemoveContainersFromAppForm, RuleForm, AddHdfsFileForm, GetHdfsFileForm, AddHdfsDirForm, DeleteHdfsFileForm] @ map snd SERVICES_FORMS"

definition form_classes :: "form_config \<Rightarrow> form_class list" where
  "form_classes c = [AddHostForm c, AddContainersForm c, AddUserForm c, AddAppForm c, AddHadoopAppForm c, StartAppForm c] @ fixed_forms"

definition lays_out_its_fields :: "form_class \<Rightarrow> bool" where
  "lays_out_its_fields f \<longleftrightarrow> distinct (map fst (fc_fields f)) \<and> distinct (map le_name (fc_layout f)) \<and>
     list_all (\<lambda>n. has_key (fc_fields f) n) (map le_name (fc_layout f))"

text \<open>The layouts depend on the disks, the power budget and the HDFS only.\<close>

definition flags :: "bool \<Rightarrow> bool \<Rightarrow> bool \<Rightarrow> form_config" where
  "flags disks budgeting hdfs = \<lparr>fg_disk_capabilities = disks, fg_disk_scaling = True, fg_power_budgeting = budgeting,
     fg_global_hdfs = hdfs, fg_hdfs_mode = ''isolated''\<rparr>"

lemma flags_simps [simp]:
  "disks_scaled (flags d b h) = d" "fg_power_budgeting (flags d b h) = b" "isolated_hdfs (flags d b h) = h"
  by (simp_all add: flags_def disks_scaled_def isolated_hdfs_def)

lemma form_flags:
  "AddAppForm c = AddAppForm (flags (disks_scaled c) (fg_power_budgeting c) False)"
  "AddHadoopAppForm c = AddHadoopAppForm (flags (disks_scaled c) (fg_power_budgeting c) False)"
  "AddContainersForm c = AddContainersForm (flags (disks_scaled c) (fg_power_budgeting c) False)"
  "AddUserForm c = AddUserForm (flags (disks_scaled c) (fg_power_budgeting c) False)"
  "AddHostForm c = AddHostForm (flags (disks_scaled c) (fg_power_budgeting c) False)"
  "StartAppForm c = StartAppForm (flags False False (isolated_hdfs c))"
  by (simp_all add: flags_def AddHostForm_def AddContainersForm_def AddUserForm_def AddAppForm_def
      AddHadoopAppForm_def StartAppForm_def resources_layout_def boundaries_layout_def disks_scaled_def isolated_hdfs_def)

text \<open>A property of the forms is one of all flags.\<close>

lemma all_flags: "(\<forall>d \<in> {True, False}. \<forall>b \<in> {True, False}. P d b) \<longleftrightarrow> (\<forall>d b. P d b)"
  by (metis (full_types) insertCI)

lemma fixed_forms_lay_out: "list_all lays_out_its_fields fixed_forms"
  by code_simp

lemma full_forms_lay_out:
  "lays_out_its_fields (AddAppForm (flags True True False))" "lays_out_its_fields (AddHadoopAppForm (flags True True False))"
  "lays_out_its_fields (AddContainersForm (flags True True False))" "lays_out_its_fields (AddUserForm (flags True True False))"
  "lays_out_its_fields (AddHostForm (flags True True False))" "lays_out_its_fields (StartAppForm (flags False False True))"
  "lays_out_its_fields (StartAppForm (flags False False False))"
  by code_simp+

text \<open>A layout that leaves some entries out is as good.\<close>

lemma lays_out_less:
  assumes "lays_out_its_fields F" "fc_fields G = fc_fields F" "subseq (fc_layout G) (fc_layout F)"
  shows "lays_out_its_fields G"
proof -
  from assms(3) have less: "subseq (map le_name (fc_layout G)) (map le_name (fc_layout F))" by (rule subseq_map)
  then obtain N where "map le_name (fc_layout G) = nths (map le_name (fc_layout F)) N" by (auto simp: subseq_conv_nths)
  with assms(1,2) show ?thesis
    by (auto simp: lays_out_its_fields_def list_all_iff dest!: in_set_nthsD intro: distinct_nthsI)
qed

lemma subseq_condition: "subseq (on_condition b ns) (on_condition True ns)"
  by (simp add: on_condition_def)

lemmas less_shown = list_emb_append_mono subseq_condition subseq_order.order_refl

lemma parts_less:
  "subseq (resources_layout c) (resources_layout (flags True True h))"
  "subseq (boundaries_layout c) (boundaries_layout (flags True True h))"
  unfolding resources_layout_def boundaries_layout_def flags_simps by (intro less_shown)+

lemma config_forms_lay_out:
  "lays_out_its_fields (AddAppForm c)" "lays_out_its_fields (AddHadoopAppForm c)" "lays_out_its_fields (AddContainersForm c)"
  "lays_out_its_fields (AddUserForm c)" "lays_out_its_fields (AddHostForm c)"
proof -
  show "lays_out_its_fields (AddAppForm c)"
    by (rule lays_out_less [OF full_forms_lay_out(1)]) (simp_all add: AddAppForm_def, intro less_shown parts_less)
  show "lays_out_its_fields (AddHadoopAppForm c)"
    by (rule lays_out_less [OF full_forms_lay_out(2)]) (simp_all add: AddHadoopAppForm_def, intro less_shown parts_less)
  show "lays_out_its_fields (AddContainersForm c)"
    by (rule lays_out_less [OF full_forms_lay_out(3)]) (simp_all add: AddContainersForm_def, intro less_shown parts_less)
  show "lays_out_its_fields (AddUserForm c)"
    by (rule lays_out_less [OF full_forms_lay_out(4)]) (simp_all add: AddUserForm_def, intro less_shown)
  show "lays_out_its_fields (AddHostForm c)"
    by (rule lays_out_less [OF full_forms_lay_out(5)]) (simp_all add: AddHostForm_def, intro less_shown)
qed

lemma start_form_lays_out: "lays_out_its_fields (StartAppForm c)"
  using full_forms_lay_out(6,7) by (cases "isolated_hdfs c") (simp_all add: form_flags(6) [of c])

text \<open>For every configuration of the platform, each form shows only fields it declares, and each of them once.\<close>

theorem forms_lay_out_their_fields: "list_all lays_out_its_fields (form_classes c)"
  by (simp add: form_classes_def config_forms_lay_out start_form_lays_out fixed_forms_lay_out)

end
