(* ===== verification/FormContracts.thy ===== *)
theory FormContracts
  imports Forms HostViews
begin

text \<open>
  What the handlers of the pages may rely on: a submission of a form, as a browser sends it, has every value the handler
  reads.  The forms are those of the theory \<open>Forms\<close>, the handlers those of \<open>Requests\<close>, \<open>AppViews\<close> and \<open>HostViews\<close>.
\<close>

section \<open>Submissions\<close>

definition field_of :: "form_class \<Rightarrow> string \<Rightarrow> field_def" where
  "field_of F n = get_or (fc_fields F) n (a_field Chars False)"

definition in_bounds :: "field_def \<Rightarrow> rat \<Rightarrow> bool" where
  "in_bounds f x \<longleftrightarrow> (case fd_min f of Some m \<Rightarrow> m \<le> x | None \<Rightarrow> True) \<and> (case fd_max f of Some m \<Rightarrow> x \<le> m | None \<Rightarrow> True)"

definition empty_or :: "field_def \<Rightarrow> string \<Rightarrow> rat option \<Rightarrow> bool" where
  "empty_or f v x \<longleftrightarrow> v = [] \<and> \<not> fd_required f \<or> (case x of Some r \<Rightarrow> in_bounds f r | None \<Rightarrow> False)"

text \<open>A browser only submits a required text when it is not empty, numbers within the bounds of their field, and a value
  among the choices.  Check boxes are submitted when they are checked, fields that are not shown never.\<close>

definition allowed_value :: "field_def \<Rightarrow> string \<Rightarrow> bool" where
  "allowed_value f v \<longleftrightarrow> (case fd_kind f of
     Chars \<Rightarrow> fd_required f \<longrightarrow> v \<noteq> []
   | Integer \<Rightarrow> empty_or f v (map_option of_int (int_of_str v))
   | Floating \<Rightarrow> empty_or f v (float_of_str v)
   | Decimal \<Rightarrow> empty_or f v (float_of_str v)
   | Choice cs \<Rightarrow> v \<in> set (map fst cs)
   | _ \<Rightarrow> True)"

definition is_box :: "field_def \<Rightarrow> bool" where
  "is_box f \<longleftrightarrow> (case fd_kind f of Flag \<Rightarrow> True | Choices _ \<Rightarrow> True | _ \<Rightarrow> False)"

text \<open>Choices that are empty are filled in by the page.\<close>

definition entry_submitted :: "form_class \<Rightarrow> post \<Rightarrow> layout_entry \<Rightarrow> bool" where
  "entry_submitted F p e \<longleftrightarrow>
     (let f = field_of F (le_name e)
      in case map_of p (le_name e) of
           None \<Rightarrow> \<not> le_hidden e \<and> is_box f
         | Some vs \<Rightarrow>
             if le_hidden e then length vs = 1
             else if is_box f
             then vs \<noteq> [] \<and> (case fd_kind f of Choices cs \<Rightarrow> cs = [] \<or> list_all (\<lambda>v. v \<in> set (map fst cs)) vs | _ \<Rightarrow> True)
             else length vs = 1 \<and> allowed_value f (hd vs))"

definition form_names :: "form_class \<Rightarrow> string list" where
  "form_names F = fc_submit F # ''csrfmiddlewaretoken'' # map le_name (fc_layout F)"

definition submitted_by :: "form_class \<Rightarrow> post \<Rightarrow> bool" where
  "submitted_by F p \<longleftrightarrow> list_all (entry_submitted F p) (fc_layout F) \<and> list_all (\<lambda>k. k \<in> set (form_names F)) (keys_of p)"

text \<open>The fields every submission has a value for.\<close>

definition visible :: "form_class \<Rightarrow> string list" where
  "visible F = map le_name (filter (\<lambda>e. \<not> le_hidden e) (fc_layout F))"

definition always_sent :: "form_class \<Rightarrow> string \<Rightarrow> bool" where
  "always_sent F n \<longleftrightarrow> n \<in> set (visible F) \<and> \<not> is_box (field_of F n)"

lemma sent_value:
  assumes "submitted_by F p" "always_sent F n"
  obtains v where "map_of p n = Some [v]" "allowed_value (field_of F n) v"
proof -
  from assms obtain e where e: "e \<in> set (fc_layout F)" "le_name e = n" "\<not> le_hidden e" "\<not> is_box (field_of F n)"
    by (auto simp: always_sent_def visible_def)
  with assms(1) have "entry_submitted F p e" by (auto simp: submitted_by_def list_all_iff)
  with e obtain vs where vs: "map_of p n = Some vs" "length vs = 1" "allowed_value (field_of F n) (hd vs)"
    by (auto simp: entry_submitted_def Let_def split: option.splits)
  from vs(2) obtain v where "vs = [v]" by (cases vs) auto
  with vs show thesis by (intro that [of v]) simp_all
qed

lemma sent_simps:
  "map_of p n = Some [v] \<Longrightarrow> has_key p n" "map_of p n = Some [v] \<Longrightarrow> post_item p n = Inr v"
  "map_of p n = Some [v] \<Longrightarrow> sent p n = v" "map_of p n = Some [v] \<Longrightarrow> given p n \<longleftrightarrow> v \<noteq> []"
  by (simp_all add: has_key_def post_item_def item_def rbind_def sent_def given_def post_get_def)

lemma sent_present: "submitted_by F p \<Longrightarrow> always_sent F n \<Longrightarrow> has_key p n \<and> (\<exists>v. post_item p n = Inr v)"
  by (erule sent_value) (auto simp: sent_simps)

lemma not_sent: "submitted_by F p \<Longrightarrow> n \<notin> set (form_names F) \<Longrightarrow> \<not> has_key p n"
  using map_of_SomeD [of p n] by (force simp: submitted_by_def has_key_def keys_of_def list_all_iff)

definition integer_sent :: "form_class \<Rightarrow> string \<Rightarrow> bool" where
  "integer_sent F n \<longleftrightarrow> always_sent F n \<and> fd_kind (field_of F n) = Integer"

lemma integer_read:
  assumes "submitted_by F p" "integer_sent F n" "fd_required (field_of F n) \<or> given p n"
  obtains x where "posted_int p n = Inr x" "in_bounds (field_of F n) (of_int x)"
proof -
  from assms(1,2) obtain v where v: "map_of p n = Some [v]" "allowed_value (field_of F n) v"
    by (auto simp: integer_sent_def elim: sent_value)
  from v assms(2,3) obtain x where "int_of_str v = Some x" "in_bounds (field_of F n) (of_int x)"
    by (auto simp: allowed_value_def integer_sent_def empty_or_def sent_simps split: option.splits)
  with v(1) show thesis by (intro that [of x]) (simp_all add: posted_int_def sent_simps rbind_def int_str_def)
qed

section \<open>Resources\<close>

text \<open>The resources a platform scales, and a form that asks for them.\<close>

definition scaled_resources :: "form_config \<Rightarrow> string list" where
  "scaled_resources c = [''cpu'', ''mem''] @ (if disks_scaled c then [''disk_read'', ''disk_write''] else []) @
     (if fg_power_budgeting c then [''energy''] else [])"

text \<open>What the name of a field tells about it.\<close>

definition typed_field :: "string \<times> field_def \<Rightarrow> bool" where
  "typed_field kf \<longleftrightarrow> list_all (\<lambda>res.
     (fst kf = res @ ''_max'' \<or> fst kf = res @ ''_min'' \<longrightarrow>
        fd_kind (snd kf) = Integer \<and> (res = ''energy'' \<or> fd_required (snd kf))) \<and>
     (fst kf = res @ ''_weight'' \<longrightarrow> fd_kind (snd kf) = Floating) \<and>
     (fst kf = res @ ''_boundary'' \<or> fst kf = res @ ''_boundary_type'' \<longrightarrow> \<not> is_box (snd kf))) supported_resources"

lemma field_typed:
  assumes "list_all typed_field (fc_fields F)" "lays_out_its_fields F" "n \<in> set (visible F)"
  shows "typed_field (n, field_of F n)"
proof -
  from assms(2,3) obtain f where f: "map_of (fc_fields F) n = Some f"
    by (fastforce simp: lays_out_its_fields_def visible_def list_all_iff has_key_def)
  with assms(1) show ?thesis by (auto simp: list_all_iff field_of_def get_or_def dest: map_of_SomeD)
qed

definition resource_names :: "bool \<Rightarrow> string list" where
  "resource_names weighted = [''_max'', ''_min''] @ (if weighted then [''_weight'', ''_boundary'', ''_boundary_type''] else [])"

definition asks_for :: "bool \<Rightarrow> form_class \<Rightarrow> form_config \<Rightarrow> bool" where
  "asks_for weighted F c \<longleftrightarrow> list_all (\<lambda>res.
     if res \<in> set (scaled_resources c)
     then list_all (\<lambda>param. res @ param \<in> set (visible F)) (resource_names weighted) \<and>
          (weighted \<or> res @ ''_boundary'' \<notin> set (form_names F))
     else list_all (\<lambda>param. res @ param \<notin> set (form_names F)) [''_max'', ''_min'', ''_weight'', ''_boundary'']) supported_resources"

lemma scaled_flags: "scaled_resources c = scaled_resources (flags (disks_scaled c) (fg_power_budgeting c) False)"
  by (simp add: scaled_resources_def)

lemma asks_by_flags:
  "\<forall>d \<in> {True, False}. \<forall>b \<in> {True, False}. asks_for True (AddAppForm (flags d b False)) (flags d b False)"
  "\<forall>d \<in> {True, False}. \<forall>b \<in> {True, False}. asks_for True (AddHadoopAppForm (flags d b False)) (flags d b False)"
  "\<forall>d \<in> {True, False}. \<forall>b \<in> {True, False}. asks_for True (AddContainersForm (flags d b False)) (flags d b False)"
  "\<forall>d \<in> {True, False}. \<forall>b \<in> {True, False}. asks_for False (AddUserForm (flags d b False)) (flags d b False)"
  by code_simp+

lemma asks_flags: "asks_for w F c = asks_for w F (flags (disks_scaled c) (fg_power_budgeting c) False)"
  unfolding asks_for_def by (subst scaled_flags) simp

lemma forms_ask:
  "asks_for True (AddAppForm c) c" "asks_for True (AddHadoopAppForm c) c" "asks_for True (AddContainersForm c) c"
  "asks_for False (AddUserForm c) c"
  using asks_by_flags [unfolded all_flags]
  by (simp_all only: asks_flags [of _ _ c] form_flags [of c])

lemma fields_typed:
  "list_all typed_field (fc_fields (AddHadoopAppForm c))" "list_all typed_field (fc_fields (AddContainersForm c))"
  "list_all typed_field (fc_fields (AddUserForm c))" "list_all typed_field (fc_fields (AddHostForm c))"
  "list_all typed_field (fc_fields (AddAppForm c))"
  by code_simp+

text \<open>A form that asks for the scaled resources, and a submission of it that leaves no energy out.\<close>

definition resource_form :: "bool \<Rightarrow> form_class \<Rightarrow> form_config \<Rightarrow> bool" where
  "resource_form w F c \<longleftrightarrow> asks_for w F c \<and> lays_out_its_fields F \<and> list_all typed_field (fc_fields F)"

definition energy_given :: "form_config \<Rightarrow> post \<Rightarrow> bool" where
  "energy_given c p \<longleftrightarrow> fg_power_budgeting c \<longrightarrow> given p ''energy_max'' \<and> given p ''energy_min''"

lemma resource_forms:
  "resource_form True (AddAppForm c) c" "resource_form True (AddHadoopAppForm c) c" "resource_form True (AddContainersForm c) c"
  "resource_form False (AddUserForm c) c"
  by (simp_all add: resource_form_def forms_ask config_forms_lay_out fields_typed)

lemma resource_visible:
  assumes "resource_form w F c" "res \<in> set supported_resources" "res \<in> set (scaled_resources c)" "param \<in> set (resource_names w)"
  shows "res @ param \<in> set (visible F)" "typed_field (res @ param, field_of F (res @ param))"
proof -
  from assms show "res @ param \<in> set (visible F)" by (auto simp: resource_form_def asks_for_def list_all_iff)
  with assms(1) show "typed_field (res @ param, field_of F (res @ param))"
    by (intro field_typed) (auto simp: resource_form_def)
qed

lemma scaled_supported: "res \<in> set (scaled_resources c) \<Longrightarrow> res \<in> set supported_resources"
  by (auto simp: scaled_resources_def supported_resources_def split: if_splits)

lemma integer_asked:
  assumes "resource_form w F c" "submitted_by F p" "energy_given c p" "res \<in> set (scaled_resources c)" "param \<in> {''_max'', ''_min''}"
  obtains x where "posted_int p (res @ param) = Inr x" "has_key p (res @ param)"
proof -
  have names: "param \<in> set (resource_names w)" using assms(5) by (auto simp: resource_names_def)
  note seen = resource_visible [OF assms(1) scaled_supported [OF assms(4)] assms(4) names]
  from seen(2) scaled_supported [OF assms(4)] assms(5)
  have "fd_kind (field_of F (res @ param)) = Integer" and req: "res = ''energy'' \<or> fd_required (field_of F (res @ param))"
    by (auto simp: typed_field_def list_all_iff)
  with seen(1) have i: "integer_sent F (res @ param)" by (simp add: integer_sent_def always_sent_def is_box_def)
  have "fd_required (field_of F (res @ param)) \<or> given p (res @ param)"
  proof (cases "res = ''energy''")
    case True
    with assms(3-5) show ?thesis by (auto simp: energy_given_def scaled_resources_def split: if_splits)
  qed (use req in simp)
  then show thesis
    using integer_read [OF assms(2) i] sent_present [OF assms(2), of "res @ param"] i that by (metis integer_sent_def)
qed

lemma weight_asked:
  assumes "resource_form True F c" "submitted_by F p" "res \<in> set (scaled_resources c)"
  obtains x where "jfloat (if given p (res @ ''_weight'') then JStr (sent p (res @ ''_weight'')) else default_weight) = Inr x"
    "has_key p (res @ ''_weight'')"
proof -
  have names: "''_weight'' \<in> set (resource_names True)" by (simp add: resource_names_def)
  note seen = resource_visible [OF assms(1) scaled_supported [OF assms(3)] assms(3) names]
  from seen(2) scaled_supported [OF assms(3)] have k: "fd_kind (field_of F (res @ ''_weight'')) = Floating"
    by (auto simp: typed_field_def list_all_iff)
  with seen(1) have "always_sent F (res @ ''_weight'')" by (simp add: always_sent_def is_box_def)
  with assms(2) obtain v where v: "map_of p (res @ ''_weight'') = Some [v]" "allowed_value (field_of F (res @ ''_weight'')) v"
    by (rule sent_value)
  with k have "v = [] \<or> (\<exists>x. float_of_str v = Some x)"
    by (auto simp: allowed_value_def empty_or_def split: option.splits)
  with v(1) show thesis
    by (cases "v = []") (auto intro!: that simp: sent_simps jfloat_def default_weight_def)
qed

lemma boundary_asked:
  assumes "resource_form True F c" "submitted_by F p" "res \<in> set (scaled_resources c)"
  shows "has_key p (res @ ''_boundary'')" "\<exists>t. post_item p (res @ ''_boundary_type'') = Inr t"
proof -
  have names: "''_boundary'' \<in> set (resource_names True)" "''_boundary_type'' \<in> set (resource_names True)"
    by (simp_all add: resource_names_def)
  note seen = resource_visible [OF assms(1) scaled_supported [OF assms(3)] assms(3)]
  from seen(2) [OF names(1)] seen(2) [OF names(2)] scaled_supported [OF assms(3)]
  have "\<not> is_box (field_of F (res @ ''_boundary''))" "\<not> is_box (field_of F (res @ ''_boundary_type''))"
    by (auto simp: typed_field_def list_all_iff)
  with seen(1) [OF names(1)] seen(1) [OF names(2)]
  show "has_key p (res @ ''_boundary'')" "\<exists>t. post_item p (res @ ''_boundary_type'') = Inr t"
    using sent_present [OF assms(2)] by (auto simp: always_sent_def)
qed

lemma not_asked:
  assumes "resource_form w F c" "submitted_by F p" "res \<in> set supported_resources" "res \<notin> set (scaled_resources c)"
    and "param \<in> {''_max'', ''_min'', ''_weight'', ''_boundary''}"
  shows "\<not> has_key p (res @ param)"
  using assms by (intro not_sent [OF assms(2)]) (auto simp: resource_form_def asks_for_def list_all_iff)

section \<open>Applications\<close>

lemma resources_posted:
  assumes form: "resource_form True F c" "submitted_by F p" "energy_given c p" and known: "set L \<subseteq> set supported_resources"
  shows "\<exists>rs' ls'. foldR (\<lambda>res (rs, ls). rbind (posted_resource p res rs) (\<lambda>rs'. rbind (posted_limit p res ls) (\<lambda>ls'. Inr (rs', ls'))))
      L (rs, ls) = Inr (rs @ rs', ls @ ls') \<and>
    map fst rs' = filter (\<lambda>res. res \<in> set (scaled_resources c)) L \<and> map fst ls' = filter (\<lambda>res. res \<in> set (scaled_resources c)) L"
  using known
proof (induction L arbitrary: rs ls)
  case (Cons res L)
  then have IH: "\<exists>rs' ls'. foldR (\<lambda>res (rs, ls). rbind (posted_resource p res rs) (\<lambda>rs'. rbind (posted_limit p res ls) (\<lambda>ls'. Inr (rs', ls'))))
      L (rs, ls) = Inr (rs @ rs', ls @ ls') \<and>
    map fst rs' = filter (\<lambda>res. res \<in> set (scaled_resources c)) L \<and> map fst ls' = filter (\<lambda>res. res \<in> set (scaled_resources c)) L"
    for rs ls by simp
  show ?case
  proof (cases "res \<in> set (scaled_resources c)")
    case True
    obtain mx mn w where "posted_int p (res @ ''_max'') = Inr mx" "has_key p (res @ ''_max'')" "posted_int p (res @ ''_min'') = Inr mn"
      "jfloat (if given p (res @ ''_weight'') then JStr (sent p (res @ ''_weight'')) else default_weight) = Inr w"
      "has_key p (res @ ''_weight'')"
      using integer_asked [OF form True, of "''_max''"] integer_asked [OF form True, of "''_min''"] weight_asked [OF form(1,2) True]
      by (metis insertCI)
    then obtain e where e: "posted_resource p res rs = Inr (rs @ [(res, e)])"
      by (simp add: posted_resource_def rbind_def Let_def)
    obtain l where l: "posted_limit p res ls = Inr (ls @ [(res, l)])"
      using boundary_asked [OF form(1,2) True] by (cases "given p (res @ ''_boundary'')") (auto simp: posted_limit_def rbind_def)
    from IH [of "rs @ [(res, e)]" "ls @ [(res, l)]"] True show ?thesis
      by (force simp: e l rbind_def)
  next
    case False
    with Cons.prems have "posted_resource p res rs = Inr rs" "posted_limit p res ls = Inr ls"
      using not_asked [OF form(1,2) _ False] by (auto simp: posted_resource_def posted_limit_def)
    with IH [of rs ls] False show ?thesis by (simp add: rbind_def)
  qed
qed simp

lemma filter_scaled: "filter (\<lambda>res. res \<in> set (scaled_resources c)) supported_resources = scaled_resources c"
  by (simp add: scaled_resources_def supported_resources_def)

lemma app_dir_sent: "always_sent (AddAppForm c) ''app_dir''" "always_sent (AddHadoopAppForm c) ''app_dir''"
proof -
  have "\<not> is_box (field_of (AddAppForm c) ''app_dir'')" "\<not> is_box (field_of (AddHadoopAppForm c) ''app_dir'')"
    by code_simp+
  then show "always_sent (AddAppForm c) ''app_dir''" "always_sent (AddHadoopAppForm c) ''app_dir''"
    by (simp_all add: always_sent_def visible_def AddAppForm_def AddHadoopAppForm_def app_files_layout_def shown_def)
qed

lemma run_later_returns: "fst (run_later E n x w) = Returned ()"
  by (simp add: run_later_def register_task_def request_def hset_def run_simps)

lemma bindM_simps: "bindM (returnM x) f w = f x w" "bindM (raiseM e) f w = (Raised e, w)"
  by (simp_all add: bindM_def returnM_def raiseM_def)

lemma bindM_return: "bindM (returnM x) f = f x"
  by (rule ext) (rule bindM_simps)

lemma queued_result: "fst (thenM (run_later E n x) (returnM v) w) = Returned v"
  using run_later_returns [of E n x w] by (cases "run_later E n x w") (simp add: thenM_def bindM_def returnM_def)

lemma queued_trace: "w_trace (snd (thenM (run_later E n x) (returnM v) w)) = w_trace w @ [Dispatched x]"
  by (simp add: run_later_def register_task_def request_def hset_def thenM_def bindM_def returnM_def log_event_def ask_def)

text \<open>The task a form that adds an application queues, with what was read from it.\<close>

definition added_app_call :: "post \<Rightarrow> string \<Rightarrow> string \<Rightarrow> string dict \<Rightarrow> obj dict \<Rightarrow> obj dict \<Rightarrow> call" where
  "added_app_call p url n fs rs ls =
     Call ''add_app_task''
       [JStr (url @ ''apps/'' @ n),
        JObj [(''app'', JObj (app_doc n fs rs)), (''limits'', JObj [(''resources'', nested ls)])],
        JStr n, JObj (map (\<lambda>(k, f). (k, JStr f)) fs), optional_json (post_get p ''user'')]"

text \<open>C32: A submission of one of the two forms that add an application, with the energy filled in when there is a power
  budget (the form does not require it), is accepted: its files and, for exactly the resources the platform scales, its
  limits and boundaries are read, and the one thing done is to queue the task that adds the application, with the
  document made of them.\<close>

theorem app_form_accepted:
  assumes "F \<in> {AddAppForm c, AddHadoopAppForm c}" "submitted_by F p" "energy_given c p" "oa_structure_name args = Some n"
  shows "\<exists>fs rs ls. added_app_files p = Inr fs \<and> posted_resources p = Inr (rs, ls) \<and>
    map fst rs = scaled_resources c \<and> map fst ls = scaled_resources c \<and>
    fst (processAddApp E p url args w) = Returned (Some []) \<and>
    w_trace (snd (processAddApp E p url args w)) = w_trace w @ [Dispatched (added_app_call p url n fs rs ls)]"
proof -
  from assms(1) resource_forms have form: "resource_form True F c" by auto
  from assms(1) app_dir_sent have "always_sent F ''app_dir''" by auto
  from sent_present [OF assms(2) this] obtain fs where fs: "added_app_files p = Inr fs"
    by (auto simp: added_app_files_def Let_def)
  from resources_posted [OF form assms(2,3) order.refl, of "[]" "[]"]
  obtain rs ls where rs: "posted_resources p = Inr (rs, ls)" "map fst rs = scaled_resources c" "map fst ls = scaled_resources c"
    by (auto simp: posted_resources_def filter_scaled)
  have "processAddApp E p url args w =
    thenM (run_later E ''add_app_task'' (added_app_call p url n fs rs ls)) (returnM (Some [])) w"
    using assms(4) fs rs(1) by (simp add: processAddApp_def required_def liftR_def bindM_simps added_app_call_def Let_def)
  with queued_result queued_trace fs rs show ?thesis by metis
qed

text \<open>A submission without disks, power budget or files.\<close>

definition plain_config :: form_config where
  "plain_config = flags False False False"

definition typed_values :: "(string \<times> string) list \<Rightarrow> post" where
  "typed_values = map (\<lambda>(k, v). (k, [v]))"

definition sample_app :: post where
  "sample_app = typed_values
     [(''csrfmiddlewaretoken'', ''token''), (''operation'', ''add''), (''structure_type'', ''apps''), (''name'', ''app''), (''user'', []),
      (''cpu_max'', ''400''), (''cpu_min'', ''50''), (''cpu_weight'', []), (''mem_max'', ''4096''), (''mem_min'', ''1024''),
      (''mem_weight'', ''1.5''), (''cpu_boundary'', []), (''cpu_boundary_type'', ''percentage_of_max''), (''mem_boundary'', ''20''),
      (''mem_boundary_type'', ''percentage_of_current''), (''app_dir'', ''sort''), (''start_script'', []), (''stop_script'', []),
      (''install_script'', []), (''install_files'', []), (''runtime_files'', []), (''output_dir'', []), (''save'', ''Add app'')]"

lemma sample_app_submitted: "submitted_by (AddAppForm plain_config) sample_app"
  by code_simp

theorem app_form_accepted_witness:
  "\<exists>fs rs ls. posted_resources sample_app = Inr (rs, ls) \<and> map fst rs = scaled_resources plain_config \<and>
    w_trace (snd (processAddApp sample_env sample_app ''http://db/structure/''
      \<lparr>oa_structure_name = Some ''app'', oa_host_list = None, oa_selected = []\<rparr> sample_world)) =
      w_trace sample_world @ [Dispatched (added_app_call sample_app ''http://db/structure/'' ''app'' fs rs ls)]"
proof -
  have "energy_given plain_config sample_app" by (simp add: energy_given_def plain_config_def)
  then show ?thesis
    using app_form_accepted [of "AddAppForm plain_config" plain_config, OF _ sample_app_submitted,
        of "\<lparr>oa_structure_name = Some ''app'', oa_host_list = None, oa_selected = []\<rparr>" "''app''"] by force
qed

text \<open>The energy is not required: left empty, it is no number.\<close>

lemma empty_energy_raises:
  assumes "has_key p ''energy_max''" "post_item p ''energy_max'' = Inr []"
  shows "posted_resource p ''energy'' rs = Inl (ValueError [])"
proof -
  have "int_of_str [] = None" by code_simp
  with assms show ?thesis by (simp add: posted_resource_def posted_int_def rbind_def int_str_def)
qed

section \<open>Containers and users\<close>

lemma mapR_all: "\<forall>x \<in> set xs. \<exists>y. f x = Inr y \<Longrightarrow> \<exists>ys. mapR f xs = Inr ys \<and> list_all2 (\<lambda>x y. f x = Inr y) xs ys"
  by (induction xs) (auto simp: rbind_def)

theorem container_form_accepted:
  assumes "submitted_by (AddContainersForm c) p"
  shows "\<exists>res. posted_container_resources p = Inr res"
proof -
  have "\<exists>d. posted_container_resource p res = Inr d" if "res \<in> set supported_resources" for res
  proof (cases "res \<in> set (scaled_resources c)")
    case True
    from boundary_asked [OF resource_forms(3) assms True] show ?thesis
      by (cases "given p (res @ ''_boundary'')") (auto simp: posted_container_resource_def Let_def rbind_def)
  next
    case False
    from not_asked [OF resource_forms(3) assms that False] show ?thesis
      by (auto simp: posted_container_resource_def Let_def)
  qed
  with mapR_all [of supported_resources "posted_container_resource p"]
  have "\<exists>ds. mapR (posted_container_resource p) supported_resources = Inr ds" by auto
  then show ?thesis by (auto simp: posted_container_resources_def rbind_def)
qed

lemma foldR_all: "(\<And>x s. x \<in> set xs \<Longrightarrow> \<exists>s'. f x s = Inr s') \<Longrightarrow> \<exists>s'. foldR f xs s = Inr s'"
proof (induction xs arbitrary: s)
  case (Cons x xs)
  then obtain s' where "f x s = Inr s'" by (meson list.set_intros(1))
  with Cons show ?case by (simp add: rbind_def)
qed simp

theorem user_form_accepted:
  assumes "submitted_by (AddUserForm c) p" "energy_given c p" "oa_structure_name args = Some n"
  shows "fst (processAddUser E p url args w) = Returned (Some [])"
proof -
  have "\<exists>rs'. (if \<not> has_key p (res @ ''_max'') then Inr rs
         else rbind (posted_int p (res @ ''_max'')) (\<lambda>mx. rbind (posted_int p (res @ ''_min'')) (\<lambda>mn.
              Inr (rs @ [(res, [(''max'', JInt mx), (''min'', JInt mn)])])))) = Inr rs'"
    if "res \<in> set supported_resources" for res rs
  proof (cases "res \<in> set (scaled_resources c)")
    case True
    show ?thesis
      by (rule integer_asked [OF resource_forms(4) assms(1,2) True, of "''_max''"], simp,
          rule integer_asked [OF resource_forms(4) assms(1,2) True, of "''_min''"], simp) (simp add: rbind_def)
  next
    case False
    from not_asked [OF resource_forms(4) assms(1) that False] show ?thesis by simp
  qed
  then have "\<exists>d. posted_user p n = Inr d"
    unfolding posted_user_def using foldR_all [of supported_resources] by (smt (verit) rbind_def sum.case(2))
  with assms(3) show ?thesis
    by (auto simp: processAddUser_def required_def liftR_def bindM_simps queued_result)
qed

section \<open>Hosts\<close>

lemma common_numbers:
  "get_or DEFAULT_COMMON_FIELDS ''cpu_max'' f = positive_integer True" "get_or DEFAULT_COMMON_FIELDS ''mem_max'' f = positive_integer True"
  "get_or DEFAULT_COMMON_FIELDS ''energy_max'' f = positive_integer False" "get_or DEFAULT_COMMON_FIELDS ''name'' f = a_field Chars True"
  by (simp_all add: DEFAULT_COMMON_FIELDS_def get_or_def)

lemmas field_lookup = field_of_def get_or_def [of "_ @ _"] get_or_def [of "_ # _"] common_def set_initial_def change_field_def

lemma host_fields:
  "field_of (AddHostForm c) ''number_of_containers'' = starting (JNum 0) (a_field Integer True)"
  "field_of (AddHostForm c) ''cpu_max'' = positive_integer True" "field_of (AddHostForm c) ''mem_max'' = positive_integer True"
  "field_of (AddHostForm c) ''energy_max'' = positive_integer False"
  "field_of (AddHostForm c) ''hdd_disks'' = starting (JNum 0) (a_field Integer True)"
  "field_of (AddHostForm c) ''ssd_disks'' = starting (JNum 0) (a_field Integer True)"
  "field_of (AddHostForm c) ''create_lvm'' = starting (JStr ''False'') (a_field (Choice true_or_false) True)"
  "field_of (AddHostForm c) ''lvm_path'' = a_field Chars False" "field_of (AddHostForm c) ''hdd_disks_path_list'' = a_field Chars False"
  "field_of (AddHostForm c) ''ssd_disks_path_list'' = a_field Chars False" "field_of (AddHostForm c) ''name'' = a_field Chars True"
  by (simp_all add: AddHostForm_def field_lookup common_numbers)

lemma field_simps [simp]:
  "fd_kind (a_field k r) = k" "fd_required (a_field k r) = r" "fd_kind (starting v f) = fd_kind f" "fd_required (starting v f) = fd_required f"
  "fd_kind (positive_integer r) = Integer" "fd_required (positive_integer r) = r"
  by (simp_all add: a_field_def starting_def positive_integer_def at_least_def)

lemma host_visible:
  "visible (AddHostForm c) = [''name'', ''cpu_max'', ''mem_max''] @ (if fg_power_budgeting c then [''energy_max''] else []) @
     (if disks_scaled c then [''hdd_disks'', ''hdd_disks_path_list'', ''ssd_disks'', ''ssd_disks_path_list'', ''create_lvm'', ''lvm_path'']
      else []) @ [''number_of_containers'']"
  by (simp add: visible_def AddHostForm_def shown_def hidden_def on_condition_def)

lemma host_names: "form_names (AddHostForm c) = [''save'', ''csrfmiddlewaretoken'', ''operation'', ''structure_type''] @ visible (AddHostForm c)"
  by (simp add: form_names_def visible_def AddHostForm_def shown_def hidden_def on_condition_def)

lemma host_integer:
  assumes "submitted_by (AddHostForm c) p" "n \<in> set (visible (AddHostForm c))"
    and "fd_kind (field_of (AddHostForm c) n) = Integer" "fd_required (field_of (AddHostForm c) n) \<or> given p n"
  shows "\<exists>x. posted_int p n = Inr x"
proof -
  from assms(2,3) have "integer_sent (AddHostForm c) n" by (simp add: integer_sent_def always_sent_def is_box_def)
  from integer_read [OF assms(1) this assms(4)] show ?thesis by blast
qed

lemma host_disks:
  assumes "submitted_by (AddHostForm c) p" "disks_scaled c"
    and evaluates: "evaluate ''True'' = Inr (JBool True)" "evaluate ''False'' = Inr (JBool False)"
  shows "\<exists>d. posted_disks evaluate p = Inr d"
proof -
  have visible: "n \<in> set (visible (AddHostForm c))" if "n \<in> {''hdd_disks'', ''ssd_disks'', ''create_lvm'', ''lvm_path''}" for n
    using that assms(2) unfolding host_visible by auto
  obtain hdd where hdd: "posted_int p ''hdd_disks'' = Inr hdd"
    using host_integer [OF assms(1) visible, of "''hdd_disks''"] by (simp add: host_fields) blast
  obtain ssd where ssd: "posted_int p ''ssd_disks'' = Inr ssd"
    using host_integer [OF assms(1) visible, of "''ssd_disks''"] by (simp add: host_fields) blast
  have always: "always_sent (AddHostForm c) ''create_lvm''" "always_sent (AddHostForm c) ''lvm_path''"
    using visible by (simp_all add: always_sent_def is_box_def host_fields)
  from assms(1) always(1) obtain v where sent_v: "map_of p ''create_lvm'' = Some [v]"
    and "allowed_value (field_of (AddHostForm c) ''create_lvm'') v" by (rule sent_value)
  then have v: "post_item p ''create_lvm'' = Inr v" "v = ''True'' \<or> v = ''False''"
    by (simp_all add: sent_simps(2) allowed_value_def host_fields true_or_false_def)
  from sent_present [OF assms(1) always(2)] obtain l where l: "post_item p ''lvm_path'' = Inr l" by blast
  from v(2) evaluates obtain b where b: "evaluate v = Inr (JBool b)" by auto
  show ?thesis by (simp add: posted_disks_def rbind_def hdd ssd v(1) l b)
qed

text \<open>A submission of the form that adds a host, with the energy filled in when it is budgeted, is accepted on a platform
  with the configuration the form was laid out for: the task is queued.\<close>

theorem host_form_accepted:
  assumes "submitted_by (AddHostForm c) p" "fg_power_budgeting c \<longrightarrow> given p ''energy_max''"
    and "config_flag E ''disk_capabilities'' = returnM (fg_disk_capabilities c)"
    and "config_flag E ''disk_scaling'' = returnM (fg_disk_scaling c)"
    and "evaluate ''True'' = Inr (JBool True)" "evaluate ''False'' = Inr (JBool False)"
  shows "fst (processAddHost E evaluate p url args w) = Returned (Some [])"
proof -
  have visible: "n \<in> set (visible (AddHostForm c))" if "n \<in> {''number_of_containers'', ''cpu_max'', ''mem_max''}" for n
    using that unfolding host_visible by auto
  obtain n where n: "posted_int p ''number_of_containers'' = Inr n"
    using host_integer [OF assms(1) visible, of "''number_of_containers''"] by (simp add: host_fields) blast
  obtain cpu where cpu: "posted_int p ''cpu_max'' = Inr cpu"
    using host_integer [OF assms(1) visible, of "''cpu_max''"] by (simp add: host_fields) blast
  obtain mem where mem: "posted_int p ''mem_max'' = Inr mem"
    using host_integer [OF assms(1) visible, of "''mem_max''"] by (simp add: host_fields) blast
  have "\<exists>e. (if has_key p ''energy_max'' then rbind (posted_int p ''energy_max'') (\<lambda>x. Inr (JInt x)) else Inr JNull) = Inr e"
  proof (cases "fg_power_budgeting c")
    case True
    then have "''energy_max'' \<in> set (visible (AddHostForm c))" by (simp add: host_visible)
    from host_integer [OF assms(1) this] True assms(2) obtain x where "posted_int p ''energy_max'' = Inr x"
      by (simp add: host_fields) blast
    then show ?thesis by (simp add: rbind_def)
  next
    case False
    then have "''energy_max'' \<notin> set (form_names (AddHostForm c))"
      by (simp add: host_names host_visible)
    with not_sent [OF assms(1)] show ?thesis by simp
  qed
  then obtain e where e: "(if has_key p ''energy_max'' then rbind (posted_int p ''energy_max'') (\<lambda>x. Inr (JInt x)) else Inr JNull) = Inr e"
    by blast
  have "\<exists>d. (if disks_scaled c then posted_disks evaluate p else Inr []) = Inr d"
    using host_disks [OF assms(1) _ assms(5,6)] by simp
  then obtain d where d: "(if disks_scaled c then posted_disks evaluate p else Inr []) = Inr d" by blast
  have scaling: "(if fg_disk_capabilities c then config_flag E ''disk_scaling'' else returnM False) = returnM (disks_scaled c)"
    by (simp add: assms(4) disks_scaled_def)
  show ?thesis
    unfolding processAddHost_def n cpu mem e liftR_def sum.case bindM_simps assms(3) scaling d queued_result ..
qed

definition sample_host :: post where
  "sample_host = typed_values
     [(''operation'', ''add''), (''structure_type'', ''hosts''), (''name'', ''host9''), (''cpu_max'', ''16''), (''mem_max'', ''128''),
      (''hdd_disks'', ''1''), (''hdd_disks_path_list'', ''/data''), (''ssd_disks'', ''0''), (''ssd_disks_path_list'', []),
      (''create_lvm'', ''False''), (''lvm_path'', []), (''number_of_containers'', ''2'')]"

definition disk_env :: env where
  "disk_env = sample_env\<lparr>env_platform := [(''disk_capabilities'', JBool True), (''disk_scaling'', JBool True)]\<rparr>"

definition sample_eval :: "string \<Rightarrow> json result" where
  "sample_eval s = (if s = ''True'' then Inr (JBool True) else if s = ''False'' then Inr (JBool False) else Inl (ValueError s))"

theorem host_form_accepted_witness:
  "fst (processAddHost disk_env sample_eval sample_host ''http://db/structure/''
      \<lparr>oa_structure_name = Some ''host9'', oa_host_list = None, oa_selected = []\<rparr> sample_world) = Returned (Some [])"
proof -
  have "int_of_str ''16'' = Some 16" "int_of_str ''128'' = Some 128" "int_of_str ''1'' = Some 1" "int_of_str ''0'' = Some 0"
    "int_of_str ''2'' = Some 2" by code_simp+
  moreover have "fc_layout (AddHostForm (flags True False False)) = hidden [''operation'', ''structure_type''] @
      shown [''name'', ''cpu_max'', ''mem_max'', ''hdd_disks'', ''hdd_disks_path_list'', ''ssd_disks'', ''ssd_disks_path_list'',
        ''create_lvm'', ''lvm_path'', ''number_of_containers'']"
    by (simp add: AddHostForm_def shown_def on_condition_def)
  ultimately have submitted: "submitted_by (AddHostForm (flags True False False)) sample_host"
    by (simp add: submitted_by_def shown_def hidden_def entry_submitted_def sample_host_def typed_values_def host_fields allowed_value_def
        empty_or_def in_bounds_def is_box_def true_or_false_def keys_of_def host_names host_visible
        positive_integer_def at_least_def a_field_def starting_def)
  have "config_flag disk_env ''disk_capabilities'' = returnM (fg_disk_capabilities (flags True False False))"
    "config_flag disk_env ''disk_scaling'' = returnM (fg_disk_scaling (flags True False False))"
    by (simp_all add: config_flag_def disk_env_def item_def rbind_def liftR_def flags_def)
  with submitted show ?thesis
    by (intro host_form_accepted [of "flags True False False"]) (simp_all add: sample_eval_def flags_def)
qed

section \<open>Services\<close>

text \<open>The request that writes an option, and whether one is made: for an option with multiple choices always, even when
  none is chosen (its value is then the empty list), for another one when its value is not empty.\<close>

definition option_value :: "post \<Rightarrow> string \<Rightarrow> json" where
  "option_value p option =
     (if option \<in> set multiple_choice_fields
      then JArr (map (\<lambda>v. JStr (strip_when (\<lambda>c. c = double_quote) (strip v))) (post_list p option)) else JStr (lower (sent p option)))"

definition option_request :: "env \<Rightarrow> post \<Rightarrow> string \<Rightarrow> string \<Rightarrow> event" where
  "option_request E p service option = Requested ''put'' (env_base_url E @ ''/service/'' @ service @ ''/'' @ to_upper option)
     (Some (JObj [(''value'', option_value p option)]))"

definition option_written :: "post \<Rightarrow> string \<Rightarrow> bool" where
  "option_written p option \<longleftrightarrow> option \<in> set multiple_choice_fields \<or> sent p option \<noteq> []"

lemma put_run:
  assumes "\<And>tr. \<exists>r. env_web E tr = Inr r"
  shows "\<exists>err. put_error E url msg (Some (JObj (kv # d))) w =
     (Returned err, w\<lparr>w_trace := w_trace w @ [Requested ''put'' url (Some (JObj (kv # d)))]\<rparr>)"
proof -
  obtain r where "env_web E (w_trace w @ [Requested ''put'' url (Some (JObj (kv # d)))]) = Inr r" using assms by blast
  then show ?thesis
    by (simp add: put_error_def web_request_def supported_operation_def send_data_def request_def run_simps)
qed

lemma option_run:
  assumes "\<And>tr. \<exists>r. env_web E tr = Inr r" "option \<in> set multiple_choice_fields \<or> (\<exists>v. post_item p option = Inr v)"
  shows "\<exists>err. processServiceConfigPost E p (env_base_url E @ ''/service/'') service option w =
     (Returned err, w\<lparr>w_trace := w_trace w @ (if option_written p option then [option_request E p service option] else [])\<rparr>)"
proof (cases "option \<in> set multiple_choice_fields")
  case True
  then show ?thesis using put_run [OF assms(1)]
    by (simp add: processServiceConfigPost_def option_written_def option_request_def option_value_def Let_def)
next
  case False
  with assms(2) obtain v where v: "post_item p option = Inr v" by blast
  then have "sent p option = v" by (auto simp: sent_def post_get_def has_key_def post_item_def item_def rbind_def split: option.splits)
  with v False put_run [OF assms(1)] show ?thesis
    by (simp add: processServiceConfigPost_def option_written_def option_request_def option_value_def Let_def value_data_def
        liftR_def bindM_simps) (simp add: returnM_def)
qed

definition write_option :: "env \<Rightarrow> post \<Rightarrow> string \<Rightarrow> string \<Rightarrow> string list \<Rightarrow> string list m" where
  "write_option E p service option errors =
     bindM (processServiceConfigPost E p (env_base_url E @ ''/service/'') service option) (\<lambda>error. returnM (add_error error errors))"

lemma options_run:
  assumes "\<And>tr. \<exists>r. env_web E tr = Inr r"
    and "\<forall>option \<in> set opts. option \<in> set multiple_choice_fields \<or> (\<exists>v. post_item p option = Inr v)"
  shows "\<exists>errors'. foldM (write_option E p service) opts errors w =
     (Returned errors', w\<lparr>w_trace := w_trace w @ map (option_request E p service) (filter (option_written p) opts)\<rparr>)"
  using assms(2)
proof (induction opts arbitrary: errors w)
  case (Cons option opts)
  define w1 where "w1 = w\<lparr>w_trace := w_trace w @ (if option_written p option then [option_request E p service option] else [])\<rparr>"
  from option_run [OF assms(1), of option p service w] Cons.prems obtain err where
    "processServiceConfigPost E p (env_base_url E @ ''/service/'') service option w = (Returned err, w1)" unfolding w1_def by auto
  then have step: "write_option E p service option errors w = (Returned (add_error err errors), w1)"
    by (simp add: write_option_def bindM_def returnM_def)
  from Cons.IH [of "add_error err errors" w1] Cons.prems obtain errors' where
    rest: "foldM (write_option E p service) opts (add_error err errors) w1 =
      (Returned errors', w1\<lparr>w_trace := w_trace w1 @ map (option_request E p service) (filter (option_written p) opts)\<rparr>)" by auto
  have "foldM (write_option E p service) (option # opts) errors w = foldM (write_option E p service) opts (add_error err errors) w1"
    by (simp add: bindM_def step)
  with rest show ?case by (simp add: w1_def)
qed (simp add: returnM_def)

definition reads_option :: "form_class \<Rightarrow> string \<Rightarrow> bool" where
  "reads_option F option \<longleftrightarrow> option \<in> set multiple_choice_fields \<or> always_sent F option"

lemma services_read: "list_all (\<lambda>(n, F). n = ''watt_trainer'' \<or> list_all (reads_option F) (get_or services_options n [])) SERVICES_FORMS"
  by code_simp

text \<open>C33: When the database answers every request (with whatever status), a submission of the form of a service, the
  trainer of power models apart, ends without an exception and writes options of that service, each at most once and in
  their order: those with multiple choices always, as the empty list when nothing is chosen, the others when they are not
  left empty.\<close>

theorem service_form_writes_options:
  assumes "(service, F) \<in> set SERVICES_FORMS" "service \<noteq> ''watt_trainer''" "submitted_by F p" "post_item p ''name'' = Inr service"
    and "\<And>tr. \<exists>r. env_web E tr = Inr r"
  shows "\<exists>errors. services_post E p w = (Returned errors, w\<lparr>w_trace := w_trace w @
     map (option_request E p service) (filter (option_written p) (get_or services_options service []))\<rparr>)"
proof -
  from services_read assms(1,2) have "list_all (reads_option F) (get_or services_options service [])"
    by (auto simp: list_all_iff)
  then have "\<forall>option \<in> set (get_or services_options service []).
      option \<in> set multiple_choice_fields \<or> (\<exists>v. post_item p option = Inr v)"
    using sent_present [OF assms(3)] by (auto simp: list_all_iff reads_option_def)
  from options_run [OF assms(5) this, of service "[]" w] obtain errors where
    run: "foldM (write_option E p service) (get_or services_options service []) [] w =
     (Returned errors, w\<lparr>w_trace := w_trace w @ map (option_request E p service) (filter (option_written p) (get_or services_options service []))\<rparr>)"
    by blast
  from assms(4) have "has_key p ''name''" by (auto simp: has_key_def post_item_def item_def rbind_def split: option.splits)
  then have "services_post E p = foldM (write_option E p service) (get_or services_options service []) []"
    by (simp add: services_post_def assms(4) liftR_def write_option_def [abs_def] bindM_return)
  with run show ?thesis by simp
qed

definition sample_service :: post where
  "sample_service = typed_values [(''name'', ''sanity_checker''), (''debug'', ''True''), (''delay'', ''30''), (''save'', ''Save changes'')]"

lemma sanity_checker_form: "map_of SERVICES_FORMS ''sanity_checker'' = Some SanityCheckerForm"
  by (simp add: SERVICES_FORMS_def)

theorem service_form_writes_options_witness:
  "map (\<lambda>ev. case ev of Requested _ url _ \<Rightarrow> url | _ \<Rightarrow> [])
     (drop (length (w_trace sample_world)) (w_trace (snd (services_post sample_env sample_service sample_world)))) =
   map (\<lambda>k. env_base_url sample_env @ ''/service/sanity_checker/'' @ k) [''DEBUG'', ''DELAY'']"
proof -
  have "submitted_by SanityCheckerForm sample_service" by code_simp
  moreover have "post_item sample_service ''name'' = Inr ''sanity_checker''" by code_simp
  moreover have "\<exists>r. env_web sample_env tr = Inr r" for tr by (simp add: sample_env_def)
  ultimately obtain errors where run: "services_post sample_env sample_service sample_world =
     (Returned errors, sample_world\<lparr>w_trace := w_trace sample_world @ map (option_request sample_env sample_service ''sanity_checker'')
       (filter (option_written sample_service) (get_or services_options ''sanity_checker'' []))\<rparr>)"
    using service_form_writes_options [OF map_of_SomeD [OF sanity_checker_form]] by fastforce
  have "filter (option_written sample_service) (get_or services_options ''sanity_checker'' []) = [''debug'', ''delay'']" by code_simp
  moreover have "to_upper ''debug'' = ''DEBUG''" "to_upper ''delay'' = ''DELAY''" by code_simp+
  ultimately show ?thesis by (simp add: run option_request_def)
qed

text \<open>The trainer of power models has an option its form does not show, which every submission empties; of its models only the
  last one that is checked is written, in lower case, and without one the handler raises.\<close>

lemma trainer_metrics_emptied:
  assumes "submitted_by WattTrainerForm p"
  shows "option_written p ''generated_metrics'' \<and> option_value p ''generated_metrics'' = JArr []"
proof -
  have "''generated_metrics'' \<notin> set (form_names WattTrainerForm)" by code_simp
  from not_sent [OF assms this] show ?thesis
    by (simp add: option_written_def option_value_def multiple_choice_fields_def post_list_def get_or_def has_key_def)
qed

lemma trainer_last_model:
  assumes "map_of p ''models_to_train'' = Some (ms @ [m])"
  shows "option_value p ''models_to_train'' = JStr (lower m)"
  using assms by (simp add: option_value_def multiple_choice_fields_def sent_def post_get_def has_key_def post_item_def item_def rbind_def)

lemma trainer_needs_model:
  assumes "\<not> has_key p ''models_to_train''"
  shows "processServiceConfigPost E p url service ''models_to_train'' = raiseM (KeyError ''models_to_train'')"
proof (rule ext)
  fix w
  show "processServiceConfigPost E p url service ''models_to_train'' w = raiseM (KeyError ''models_to_train'') w"
    using assms by (simp add: processServiceConfigPost_def multiple_choice_fields_def Let_def has_key_def post_item_def item_def rbind_def
        liftR_def bindM_simps) (simp add: raiseM_def)
qed

section \<open>Which handler a submission reaches\<close>

lemma limits_form_dispatch:
  assumes "submitted_by LimitsForm p"
  shows "processResources E p = returnM [] \<and> processOperations p url ops = returnM []"
proof -
  have "''operation'' \<notin> set (form_names LimitsForm)" "''form-TOTAL_FORMS'' \<notin> set (form_names LimitsForm)" by code_simp+
  from not_sent [OF assms this(1)] not_sent [OF assms this(2)] show ?thesis
    by (simp add: processResources_def processOperations_def)
qed

lemma operation_form_dispatch:
  assumes "submitted_by F p" "e \<in> set (fc_layout F)" "le_name e = ''operation''" "le_hidden e"
    and "''form-TOTAL_FORMS'' \<notin> set (form_names F)"
  shows "processResources E p = returnM [] \<and> processLimits E p = returnM []"
proof -
  from assms(1,2) have "entry_submitted F p e" by (auto simp: submitted_by_def list_all_iff)
  with assms(3,4) have "has_key p ''operation''" by (auto simp: entry_submitted_def Let_def has_key_def split: option.splits)
  with not_sent [OF assms(1,5)] show ?thesis by (simp add: processResources_def processLimits_def)
qed

section \<open>The policy of a rule\<close>

text \<open>A browser shows the first choice when the initial value is none of them.  Of the shipped rules that ask for more, the
  one for energy has a policy that is no choice of the form: saving the form replaces it.\<close>

definition policy_offered :: "obj \<Rightarrow> bool" where
  "policy_offered r = (case (map_of r ''rescale_policy'', fd_kind (field_of RuleForm ''rescale_policy'')) of
     (Some (JStr v), Choice cs) \<Rightarrow> v \<in> set (map fst cs) | _ \<Rightarrow> False)"

lemma shipped_policies:
  "list_all policy_offered [CpuRescaleUp, MemRescaleUp, Disk_readRescaleUp, Disk_writeRescaleUp]" "\<not> policy_offered EnergyRescaleUp"
  by code_simp+

end
