(* ===== verification/PowerMeters.thy ===== *)
theory PowerMeters
  imports Requests
begin

text \<open>
  The power meters of a platform with a power budget, \<open>templates/power_budgeting/monitoring\<close>: the handlers of SmartWatts
  (\<open>hwpc_report.py\<close>, and \<open>hwpc_report_rapl.py\<close> without a model), the handler of SelfWatts and its controller, which
  replace files of PowerAPI.  The classes they are built upon (reports, power models, topology, the sensor) are not under
  \<open>src\<close>: the operations of a power model and of a formula are records of functions the definitions take.
\<close>

section \<open>Reports\<close>

text \<open>The counters of a report: by group, socket and CPU.  The timestamp of a tick is a number.\<close>

type_synonym counters = "rat dict"

record hwpc_report =
  hr_timestamp :: rat
  hr_target :: string
  hr_groups :: "counters dict dict dict"
  hr_metadata :: obj

record power_report =
  pr_timestamp :: rat
  pr_sensor :: string
  pr_target :: string
  pr_socket :: "int option"             \<comment> \<open>of SelfWatts; SmartWatts has it in the metadata\<close>
  pr_power :: rat
  pr_metadata :: obj

datatype report =
    Power_Report power_report
  | Formula_Report rat string string obj             \<comment> \<open>timestamp, sensor, formula, metadata\<close>
  | Control_Report rat string string string "string list"

datatype report_type = Power_Type | Formula_Type | Control_Type

fun type_of_report :: "report \<Rightarrow> report_type" where
  "type_of_report (Power_Report r) = Power_Type"
| "type_of_report (Formula_Report _ _ _ _) = Formula_Type"
| "type_of_report (Control_Report _ _ _ _ _) = Control_Type"

section \<open>The window of ticks\<close>

text \<open>The ticks in the order in which their first report arrived, each with the reports of its targets.\<close>

type_synonym 'r tick = "rat \<times> 'r dict"

fun add_report :: "rat \<Rightarrow> string \<Rightarrow> 'r \<Rightarrow> 'r tick list \<Rightarrow> 'r tick list" where
  "add_report ts target r [] = [(ts, [(target, r)])]"
| "add_report ts target r ((t, rs) # ticks) =
     (if t = ts then (t, AList.update target r rs) # ticks else (t, rs) # add_report ts target r ticks)"

text \<open>The tick that is taken out, when there are more than the window holds.\<close>

definition window_step :: "nat \<Rightarrow> rat \<Rightarrow> string \<Rightarrow> 'r \<Rightarrow> 'r tick list \<Rightarrow> 'r tick option \<times> 'r tick list" where
  "window_step capacity ts target r ticks =
     (let ticks' = add_report ts target r ticks
      in if capacity < length ticks' then (Some (hd ticks'), tl ticks') else (None, ticks'))"

text \<open>
  A run over all reports: the ticks that were taken out, in order, and those that are left.  It is no code of its own but the
  specification of what the handlers of the three meters do with their ticks: the lemmas \<open>handle_window\<close>,
  \<open>handle_rapl_window\<close> and \<open>handle_self_window\<close> show that each holds the ticks of this run, whatever else it does.
\<close>

definition window_run :: "nat \<Rightarrow> (rat \<times> string \<times> 'r) list \<Rightarrow> 'r tick list \<times> 'r tick list" where
  "window_run capacity msgs = fold (\<lambda>(ts, target, r) (taken, ticks).
     (case window_step capacity ts target r ticks of
       (Some t, ticks') \<Rightarrow> (taken @ [t], ticks') | (None, ticks') \<Rightarrow> (taken, ticks'))) msgs ([], [])"

section \<open>Events\<close>

text \<open>\<open>group[k] += v\<close> on a \<open>defaultdict(int)\<close>.\<close>

definition add_event :: "string \<times> rat \<Rightarrow> counters \<Rightarrow> counters" where
  "add_event kv d = AList.update (fst kv) (get_or d (fst kv) 0 + snd kv) d"

definition add_events :: "counters \<Rightarrow> counters \<Rightarrow> counters" where
  "add_events es d = fold add_event es d"

definition without_times :: "counters \<Rightarrow> counters" where
  "without_times = filter (\<lambda>(k, _). \<not> starts_with ''time_'' k)"

definition group_cpus :: "string \<Rightarrow> string \<Rightarrow> hwpc_report \<Rightarrow> counters dict result" where
  "group_cpus grp socket r = rbind (item (hr_groups r) grp) (\<lambda>sockets. item sockets socket)"

definition gen_core_events_group :: "string \<Rightarrow> hwpc_report \<Rightarrow> counters result" where
  "gen_core_events_group socket r =
     rbind (group_cpus ''core'' socket r) (\<lambda>cpus. Inr (fold (\<lambda>(_, es). add_events (without_times es)) cpus []))"

definition gen_agg_core_report_from_running_targets :: "string \<Rightarrow> hwpc_report dict \<Rightarrow> counters result" where
  "gen_agg_core_report_from_running_targets socket reports =
     foldR (\<lambda>(_, r) acc. rbind (gen_core_events_group socket r) (\<lambda>es. Inr (add_events es acc))) reports []"

definition gen_msr_events_group :: "string \<Rightarrow> hwpc_report \<Rightarrow> counters result" where
  "gen_msr_events_group socket r =
     rbind (group_cpus ''msr'' socket r) (\<lambda>cpus.
       let total = fold (\<lambda>(_, es). add_events (without_times es)) cpus [];
           count = fold (\<lambda>(_, es). add_events (map (\<lambda>(k, _). (k, 1)) (without_times es))) cpus []
       in Inr (map (\<lambda>(k, v). (k, v / get_or count k 0)) total))"

text \<open>The energy of the first CPU, a fixed point number with 32 fractional bits, per second.\<close>

definition gen_rapl_events_group :: "string \<Rightarrow> rat \<Rightarrow> string \<Rightarrow> hwpc_report \<Rightarrow> rat result" where
  "gen_rapl_events_group rapl_event reports_frequency socket r =
     rbind (group_cpus ''rapl'' socket r) (\<lambda>cpus.
       case cpus of
         [] \<Rightarrow> Inl (PyException ''StopIteration'')
       | (_, es) # _ \<Rightarrow> rbind (item es rapl_event) (\<lambda>v.
           if reports_frequency = 0 then Inl ZeroDivisionError else Inr (v / 2 ^ 32 / (reports_frequency / 1000))))"

text \<open>\<open>[value for _, value in sorted(events.items())]\<close>\<close>

definition extract_events_value :: "counters \<Rightarrow> rat list" where
  "extract_events_value es = map snd (sort_key fst es)"

section \<open>SmartWatts\<close>

record meter_config =
  mc_scope :: string
  mc_sensor :: string
  mc_socket :: string
  mc_rapl_event :: string
  mc_reports_frequency :: rat
  mc_error_threshold :: rat
  mc_error_window_method :: string
  mc_base_frequency :: rat
  mc_tdp :: rat

definition meter_hostname :: "meter_config \<Rightarrow> string" where
  "meter_hostname c = drop 7 (mc_sensor c)"

text \<open>A prediction needs a model that was fitted, and events that match it.\<close>

datatype prediction = Predicted rat | Not_Fitted | Prediction_Failed exn

record 'l layer_ops =
  lo_new :: "int \<Rightarrow> 'l"
  lo_predict :: "'l \<Rightarrow> rat list \<Rightarrow> prediction"
  lo_cap :: "'l \<Rightarrow> rat \<Rightarrow> rat \<Rightarrow> rat \<times> rat"
  lo_store_sample :: "rat \<Rightarrow> rat list \<Rightarrow> 'l \<Rightarrow> 'l"
  lo_store_error :: "rat \<Rightarrow> 'l \<Rightarrow> 'l"
  lo_error :: "string \<Rightarrow> 'l \<Rightarrow> rat"
  lo_update :: "rat \<Rightarrow> rat \<Rightarrow> 'l \<Rightarrow> 'l"
  lo_hash :: "'l \<Rightarrow> string"
  lo_frequency :: "'l \<Rightarrow> json"
  lo_samples :: "'l \<Rightarrow> nat"
  lo_id :: "'l \<Rightarrow> json"
  lo_intercept :: "'l \<Rightarrow> json"
  lo_coef :: "'l \<Rightarrow> string"

definition generate_frequency_layers :: "'l layer_ops \<Rightarrow> int list \<Rightarrow> (int \<times> 'l) list" where
  "generate_frequency_layers ops fs = fold (\<lambda>f. AList.update f (lo_new ops f)) fs []"

text \<open>\<open>max\<close> of nothing raises.\<close>

definition get_nearest_frequency :: "(int \<times> 'l) list \<Rightarrow> int \<Rightarrow> int result" where
  "get_nearest_frequency layers frequency =
     (case filter (\<lambda>f. f \<le> frequency) (map fst layers) of
        [] \<Rightarrow> Inl (ValueError ''max() arg is an empty sequence'') | f # fs \<Rightarrow> Inr (fold max fs f))"

definition compute_avg_pkg_frequency :: "meter_config \<Rightarrow> counters \<Rightarrow> int result" where
  "compute_avg_pkg_frequency c msr =
     rbind (item msr ''APERF'') (\<lambda>a. rbind (item msr ''MPERF'') (\<lambda>m.
       if m = 0 then Inl ZeroDivisionError else Inr (py_int (mc_base_frequency c * a / m))))"

definition gen_power_report :: "meter_config \<Rightarrow> rat \<Rightarrow> string \<Rightarrow> string \<Rightarrow> rat \<Rightarrow> rat \<Rightarrow> obj \<Rightarrow> power_report" where
  "gen_power_report c ts target formula watts ratio metadata =
     \<lparr>pr_timestamp = ts, pr_sensor = mc_sensor c, pr_target = target, pr_socket = None, pr_power = watts,
      pr_metadata = dict_update metadata [(''scope'', JStr (mc_scope c)), (''socket'', JStr (mc_socket c)), (''formula'', JStr formula),
        (''ratio'', JNum ratio)]\<rparr>"

definition gen_formula_report :: "meter_config \<Rightarrow> 'l layer_ops \<Rightarrow> rat \<Rightarrow> int \<Rightarrow> 'l \<Rightarrow> rat \<Rightarrow> report" where
  "gen_formula_report c ops ts pkg_frequency layer err =
     Formula_Report ts (mc_sensor c) (lo_hash ops layer)
       [(''scope'', JStr (mc_scope c)), (''socket'', JStr (mc_socket c)), (''layer_frequency'', lo_frequency ops layer),
        (''pkg_frequency'', JInt pkg_frequency), (''samples'', JNum (of_nat (lo_samples ops layer))), (''id'', lo_id ops layer),
        (''error'', JNum err), (''intercept'', lo_intercept ops layer), (''coef'', JStr (lo_coef ops layer))]"

text \<open>The layers of the frequencies are the models that change.\<close>

definition set_layer :: "int \<Rightarrow> 'l \<Rightarrow> (int \<times> 'l) list \<Rightarrow> (int \<times> 'l) list" where
  "set_layer f l layers = map (\<lambda>(k, x). (k, if k = f then l else x)) layers"

definition layer_at :: "int \<Rightarrow> (int \<times> 'l) list \<Rightarrow> 'l option" where
  "layer_at f layers = map_of layers f"

text \<open>The report of the package, and those of the targets.\<close>

definition rapl_report :: "meter_config \<Rightarrow> rat \<Rightarrow> rat \<Rightarrow> obj \<Rightarrow> report" where
  "rapl_report c ts rapl_power metadata =
     Power_Report (gen_power_report c ts (meter_hostname c @ ''-rapl'') (mc_rapl_event c) rapl_power 1 metadata)"

definition predict :: "'l layer_ops \<Rightarrow> 'l \<Rightarrow> counters \<Rightarrow> rat option result" where
  "predict ops layer es = (case lo_predict ops layer (extract_events_value es) of
     Predicted x \<Rightarrow> Inr (Some x) | Not_Fitted \<Rightarrow> Inr None | Prediction_Failed e \<Rightarrow> Inl e)"

text \<open>A model that is fitted for all targets together is for each of them.\<close>

definition target_report :: "meter_config \<Rightarrow> 'l layer_ops \<Rightarrow> rat \<Rightarrow> 'l \<Rightarrow> rat \<Rightarrow> string \<times> hwpc_report \<Rightarrow> report result" where
  "target_report c ops ts layer global_power tr =
     rbind (gen_core_events_group (mc_socket c) (snd tr)) (\<lambda>core.
     rbind (predict ops layer core) (\<lambda>p. case p of
       None \<Rightarrow> Inl (PyException ''NotFittedError'')
     | Some raw \<Rightarrow> (case lo_cap ops layer raw global_power of (watts, ratio) \<Rightarrow>
         Inr (Power_Report (gen_power_report c ts (fst tr) (lo_hash ops layer) watts ratio (hr_metadata (snd tr)))))))"

text \<open>What the model learns from a tick it could estimate.\<close>

definition learn_tick :: "meter_config \<Rightarrow> 'l layer_ops \<Rightarrow> rat \<Rightarrow> rat \<Rightarrow> counters \<Rightarrow> 'l \<Rightarrow> 'l" where
  "learn_tick c ops rapl_power err core layer =
     (let l = lo_store_error ops err (lo_store_sample ops rapl_power (extract_events_value core) layer)
      in if mc_error_threshold c < lo_error ops (mc_error_window_method c) l then lo_update ops 0 (mc_tdp c) l else l)"

definition estimate_tick ::
  "meter_config \<Rightarrow> 'l layer_ops \<Rightarrow> rat \<Rightarrow> hwpc_report \<Rightarrow> hwpc_report dict \<Rightarrow> rat \<Rightarrow> counters \<Rightarrow> int \<Rightarrow> 'l \<Rightarrow> (report list \<times> 'l) result" where
  "estimate_tick c ops ts global_report targets rapl_power core pkg_frequency layer =
     (let rapl = rapl_report c ts rapl_power (hr_metadata global_report)
      in rbind (predict ops layer core) (\<lambda>p. case p of
        None \<Rightarrow> Inr ([rapl], lo_update ops 0 (mc_tdp c) (lo_store_sample ops rapl_power (extract_events_value core) layer))
      | Some global_power \<Rightarrow>
          rbind (mapR (target_report c ops ts layer global_power) targets) (\<lambda>reports.
          let err = \<bar>rapl_power - global_power\<bar>; l = learn_tick c ops rapl_power err core layer;
              global = Power_Report (gen_power_report c ts (meter_hostname c @ ''-global'') (lo_hash ops layer) global_power 1
                         (hr_metadata global_report))
          in Inr ([rapl, global] @ reports @ [gen_formula_report c ops ts pkg_frequency l err], l))))"

text \<open>The reports of a tick, and the layers after it.  Without the report of the whole system, or without targets, there are
  none; with an invalid frequency only the power of the package is reported.\<close>

definition process_tick ::
  "meter_config \<Rightarrow> 'l layer_ops \<Rightarrow> hwpc_report tick \<Rightarrow> (int \<times> 'l) list \<Rightarrow> (report list \<times> (int \<times> 'l) list) result" where
  "process_tick c ops tick layers =
     (let ts = fst tick; targets = pop_key ''all'' (snd tick)
      in case map_of (snd tick) ''all'' of
           None \<Rightarrow> Inr ([], layers)
         | Some global_report \<Rightarrow>
             if targets = [] then Inr ([], layers)
             else rbind (gen_rapl_events_group (mc_rapl_event c) (mc_reports_frequency c) (mc_socket c) global_report) (\<lambda>rapl_power.
               rbind (gen_msr_events_group (mc_socket c) global_report) (\<lambda>msr.
               rbind (gen_agg_core_report_from_running_targets (mc_socket c) targets) (\<lambda>core.
               case compute_avg_pkg_frequency c msr of
                 Inl ZeroDivisionError \<Rightarrow> Inr ([rapl_report c ts rapl_power (hr_metadata global_report)], layers)
               | Inl e \<Rightarrow> Inl e
               | Inr pkg_frequency \<Rightarrow> rbind (get_nearest_frequency layers pkg_frequency) (\<lambda>f. case layer_at f layers of
                   None \<Rightarrow> Inl (AttributeError ''model'')
                 | Some layer \<Rightarrow>
                     rbind (estimate_tick c ops ts global_report targets rapl_power core pkg_frequency layer) (\<lambda>(reports, layer').
                     Inr (reports, set_layer f layer' layers)))))))"

text \<open>Without a model every target is reported with the power of the package.\<close>

definition process_tick_rapl :: "meter_config \<Rightarrow> hwpc_report tick \<Rightarrow> report list result" where
  "process_tick_rapl c tick =
     (let ts = fst tick; targets = pop_key ''all'' (snd tick)
      in case map_of (snd tick) ''all'' of
           None \<Rightarrow> Inr []
         | Some global_report \<Rightarrow>
             if targets = [] then Inr []
             else rbind (gen_rapl_events_group (mc_rapl_event c) (mc_reports_frequency c) (mc_socket c) global_report) (\<lambda>rapl_power.
               Inr (rapl_report c ts rapl_power (hr_metadata global_report) #
                 map (\<lambda>(n, r). Power_Report (gen_power_report c ts n (mc_rapl_event c) rapl_power 1 (hr_metadata r))) targets)))"

text \<open>Every report goes to the pushers of its type.\<close>

definition push :: "report_type dict \<Rightarrow> report list \<Rightarrow> (string \<times> report) list" where
  "push pushers reports =
     concat (map (\<lambda>r. concat (map (\<lambda>(n, t). if t = type_of_report r then [(n, r)] else []) pushers)) reports)"

text \<open>The handler waits until there are more than five ticks.  A tick is taken out of the window before it is processed, so
  an exception loses it.\<close>

record 'l meter =
  me_ticks :: "hwpc_report tick list"
  me_layers :: "(int \<times> 'l) list"

definition handle :: "meter_config \<Rightarrow> 'l layer_ops \<Rightarrow> report_type dict \<Rightarrow> hwpc_report \<Rightarrow> 'l meter \<Rightarrow> (string \<times> report) list result \<times> 'l meter" where
  "handle c ops pushers msg s =
     (case window_step 5 (hr_timestamp msg) (hr_target msg) msg (me_ticks s) of
        (None, ticks) \<Rightarrow> (Inr [], s\<lparr>me_ticks := ticks\<rparr>)
      | (Some tick, ticks) \<Rightarrow>
          (case process_tick c ops tick (me_layers s) of
             Inl e \<Rightarrow> (Inl e, s\<lparr>me_ticks := ticks\<rparr>)
           | Inr (reports, layers) \<Rightarrow> (Inr (push pushers reports), \<lparr>me_ticks = ticks, me_layers = layers\<rparr>)))"

definition handle_rapl :: "meter_config \<Rightarrow> report_type dict \<Rightarrow> hwpc_report \<Rightarrow> hwpc_report tick list \<Rightarrow>
    (string \<times> report) list result \<times> hwpc_report tick list" where
  "handle_rapl c pushers msg ticks =
     (case window_step 5 (hr_timestamp msg) (hr_target msg) msg ticks of
        (None, ticks') \<Rightarrow> (Inr [], ticks')
      | (Some tick, ticks') \<Rightarrow> (rbind (process_tick_rapl c tick) (\<lambda>reports. Inr (push pushers reports)), ticks'))"

section \<open>SelfWatts\<close>

text \<open>The formula holds a model for each frequency layer.  The last function is the mask of relevant events.\<close>

record 'f formula_ops =
  fo_layer :: "'f \<Rightarrow> counters \<Rightarrow> int result"
  fo_pkg_frequency :: "'f \<Rightarrow> counters \<Rightarrow> rat result"
  fo_flush :: "'f \<Rightarrow> 'f"
  fo_predict :: "'f \<Rightarrow> int \<Rightarrow> counters \<Rightarrow> prediction"
  fo_cap :: "'f \<Rightarrow> int \<Rightarrow> rat \<Rightarrow> rat \<Rightarrow> rat \<times> rat"
  fo_intercept_share :: "'f \<Rightarrow> int \<Rightarrow> rat \<Rightarrow> rat \<Rightarrow> rat"
  fo_store :: "int \<Rightarrow> rat \<Rightarrow> counters \<Rightarrow> 'f \<Rightarrow> 'f"
  fo_learn :: "int \<Rightarrow> nat \<Rightarrow> rat \<Rightarrow> rat \<Rightarrow> 'f \<Rightarrow> 'f"
  fo_hash :: "'f \<Rightarrow> int \<Rightarrow> string"
  fo_samples :: "'f \<Rightarrow> int \<Rightarrow> nat"
  fo_id :: "'f \<Rightarrow> int \<Rightarrow> json"
  fo_intercept :: "'f \<Rightarrow> int \<Rightarrow> json"
  fo_coef :: "'f \<Rightarrow> int \<Rightarrow> json"
  fo_support :: "'f \<Rightarrow> int \<Rightarrow> nat \<Rightarrow> bool list"

record self_config =
  sc_meter :: meter_config
  sc_min_samples :: nat
  sc_history_window :: nat
  sc_fixed_events :: "string list"
  sc_fixed_counters :: nat

definition fixed_events_of :: "string \<Rightarrow> string list" where
  "fixed_events_of text = filter (\<lambda>e. e \<noteq> []) (split_on CHR '','' text)"

text \<open>The counters of a layer start at half the window of the history.\<close>

record 'f self_state =
  ss_ticks :: "hwpc_report tick list"
  ss_formula :: 'f
  ss_core_events :: "string list"
  ss_wait :: "(int \<times> nat) list"
  ss_errors :: "(int \<times> rat list) list"

definition initial_self_state :: "'f \<Rightarrow> 'f self_state" where
  "initial_self_state f = \<lparr>ss_ticks = [], ss_formula = f, ss_core_events = [], ss_wait = [], ss_errors = []\<rparr>"

definition is_master :: "self_config \<Rightarrow> bool" where
  "is_master c \<longleftrightarrow> mc_scope (sc_meter c) = ''cpu'' \<and> mc_socket (sc_meter c) = ''0''"

definition wait_of :: "self_config \<Rightarrow> int \<Rightarrow> 'f self_state \<Rightarrow> nat" where
  "wait_of c f s = (case map_of (ss_wait s) f of Some n \<Rightarrow> n | None \<Rightarrow> sc_history_window c div 2)"

definition errors_of :: "int \<Rightarrow> 'f self_state \<Rightarrow> rat list" where
  "errors_of f s = (case map_of (ss_errors s) f of Some xs \<Rightarrow> xs | None \<Rightarrow> [])"

text \<open>\<open>deque(maxlen=n).append(x)\<close>\<close>

definition deque_append :: "nat \<Rightarrow> rat \<Rightarrow> rat list \<Rightarrow> rat list" where
  "deque_append n x xs = (let ys = xs @ [x] in drop (length ys - n) ys)"

definition median :: "rat list \<Rightarrow> rat" where
  "median xs = (let ys = sort xs; n = length ys
     in if odd n then ys ! (n div 2) else (ys ! (n div 2 - 1) + ys ! (n div 2)) / 2)"

definition self_power_report :: "self_config \<Rightarrow> rat \<Rightarrow> string \<Rightarrow> string \<Rightarrow> rat \<Rightarrow> rat \<Rightarrow> rat \<Rightarrow> report result" where
  "self_power_report c ts target formula raw watts ratio =
     rbind (int_str (mc_socket (sc_meter c))) (\<lambda>socket.
     Inr (Power_Report \<lparr>pr_timestamp = ts, pr_sensor = mc_sensor (sc_meter c), pr_target = target, pr_socket = Some socket, pr_power = watts,
       pr_metadata = [(''scope'', JStr (mc_scope (sc_meter c))), (''formula'', JStr formula), (''ratio'', JNum ratio), (''predict'', JNum raw)]\<rparr>))"

definition self_formula_report :: "self_config \<Rightarrow> 'f formula_ops \<Rightarrow> rat \<Rightarrow> rat \<Rightarrow> int \<Rightarrow> 'f \<Rightarrow> rat \<Rightarrow> string list \<Rightarrow> report" where
  "self_formula_report c ops ts pkg_frequency f formula err events =
     Formula_Report ts (mc_sensor (sc_meter c)) (fo_hash ops formula f)
       [(''scope'', JStr (mc_scope (sc_meter c))), (''socket'', JStr (mc_socket (sc_meter c))), (''layer_frequency'', JInt f),
        (''pkg_frequency'', JNum pkg_frequency), (''samples'', JNum (of_nat (fo_samples ops formula f))), (''id'', fo_id ops formula f),
        (''error'', JNum err), (''intercept'', fo_intercept ops formula f), (''coef'', fo_coef ops formula f),
        (''events'', JArr (map JStr events))]"

definition control_report :: "self_config \<Rightarrow> rat \<Rightarrow> string list \<Rightarrow> report" where
  "control_report c ts events =
     Control_Report ts (mc_sensor (sc_meter c)) ''selfwatts-controller'' ''change-events'' events"

text \<open>The events changed: the models are thrown away.\<close>

definition note_core_events :: "'f formula_ops \<Rightarrow> counters \<Rightarrow> 'f self_state \<Rightarrow> 'f self_state" where
  "note_core_events ops core s =
     (let events = sort (map fst core)
      in if events \<noteq> ss_core_events s then s\<lparr>ss_formula := fo_flush ops (ss_formula s), ss_core_events := events\<rparr> else s)"

definition self_predict :: "'f formula_ops \<Rightarrow> 'f \<Rightarrow> int \<Rightarrow> counters \<Rightarrow> rat option result" where
  "self_predict ops formula f es = (case fo_predict ops formula f es of
     Predicted x \<Rightarrow> Inr (Some x) | Not_Fitted \<Rightarrow> Inr None | Prediction_Failed e \<Rightarrow> Inl e)"

definition self_target :: "self_config \<Rightarrow> 'f formula_ops \<Rightarrow> rat \<Rightarrow> 'f \<Rightarrow> int \<Rightarrow> rat \<Rightarrow> string \<times> hwpc_report \<Rightarrow> (report \<times> rat) result" where
  "self_target c ops ts formula f global_power tr =
     rbind (gen_core_events_group (mc_socket (sc_meter c)) (snd tr)) (\<lambda>core.
     rbind (self_predict ops formula f core) (\<lambda>p. case p of
       None \<Rightarrow> Inl (PyException ''NotFittedError'')
     | Some raw \<Rightarrow> (case fo_cap ops formula f raw global_power of (capped, ratio) \<Rightarrow>
         let watts = fo_intercept_share ops formula f capped ratio
         in rbind (self_power_report c ts (fst tr) (fo_hash ops formula f) raw watts ratio) (\<lambda>r. Inr (r, watts)))))"

text \<open>When the errors of a layer with a full history are too high, the master asks for other events if some are irrelevant,
  at most once in half a window of ticks.\<close>

definition set_wait :: "int \<Rightarrow> nat \<Rightarrow> 'f self_state \<Rightarrow> 'f self_state" where
  "set_wait f n s = s\<lparr>ss_wait := AList.update f n (ss_wait s)\<rparr>"

definition pop_wait :: "int \<Rightarrow> 'f self_state \<Rightarrow> 'f self_state" where
  "pop_wait f s = s\<lparr>ss_wait := AList.delete f (ss_wait s)\<rparr>"

definition check_relevance :: "self_config \<Rightarrow> 'f formula_ops \<Rightarrow> rat \<Rightarrow> int \<Rightarrow> string list \<Rightarrow> 'f self_state \<Rightarrow> report list \<times> 'f self_state" where
  "check_relevance c ops ts f core_events s =
     (if \<not> is_master c \<or> fo_samples ops (ss_formula s) f \<noteq> sc_history_window c then ([], s)
      else if wait_of c f s \<noteq> 0 then ([], set_wait f (wait_of c f s - 1) s)
      else let mask = fo_support ops (ss_formula s) f (sc_fixed_counters c);
               free = filter (\<lambda>e. e \<notin> set (sc_fixed_events c));
               selected = free (map fst (filter snd (zip core_events mask)))
           in if False \<notin> set mask \<or> set (free core_events) = set selected then ([], pop_wait f s)
              else ([control_report c ts selected], set_wait f 0 (s\<lparr>ss_formula := fo_flush ops (ss_formula s)\<rparr>)))"

definition learn_layer :: "self_config \<Rightarrow> 'f formula_ops \<Rightarrow> int \<Rightarrow> 'f self_state \<Rightarrow> 'f self_state" where
  "learn_layer c ops f s = s\<lparr>ss_formula := fo_learn ops f (sc_min_samples c) 0 (mc_tdp (sc_meter c)) (ss_formula s)\<rparr>"

definition judge_model :: "self_config \<Rightarrow> 'f formula_ops \<Rightarrow> rat \<Rightarrow> int \<Rightarrow> string list \<Rightarrow> 'f self_state \<Rightarrow> report list result \<times> 'f self_state" where
  "judge_model c ops ts f core_events s =
     (if errors_of f s = [] then (Inl (PyException ''StatisticsError''), s)
      else if mc_error_threshold (sc_meter c) < median (errors_of f s)
      then (case check_relevance c ops ts f core_events (learn_layer c ops f s) of (control, s') \<Rightarrow> (Inr control, s')) else (Inr [], s))"

definition store_tick :: "self_config \<Rightarrow> 'f formula_ops \<Rightarrow> int \<Rightarrow> rat \<Rightarrow> rat \<Rightarrow> counters \<Rightarrow> 'f self_state \<Rightarrow> 'f self_state" where
  "store_tick c ops f err rapl_power core s =
     s\<lparr>ss_errors := AList.update f (deque_append (sc_history_window c) err (errors_of f s)) (ss_errors s),
       ss_formula := fo_store ops f rapl_power core (ss_formula s)\<rparr>"

text \<open>The reports before the state changes: of the package, with the frequencies and what the model predicts; then of the
  system and the targets.\<close>

definition self_global ::
  "self_config \<Rightarrow> 'f formula_ops \<Rightarrow> rat \<Rightarrow> rat \<Rightarrow> counters \<Rightarrow> counters \<Rightarrow> 'f \<Rightarrow> (report \<times> rat \<times> int \<times> rat option) result" where
  "self_global c ops ts rapl_power msr core formula =
     rbind (self_power_report c ts (meter_hostname (sc_meter c) @ ''-rapl'') (mc_rapl_event (sc_meter c)) 0 rapl_power 1) (\<lambda>rapl.
     rbind (fo_pkg_frequency ops formula msr) (\<lambda>pkg_frequency. rbind (fo_layer ops formula msr) (\<lambda>f.
     rbind (self_predict ops formula f core) (\<lambda>p. Inr (rapl, pkg_frequency, f, p)))))"

definition self_targets ::
  "self_config \<Rightarrow> 'f formula_ops \<Rightarrow> rat \<Rightarrow> hwpc_report dict \<Rightarrow> 'f \<Rightarrow> int \<Rightarrow> rat \<Rightarrow> (report \<times> (report \<times> rat) list) result" where
  "self_targets c ops ts targets formula f global_power =
     rbind (self_power_report c ts (meter_hostname (sc_meter c) @ ''-global'') (fo_hash ops formula f) global_power global_power 1) (\<lambda>global.
     rbind (mapR (self_target c ops ts formula f global_power) targets) (\<lambda>trs. Inr (global, trs)))"

definition self_estimate ::
  "self_config \<Rightarrow> 'f formula_ops \<Rightarrow> rat \<Rightarrow> hwpc_report dict \<Rightarrow> rat \<Rightarrow> counters \<Rightarrow> counters \<Rightarrow> 'f self_state \<Rightarrow> report list result \<times> 'f self_state" where
  "self_estimate c ops ts targets rapl_power msr core s =
     (let formula = ss_formula s
      in case self_global c ops ts rapl_power msr core formula of
           Inl e \<Rightarrow> (Inl e, s)
         | Inr (rapl, pkg_frequency, f, None) \<Rightarrow>
             (Inr [rapl], learn_layer c ops f (s\<lparr>ss_formula := fo_store ops f rapl_power core formula\<rparr>))
         | Inr (rapl, pkg_frequency, f, Some global_power) \<Rightarrow>
             (case self_targets c ops ts targets formula f global_power of
                Inl e \<Rightarrow> (Inl e, s)
              | Inr (global, trs) \<Rightarrow>
                  let err = \<bar>rapl_power - sum_list (map snd trs)\<bar>;
                      s1 = store_tick c ops f err rapl_power core s;
                      formula_report = self_formula_report c ops ts pkg_frequency f (ss_formula s1) err (map fst core)
                  in case judge_model c ops ts f (sort (map fst core)) s1 of
                       (Inl e, s2) \<Rightarrow> (Inl e, s2)
                     | (Inr control, s2) \<Rightarrow> (Inr ([rapl, global] @ map fst trs @ [formula_report] @ control), s2)))"

definition process_self_tick :: "self_config \<Rightarrow> 'f formula_ops \<Rightarrow> hwpc_report tick \<Rightarrow> 'f self_state \<Rightarrow> report list result \<times> 'f self_state" where
  "process_self_tick c ops tick s =
     (let targets = pop_key ''all'' (snd tick); m = sc_meter c
      in case map_of (snd tick) ''all'' of
           None \<Rightarrow> (Inr [], s)
         | Some global_report \<Rightarrow>
             if targets = [] then (Inr [], s)
             else case rbind (gen_rapl_events_group (mc_rapl_event m) (mc_reports_frequency m) (mc_socket m) global_report) (\<lambda>rapl_power.
                 rbind (gen_msr_events_group (mc_socket m) global_report) (\<lambda>msr.
                 rbind (gen_agg_core_report_from_running_targets (mc_socket m) targets) (\<lambda>core. Inr (rapl_power, msr, core)))) of
               Inl e \<Rightarrow> (Inl e, s)
             | Inr (rapl_power, msr, core) \<Rightarrow>
                 self_estimate c ops (fst tick) targets rapl_power msr core (note_core_events ops core s))"

definition handle_self :: "self_config \<Rightarrow> 'f formula_ops \<Rightarrow> report_type dict \<Rightarrow> hwpc_report \<Rightarrow> 'f self_state \<Rightarrow>
    (string \<times> report) list result \<times> 'f self_state" where
  "handle_self c ops pushers msg s =
     (case window_step 2 (hr_timestamp msg) (hr_target msg) msg (ss_ticks s) of
        (None, ticks) \<Rightarrow> (Inr [], s\<lparr>ss_ticks := ticks\<rparr>)
      | (Some tick, ticks) \<Rightarrow>
          (case process_self_tick c ops tick (s\<lparr>ss_ticks := ticks\<rparr>) of
             (Inl e, s') \<Rightarrow> (Inl e, s') | (Inr reports, s') \<Rightarrow> (Inr (push pushers reports), s')))"

section \<open>The controller of SelfWatts\<close>

definition event_excluded :: "string \<Rightarrow> bool" where
  "event_excluded e \<longleftrightarrow> contains ''OFFCORE_RESPONSE'' e \<or> contains ''UOPS_DISPATCHED_PORT'' e"

text \<open>\<open>order\<close> stands for \<open>shuffle\<close>.\<close>

definition get_available_events :: "(string list \<Rightarrow> string list) \<Rightarrow> string list \<Rightarrow> string list \<Rightarrow> string list" where
  "get_available_events order fixed_events all_events = order (filter (\<lambda>e. \<not> event_excluded e \<and> e \<notin> set fixed_events) all_events)"

text \<open>The events to watch and the available events that are left; \<open>pop\<close> takes from the end, \<open>insert(0)\<close> reverses.\<close>

definition generate_events_list :: "nat \<Rightarrow> string list \<Rightarrow> string list \<Rightarrow> string option list \<Rightarrow> string list \<times> string list" where
  "generate_events_list general_counters fixed_events available selected =
     (let slots = int general_counters - int (count_list selected None);
          events = map the (filter (\<lambda>e. e \<noteq> None) selected);
          wanted = nat (slots - int (length events));
          popped = take wanted (rev available)
      in (rev fixed_events @ events @ popped, rev (drop wanted (rev available))))"

text \<open>The command that runs the sensor.\<close>

definition generate_cmdline :: "string \<Rightarrow> string \<Rightarrow> string \<Rightarrow> string \<Rightarrow> string \<Rightarrow> string list \<Rightarrow> string list" where
  "generate_cmdline hostname frequency uri database hwpc_collection events =
     [''/usr/bin/hwpc-sensor'', ''-p'', ''/sys/fs/cgroup/perf_event'', ''-n'', hostname, ''-f'', frequency,
      ''-r'', ''mongodb'', ''-U'', uri, ''-D'', database, ''-C'', hwpc_collection,
      ''-s'', ''rapl'', ''-e'', ''RAPL_ENERGY_PKG'', ''-s'', ''msr'', ''-e'', ''TSC'', ''-e'', ''APERF'', ''-e'', ''MPERF'',
      ''-c'', ''core''] @ concat (map (\<lambda>e. [''-e'', e]) events)"

record controller =
  co_available :: "string list"
  co_current :: "string list"
  co_running :: "string list option"        \<comment> \<open>the events of the sensor's process\<close>

definition sensor_start :: "string list \<Rightarrow> controller \<Rightarrow> controller" where
  "sensor_start events s = (if events \<noteq> [] then s\<lparr>co_running := Some events\<rparr> else s)"

definition sensor_stop :: "controller \<Rightarrow> controller" where
  "sensor_stop s = s\<lparr>co_running := None\<rparr>"

definition start_controller :: "nat \<Rightarrow> string list \<Rightarrow> string list \<Rightarrow> controller" where
  "start_controller general_counters fixed_events available =
     (case generate_events_list general_counters fixed_events available [] of (events, rest) \<Rightarrow>
        sensor_start events \<lparr>co_available = rest, co_current = events, co_running = None\<rparr>)"

definition handle_control_event :: "nat \<Rightarrow> string list \<Rightarrow> string option list \<Rightarrow> controller \<Rightarrow> controller" where
  "handle_control_event general_counters fixed_events selected s =
     (case generate_events_list general_counters fixed_events (co_available s) selected of (events, rest) \<Rightarrow>
        let s1 = s\<lparr>co_available := rest\<rparr>
        in if set (co_current s) \<noteq> set events then (sensor_start events (sensor_stop s1))\<lparr>co_current := events\<rparr> else s1)"

section \<open>The points of the database\<close>

text \<open>What \<open>save\<close> sends of a report to OpenTSDB: the power, the host and the socket.\<close>

record point =
  po_metric :: string
  po_value :: rat
  po_time :: int
  po_host :: string
  po_socket :: json

definition smartwatts_point :: "string \<Rightarrow> power_report \<Rightarrow> point" where
  "smartwatts_point name r = \<lparr>po_metric = name, po_value = pr_power r, po_time = py_int (pr_timestamp r), po_host = pr_target r,
     po_socket = get_or (pr_metadata r) ''socket'' (JInt 0)\<rparr>"

definition selfwatts_point :: "string \<Rightarrow> power_report \<Rightarrow> point" where
  "selfwatts_point name r = \<lparr>po_metric = name, po_value = pr_power r, po_time = py_int (pr_timestamp r), po_host = pr_target r,
     po_socket = (case pr_socket r of Some n \<Rightarrow> JInt n | None \<Rightarrow> JNull)\<rparr>"

section \<open>No report is lost\<close>

lemma add_report_length: "length (add_report ts target r ticks) \<le> Suc (length ticks)"
  by (induction ts target r ticks rule: add_report.induct) auto

lemma add_report_nonempty: "add_report ts target r ticks \<noteq> []"
  by (cases "(ts, target, r, ticks)" rule: add_report.cases) auto

lemma add_report_times: "set (map fst (add_report ts target r ticks)) = insert ts (set (map fst ticks))"
  by (induction ts target r ticks rule: add_report.induct) auto

lemma add_report_distinct: "distinct (map fst ticks) \<Longrightarrow> distinct (map fst (add_report ts target r ticks))"
proof (induction ticks)
  case (Cons t ticks)
  then show ?case using add_report_times [of ts target r ticks] by (cases t) auto
qed simp

text \<open>A tick in which a target has a report.\<close>

definition reported :: "rat \<Rightarrow> string \<Rightarrow> 'r \<Rightarrow> 'r tick list \<Rightarrow> bool" where
  "reported ts target r ticks \<longleftrightarrow> (\<exists>rs. (ts, rs) \<in> set ticks \<and> map_of rs target = Some r)"

lemma reported_append: "reported ts target r (xs @ ys) \<longleftrightarrow> reported ts target r xs \<or> reported ts target r ys"
  by (auto simp: reported_def)

lemma reported_Cons:
  "reported ts target r ((t, rs) # ticks) \<longleftrightarrow> t = ts \<and> map_of rs target = Some r \<or> reported ts target r ticks"
  by (auto simp: reported_def)

lemma add_report_new: "reported ts target r (add_report ts target r ticks)"
  by (induction ts target r ticks rule: add_report.induct) (auto simp: reported_Cons)

lemma add_report_old:
  "reported ts' target' r' ticks \<Longrightarrow> (ts', target') \<noteq> (ts, target) \<Longrightarrow> reported ts' target' r' (add_report ts target r ticks)"
  by (induction ts target r ticks rule: add_report.induct) (auto simp: reported_Cons)

lemma window_step_cases:
  obtains (kept) "window_step n ts target r ticks = (None, add_report ts target r ticks)" "length (add_report ts target r ticks) \<le> n"
  | (taken) t ticks' where "window_step n ts target r ticks = (Some t, ticks')" "add_report ts target r ticks = t # ticks'"
      "n < length (add_report ts target r ticks)"
proof (cases "n < length (add_report ts target r ticks)")
  case True
  with add_report_nonempty [of ts target r ticks] show ?thesis
    by (cases "add_report ts target r ticks") (auto intro: taken simp: window_step_def Let_def)
next
  case False
  then show ?thesis by (intro kept) (simp_all add: window_step_def Let_def)
qed

lemma window_run_snoc: "window_run n (msgs @ [(ts, target, r)]) =
    (case window_run n msgs of (taken, ticks) \<Rightarrow> (case window_step n ts target r ticks of
       (Some t, ticks') \<Rightarrow> (taken @ [t], ticks') | (None, ticks') \<Rightarrow> (taken, ticks')))"
  by (simp add: window_run_def split: prod.splits)

definition last_report :: "(rat \<times> string \<times> 'r) list \<Rightarrow> rat \<Rightarrow> string \<Rightarrow> 'r option" where
  "last_report msgs ts target = map_of (rev (map (\<lambda>(ts, target, r). ((ts, target), r)) msgs)) (ts, target)"

lemma window_run_keeps:
  "window_run n msgs = (taken, ticks) \<Longrightarrow>
     length ticks \<le> n \<and> distinct (map fst ticks) \<and>
     (\<forall>ts target r. last_report msgs ts target = Some r \<longrightarrow> reported ts target r (taken @ ticks))"
proof (induction msgs arbitrary: taken ticks rule: rev_induct)
  case Nil
  then show ?case by (auto simp: window_run_def last_report_def)
next
  case (snoc msg msgs)
  obtain ts target r where msg: "msg = (ts, target, r)" by (cases msg)
  obtain taken0 ticks0 where before: "window_run n msgs = (taken0, ticks0)" by (cases "window_run n msgs")
  note IH = snoc.IH [OF before]
  have all: "taken @ ticks = taken0 @ add_report ts target r ticks0"
    and len: "length ticks \<le> n" and dist: "distinct (map fst ticks)"
  proof -
    have "taken @ ticks = taken0 @ add_report ts target r ticks0 \<and> length ticks \<le> n \<and> distinct (map fst ticks)"
    proof (cases rule: window_step_cases [of n ts target r ticks0])
      case kept
      with snoc.prems before IH show ?thesis by (auto simp: msg window_run_snoc add_report_distinct)
    next
      case (taken t ticks')
      then have "distinct (map fst (t # ticks'))" using IH add_report_distinct [of ticks0 ts target r] by simp
      with taken snoc.prems before IH add_report_length [of ts target r ticks0] show ?thesis
        by (auto simp: msg window_run_snoc)
    qed
    then show "taken @ ticks = taken0 @ add_report ts target r ticks0" "length ticks \<le> n" "distinct (map fst ticks)" by auto
  qed
  have "reported ts' target' r' (taken @ ticks)" if "last_report (msgs @ [msg]) ts' target' = Some r'" for ts' target' r'
  proof (cases "(ts', target') = (ts, target)")
    case True
    with that have "r' = r" by (simp add: last_report_def msg)
    with True show ?thesis by (simp add: all reported_append add_report_new)
  next
    case False
    with that have "last_report msgs ts' target' = Some r'" by (auto simp: last_report_def msg)
    with IH have "reported ts' target' r' taken0 \<or> reported ts' target' r' ticks0" by (simp add: reported_append)
    with False show ?thesis by (auto simp: all reported_append add_report_old)
  qed
  with len dist show ?case by blast
qed

text \<open>C34: However the reports of the sensor arrive, the meter never holds more ticks than its window, no two for one time, and
  the last report of a target for a time is in the tick of that time that was taken out or is still held.\<close>

theorem no_report_lost:
  assumes "window_run n msgs = (taken, ticks)" "last_report msgs ts target = Some r"
  shows "length ticks \<le> n \<and> distinct (map fst ticks) \<and> reported ts target r (taken @ ticks)"
  using window_run_keeps [OF assms(1)] assms(2) by blast

theorem no_report_lost_witness:
  "reported 1 ''app'' (30::nat) (fst (window_run 2 [(1, ''all'', 10), (1, ''app'', 20), (2, ''all'', 5), (1, ''app'', 30), (3, ''all'', 7)]))"
proof -
  have run: "window_run 2 [(1, ''all'', 10), (1, ''app'', 20), (2, ''all'', 5), (1, ''app'', 30), (3, ''all'', 7::nat)] =
      ([(1, [(''all'', 10), (''app'', 30)])], [(2, [(''all'', 5)]), (3, [(''all'', 7)])])"
    by (simp add: window_run_def window_step_def Let_def)
  have "last_report [(1, ''all'', 10), (1, ''app'', 20), (2, ''all'', 5), (1, ''app'', 30), (3, ''all'', 7::nat)] 1 ''app'' = Some 30"
    by (simp add: last_report_def)
  from no_report_lost [OF run this] show ?thesis by (simp add: run reported_def)
qed

section \<open>The counters of the system\<close>

definition event_total :: "string \<Rightarrow> counters \<Rightarrow> rat" where
  "event_total k es = sum_list (map snd (filter (\<lambda>kv. fst kv = k) es))"

lemma get_add_event: "get_or (add_event kv d) k 0 = get_or d k 0 + (if fst kv = k then snd kv else 0)"
  by (simp add: add_event_def get_or_def)

lemma get_add_events: "get_or (add_events es d) k 0 = get_or d k 0 + event_total k es"
  by (induction es arbitrary: d) (simp_all add: add_events_def event_total_def get_add_event)

lemma distinct_add_events: "distinct (map fst d) \<Longrightarrow> distinct (map fst (add_events es d))"
  by (induction es arbitrary: d) (simp_all add: add_events_def add_event_def distinct_update)

lemma total_get: "distinct (map fst es) \<Longrightarrow> event_total k es = get_or es k 0"
proof (induction es)
  case (Cons kv es)
  then show ?case
    by (cases kv) (auto simp: event_total_def get_or_def filter_empty_conv map_of_eq_None_iff image_iff split: option.splits
        dest: map_of_SomeD)
qed (simp add: event_total_def get_or_def)

lemma total_without_times: "\<not> starts_with ''time_'' k \<Longrightarrow> event_total k (without_times es) = event_total k es"
  by (auto simp: event_total_def without_times_def intro!: arg_cong [where f = "\<lambda>xs. sum_list (map snd xs)"] filter_cong)

definition cpus_of :: "string \<Rightarrow> hwpc_report \<Rightarrow> counters dict" where
  "cpus_of socket r = (case group_cpus ''core'' socket r of Inr cpus \<Rightarrow> cpus | Inl _ \<Rightarrow> [])"

definition target_total :: "string \<Rightarrow> string \<Rightarrow> hwpc_report \<Rightarrow> rat" where
  "target_total k socket r = sum_list (map (\<lambda>(_, es). event_total k es) (cpus_of socket r))"

lemma fold_cpus:
  assumes "\<not> starts_with ''time_'' k"
  shows "get_or (fold (\<lambda>(_, es). add_events (without_times es)) cpus d) k 0 = get_or d k 0 + sum_list (map (\<lambda>(_, es). event_total k es) cpus)"
    and "distinct (map fst d) \<Longrightarrow> distinct (map fst (fold (\<lambda>(_, es). add_events (without_times es)) cpus d))"
  using assms by (induction cpus arbitrary: d)
    (auto simp: get_add_events total_without_times distinct_add_events)

lemma core_events_total:
  assumes "gen_core_events_group socket r = Inr es" "\<not> starts_with ''time_'' k"
  shows "event_total k es = target_total k socket r"
proof -
  from assms(1) obtain cpus where "group_cpus ''core'' socket r = Inr cpus" "es = fold (\<lambda>(_, es). add_events (without_times es)) cpus []"
    by (auto simp: gen_core_events_group_def rbind_def split: sum.splits)
  with fold_cpus [OF assms(2), where cpus = cpus and d = "[]"] show ?thesis
    by (simp add: total_get target_total_def cpus_of_def get_or_def)
qed

lemma agg_total:
  assumes "\<not> starts_with ''time_'' k"
  shows "foldR (\<lambda>(_, r) acc. rbind (gen_core_events_group socket r) (\<lambda>es. Inr (add_events es acc))) reports acc = Inr agg \<Longrightarrow>
    get_or agg k 0 = get_or acc k 0 + sum_list (map (\<lambda>(_, r). target_total k socket r) reports)"
proof (induction reports arbitrary: acc)
  case (Cons nr reports)
  obtain n r where nr: "nr = (n, r)" by (cases nr)
  with Cons.prems obtain es where es: "gen_core_events_group socket r = Inr es"
    "foldR (\<lambda>(_, r) acc. rbind (gen_core_events_group socket r) (\<lambda>es. Inr (add_events es acc))) reports (add_events es acc) = Inr agg"
    by (auto simp: rbind_def split: sum.splits)
  from Cons.IH [OF es(2)] core_events_total [OF es(1) assms] show ?case by (simp add: nr get_add_events)
qed simp

text \<open>The counters the power of the whole system is estimated from are, event by event, the sums over the CPUs of
  all running targets.\<close>

theorem system_counters_sum:
  assumes "gen_agg_core_report_from_running_targets socket reports = Inr agg" "\<not> starts_with ''time_'' k"
  shows "get_or agg k 0 = sum_list (map (\<lambda>(_, r). target_total k socket r) reports)"
  using agg_total [OF assms(2), of socket reports "[]" agg] assms(1)
  by (simp add: gen_agg_core_report_from_running_targets_def get_or_def)

definition sample_report :: "string \<Rightarrow> rat \<Rightarrow> hwpc_report" where
  "sample_report target x = \<lparr>hr_timestamp = 1, hr_target = target,
     hr_groups = [(''core'', [(''0'', [(''0'', [(''cycles'', x), (''time_enabled'', 5)]), (''1'', [(''cycles'', 2)])])])], hr_metadata = []\<rparr>"

theorem system_counters_sum_witness:
  "gen_agg_core_report_from_running_targets ''0'' [(''a'', sample_report ''a'' 10), (''b'', sample_report ''b'' 20)] = Inr [(''cycles'', 34)] \<and>
   sum_list (map (\<lambda>(_, r). target_total ''cycles'' ''0'' r) [(''a'', sample_report ''a'' 10), (''b'', sample_report ''b'' 20)]) = 34"
proof -
  have agg: "gen_agg_core_report_from_running_targets ''0'' [(''a'', sample_report ''a'' 10), (''b'', sample_report ''b'' 20)] = Inr [(''cycles'', 34)]"
    by code_simp
  have "\<not> starts_with ''time_'' ''cycles''" by code_simp
  from system_counters_sum [OF agg this] agg show ?thesis by (simp add: get_or_def)
qed

section \<open>What a tick reports\<close>

definition power_targets :: "report list \<Rightarrow> string list" where
  "power_targets reports = concat (map (\<lambda>r. case r of Power_Report p \<Rightarrow> [pr_target p] | _ \<Rightarrow> []) reports)"

fun time_of_report :: "report \<Rightarrow> rat" where
  "time_of_report (Power_Report r) = pr_timestamp r"
| "time_of_report (Formula_Report ts _ _ _) = ts"
| "time_of_report (Control_Report ts _ _ _ _) = ts"

lemma power_targets_Nil [simp]: "power_targets [] = []"
  by (simp add: power_targets_def)

lemma power_targets_append [simp]: "power_targets (xs @ ys) = power_targets xs @ power_targets ys"
  by (simp add: power_targets_def)

lemma power_targets_Cons [simp]:
  "power_targets (Power_Report p # rs) = pr_target p # power_targets rs"
  "power_targets (Formula_Report ts n h m # rs) = power_targets rs"
  "power_targets (Control_Report ts n h a es # rs) = power_targets rs"
  by (simp_all add: power_targets_def)

lemma rapl_report_target [simp]:
  "power_targets (rapl_report c ts w m # rs) = (meter_hostname c @ ''-rapl'') # power_targets rs"
  "time_of_report (rapl_report c ts w m) = ts"
  by (simp_all add: rapl_report_def gen_power_report_def)

lemma target_report_shape:
  "target_report c ops ts layer g tr = Inr r \<Longrightarrow> power_targets [r] = [fst tr] \<and> time_of_report r = ts"
  by (auto simp: target_report_def rbind_def gen_power_report_def split: sum.splits option.splits prod.splits)

lemma target_reports_shape:
  "mapR (target_report c ops ts layer g) trs = Inr rs \<Longrightarrow> power_targets rs = map fst trs \<and> (\<forall>r\<in>set rs. time_of_report r = ts)"
proof (induction trs arbitrary: rs)
  case (Cons tr trs)
  then obtain r rs' where rs: "target_report c ops ts layer g tr = Inr r" "mapR (target_report c ops ts layer g) trs = Inr rs'" "rs = r # rs'"
    by (auto simp: rbind_def split: sum.splits)
  with Cons.IH [OF rs(2)] target_report_shape [OF rs(1)] power_targets_append [of "[r]" rs'] show ?case by simp
qed simp

lemma estimate_tick_shape:
  assumes "estimate_tick c ops ts g targets w core f layer = Inr (rs, l)"
  shows "(power_targets rs = [meter_hostname c @ ''-rapl''] \<or>
    power_targets rs = [meter_hostname c @ ''-rapl'', meter_hostname c @ ''-global''] @ map fst targets) \<and> (\<forall>r\<in>set rs. time_of_report r = ts)"
  using assms by (auto simp: estimate_tick_def Let_def rbind_def gen_power_report_def gen_formula_report_def
      dest!: target_reports_shape split: sum.splits option.splits)

text \<open>C35: What a tick reports of SmartWatts carries the time of the tick, and its power reports are none, the package alone, or
  the package, the whole system and every target of the tick, each once and in the order of their arrival: no tick reports some of its
  targets only.\<close>

theorem targets_reported_together:
  assumes "process_tick c ops tick layers = Inr (reports, layers')"
  shows "power_targets reports \<in> {[], [meter_hostname c @ ''-rapl''],
      [meter_hostname c @ ''-rapl'', meter_hostname c @ ''-global''] @ map fst (pop_key ''all'' (snd tick))} \<and>
    (\<forall>r\<in>set reports. time_of_report r = fst tick)"
proof -
  from assms consider "reports = []" | w m where "reports = [rapl_report c (fst tick) w m]"
    | g w core f layer l where "estimate_tick c ops (fst tick) g (pop_key ''all'' (snd tick)) w core f layer = Inr (reports, l)"
    by (auto simp: process_tick_def Let_def rbind_def split: option.splits sum.splits exn.splits if_splits)
  then show ?thesis
  proof cases
    case 3
    from estimate_tick_shape [OF this] show ?thesis by auto
  qed auto
qed

definition sample_ops :: "nat layer_ops" where
  "sample_ops = \<lparr>lo_new = (\<lambda>_. 0), lo_predict = (\<lambda>_ xs. Predicted (sum_list xs)), lo_cap = (\<lambda>_ x g. (min x g, 1)),
     lo_store_sample = (\<lambda>_ _ n. n + 1), lo_store_error = (\<lambda>_ n. n), lo_error = (\<lambda>_ _. 0), lo_update = (\<lambda>_ _ n. n),
     lo_hash = (\<lambda>_. ''h''), lo_frequency = (\<lambda>_. JInt 1000), lo_samples = (\<lambda>n. n), lo_id = (\<lambda>_. JInt 1), lo_intercept = (\<lambda>_. JInt 0),
     lo_coef = (\<lambda>_. [])\<rparr>"

definition sample_config :: meter_config where
  "sample_config = \<lparr>mc_scope = ''cpu'', mc_sensor = ''sensor-h0'', mc_socket = ''0'', mc_rapl_event = ''PKG'', mc_reports_frequency = 1000,
     mc_error_threshold = 2, mc_error_window_method = ''mean'', mc_base_frequency = 2000, mc_tdp = 100\<rparr>"

definition sample_global :: hwpc_report where
  "sample_global = \<lparr>hr_timestamp = 1, hr_target = ''all'', hr_groups = [(''rapl'', [(''0'', [(''0'', [(''PKG'', 2 ^ 33)])])]),
     (''msr'', [(''0'', [(''0'', [(''APERF'', 3), (''MPERF'', 4)])])])], hr_metadata = []\<rparr>"

theorem targets_reported_together_witness:
  "case process_tick sample_config sample_ops (1, [(''a'', sample_report ''a'' 10), (''all'', sample_global), (''b'', sample_report ''b'' 20)])
      [(1000, 0), (3000, 0)] of
     Inr (reports, layers) \<Rightarrow> power_targets reports = [''h0-rapl'', ''h0-global'', ''a'', ''b''] \<and> layers = [(1000, 1), (3000, 0)] \<and>
       (\<forall>r\<in>set reports. time_of_report r = 1)
   | Inl _ \<Rightarrow> False"
proof -
  let ?tick = "(1, [(''a'', sample_report ''a'' 10), (''all'', sample_global), (''b'', sample_report ''b'' 20)])"
  let ?run = "process_tick sample_config sample_ops ?tick [(1000, 0), (3000, 0)]"
  have run: "case ?run of Inr (reports, layers) \<Rightarrow> length reports = 5 \<and> layers = [(1000, 1), (3000, 0)] | Inl _ \<Rightarrow> False" by code_simp
  then obtain reports layers where r: "?run = Inr (reports, layers)" "length reports = 5" "layers = [(1000, 1), (3000, 0)]"
    by (auto split: sum.splits)
  have "case ?run of Inr (reports, layers) \<Rightarrow> power_targets reports = [''h0-rapl'', ''h0-global'', ''a'', ''b''] | Inl _ \<Rightarrow> False" by code_simp
  with targets_reported_together [OF r(1)] r show ?thesis by simp
qed

text \<open>Without a model every target is reported, with the power of the package.\<close>

theorem rapl_reports_all:
  assumes "process_tick_rapl c tick = Inr reports"
  shows "reports = [] \<or> (\<exists>w. power_targets reports = (meter_hostname c @ ''-rapl'') # map fst (pop_key ''all'' (snd tick)) \<and>
    (\<forall>r\<in>set reports. case r of Power_Report p \<Rightarrow> pr_power p = w \<and> pr_timestamp p = fst tick | _ \<Rightarrow> False))"
proof -
  have targets: "power_targets (map (\<lambda>(n, r). Power_Report (gen_power_report c ts n e w 1 (hr_metadata r))) trs) = map fst trs" for ts e w trs
    by (induction trs) (auto simp: gen_power_report_def)
  from assms consider "reports = []" | w m where "reports = rapl_report c (fst tick) w m #
      map (\<lambda>(n, r). Power_Report (gen_power_report c (fst tick) n (mc_rapl_event c) w 1 (hr_metadata r))) (pop_key ''all'' (snd tick))"
    by (auto simp: process_tick_rapl_def Let_def rbind_def split: option.splits sum.splits if_splits)
  then show ?thesis
  proof cases
    case 2
    have "pr_power p = w \<and> pr_timestamp p = fst tick"
      if "Power_Report p \<in> set reports" for p using that by (auto simp: 2 rapl_report_def gen_power_report_def)
    moreover have "\<exists>p. r = Power_Report p" if "r \<in> set reports" for r using that by (auto simp: 2 rapl_report_def)
    ultimately have "case r of Power_Report p \<Rightarrow> pr_power p = w \<and> pr_timestamp p = fst tick | _ \<Rightarrow> False" if "r \<in> set reports" for r
      using that by fastforce
    then show ?thesis by (intro disjI2 exI [of _ w]) (simp add: 2 targets)
  qed simp
qed

section \<open>The memory of SelfWatts\<close>

text \<open>The counters never exceed half the window, no list of errors the window, and at most two ticks wait.\<close>

definition self_bounds :: "self_config \<Rightarrow> 'f self_state \<Rightarrow> bool" where
  "self_bounds c s \<longleftrightarrow> (\<forall>f. wait_of c f s \<le> sc_history_window c div 2) \<and> (\<forall>f. length (errors_of f s) \<le> sc_history_window c) \<and>
     length (ss_ticks s) \<le> 2"

lemma self_bounds_formula [simp]:
  "self_bounds c (s\<lparr>ss_formula := x\<rparr>) = self_bounds c s" "self_bounds c (s\<lparr>ss_core_events := es\<rparr>) = self_bounds c s"
  "self_bounds c (learn_layer c' ops f s) = self_bounds c s" "self_bounds c (note_core_events ops core s) = self_bounds c s"
  by (simp_all add: self_bounds_def wait_of_def errors_of_def learn_layer_def note_core_events_def Let_def)

lemma wait_of_formula [simp]: "wait_of c f (s\<lparr>ss_formula := x\<rparr>) = wait_of c f s"
  by (simp add: wait_of_def)

lemma self_bounds_set_wait: "self_bounds c s \<Longrightarrow> n \<le> sc_history_window c div 2 \<Longrightarrow> self_bounds c (set_wait f n s)"
  by (auto simp: self_bounds_def wait_of_def errors_of_def set_wait_def update_conv')

lemma self_bounds_pop_wait: "self_bounds c s \<Longrightarrow> self_bounds c (pop_wait f s)"
  by (auto simp: self_bounds_def wait_of_def errors_of_def pop_wait_def delete_conv')

lemma check_relevance_bounds: "self_bounds c s \<Longrightarrow> self_bounds c (snd (check_relevance c ops ts f es s))"
  by (auto simp: check_relevance_def Let_def intro!: self_bounds_pop_wait self_bounds_set_wait)
     (auto simp: self_bounds_def intro: le_trans [OF diff_le_self])

lemma store_tick_bounds: "self_bounds c s \<Longrightarrow> self_bounds c (store_tick c ops f err w core s)"
  by (auto simp: self_bounds_def wait_of_def errors_of_def store_tick_def deque_append_def Let_def update_conv')

lemma judge_model_bounds: "self_bounds c s \<Longrightarrow> self_bounds c (snd (judge_model c ops ts f es s))"
  using check_relevance_bounds [of c "learn_layer c ops f s" ops ts f es]
  by (auto simp: judge_model_def split: prod.splits)

lemma self_estimate_bounds:
  assumes "self_bounds c s"
  shows "self_bounds c (snd (self_estimate c ops ts targets w msr core s))"
proof -
  have "self_bounds c (snd (judge_model c ops ts f es (store_tick c ops f err w core s)))" for f es err
    using assms by (intro judge_model_bounds store_tick_bounds)
  from this [of _ "sort (map fst core)"] assms show ?thesis
    by (auto simp: self_estimate_def Let_def split: sum.splits prod.splits option.splits) (metis snd_conv)+
qed

lemma process_self_tick_bounds:
  assumes "self_bounds c s"
  shows "self_bounds c (snd (process_self_tick c ops tick s))"
  using assms by (auto simp: process_self_tick_def Let_def intro!: self_estimate_bounds split: option.splits sum.splits prod.splits)

text \<open>Each handler makes the window steps of \<open>window_run\<close> on its ticks, also when what it does with a tick raises.\<close>

definition sensor_messages :: "hwpc_report list \<Rightarrow> (rat \<times> string \<times> hwpc_report) list" where
  "sensor_messages = map (\<lambda>m. (hr_timestamp m, hr_target m, m))"

lemma window_run_step: "snd (window_run n (sensor_messages (msgs @ [m]))) =
    snd (window_step n (hr_timestamp m) (hr_target m) m (snd (window_run n (sensor_messages msgs))))"
  by (simp add: sensor_messages_def window_run_snoc split: prod.splits option.splits)

lemma handle_window:
  "me_ticks s = [] \<Longrightarrow>
   me_ticks (fold (\<lambda>msg s. snd (handle c ops pushers msg s)) msgs s) = snd (window_run 5 (sensor_messages msgs))"
proof (induction msgs rule: rev_induct)
  case (snoc m msgs)
  then show ?case
    by (subst window_run_step) (auto simp: handle_def split: prod.splits option.splits sum.splits)
qed (simp add: sensor_messages_def window_run_def)

lemma handle_rapl_window:
  "fold (\<lambda>msg ticks. snd (handle_rapl c pushers msg ticks)) msgs [] = snd (window_run 5 (sensor_messages msgs))"
proof (induction msgs rule: rev_induct)
  case (snoc m msgs)
  then show ?case
    by (subst window_run_step) (auto simp: handle_rapl_def split: prod.splits option.splits)
qed (simp add: sensor_messages_def window_run_def)

lemma learn_ticks [simp]:
  "ss_ticks (learn_layer c ops f s) = ss_ticks s" "ss_ticks (store_tick c ops f err p core s) = ss_ticks s"
  "ss_ticks (note_core_events ops core s) = ss_ticks s" "ss_ticks (set_wait f n s) = ss_ticks s" "ss_ticks (pop_wait f s) = ss_ticks s"
  by (simp_all add: learn_layer_def store_tick_def note_core_events_def set_wait_def pop_wait_def Let_def)

lemma relevance_ticks: "check_relevance c ops ts f core s = (reports, s') \<Longrightarrow> ss_ticks s' = ss_ticks s"
  by (auto simp: check_relevance_def Let_def split: if_splits prod.splits)

lemma judge_ticks: "judge_model c ops ts f core s = (r, s') \<Longrightarrow> ss_ticks s' = ss_ticks s"
  by (auto simp: judge_model_def Let_def dest!: relevance_ticks split: if_splits prod.splits sum.splits)

lemma estimate_ticks: "self_estimate c ops ts targets p msr core s = (r, s') \<Longrightarrow> ss_ticks s' = ss_ticks s"
  by (auto simp: self_estimate_def Let_def dest!: judge_ticks split: prod.splits option.splits sum.splits)

lemma self_tick_kept: "process_self_tick c ops tick s = (r, s') \<Longrightarrow> ss_ticks s' = ss_ticks s"
  by (auto simp: process_self_tick_def Let_def dest!: estimate_ticks split: if_splits option.splits sum.splits prod.splits)

lemma handle_self_step:
  "ss_ticks (snd (handle_self c ops pushers m s)) = snd (window_step 2 (hr_timestamp m) (hr_target m) m (ss_ticks s))"
proof (cases "window_step 2 (hr_timestamp m) (hr_target m) m (ss_ticks s)")
  case (Pair t ticks)
  then show ?thesis
    by (cases t) (auto simp: handle_self_def dest!: self_tick_kept split: prod.splits sum.splits)
qed

lemma handle_self_window:
  "ss_ticks (fold (\<lambda>msg s. snd (handle_self c ops pushers msg s)) msgs (initial_self_state f)) =
   snd (window_run 2 (sensor_messages msgs))"
proof (induction msgs rule: rev_induct)
  case (snoc m msgs)
  then show ?case by (subst window_run_step) (simp add: handle_self_step)
qed (simp add: sensor_messages_def window_run_def initial_self_state_def)

text \<open>C36: Whatever reports arrive, and also after an exception, the state of SelfWatts stays bounded: two ticks wait, a layer keeps
  no more errors than its history has, and its counter never exceeds half of that.\<close>

theorem self_state_bounded:
  "self_bounds c (fold (\<lambda>msg s. snd (handle_self c ops pushers msg s)) msgs (initial_self_state f))"
proof -
  have step: "self_bounds c (snd (handle_self c ops pushers msg s))" if s: "self_bounds c s" for msg s
  proof (cases rule: window_step_cases [of 2 "hr_timestamp msg" "hr_target msg" msg "ss_ticks s"])
    case kept
    with s show ?thesis by (simp add: handle_self_def self_bounds_def wait_of_def errors_of_def)
  next
    case (taken t ticks')
    from taken(2) add_report_length [of "hr_timestamp msg" "hr_target msg" msg "ss_ticks s"] s have "length ticks' \<le> 2"
      by (simp add: self_bounds_def)
    with s have "self_bounds c (s\<lparr>ss_ticks := ticks'\<rparr>)" by (simp add: self_bounds_def wait_of_def errors_of_def)
    from process_self_tick_bounds [OF this, of ops t] taken(1) show ?thesis
      by (auto simp: handle_self_def split: prod.splits sum.splits)
  qed
  have "self_bounds c (fold (\<lambda>msg s. snd (handle_self c ops pushers msg s)) msgs s)" if "self_bounds c s" for s :: "'a self_state"
    using that by (induction msgs arbitrary: s) (simp_all add: step)
  moreover have "self_bounds c (initial_self_state f)"
    by (simp add: self_bounds_def initial_self_state_def wait_of_def errors_of_def)
  ultimately show ?thesis by blast
qed

section \<open>The sensor follows the controller\<close>

lemma generated_events:
  assumes "generate_events_list n fixed_events available selected = (events, rest)"
  shows "available = rest @ rev (drop (length fixed_events + length (filter (\<lambda>e. e \<noteq> None) selected)) events)"
    and "set fixed_events \<union> {e. Some e \<in> set selected} \<subseteq> set events"
proof -
  define wanted where "wanted = nat (int n - int (count_list selected None) - int (length (filter (\<lambda>e. e \<noteq> None) selected)))"
  have events: "events = rev fixed_events @ map the (filter (\<lambda>e. e \<noteq> None) selected) @ take wanted (rev available)"
    and rest: "rest = rev (drop wanted (rev available))"
    using assms by (auto simp: generate_events_list_def Let_def wanted_def)
  have "rev available = take wanted (rev available) @ drop wanted (rev available)" by simp
  then have "available = rev (drop wanted (rev available)) @ rev (take wanted (rev available))"
    by (metis rev_append rev_rev_ident)
  then show "available = rest @ rev (drop (length fixed_events + length (filter (\<lambda>e. e \<noteq> None) selected)) events)"
    by (simp add: events rest)
  show "set fixed_events \<union> {e. Some e \<in> set selected} \<subseteq> set events"
    by (auto simp: events image_iff) (metis option.sel)
qed

text \<open>The events the sensor counts are those the controller takes for the current ones.\<close>

definition sensor_follows :: "string list \<Rightarrow> controller \<Rightarrow> bool" where
  "sensor_follows fixed_events s \<longleftrightarrow>
     co_running s = (if co_current s = [] then None else Some (co_current s)) \<and> set fixed_events \<subseteq> set (co_current s)"

theorem sensor_follows_controller:
  "sensor_follows fixed_events (fold (handle_control_event n fixed_events) events (start_controller n fixed_events available))"
proof -
  have step: "sensor_follows fixed_events (handle_control_event n fixed_events selected s)" if "sensor_follows fixed_events s" for selected s
    using that generated_events(2) [of n fixed_events "co_available s" selected]
    by (auto simp: sensor_follows_def handle_control_event_def sensor_start_def sensor_stop_def Let_def split: prod.splits)
  have "sensor_follows fixed_events (start_controller n fixed_events available)"
    using generated_events(2) [of n fixed_events available "[]"]
    by (auto simp: sensor_follows_def start_controller_def sensor_start_def split: prod.splits)
  then show ?thesis by (induction events arbitrary: available rule: rev_induct) (simp_all add: step)
qed

end
