(* ===== verification/Pages.thy ===== *)
theory Pages
  imports FormContracts
begin

text \<open>
  The pages of structures as a browser sees them: the branch of \<open>processStructures\<close> of \<open>ui/views/core/operations.py\<close> that shows
  one, with the form that removes structures (\<open>setRemoveStructureForm\<close> of \<open>ui/views/core/utils.py\<close>).  A page and the
  handler of what is submitted on it agree: the errors of a submission are shown on the page it is redirected to, and the choices
  of the page name to the handler the structures they were made for.
\<close>

section \<open>Showing a page\<close>

text \<open>A choice has a value, printed by Django with \<open>str\<close>, and a label.\<close>

definition structure_choice :: "string \<Rightarrow> obj \<Rightarrow> (string \<times> json) result" where
  "structure_choice form_action s =
     rbind (item s ''name'') (\<lambda>n.
     if form_action = ''containers''
     then rbind (item s ''host'') (\<lambda>h. Inr (''('' @ py_repr n @ '', '' @ py_repr h @ '')'', n))
     else Inr (str_value n, n))"

definition setRemoveStructureForm :: "obj list \<Rightarrow> string \<Rightarrow> (string \<times> json) list result" where
  "setRemoveStructureForm structures form_action = mapR (structure_choice form_action) structures"

text \<open>The pages of structures make a document of each message of the query, the other pages hand its text to the template, which
  shows the \<open>message\<close> of what it gets, and nothing for a text.\<close>

datatype page_notice = Message "string option" string | Raw_Text string

fun alert_text :: "page_notice \<Rightarrow> string" where
  "alert_text (Message _ m) = m"
| "alert_text (Raw_Text _) = []"

definition url_texts :: "string \<Rightarrow> (string \<times> string) list \<Rightarrow> string list" where
  "url_texts k params = map snd (filter (\<lambda>kv. fst kv = k) params)"

definition url_notices :: "string \<Rightarrow> (string \<times> string) list \<Rightarrow> page_notice list" where
  "url_notices k params = map (Message None) (url_texts k params)"

definition task_notices :: "notices \<Rightarrow> page_notice list" where
  "task_notices = map (\<lambda>(i, m). Message (Some i) m)"

record structures_page =
  sp_data :: "obj list"
  sp_errors :: "page_notice list"
  sp_successes :: "page_notice list"
  sp_info :: "page_notice list"
  sp_choices :: "(string \<times> json) list"

definition listed_structures :: "env \<Rightarrow> string \<Rightarrow> json \<Rightarrow> obj list m" where
  "listed_structures E structure_type data =
     (if structure_type = ''users''
      then bindM (db_items E (structures_url E)) (\<lambda>structures. bindM (liftR (data_items data)) (\<lambda>items. getUsers E items structures))
      else bindM (liftR (data_items data)) (\<lambda>items.
           if structure_type = ''hosts'' then getHosts E items
           else if structure_type = ''containers'' then getContainers E True items
           else getApps E items))"

definition show_structures :: "env \<Rightarrow> (string \<times> string) list \<Rightarrow> string \<Rightarrow> structures_page m" where
  "show_structures E params structure_type =
     bindM get_pending_tasks_messages (\<lambda>(still_pending, successful, failed).
     bindM (getDbData E (env_base_url E @ (if structure_type = ''users'' then ''/user/'' else ''/structure/''))) (\<lambda>data.
     bindM (listed_structures E structure_type data) (\<lambda>structures.
     bindM (liftR (setRemoveStructureForm structures structure_type)) (\<lambda>choices.
     returnM \<lparr>sp_data = structures, sp_errors = url_notices ''errors'' params @ task_notices failed,
       sp_successes = url_notices ''success'' params @ task_notices successful, sp_info = task_notices still_pending,
       sp_choices = choices\<rparr>))))"

section \<open>Errors reach the page\<close>

lemma show_structures_notices:
  assumes "show_structures E params kind w = (Returned page, w')"
  shows "\<exists>p s f. fst (get_pending_tasks_messages w) = Returned (p, s, f) \<and> sp_errors page = url_notices ''errors'' params @ task_notices f \<and>
    sp_successes page = url_notices ''success'' params @ task_notices s \<and> sp_info page = task_notices p"
  using assms
  by (auto simp: show_structures_def bindM_def returnM_def split: prod.splits outcome.splits)

lemma url_texts_pairs: "url_texts k (map (Pair k) ms) = ms"
  by (induction ms) (simp_all add: url_texts_def)

text \<open>C39: The pages of the structures (hosts, containers, users and applications) show the errors their submissions end with:
  through the query of the redirect every error arrives, whatever characters it has, first and in their order, followed by the
  tasks that failed; a task that succeeded or is pending is not among them.  (The other pages do not: \<open>service_errors_not_shown\<close>.)\<close>

theorem errors_reach_page:
  assumes "errors \<noteq> []" "show_structures E (query_parameters (redirect_query errors)) kind w = (Returned page, w')"
    and "get_pending_tasks w = (Returned (pending, successful, failed), w'')"
  shows "map alert_text (sp_errors page) = errors @ map failure_message failed \<and>
    map alert_text (sp_successes page) = map success_message successful \<and> map alert_text (sp_info page) = map pending_message pending"
proof -
  have "url_texts ''success'' (map (Pair ''errors'') errors) = []" by (simp add: url_texts_def)
  with show_structures_notices [OF assms(2)] assms(3) redirect_roundtrip [OF assms(1)] show ?thesis
    by (auto simp: get_pending_tasks_messages_def bindM_def returnM_def task_notices_def url_notices_def url_texts_pairs comp_def)
qed

section \<open>The page of the services\<close>

text \<open>The log of the sanity checker; \<open>home\<close> is the expansion of the home directory.\<close>

definition home_lookup :: string where
  "home_lookup = ''{{ lookup('' @ [quote] @ ''env'' @ [quote] @ '', '' @ [quote] @ ''HOME'' @ [quote] @ '') }}''"

definition sanity_log_path :: "string \<Rightarrow> string \<Rightarrow> string" where
  "sanity_log_path home installation_path =
     (if starts_with home_lookup installation_path then replace_all home_lookup home installation_path else installation_path) @
     ''/ServerlessContainers'' @ ''/sanity_checker.log''"

record services_view =
  sv_data :: "(string \<times> service_form) list"
  sv_config_errors :: "string list"
  sv_errors :: "page_notice list"
  sv_successes :: "page_notice list"
  sv_info :: "page_notice list"

text \<open>\<open>read_lines\<close> reads a file, \<open>now\<close> is \<open>time.time()\<close>.\<close>

definition show_services ::
  "env \<Rightarrow> rat \<Rightarrow> (string \<Rightarrow> string list result) \<Rightarrow> string \<Rightarrow> string \<Rightarrow> (string \<times> string) list \<Rightarrow> services_view m" where
  "show_services E now read_lines home installation_path params =
     bindM (fetch E (env_base_url E @ ''/service/'')) (\<lambda>v. bindM (liftR (rbind (data_items v) (mapR jobj))) (\<lambda>data.
     bindM get_pending_tasks_messages (\<lambda>(still_pending, successful, failed).
     bindM (liftR (services_page now data)) (\<lambda>forms.
     bindM (liftR (read_lines (sanity_log_path home installation_path))) (\<lambda>lines.
     returnM \<lparr>sv_data = forms, sv_config_errors = checkInvalidConfig lines,
       sv_errors = map Raw_Text (url_texts ''errors'' params) @ task_notices failed,
       sv_successes = map Raw_Text (url_texts ''success'' params) @ task_notices successful, sv_info = task_notices still_pending\<rparr>)))))"

text \<open>A failed submission on this page is redirected to it with its errors, and shown as that many empty alerts.\<close>

lemma service_errors_not_shown:
  assumes "errors \<noteq> []" "show_services E now read_lines home path (query_parameters (redirect_query errors)) w = (Returned page, w')"
    and "get_pending_tasks w0 = (Returned (pending, successful, failed), w'')"
    and "fetch E (env_base_url E @ ''/service/'') w = (Returned v, w0)"
  shows "map alert_text (sv_errors page) = map (\<lambda>_. []) errors @ map failure_message failed"
  using assms redirect_roundtrip [OF assms(1)]
  by (auto simp: show_services_def get_pending_tasks_messages_def bindM_def returnM_def liftR_def raiseM_def task_notices_def url_texts_pairs comp_def
      split: prod.splits outcome.splits sum.splits)

section \<open>The table of resources\<close>

text \<open>The helper of a table and the place of its submit button, whose name is extended by the name of the structure.\<close>

definition resources_table :: "json \<Rightarrow> form_class \<times> nat" where
  "resources_table subtype =
     (if subtype = JStr ''host'' then (HostResourcesFormSetHelper, 5)
      else if subtype = JStr ''user'' then (UserResourcesFormSetHelper, 6) else (StructureResourcesFormSetHelper, 8))"

text \<open>At another place there is a field, whose name is no button.\<close>

definition setStructureResourcesForm :: "obj \<Rightarrow> string \<Rightarrow> (obj list \<times> form_class \<times> nat) result" where
  "setStructureResourcesForm x form_action =
     rbind (structure_resources_form x) (\<lambda>(initial, editable).
     rbind (item x ''subtype'') (\<lambda>subtype. rbind (rbind (item x ''name'') jstr) (\<lambda>name.
     case resources_table subtype of (helper, submit_button_disp) \<Rightarrow>
       if submit_button_disp \<noteq> length (fc_layout helper) then Inl (AttributeError ''name'')
       else Inr (initial, helper\<lparr>fc_action := Some form_action, fc_submit := fc_submit helper @ name\<rparr>, editable))))"

lemma submit_button_found: "snd (resources_table subtype) = length (fc_layout (fst (resources_table subtype)))"
  by (simp add: resources_table_def HostResourcesFormSetHelper_def UserResourcesFormSetHelper_def StructureResourcesFormSetHelper_def
      shown_def hidden_def readonly_def)

text \<open>What a browser submits of a table: a row of values for each resource, an empty text where nothing was entered.\<close>

definition resources_sent :: "string \<Rightarrow> string \<Rightarrow> (string \<times> string dict) list \<Rightarrow> post \<Rightarrow> bool" where
  "resources_sent structure_type name rows p \<longleftrightarrow>
     post_item p ''form-TOTAL_FORMS'' = Inr (str_of_nat (length rows)) \<and> post_item p ''form-0-operation'' = Inr ''resources'' \<and>
     post_item p ''form-0-name'' = Inr name \<and> post_item p ''form-0-structure_type'' = Inr structure_type \<and>
     list_all (\<lambda>(i, res, vs). post_item p (form_key i ''resource'') = Inr res \<and>
       list_all (\<lambda>fd. post_item p (form_key i fd) = Inr (get_or vs fd [])) (resources_field_list structure_type)) (enumerate 0 rows)"

definition resource_request :: "env \<Rightarrow> string \<Rightarrow> string \<Rightarrow> string \<Rightarrow> string \<times> string \<Rightarrow> event" where
  "resource_request E structure_type name res fv =
     (let base = env_base_url E @ (if structure_type = ''user'' then ''/user/'' else ''/structure/'') @ name @ ''/resources/'' @ res @ ''/''
      in if fst fv = ''guard'' then Requested ''put'' (base @ (if snd fv = ''True'' then ''guard'' else ''unguard'')) None
         else Requested ''put'' (base @ fst fv) (value_data (lower (snd fv))))"

definition entered :: "string \<Rightarrow> string dict \<Rightarrow> (string \<times> string) list" where
  "entered structure_type vs = filter (\<lambda>fv. snd fv \<noteq> []) (map (\<lambda>fd. (fd, get_or vs fd [])) (resources_field_list structure_type))"

lemma put_none_run:
  assumes "\<And>tr. \<exists>r. env_web E tr = Inr r"
  shows "\<exists>err. put_error E url msg None w = (Returned err, w\<lparr>w_trace := w_trace w @ [Requested ''put'' url None]\<rparr>)"
proof -
  obtain r where "env_web E (w_trace w @ [Requested ''put'' url None]) = Inr r" using assms by blast
  then show ?thesis
    by (simp add: put_error_def web_request_def supported_operation_def send_data_def request_def run_simps)
qed

lemma foldM_trace:
  assumes "\<And>x s w. x \<in> set xs \<Longrightarrow> \<exists>s'. f x s w = (Returned s', w\<lparr>w_trace := w_trace w @ g x\<rparr>)"
  shows "\<exists>s'. foldM f xs s w = (Returned s', w\<lparr>w_trace := w_trace w @ concat (map g xs)\<rparr>)"
  using assms
proof (induction xs arbitrary: s w)
  case (Cons x xs)
  from Cons.prems [of x s w] obtain s' where step: "f x s w = (Returned s', w\<lparr>w_trace := w_trace w @ g x\<rparr>)" by auto
  from Cons.IH [of s' "w\<lparr>w_trace := w_trace w @ g x\<rparr>"] Cons.prems show ?case by (auto simp: bindM_def step)
qed (simp add: returnM_def)

lemma resource_field_run:
  assumes "\<And>tr. \<exists>r. env_web E tr = Inr r"
  shows "\<exists>err. processResourcesFields E (env_base_url E @ (if t = ''user'' then ''/user/'' else ''/structure/'')) name res fd v w =
    (Returned err, w\<lparr>w_trace := w_trace w @ [resource_request E t name res (fd, v)]\<rparr>)"
  using put_run [OF assms] put_none_run [OF assms]
  by (simp add: processResourcesFields_def resource_request_def Let_def value_data_def)

text \<open>C37: A table of resources is submitted without an exception when the database answers every request, whatever its status: each value that was entered is written once, to
  its own resource and field of the structure the table belongs to, in the order of the rows, and nothing else is written.\<close>

theorem resources_form_written:
  assumes "resources_sent structure_type name rows p" "rows \<noteq> []" "\<And>tr. \<exists>r. env_web E tr = Inr r"
  shows "\<exists>errors. processResources E p w = (Returned errors, w\<lparr>w_trace := w_trace w @
     concat (map (\<lambda>(res, vs). map (resource_request E structure_type name res) (entered structure_type vs)) rows)\<rparr>)"
proof -
  define url where "url = env_base_url E @ (if structure_type = ''user'' then ''/user/'' else ''/structure/'')"
  define step where "step = (\<lambda>i res fd errors. bindM (liftR (post_item p (form_key i fd))) (\<lambda>v.
     if v = [] then returnM errors else bindM (processResourcesFields E url name res fd v) (\<lambda>error. returnM (add_error error errors))))"
  define row where "row = (\<lambda>i errors. bindM (liftR (post_item p (form_key i ''resource''))) (\<lambda>res.
     foldM (step i res) (resources_field_list structure_type) errors))"
  define requests where "requests = (\<lambda>(res, vs). map (resource_request E structure_type name res) (entered structure_type vs))"
  have row_run: "\<exists>errors'. row i errors w = (Returned errors', w\<lparr>w_trace := w_trace w @ requests (rows ! i)\<rparr>)" if "i < length rows" for i errors w
  proof -
    obtain res vs where r: "rows ! i = (res, vs)" by (cases "rows ! i")
    have "(i, rows ! i) \<in> set (enumerate 0 rows)" using that by (simp add: in_set_enumerate_eq)
    with assms(1) r have sent: "post_item p (form_key i ''resource'') = Inr res"
      "\<And>fd. fd \<in> set (resources_field_list structure_type) \<Longrightarrow> post_item p (form_key i fd) = Inr (get_or vs fd [])"
      by (auto simp: resources_sent_def list_all_iff dest!: bspec)
    let ?g = "\<lambda>fd. if get_or vs fd [] = [] then [] else [resource_request E structure_type name res (fd, get_or vs fd [])]"
    have "\<exists>s'. step i res fd s w = (Returned s', w\<lparr>w_trace := w_trace w @ ?g fd\<rparr>)" if "fd \<in> set (resources_field_list structure_type)" for fd s w
      using sent(2) [OF that] resource_field_run [OF assms(3), of structure_type name res fd "get_or vs fd []" w]
      by (auto simp: step_def url_def liftR_def bindM_def returnM_def)
    then have "\<exists>errors'. foldM (step i res) (resources_field_list structure_type) errors w =
        (Returned errors', w\<lparr>w_trace := w_trace w @ concat (map ?g (resources_field_list structure_type))\<rparr>)" by (rule foldM_trace)
    moreover have "concat (map ?g fds) = map (resource_request E structure_type name res)
        (filter (\<lambda>fv. snd fv \<noteq> []) (map (\<lambda>fd. (fd, get_or vs fd [])) fds))" for fds by (induction fds) auto
    ultimately show ?thesis by (simp add: row_def requests_def r entered_def sent(1) liftR_def bindM_simps)
  qed
  have "\<exists>errors. foldM row [0..<length rows] [] w = (Returned errors, w\<lparr>w_trace := w_trace w @ concat (map (\<lambda>i. requests (rows ! i)) [0..<length rows])\<rparr>)"
    by (rule foldM_trace) (simp add: row_run)
  moreover have "map (\<lambda>i. requests (rows ! i)) [0..<length rows] = map requests rows"
    by (rule nth_equalityI) simp_all
  moreover have "processResources E p = foldM row [0..<length rows] []"
  proof -
    have "int_str (str_of_nat (length rows)) = Inr (int (length rows))" 
      using int_of_str_of_int [of "int (length rows)"] by (simp add: int_str_def str_of_int_def)
    moreover have "has_key p ''form-TOTAL_FORMS''" using assms(1)
      by (auto simp: resources_sent_def has_key_def post_item_def item_def rbind_def split: option.splits)
    ultimately show ?thesis using assms(1,2)
      by (simp add: processResources_def resources_sent_def row_def step_def url_def liftR_def bindM_return Let_def cong: if_cong)
  qed
  ultimately show ?thesis by (simp add: requests_def)
qed

definition sample_table :: post where
  "sample_table = typed_values [(''form-TOTAL_FORMS'', ''2''), (''form-0-operation'', ''resources''), (''form-0-name'', ''h0''),
     (''form-0-structure_type'', ''host''), (''form-0-resource'', ''cpu''), (''form-0-max'', ''800''),
     (''form-1-operation'', ''resources''), (''form-1-name'', ''h0''), (''form-1-structure_type'', ''host''),
     (''form-1-resource'', ''mem''), (''form-1-max'', [])]"

theorem resources_form_written_witness:
  "drop (length (w_trace sample_world)) (w_trace (snd (processResources sample_env sample_table sample_world))) =
     [Requested ''put'' (env_base_url sample_env @ ''/structure/h0/resources/cpu/max'') (Some (JObj [(''value'', JStr ''800'')]))]"
proof -
  let ?rows = "[(''cpu'', [(''max'', ''800'')]), (''mem'', [])]"
  have sent: "resources_sent ''host'' ''h0'' ?rows sample_table" by code_simp
  have web: "\<exists>r. env_web sample_env tr = Inr r" for tr by (simp add: sample_env_def)
  obtain errors where "processResources sample_env sample_table sample_world = (Returned errors, sample_world\<lparr>w_trace := w_trace sample_world @
     concat (map (\<lambda>(res, vs). map (resource_request sample_env ''host'' ''h0'' res) (entered ''host'' vs)) ?rows)\<rparr>)"
    using resources_form_written [OF sent _ web, of sample_world] by auto
  moreover have "entered ''host'' [(''max'', ''800'')] = [(''max'', ''800'')]" "entered ''host'' [] = []" "lower ''800'' = ''800''" by code_simp+
  ultimately show ?thesis by (simp add: resource_request_def value_data_def Let_def)
qed

section \<open>Chosen containers\<close>

definition named_at :: "obj \<Rightarrow> string \<times> string \<Rightarrow> bool" where
  "named_at c k \<longleftrightarrow> item c ''name'' = Inr (JStr (fst k)) \<and> item c ''host'' = Inr (JStr (snd k)) \<and> plain (fst k) \<and> plain (snd k)"

lemma parse_pair_choice:
  assumes "plain n" "plain h"
  shows "parse_pair (''('' @ py_repr (JStr n) @ '', '' @ py_repr (JStr h) @ '')'') = Inr (n, h)"
proof -
  let ?a = "quote # n @ [quote]" and ?b = "CHR '' '' # quote # h @ [quote]"
  have q: "quote \<notin> set ''(),''" by (simp add: quote_def)
  have comma: "CHR '','' \<notin> set ?a" "CHR '','' \<notin> set ?b" using plain_not assms q by auto
  then have "split_on CHR '','' (join '','' [?a, ?b]) = [?a, ?b]" by (intro split_on_join) auto
  moreover have "strip_when (\<lambda>c. c = CHR '')'') (strip_when (\<lambda>c. c = CHR ''('') (''('' @ ?a @ '','' @ ?b @ '')'')) = ?a @ '','' @ ?b"
    using parens_stripped [of "?a @ '','' @ ?b"] q by simp
  ultimately show ?thesis
    using assms by (simp add: parse_pair_def descriptor_part_def Let_def repr_plain unquoted_repr)
qed

lemma named_member: "list_all2 named_at db ks \<Longrightarrow> c \<in> set db \<Longrightarrow> \<exists>k. k \<in> set ks \<and> named_at c k"
  by (induction rule: list_all2_induct) auto

lemma find_container_named:
  "list_all2 named_at db ks \<Longrightarrow> distinct ks \<Longrightarrow> c \<in> set db \<Longrightarrow> named_at c k \<Longrightarrow> find_container k db = Inr (Some c)"
proof (induction rule: list_all2_induct)
  case (Cons d db k' ks)
  have name: "item d ''name'' = Inr (JStr (fst k'))" "item d ''host'' = Inr (JStr (snd k'))" using Cons.hyps(1) by (auto simp: named_at_def)
  show ?case
  proof (cases "k' = k")
    case True
    have "c \<notin> set db"
    proof
      assume "c \<in> set db"
      then obtain k'' where "k'' \<in> set ks" "named_at c k''" using named_member [OF Cons.hyps(2)] by blast
      moreover from this(2) Cons.prems(3) have "k'' = k" by (auto simp: named_at_def prod_eq_iff)
      ultimately show False using Cons.prems(1) True by simp
    qed
    with Cons.prems(2) have "c = d" by simp
    with True name show ?thesis by (simp add: andR_def)
  next
    case False
    then have "c \<noteq> d" using Cons.prems(3) name by (auto simp: named_at_def prod_eq_iff)
    with Cons have "find_container k db = Inr (Some c)" by simp
    with False name show ?thesis by (auto simp: andR_def prod_eq_iff)
  qed
qed simp

text \<open>Two documents of one container.\<close>

definition same_container :: "obj \<Rightarrow> obj \<Rightarrow> bool" where
  "same_container d s \<longleftrightarrow> item d ''name'' = item s ''name'' \<and> item d ''host'' = item s ''host''"

lemma selected_chosen:
  assumes db: "list_all2 named_at db ks" "distinct ks"
    and picked: "list_all2 same_container picked page" "set picked \<subseteq> set db" "setRemoveStructureForm page ''containers'' = Inr choices"
  shows "foldR (\<lambda>s acc. rbind (parse_pair s) (\<lambda>key. rbind (find_container key db) (\<lambda>found.
     Inr (case found of Some c \<Rightarrow> acc @ [c] | None \<Rightarrow> acc)))) (map fst choices) acc = Inr (acc @ picked)"
  using picked
proof (induction arbitrary: choices acc rule: list_all2_induct)
  case (Cons d ds s ss)
  obtain k where k: "named_at d k" using Cons.prems(1) named_member [OF db(1), of d] by auto
  with Cons.hyps(1) have "item s ''name'' = Inr (JStr (fst k))" "item s ''host'' = Inr (JStr (snd k))"
    by (simp_all add: named_at_def same_container_def)
  then have "structure_choice ''containers'' s = Inr (''('' @ py_repr (JStr (fst k)) @ '', '' @ py_repr (JStr (snd k)) @ '')'', JStr (fst k))"
    by (simp add: structure_choice_def)
  with Cons.prems(2) obtain rest where rest: "setRemoveStructureForm ss ''containers'' = Inr rest"
    "map fst choices = (''('' @ py_repr (JStr (fst k)) @ '', '' @ py_repr (JStr (snd k)) @ '')'') # map fst rest"
    by (auto simp: setRemoveStructureForm_def rbind_def split: sum.splits)
  have "parse_pair (''('' @ py_repr (JStr (fst k)) @ '', '' @ py_repr (JStr (snd k)) @ '')'') = Inr k"
    using parse_pair_choice k by (simp add: named_at_def)
  moreover have "find_container k db = Inr (Some d)" using find_container_named [OF db _ k] Cons.prems(1) by simp
  ultimately show ?case using Cons.IH [OF _ rest(1), of "acc @ [d]"] Cons.prems(1) rest(2) by simp
qed (simp add: setRemoveStructureForm_def)

text \<open>C38: The containers that are chosen on the page of containers are the ones that are removed: their values, submitted as they are, name to
  the handler exactly the documents of these containers, and their removal is queued.\<close>

theorem chosen_containers_removed:
  assumes "db_items E (structures_url E) w = (Returned items, w1)" "host_docs items = Inr hosts"
    and "getContainers E False items w1 = (Returned db, w2)" "list_all2 named_at db ks" "distinct ks"
    and "list_all2 same_container picked page" "set picked \<subseteq> set db" "setRemoveStructureForm page ''containers'' = Inr choices"
  shows "fst (processRemoveContainers E url (Some (map fst choices)) w) = Returned () \<and>
    w_trace (snd (processRemoveContainers E url (Some (map fst choices)) w)) =
      w_trace w2 @ [Dispatched (Call ''remove_containers_task'' [JStr url, jobjs picked])]"
proof -
  have "selected_containers db (map fst choices) = Inr picked"
    using selected_chosen [OF assms(4-8), of "[]"] by (simp add: selected_containers_def)
  with assms(1-3) show ?thesis
    by (simp add: processRemoveContainers_def run_later_def register_task_def hset_def run_simps)
qed

definition page_env :: env where
  "page_env = sample_env\<lparr>env_base_url := ''http://db'', env_fetch := (\<lambda>es. if last es = Fetched ''http://db/structure/''
     then Inr (JArr [JObj sample_container]) else Inr (JObj []))\<rparr>"

theorem chosen_containers_removed_witness:
  "\<exists>limited. w_trace (snd (processRemoveContainers page_env ''http://db/structure/'' (Some [''('' @ py_repr (JStr ''c0'') @ '', '' @ py_repr (JStr ''h0'') @ '')'']) sample_world)) =
     [Fetched ''http://db/structure/'', Fetched ''http://db/structure/c0/limits'',
      Dispatched (Call ''remove_containers_task'' [JStr ''http://db/structure/'', jobjs [limited]])] \<and> item limited ''name'' = Inr (JStr ''c0'')"
proof -
  let ?w1 = "sample_world\<lparr>w_trace := [Fetched ''http://db/structure/'']\<rparr>"
  have items: "db_items page_env (structures_url page_env) sample_world = (Returned [JObj sample_container], ?w1)"
    by (simp add: db_items_def structures_url_def page_env_def getDbData_def data_items_def run_simps sample_world_def)
  have hosts: "host_docs [JObj sample_container] = Inr []" by code_simp
  have "case getContainers page_env False [JObj sample_container] ?w1 of
      (Returned [d], w2) \<Rightarrow> item d ''name'' = Inr (JStr ''c0'') \<and> item d ''host'' = Inr (JStr ''h0'') \<and>
        w_trace w2 = [Fetched ''http://db/structure/'', Fetched ''http://db/structure/c0/limits''] | _ \<Rightarrow> False"
    by code_simp
  then obtain d w2 where d: "getContainers page_env False [JObj sample_container] ?w1 = (Returned [d], w2)"
    "item d ''name'' = Inr (JStr ''c0'')" "item d ''host'' = Inr (JStr ''h0'')"
    "w_trace w2 = [Fetched ''http://db/structure/'', Fetched ''http://db/structure/c0/limits'']"
    by (auto split: prod.splits outcome.splits list.splits)
  have "plain ''c0''" "plain ''h0''" by code_simp+
  with d have "list_all2 named_at [d] [(''c0'', ''h0'')]" by (simp add: named_at_def)
  moreover have "list_all2 same_container [d] [d]" by (simp add: same_container_def)
  moreover have "setRemoveStructureForm [d] ''containers'' = Inr [(''('' @ py_repr (JStr ''c0'') @ '', '' @ py_repr (JStr ''h0'') @ '')'', JStr ''c0'')]"
    using d by (simp add: setRemoveStructureForm_def structure_choice_def)
  ultimately show ?thesis
    using chosen_containers_removed [OF items hosts d(1), of "[(''c0'', ''h0'')]" "[d]" "[d]" _ "''http://db/structure/''"] d
    by (intro exI [of _ d]) simp
qed

theorem errors_reach_page_witness:
  "\<exists>page w. show_structures page_env (query_parameters (redirect_query [''Operation not found''])) ''containers'' sample_world = (Returned page, w) \<and>
     map alert_text (sp_errors page) = [''Operation not found'']"
proof -
  have "case show_structures page_env (query_parameters (redirect_query [''Operation not found''])) ''containers'' sample_world of
      (Returned page, w) \<Rightarrow> True | _ \<Rightarrow> False" by code_simp
  then obtain page w where page: "show_structures page_env (query_parameters (redirect_query [''Operation not found''])) ''containers'' sample_world =
      (Returned page, w)" by (auto split: prod.splits outcome.splits)
  have "get_pending_tasks sample_world = (Returned ([], [], []), sample_world)"
    by (simp add: get_pending_tasks_def sample_world_def keys_of_def)
  with errors_reach_page [OF _ page] page show ?thesis by auto
qed

end
