(* ===== verification/HdfsBrowser.thy ===== *)
theory HdfsBrowser
  imports HdfsViews Pages
begin

text \<open>
  The listing of the global HDFS read with a browser: \<open>get_entries_via_html\<close> and the page of \<open>ui/views/hdfs/views.py\<close>, and the
  life of the browser, \<open>State\<close> of \<open>ui/views/hdfs/utils.py\<close>.  Selenium and BeautifulSoup are a record of two functions: what
  visiting a URL does to the browser, and the rows of the page it shows.  Reading is recursive over what the pages link, so
  it is given fuel; the answer \<open>None\<close> means that it ran out.
\<close>

section \<open>Reading the explorer\<close>

record explorer_entry =
  ee_path :: string                      \<comment> \<open>\<open>inode-path\<close>\<close>
  ee_cells :: "(string \<times> bool) list"     \<comment> \<open>text, and whether it links a directory\<close>

record 's browser =
  br_visit :: "string \<Rightarrow> 's \<Rightarrow> 's"
  br_page :: "'s \<Rightarrow> explorer_entry list"

definition obind :: "'a result option \<Rightarrow> ('a \<Rightarrow> 'b result option) \<Rightarrow> 'b result option" where
  "obind m f = (case m of None \<Rightarrow> None | Some (Inl e) \<Rightarrow> Some (Inl e) | Some (Inr x) \<Rightarrow> f x)"

fun foldO :: "('a \<Rightarrow> 's \<Rightarrow> 's result option) \<Rightarrow> 'a list \<Rightarrow> 's \<Rightarrow> 's result option" where
  "foldO f [] s = Some (Inr s)"
| "foldO f (x # xs) s = obind (f x s) (foldO f xs)"

type_synonym 's listing = "(json list list \<times> 's) result option"

definition directory_link :: "string \<Rightarrow> string \<Rightarrow> string" where
  "directory_link url txt =
     ''<a inode-type='' @ [double_quote] @ ''DIRECTORY'' @ [double_quote] @ '' href='' @ [double_quote] @ url @ [double_quote] @ ''>'' @ txt @ ''</a>''"

text \<open>A cell of a row; \<open>inner_entries\<close> is what the last cell that is not blank linked.\<close>

definition read_cell ::
  "(string \<Rightarrow> string \<Rightarrow> 's \<Rightarrow> 's listing) \<Rightarrow> string \<Rightarrow> string \<Rightarrow> string \<times> bool \<Rightarrow> string list \<times> json list list option \<times> 's \<Rightarrow>
    (string list \<times> json list list option \<times> 's) result option" where
  "read_cell go url parent_directory cell s =
     (case (cell, s) of ((txt, is_directory), (elements, inner_entries, st)) \<Rightarrow>
        if strip txt = [] then Some (Inr (elements, inner_entries, st))
        else if is_directory
        then obind (go (url @ ''/'' @ txt) (parent_directory @ ''/'' @ txt) st) (\<lambda>(rows, st').
               Some (Inr (elements @ [directory_link (url @ ''/'' @ txt) txt], Some rows, st')))
        else Some (Inr (elements @ [txt], Some [], st)))"

text \<open>A row, followed by what it links; \<open>inner_entries\<close> keeps its value from row to row.\<close>

definition file_forms :: "string \<Rightarrow> json list" where
  "file_forms p = [JObj [(''origin_path'', JStr p)], JObj [(''dest_path'', JStr p)]]"

definition read_entry ::
  "(string \<Rightarrow> string \<Rightarrow> 's \<Rightarrow> 's listing) \<Rightarrow> string \<Rightarrow> string \<Rightarrow> explorer_entry \<Rightarrow> json list list \<times> json list list option \<times> 's \<Rightarrow>
    (json list list \<times> json list list option \<times> 's) result option" where
  "read_entry go url parent_directory e s =
     (case s of (hdfs_entries, inner_entries, st) \<Rightarrow>
      let entry_full_path = parent_directory @ ''/'' @ ee_path e
      in if entry_full_path = ''/tmp'' then Some (Inr s)
         else obind (foldO (read_cell go url parent_directory) (ee_cells e)
                ([if parent_directory \<noteq> [] then parent_directory else ''/''], inner_entries, st)) (\<lambda>(elements, inner, st').
              case inner of
                None \<Rightarrow> Some (Inl (UnboundLocalError ''inner_entries''))
              | Some rows \<Rightarrow> Some (Inr (hdfs_entries @ [map JStr elements @ file_forms entry_full_path] @ rows, inner, st'))))"

text \<open>The \<open>return\<close> of \<open>finally\<close> replaces the one of \<open>except\<close>: also after an exception of the browser the page it shows is read.\<close>

fun get_entries_via_html :: "'s browser \<Rightarrow> nat \<Rightarrow> string \<Rightarrow> string \<Rightarrow> 's \<Rightarrow> 's listing" where
  "get_entries_via_html b 0 url parent_directory st = None"
| "get_entries_via_html b (Suc fuel) url parent_directory st =
     (let st' = br_visit b url st
      in obind (foldO (read_entry (get_entries_via_html b fuel) url parent_directory) (br_page b st') ([], None, st'))
           (\<lambda>(hdfs_entries, _, st''). Some (Inr (hdfs_entries, st''))))"

definition entry_keys :: "string list" where
  "entry_keys = [''parent_dir'', ''permissions'', ''owner'', ''group'', ''size'', ''last_update'', ''replication'', ''blocksize'', ''name'',
     ''get_hdfs_file'', ''del_hdfs_file'']"

definition entry_dict :: "json list \<Rightarrow> obj result" where
  "entry_dict entry = (if length entry < 11 then Inl IndexError else Inr (zip entry_keys entry))"

definition namenode_url :: string where
  "namenode_url = ''http://localhost:55555/explorer.html#''"

definition html_listing :: "'s browser \<Rightarrow> nat \<Rightarrow> 's \<Rightarrow> obj list result option" where
  "html_listing b fuel st =
     obind (get_entries_via_html b fuel namenode_url [] st) (\<lambda>(entries, _). Some (mapR entry_dict entries))"

section \<open>The browser\<close>

text \<open>\<open>alive\<close> tells whether a browser answers, \<open>fresh\<close> is a new one.\<close>

record 'd driver_state =
  ds_driver :: "'d option"
  ds_closing :: bool

definition webdriver_is_closed :: "('d \<Rightarrow> bool) \<Rightarrow> 'd driver_state \<Rightarrow> bool" where
  "webdriver_is_closed alive s = (case ds_driver s of None \<Rightarrow> True | Some d \<Rightarrow> \<not> alive d)"

definition start_webdriver :: "('d \<Rightarrow> bool) \<Rightarrow> 'd \<Rightarrow> 'd driver_state \<Rightarrow> 'd driver_state" where
  "start_webdriver alive fresh s = (if webdriver_is_closed alive s then \<lparr>ds_driver = Some fresh, ds_closing = False\<rparr> else s)"

text \<open>The browsers that are told to quit, and the state.\<close>

definition stop_webdriver :: "('d \<Rightarrow> bool) \<Rightarrow> 'd driver_state \<Rightarrow> 'd list \<times> 'd driver_state" where
  "stop_webdriver alive s =
     (if webdriver_is_closed alive s then ([], s) else ([the (ds_driver s)], \<lparr>ds_driver = None, ds_closing = True\<rparr>))"

definition delete_webdriver :: "'d driver_state \<Rightarrow> 'd list \<times> 'd driver_state" where
  "delete_webdriver s = (case ds_driver s of None \<Rightarrow> ([], s) | Some d \<Rightarrow> ([d], \<lparr>ds_driver = None, ds_closing = True\<rparr>))"

section \<open>The page\<close>

record hdfs_page =
  hp_ready :: bool
  hp_data :: "obj list"
  hp_errors :: "page_notice list"
  hp_successes :: "page_notice list"
  hp_info :: "page_notice list"

text \<open>\<open>entries\<close> is the listing, which is only read when the HDFS is ready and the platform displays it.\<close>

definition show_hdfs :: "env \<Rightarrow> bool \<Rightarrow> obj list result \<Rightarrow> (string \<times> string) list \<Rightarrow> hdfs_page m" where
  "show_hdfs E closing entries params =
     bindM (ready_namenode E closing) (\<lambda>ready.
     bindM (if ready = None then returnM False else config_flag E ''display_hdfs'') (\<lambda>display.
     bindM (liftR (if display then entries else Inr [])) (\<lambda>shown.
     bindM get_pending_tasks_messages (\<lambda>(still_pending, successful, failed).
     returnM \<lparr>hp_ready = (ready \<noteq> None), hp_data = shown, hp_errors = map Raw_Text (url_texts ''errors'' params) @ task_notices failed,
       hp_successes = map Raw_Text (url_texts ''success'' params) @ task_notices successful, hp_info = task_notices still_pending\<rparr>))))"

section \<open>The listing of a file system\<close>

text \<open>A file or directory: its name, the texts of the cells before and after the one of its name, and what a directory holds.\<close>

datatype hdfs_node = Hdfs_Node string "string list" "string list" "hdfs_node list option"

fun explorer_row :: "hdfs_node \<Rightarrow> explorer_entry" where
  "explorer_row (Hdfs_Node n ts bs c) =
     \<lparr>ee_path = n, ee_cells = map (\<lambda>t. (t, False)) ts @ [(n, c \<noteq> None)] @ map (\<lambda>t. (t, False)) bs\<rparr>"

definition below :: "string \<Rightarrow> string \<Rightarrow> string" where "below p n = p @ ''/'' @ n"

fun node_paths :: "string \<Rightarrow> hdfs_node \<Rightarrow> string list" where
  "node_paths parent (Hdfs_Node n ts bs c) = (if below parent n = ''/tmp'' then []
     else below parent n # (case c of None \<Rightarrow> [] | Some ns \<Rightarrow> concat (map (node_paths (below parent n)) ns)))"

fun node_depth :: "hdfs_node \<Rightarrow> nat" where
  "node_depth (Hdfs_Node n ts bs c) = (case c of None \<Rightarrow> 0 | Some ns \<Rightarrow> Suc (fold max (map node_depth ns) 0))"

text \<open>
  Before the name, which is not blank, a row has the seven texts the explorer of Hadoop shows, and any number of cells
  without a text anywhere between them (that of the check box); after the name it only has such cells (that of the icon
  which deletes the file).
\<close>

definition shown_texts :: "string list \<Rightarrow> string list" where
  "shown_texts ts = filter (\<lambda>t. strip t \<noteq> []) ts"

fun node_ok :: "hdfs_node \<Rightarrow> bool" where
  "node_ok (Hdfs_Node n ts bs c) \<longleftrightarrow> length (shown_texts ts) = 7 \<and> strip n \<noteq> [] \<and> shown_texts bs = [] \<and>
     (case c of None \<Rightarrow> True | Some ns \<Rightarrow> list_all node_ok ns)"

text \<open>The browser shows, whatever it showed before, the contents of the directory it visits.\<close>

fun served :: "'s browser \<Rightarrow> string \<Rightarrow> hdfs_node \<Rightarrow> bool" where
  "served b url (Hdfs_Node n ts bs c) \<longleftrightarrow> (case c of None \<Rightarrow> True
     | Some ns \<Rightarrow> (\<forall>st. br_page b (br_visit b (below url n) st) = map explorer_row ns) \<and> list_all (served b (below url n)) ns)"

definition served_at :: "'s browser \<Rightarrow> string \<Rightarrow> hdfs_node list \<Rightarrow> bool" where
  "served_at b url ns \<longleftrightarrow> (\<forall>st. br_page b (br_visit b url st) = map explorer_row ns) \<and> list_all (served b url) ns"

definition rows_list :: "string list \<Rightarrow> json list list \<Rightarrow> bool" where
  "rows_list = list_all2 (\<lambda>p row. length row = 11 \<and> drop 9 row = file_forms p)"

lemma obind_simps [simp]:
  "obind None f = None" "obind (Some (Inl e)) f = Some (Inl e)" "obind (Some (Inr x)) f = f x"
  by (simp_all add: obind_def)

lemma foldO_append: "foldO f (xs @ ys) s = obind (foldO f xs s) (foldO f ys)"
  by (induction xs arbitrary: s) (auto simp: obind_def split: option.splits sum.splits)

lemma read_texts:
  "foldO (read_cell go url parent) (map (\<lambda>t. (t, False)) ts) (cells, inner, st) =
     Some (Inr (cells @ shown_texts ts, if shown_texts ts = [] then inner else Some [], st))"
  by (induction ts arbitrary: cells inner) (simp_all add: read_cell_def shown_texts_def)

lemma fold_max_le: "fold max xs (k::nat) \<le> n \<longleftrightarrow> k \<le> n \<and> (\<forall>x\<in>set xs. x \<le> n)"
  by (induction xs arbitrary: k) auto

lemma child_depth: "x \<in> set ms \<Longrightarrow> node_depth x < node_depth (Hdfs_Node n ts bs (Some ms))"
  using fold_max_le [of "map node_depth ms" 0 "fold max (map node_depth ms) 0"] by (auto simp: less_Suc_eq_le)

lemma rows_list_row:
  "length ts = 7 \<Longrightarrow> rows_list ps rows \<Longrightarrow>
     rows_list (p # ps) ((JStr a # map JStr ts @ [JStr l] @ file_forms p) # rows)"
  by (simp add: rows_list_def file_forms_def)

lemma rows_list_append: "rows_list ps rows \<Longrightarrow> rows_list ps' rows' \<Longrightarrow> rows_list (ps @ ps') (rows @ rows')"
  by (simp add: rows_list_def list_all2_appendI)

lemma read_node:
  assumes ok: "node_ok (Hdfs_Node n ts bs c)" and tmp: "below parent n \<noteq> ''/tmp''"
    and go: "\<And>ns st. c = Some ns \<Longrightarrow> \<exists>rows st'. go (below url n) (below parent n) st = Some (Inr (rows, st')) \<and>
      rows_list (concat (map (node_paths (below parent n)) ns)) rows"
  shows "\<exists>rows inner' st'. read_entry go url parent (explorer_row (Hdfs_Node n ts bs c)) (acc, inner, st) =
      Some (Inr (acc @ rows, inner', st')) \<and> rows_list (node_paths parent (Hdfs_Node n ts bs c)) rows"
proof -
  define first where "first = (if parent \<noteq> [] then parent else ''/'')"
  let ?ts = "shown_texts ts"
  have len: "length ?ts = 7" and blank: "shown_texts bs = []" and name: "strip n \<noteq> []" using ok by auto
  define inner' where "inner' = (if ?ts = [] then inner else Some [])"
  have cells: "foldO (read_cell go url parent) (map (\<lambda>t. (t, False)) ts) ([first], inner, st) = Some (Inr ([first] @ ?ts, inner', st))"
    unfolding inner'_def by (rule read_texts)
  obtain rows st' l where name_cell: "read_cell go url parent (n, c \<noteq> None) ([first] @ ?ts, inner', st) =
      Some (Inr ([first] @ ?ts @ [l], Some rows, st'))"
    "rows_list (case c of None \<Rightarrow> [] | Some ns \<Rightarrow> concat (map (node_paths (below parent n)) ns)) rows"
  proof (cases c)
    case None
    with name that [of n "[]" st] show ?thesis by (simp add: read_cell_def rows_list_def)
  next
    case (Some ns)
    from go [OF this, of st] obtain rows st' where "go (below url n) (below parent n) st = Some (Inr (rows, st'))"
      "rows_list (concat (map (node_paths (below parent n)) ns)) rows" by blast
    with Some name that [of "directory_link (url @ ''/'' @ n) n" rows st'] show ?thesis by (simp add: read_cell_def below_def)
  qed
  have rest: "foldO (read_cell go url parent) (map (\<lambda>t. (t, False)) bs) (xs, i, s) = Some (Inr (xs, i, s))" for xs i s
    using read_texts [of go url parent bs xs i s] blank by simp
  have "read_entry go url parent (explorer_row (Hdfs_Node n ts bs c)) (acc, inner, st) =
      Some (Inr (acc @ (JStr first # map JStr ?ts @ [JStr l] @ file_forms (below parent n)) # rows, Some rows, st'))"
    using tmp cells name_cell(1) by (simp add: read_entry_def foldO_append below_def first_def rest)
  moreover have "rows_list (node_paths parent (Hdfs_Node n ts bs c)) ((JStr first # map JStr ?ts @ [JStr l] @ file_forms (below parent n)) # rows)"
    using rows_list_row [OF len name_cell(2)] tmp by simp
  ultimately show ?thesis by blast
qed

lemma read_nodes:
  assumes "list_all node_ok ns" "list_all (served b url) ns" "\<forall>x\<in>set ns. node_depth x \<le> fuel"
    and go: "\<And>url parent ns st. list_all node_ok ns \<Longrightarrow> served_at b url ns \<Longrightarrow> 0 < fuel \<Longrightarrow> \<forall>x\<in>set ns. node_depth x < fuel \<Longrightarrow>
      \<exists>rows st'. go url parent st = Some (Inr (rows, st')) \<and> rows_list (concat (map (node_paths parent) ns)) rows"
  shows "\<exists>rows inner' st'. foldO (read_entry go url parent) (map explorer_row ns) (acc, inner, st) = Some (Inr (acc @ rows, inner', st')) \<and>
    rows_list (concat (map (node_paths parent) ns)) rows"
  using assms(1-3)
proof (induction ns arbitrary: acc inner st)
  case Nil
  then show ?case by (simp add: rows_list_def)
next
  case (Cons x ns)
  obtain n ts bs c where x: "x = Hdfs_Node n ts bs c" by (cases x)
  have "\<exists>rows inner' st'. read_entry go url parent (explorer_row x) (acc, inner, st) = Some (Inr (acc @ rows, inner', st')) \<and>
      rows_list (node_paths parent x) rows"
  proof (cases "below parent n = ''/tmp''")
    case True
    then show ?thesis by (simp add: x read_entry_def rows_list_def below_def)
  next
    case False
    have "\<exists>rows st'. go (below url n) (below parent n) st = Some (Inr (rows, st')) \<and>
        rows_list (concat (map (node_paths (below parent n)) ms)) rows" if c: "c = Some ms" for ms st
    proof (rule go)
      show "list_all node_ok ms" "served_at b (below url n) ms" using Cons.prems(1,2) c by (simp_all add: x served_at_def)
      have "node_depth x \<le> fuel" using Cons.prems(3) by simp
      then show "0 < fuel" by (simp add: x c)
      show "\<forall>y\<in>set ms. node_depth y < fuel" using child_depth [of _ ms n ts bs] \<open>node_depth x \<le> fuel\<close> unfolding x c by (blast intro: less_le_trans)
    qed
    then show ?thesis using read_node [of n ts bs c parent go url acc inner st] Cons.prems(1) False by (simp add: x)
  qed
  then obtain rows inner' st' where one: "read_entry go url parent (explorer_row x) (acc, inner, st) = Some (Inr (acc @ rows, inner', st'))"
    "rows_list (node_paths parent x) rows" by blast
  from Cons.IH [of "acc @ rows" inner' st'] Cons.prems obtain rows' inner'' st'' where
    "foldO (read_entry go url parent) (map explorer_row ns) (acc @ rows, inner', st') = Some (Inr ((acc @ rows) @ rows', inner'', st''))"
    "rows_list (concat (map (node_paths parent) ns)) rows'" by auto
  with one rows_list_append show ?case by fastforce
qed

lemma listing_of_nodes:
  "list_all node_ok ns \<Longrightarrow> served_at b url ns \<Longrightarrow> \<forall>x\<in>set ns. node_depth x \<le> fuel \<Longrightarrow>
    \<exists>rows st'. get_entries_via_html b (Suc fuel) url parent st = Some (Inr (rows, st')) \<and> rows_list (concat (map (node_paths parent) ns)) rows"
proof (induction fuel arbitrary: url parent ns st)
  case 0
  have page: "br_page b (br_visit b url st) = map explorer_row ns" and nodes: "list_all (served b url) ns" using "0.prems"(2)
    by (auto simp: served_at_def)
  have "\<exists>rows inner' st'. foldO (read_entry (get_entries_via_html b 0) url parent) (map explorer_row ns) ([], None, br_visit b url st) =
      Some (Inr ([] @ rows, inner', st')) \<and> rows_list (concat (map (node_paths parent) ns)) rows"
    by (rule read_nodes [OF "0.prems"(1) nodes "0.prems"(3)]) simp
  then show ?case by (auto simp: page)
next
  case (Suc fuel)
  have page: "br_page b (br_visit b url st) = map explorer_row ns" and nodes: "list_all (served b url) ns" using Suc.prems(2)
    by (auto simp: served_at_def)
  have "\<exists>rows inner' st'. foldO (read_entry (get_entries_via_html b (Suc fuel)) url parent) (map explorer_row ns) ([], None, br_visit b url st) =
      Some (Inr ([] @ rows, inner', st')) \<and> rows_list (concat (map (node_paths parent) ns)) rows"
    by (rule read_nodes [OF Suc.prems(1) nodes Suc.prems(3)]) (rule Suc.IH, assumption+, simp add: less_Suc_eq_le)
  then show ?case by (subst get_entries_via_html.simps(2)) (auto simp: page Let_def simp del: get_entries_via_html.simps)
qed

lemma entry_dict_row:
  assumes "length row = 11" "drop 9 row = file_forms p"
  shows "\<exists>d. entry_dict row = Inr d \<and> get_or d ''get_hdfs_file'' JNull = JObj [(''origin_path'', JStr p)] \<and>
    get_or d ''del_hdfs_file'' JNull = JObj [(''dest_path'', JStr p)]"
proof -
  have "row = take 9 row @ file_forms p" using append_take_drop_id [of 9 row] assms(2) by simp
  moreover obtain a b c d e f g h i where "take 9 row = [a, b, c, d, e, f, g, h, i]"
    using assms(1) by (auto simp: eval_nat_numeral length_Suc_conv)
  ultimately have "row = [a, b, c, d, e, f, g, h, i] @ file_forms p" by simp
  then show ?thesis by (simp add: entry_dict_def entry_keys_def file_forms_def get_or_def)
qed

lemma entry_dicts:
  "rows_list ps rows \<Longrightarrow> \<exists>entries. mapR entry_dict rows = Inr entries \<and>
     map (\<lambda>e. (get_or e ''get_hdfs_file'' JNull, get_or e ''del_hdfs_file'' JNull)) entries =
     map (\<lambda>p. (JObj [(''origin_path'', JStr p)], JObj [(''dest_path'', JStr p)])) ps"
  unfolding rows_list_def
proof (induction rule: list_all2_induct)
  case (Cons p ps row rows)
  then obtain entries d where "mapR entry_dict rows = Inr entries" "entry_dict row = Inr d"
    "get_or d ''get_hdfs_file'' JNull = JObj [(''origin_path'', JStr p)]" "get_or d ''del_hdfs_file'' JNull = JObj [(''dest_path'', JStr p)]"
    "map (\<lambda>e. (get_or e ''get_hdfs_file'' JNull, get_or e ''del_hdfs_file'' JNull)) entries =
     map (\<lambda>p. (JObj [(''origin_path'', JStr p)], JObj [(''dest_path'', JStr p)])) ps"
    using entry_dict_row [of row p] by auto
  then show ?case by (intro exI [of _ "d # entries"]) simp
qed simp

text \<open>C40: When the browser shows the contents of every directory it visits, each row with its name, the seven texts before it
  and any cells without text, the listing of the HDFS ends and has one entry for each file and directory, a directory before what
  it holds, except for \<open>/tmp\<close> and what is below it; the forms of an entry fetch and delete the path of its own file.\<close>

theorem html_listing_complete:
  assumes "served_at b namenode_url ns" "list_all node_ok ns" "\<forall>x\<in>set ns. node_depth x \<le> fuel"
  shows "\<exists>entries. html_listing b (Suc fuel) st = Some (Inr entries) \<and>
    map (\<lambda>e. (get_or e ''get_hdfs_file'' JNull, get_or e ''del_hdfs_file'' JNull)) entries =
      map (\<lambda>p. (JObj [(''origin_path'', JStr p)], JObj [(''dest_path'', JStr p)])) (concat (map (node_paths []) ns))"
proof -
  obtain rows st' where rows: "get_entries_via_html b (Suc fuel) namenode_url [] st = Some (Inr (rows, st'))"
    "rows_list (concat (map (node_paths []) ns)) rows"
    using listing_of_nodes [OF assms(2,1,3)] by blast
  from entry_dicts [OF rows(2)] rows(1) show ?thesis by (auto simp: html_listing_def simp del: get_entries_via_html.simps)
qed

definition sample_texts :: "string list" where
  "sample_texts = ['' '', ''drwxr-xr-x'', ''root'', ''supergroup'', ''0 B'', ''Nov 01'', ''0'', ''0 B'']"

definition sample_data :: hdfs_node where
  "sample_data = Hdfs_Node ''data'' sample_texts [[]] None"

definition sample_tree :: "hdfs_node list" where
  "sample_tree = [Hdfs_Node ''tmp'' sample_texts [[]] (Some []), Hdfs_Node ''user'' sample_texts [[]] (Some [sample_data])]"

definition sample_browser :: "string browser" where
  "sample_browser = \<lparr>br_visit = (\<lambda>url st. url), br_page = (\<lambda>st. if st = namenode_url then map explorer_row sample_tree
     else if st = namenode_url @ ''/user'' then [explorer_row sample_data] else [])\<rparr>"

theorem html_listing_complete_witness:
  "\<exists>entries. html_listing sample_browser 2 [] = Some (Inr entries) \<and> map (\<lambda>e. get_or e ''del_hdfs_file'' JNull) entries =
     [JObj [(''dest_path'', JStr ''/user'')], JObj [(''dest_path'', JStr ''/user/data'')]]"
proof -
  have "\<forall>st. br_page sample_browser (br_visit sample_browser url st) = br_page sample_browser url" for url by (simp add: sample_browser_def)
  moreover have "br_page sample_browser namenode_url = map explorer_row sample_tree" by (simp add: sample_browser_def)
  moreover have "br_page sample_browser (below namenode_url ''tmp'') = []"
    "br_page sample_browser (below namenode_url ''user'') = [explorer_row sample_data]" by code_simp+
  ultimately have served: "served_at sample_browser namenode_url sample_tree" by (simp add: served_at_def sample_tree_def sample_data_def)
  have "list_all node_ok sample_tree" by code_simp
  moreover have "\<forall>x\<in>set sample_tree. node_depth x \<le> 1" by code_simp
  ultimately obtain entries where e: "html_listing sample_browser 2 [] = Some (Inr entries)"
    "map (\<lambda>e. (get_or e ''get_hdfs_file'' JNull, get_or e ''del_hdfs_file'' JNull)) entries =
      map (\<lambda>p. (JObj [(''origin_path'', JStr p)], JObj [(''dest_path'', JStr p)])) (concat (map (node_paths []) sample_tree))"
    using html_listing_complete [OF served, of 1 "[]"] by (auto simp: numeral_2_eq_2)
  moreover have "concat (map (node_paths []) sample_tree) = [''/user'', ''/user/data'']" by code_simp
  ultimately have "map snd (map (\<lambda>e. (get_or e ''get_hdfs_file'' JNull, get_or e ''del_hdfs_file'' JNull)) entries) =
      [JObj [(''dest_path'', JStr ''/user'')], JObj [(''dest_path'', JStr ''/user/data'')]]" by simp
  with e(1) show ?thesis by (auto simp: comp_def)
qed

section \<open>One browser\<close>

text \<open>Starting the browser again while it answers does nothing, and the one that is used is the one that is stopped.\<close>

lemma webdriver_restart: "alive fresh \<Longrightarrow> start_webdriver alive other (start_webdriver alive fresh s) = start_webdriver alive fresh s"
  by (auto simp: start_webdriver_def webdriver_is_closed_def split: option.splits)

lemma webdriver_stopped:
  "alive fresh \<Longrightarrow> stop_webdriver alive (start_webdriver alive fresh \<lparr>ds_driver = None, ds_closing = c\<rparr>) = ([fresh], \<lparr>ds_driver = None, ds_closing = True\<rparr>)"
  by (simp add: start_webdriver_def stop_webdriver_def webdriver_is_closed_def)

end
