(* ===== verification/Spec2Isabelle.thy ===== *)
theory Spec2Isabelle
  imports Allocation ContainerResources InventoryLaws Mappers SharedFs StateScripts NodeRescaler DiskAtop
    HadoopResources Watchers Playbooks HadoopTasks HostViews ConfigSync PipPlugin HdfsViews InventoryTypes SetupScripts
    ShippedRules FormContracts PowerMeters Pages HdfsBrowser
begin

text \<open>
  A verification development for the provisioning layer of ServerlessYARN, the Python code under
  \<open>src/ansible/provisioning\<close>.  Paths below are relative to it.

  \<^bold>\<open>The program.\<close>  A web interface written in Django (\<open>services/serverless_containers_web/ui\<close>) shows the hosts,
  containers, applications, users, rules and services of a platform and accepts forms.  A view checks what was
  submitted, computes what is to be done (which host gets which container, with which resources and on which
  disk) and queues a Celery task.  The tasks (\<open>ui/background_tasks.py\<close>) run Ansible playbooks
  (\<open>ui/run_playbooks.py\<close>, \<open>tools/python_utils\<close>), change the Ansible inventory under a lock kept in redis, and
  tell the state database of ServerlessContainers, an HTTP service of another repository, about it.  Scripts started by the
  playbooks fill that database (\<open>scripts/state_database\<close>), give containers their cores (\<open>scripts/hosts\<close>) and
  set a platform up (\<open>scripts/config\<close>); Ansible plugins run a module once per shared file system
  (\<open>collections/.../smart_sharedfs\<close>); services watch the configuration, the other services and the disks
  (\<open>services/config_updater\<close>, \<open>services/rebooter\<close>, \<open>services/disk_atop\<close>), and power meters turn the counters of the
  hosts into watts (\<open>templates/power_budgeting/monitoring\<close>).

  \<^bold>\<open>Foundations.\<close>
  \<^item> \<open>Prelude\<close>: Python's exceptions as the datatype \<open>exn\<close>, a computation that may raise as a sum, dictionaries as
    association lists in the order of insertion, rounding, loops over lists.
  \<^item> \<open>PyStr\<close>: the string methods the code uses, and sorting by a comparison function; the locale \<open>comparator\<close>
    gives the lemmas about sorting once, \<open>Structures\<close> interprets it on the order of host names.
  \<^item> \<open>Json\<close>, \<open>JsonText\<close>: documents, their conversions to numbers and texts, HTTP answers, and the parser of \<open>json.loads\<close>.
  \<^item> \<open>Ansible\<close>, \<open>Playbooks\<close>: \<open>manage_ansible.py\<close> and \<open>run_playbooks.py\<close>, from arguments to the command
    and from its events to results.
  \<^item> \<open>Effects\<close>: what the tasks act on, a record \<open>world\<close> with the redis hashes, the stored results of tasks, the
    inventory, its lock and the trace of what was done, and tasks as functions from a world to an outcome and a world.
    Answers from outside are functions of the trace in a record \<open>env\<close>; nothing is assumed of them.  The inventory has one
    more writer: the install playbook saves the bandwidths it measures with \<open>scripts/hosts/update_host_disks_bw_inv.py\<close>,
    without the lock (\<open>measure_disks\<close>, the event \<open>Measured\<close>, beside the event \<open>Saved\<close> of a task).  The collections
    \<open>keeps_intro\<close>, \<open>finishes_intro\<close> and \<open>completes_intro\<close> prove invariants and termination of composed tasks; the locale
    \<open>guarded_block\<close> is the contract of a \<open>with\<close> statement, interpreted on the inventory lock and on the block that
    switches the scaling services off.

  \<^bold>\<open>Choosing hosts, disks and resources.\<close>
  \<^item> \<open>Structures\<close>: \<open>ui/views/core/utils.py\<close>, the order on names, the freest host and disk.
  \<^item> \<open>ContainerResources\<close>: \<open>getContainerResourcesForApp\<close>, the split of an application's resources over its containers.
  \<^item> \<open>Assignation\<close>, \<open>Placement\<close>, \<open>Policies\<close>, \<open>Exhaustion\<close>, \<open>Allocation\<close>: \<open>getContainerAssignationForApp\<close> of
    \<open>ui/views/apps/utils.py\<close> with the policies Fill-up, Cyclic and Best-effort.  \<open>Placement\<close> states what a policy promises (the
    relation \<open>placed\<close>, the locale \<open>allocator\<close>: only wanted containers are placed, where there is room, and the ledgers of free
    resources and bandwidth are kept), \<open>Policies\<close> interprets it on each policy, \<open>Exhaustion\<close> extends it to policies
    that only give up when nothing fits, \<open>Allocation\<close> composes them as the code does.
  \<^item> \<open>Mappers\<close>: \<open>plugins/modules/get_mappers.py\<close>.  \<open>HadoopResources\<close>: the memory settings of a Hadoop cluster.

  \<^bold>\<open>Tasks.\<close>
  \<^item> \<open>TaskRegistry\<close>: the registered tasks and their reports.  \<open>ScalingTasks\<close>: scaling services switched off and on,
    requests to the state database, stopping containers.  \<open>Tasks\<close>: adding and removing hosts, disks, users, applications
    and containers.  \<open>Deployment\<close>: starting an application and undoing a failed start; \<open>HadoopTasks\<close>: Hadoop clusters and
    the global HDFS.

  \<^bold>\<open>Pages.\<close>
  \<^item> \<open>Requests\<close>: the handling of a submitted form and its redirection, pages of services and rules.  \<open>AppViews\<close>,
    \<open>HostViews\<close>, \<open>HdfsViews\<close>: the pages of applications, of hosts, containers and users, of the global HDFS, and the calls
    applications make when they end.
  \<^item> \<open>ShippedRules\<close>: the rules and services a platform starts with, and the pages that show them.  \<open>Forms\<close>: the form
    classes as data, \<open>FormContracts\<close>: a submission of a form has what its handler reads.
  \<^item> \<open>Pages\<close>: the branches that show the pages of structures and services, and how a page and its handler fit: the errors that are
    shown, the choices that are submitted, the values of a table that are written.  \<open>HdfsBrowser\<close>: the listing of the global HDFS
    read through a browser, given as two functions; its fuel is the depth of the file system plus one.

  \<^bold>\<open>Inventory and scripts.\<close>
  \<^item> \<open>Inventory\<close>, \<open>InventoryLaws\<close>, \<open>InventoryLoad\<close>, \<open>InventoryTypes\<close>: \<open>manage_inventory.py\<close>, with the laws of
    reading and writing a host variable in the locale \<open>host_resource\<close> (interpreted on containers and on disks), the first
    inventory of a platform, and the types of the variables as an invariant of the reachable inventories (\<open>reachable_inventory\<close>,
    by rule induction).  The getters return the value a variable has; \<open>listed_containers\<close> and \<open>listed_disks\<close> are this value
    where the callers use it as a list or a dictionary, which it is in every reachable inventory.
  \<^item> \<open>StateScripts\<close>, \<open>NodeRescaler\<close>, \<open>DiskAtop\<close>, \<open>Watchers\<close>, \<open>SharedFs\<close>, \<open>PipPlugin\<close>, \<open>ConfigSync\<close>, \<open>SetupScripts\<close>: the
    scripts, services and plugins named above, each with the properties that make it correct.
  \<^item> \<open>PowerMeters\<close>: the handlers of SmartWatts and SelfWatts and the controller of the sensor, \<open>templates/power_budgeting\<close>,
    which replace files of PowerAPI.  What they take from it (power models, topology, the sensor) is a record of functions; nothing is
    assumed of them.  Lemmas: the window of ticks loses no report, what a tick reports, bounds of the state, the sensor runs the
    events of the controller.

  \<^bold>\<open>Termination and fuel.\<close>  Loops over data are structural recursion or have a measure.  Loops that poll the outside
  (\<open>pollM\<close>) are given fuel, and running out of it is the outcome \<open>StillRunning\<close>, which is different from every result: the
  theorems on invariants hold for all fuel, and the tasks that do not poll are proved to end.  The
  parser \<open>json_loads\<close> has as much fuel as its text is long plus one, which is proved to be enough.

  \<^bold>\<open>Idealisations.\<close>  Python's floats are rationals, so rounding happens only where the code rounds, and the texts
  of numbers are those of rationals that are decimal fractions.  The texts of exceptions are abbreviated; their classes are
  kept.  Strings are byte strings.  Sets that are iterated are lists in some order.  The variables of a host in the inventory are
  typed by a datatype that covers the values the code stores; a group has its mappings of hosts and of defaults or not, a null
  mapping, which the code never writes, is not distinguished.  The configuration is a record of the values that are read.  A
  form is data, without labels and styles.

  \<^bold>\<open>Not modelled.\<close>  Logging and printing, the rendering of pages, the settings of Django; the
  connections of the power meters to their databases; code that nothing calls (\<open>ui/old\<close>,
  \<open>scripts/state_database/deprecated\<close>), and the tests with their profiler and plots.
  The state database, Ansible, Celery, redis, the JsonLogic library and Apptainer are only seen through their answers.
\<close>

end
